(* ===== verification/Prelude.thy ===== *)
theory Prelude
  imports Main "HOL-Library.Word" "HOL-Library.Signed_Division" "HOL-Library.Monad_Syntax"
begin

text \<open>
  Shared vocabulary of the Open Fronthaul development: the byte types of the wire, the arithmetic
  reading of the bit operations that the serializers use, the lemmas on lists that the repositories
  and pools share, and the interface of a circular distance, which the program implements five
  times (slot points, slot symbol points, wire slots, sequence identifiers, reception windows).

  Conventions: \<open>unsigned\<close> values that cannot reach their width are natural numbers, \<open>uint8_t\<close> and
  \<open>uint16_t\<close> wire values are words.  The option type marks undefined behaviour: None is a read past
  the end of a buffer, an access out of an array, or a violated assertion.
\<close>

unbundle bit_operations_syntax

type_synonym byte = "8 word"
type_synonym u16 = "16 word"
type_synonym bytes = "byte list"

named_theorems bit_arith \<open>bit operations on natural numbers read as arithmetic\<close>
named_theorems wire \<open>length and content of serialized fields\<close>
named_theorems repo_simps \<open>lookup after update in the context repositories\<close>
named_theorems wf_intros \<open>preservation of well-formedness invariants\<close>

section \<open>Bit fields as arithmetic\<close>

lemma or_disjoint_nat:
  fixes a b :: nat
  assumes "b < 2 ^ n"
  shows "push_bit n a OR b = a * 2 ^ n + b"
proof -
  have "take_bit n b = b" using assms by (simp add: take_bit_nat_eq_self)
  then have "\<not> bit b i" if "n \<le> i" for i
    using that by (metis bit_take_bit_iff linorder_not_le)
  then have "push_bit n a AND b = 0"
    by (intro bit_eqI) (auto simp: bit_simps)
  then show ?thesis
    by (simp add: disjunctive_add_eq_or push_bit_nat_def)
qed

lemma push_bit_nat [bit_arith]: "push_bit n (a :: nat) = a * 2 ^ n"
  by (simp add: push_bit_nat_def)

lemma drop_bit_nat [bit_arith]: "drop_bit n (a :: nat) = a div 2 ^ n"
  by (simp add: drop_bit_nat_def)

lemma and_mask_nat: "(a :: nat) AND (2 ^ n - 1) = a mod 2 ^ n"
  by (simp add: take_bit_eq_mod [symmetric] take_bit_eq_mask mask_eq_exp_minus_1)

lemma and_ones_nat [bit_arith]:
  fixes a :: nat
  shows "a AND 1 = a mod 2" "a AND Suc 0 = a mod 2" "a AND 3 = a mod 4" "a AND 7 = a mod 8"
    "a AND 15 = a mod 16" "a AND 63 = a mod 64" "a AND 127 = a mod 128" "a AND 255 = a mod 256"
    "a AND 1023 = a mod 1024" "a AND 4095 = a mod 4096"
  using and_mask_nat [of a 1] and_mask_nat [of a 2] and_mask_nat [of a 3] and_mask_nat [of a 4]
    and_mask_nat [of a 6] and_mask_nat [of a 7] and_mask_nat [of a 8] and_mask_nat [of a 10]
    and_mask_nat [of a 12] by (simp_all add: one_and_eq and_one_eq mod_2_eq_odd)

lemma numeral_powers [bit_arith]:
  "(2::nat) ^ 2 = 4" "(2::nat) ^ 3 = 8" "(2::nat) ^ 4 = 16" "(2::nat) ^ 6 = 64" "(2::nat) ^ 7 = 128" "(2::nat) ^ 8 = 256"
  by simp_all

lemma unat_byte [bit_arith]: "unat (of_nat n :: byte) = n mod 256"
  by (simp add: unat_of_nat)

lemma unat_u16 [bit_arith]: "unat (of_nat n :: u16) = n mod 65536"
  by (simp add: unat_of_nat)

lemma unat_byte_field:
  assumes "b < 2 ^ n" "a * 2 ^ n + b < 256"
  shows "unat (of_nat (push_bit n a OR b) :: byte) = a * 2 ^ n + b"
  using assms by (simp only: or_disjoint_nat unat_byte mod_less)

lemma unat_byte_less [simp]: "unat (b :: byte) < 256"
  using unsigned_less [of b, where ?'a = nat] by simp

lemma unat_byte_le: "unat (b :: byte) \<le> 255"
  using unat_byte_less [of b] by linarith

lemma unat_u16_less [simp]: "unat (w :: u16) < 65536"
  using unsigned_less [of w, where ?'a = nat] by simp

lemma take_bit_word_less: "unat w < 2 ^ n \<Longrightarrow> take_bit n w = w"
  by (rule unsigned_word_eqI [where ?'a = nat]) (simp add: unsigned_take_bit_eq take_bit_nat_eq_self)

section \<open>Lists\<close>

text \<open>Writing \<open>bs\<close> at the front of an already allocated buffer.\<close>

definition overlay :: "'a list \<Rightarrow> 'a list \<Rightarrow> 'a list" where
  "overlay bs buf = bs @ drop (length bs) buf"

lemma length_overlay [simp]: "length bs \<le> length buf \<Longrightarrow> length (overlay bs buf) = length buf"
  by (simp add: overlay_def)

lemma drop_overlay [simp]: "drop (length bs) (overlay bs buf) = drop (length bs) buf"
  by (simp add: overlay_def)

lemma take_overlay [simp]: "take (length bs) (overlay bs buf) = bs"
  by (simp add: overlay_def)

section \<open>Circular distances\<close>

text \<open>
  The contract of a signed distance between two counters that run modulo \<open>period\<close>: the result is
  congruent to the difference and lies within half a period of zero.
\<close>

locale circular_distance =
  fixes period :: int and dist :: "int \<Rightarrow> int \<Rightarrow> int"
  assumes dist_cong: "\<lbrakk>0 \<le> a; a < period; 0 \<le> b; b < period\<rbrakk> \<Longrightarrow> period dvd (a - b - dist a b)"
    and dist_lower: "\<lbrakk>0 \<le> a; a < period; 0 \<le> b; b < period\<rbrakk> \<Longrightarrow> - period \<le> 2 * dist a b"
    and dist_upper: "\<lbrakk>0 \<le> a; a < period; 0 \<le> b; b < period\<rbrakk> \<Longrightarrow> 2 * dist a b \<le> period"
begin

lemma dist_unique:
  assumes ab: "0 \<le> a" "a < period" "0 \<le> b" "b < period"
    and k: "period dvd (a - b - k)" "2 * \<bar>k\<bar> < period"
  shows "dist a b = k"
proof -
  have "period dvd (a - b - k) - (a - b - dist a b)"
    using k(1) dist_cong [OF ab] by (rule dvd_diff)
  then have dvd: "period dvd dist a b - k" by simp
  have "\<bar>dist a b - k\<bar> < period"
    using dist_lower [OF ab] dist_upper [OF ab] k(2) by arith
  with dvd show ?thesis
    by (metis abs_of_nonneg ab(1,2) dvd_imp_le_int linorder_not_le order.trans order_less_imp_le
        right_minus_eq)
qed

lemma dist_self: "\<lbrakk>0 \<le> a; a < period\<rbrakk> \<Longrightarrow> dist a a = 0"
  by (rule dist_unique) auto

lemma dist_eq_0_iff:
  assumes "0 \<le> a" "a < period" "0 \<le> b" "b < period"
  shows "dist a b = 0 \<longleftrightarrow> a = b"
proof
  assume "dist a b = 0"
  with dist_cong [OF assms] have "period dvd a - b" by simp
  then show "a = b"
    using assms by (metis mod_eq_dvd_iff mod_pos_pos_trivial)
qed (use assms dist_self in simp)

lemma dist_advance:
  assumes "0 \<le> a" "a < period" "2 * \<bar>j\<bar> < period"
  shows "dist ((a + j) mod period) a = j"
proof (rule dist_unique)
  show "period dvd (a + j) mod period - a - j"
    by (metis (no_types, opaque_lifting) add_diff_cancel_left' diff_diff_eq dvd_minus_mod dvd_diff_commute)
qed (use assms in auto)

lemma dist_antisym:
  assumes ab: "0 \<le> a" "a < period" "0 \<le> b" "b < period" and "2 * \<bar>dist a b\<bar> < period"
  shows "dist b a = - dist a b"
proof (rule dist_unique)
  have "b - a - - dist a b = - (a - b - dist a b)" by simp
  then show "period dvd b - a - - dist a b"
    using dist_cong [OF ab] by (metis dvd_minus_iff)
qed (use assms in auto)

lemma dist_compose:
  assumes a: "0 \<le> a" "a < period" and b: "0 \<le> b" "b < period" and c: "0 \<le> c" "c < period"
    and small: "2 * \<bar>dist a b + dist b c\<bar> < period"
  shows "dist a c = dist a b + dist b c"
proof (rule dist_unique)
  have "a - c - (dist a b + dist b c) = (a - b - dist a b) + (b - c - dist b c)" by simp
  then show "period dvd a - c - (dist a b + dist b c)"
    using dist_cong [OF a b] dist_cong [OF b c] by (metis dvd_add)
qed (use a c small in auto)

end

lemma dvd_mod_diff: "(w :: int) dvd x mod w - (x - k) mod w - k"
proof -
  have "x mod w - (x - k) mod w - k = w * ((x - k) div w - x div w)"
    by (simp add: minus_mult_div_eq_mod [symmetric] algebra_simps)
  then show ?thesis by simp
qed

text \<open>The two ways in which the program folds a raw difference into the half-open period.\<close>

definition fold_half_open :: "int \<Rightarrow> int \<Rightarrow> int" where
  "fold_half_open n a = (if a \<ge> n div 2 then a - n else if a < - (n div 2) then a + n else a)"

definition fold_closed :: "int \<Rightarrow> int \<Rightarrow> int" where
  "fold_closed n a = (if a > n div 2 then a - n else if a < - (n div 2) then a + n else a)"

lemma fold_half_open_circular:
  assumes "even n"
  shows "circular_distance n (\<lambda>a b. fold_half_open n (a - b))"
  using assms by unfold_locales (auto simp: fold_half_open_def elim!: evenE)

lemma fold_closed_circular:
  assumes "even n"
  shows "circular_distance n (\<lambda>a b. fold_closed n (a - b))"
  using assms by unfold_locales (auto simp: fold_closed_def elim!: evenE)

end
