(* ===== verification/Slot_Point.thy ===== *)
theory Slot_Point
  imports Prelude
begin

text \<open>
  Time of the fronthaul: \<open>slot_point\<close> (include/ocudu/ran/slot_point.h) and \<open>slot_symbol_point\<close>
  (include/ocudu/ofh/timing/slot_symbol_point.h).  Both are counters modulo one hyper system frame
  (1024 SFNs) with comparisons and differences that account for the wrap-around.  The distances are
  shown to satisfy the circular distance contract of the prelude, for every numerology.
\<close>

section \<open>Slot points\<close>

record slot_point =
  numerology_val :: nat
  count_val :: nat

definition NOF_NUMEROLOGIES :: nat where "NOF_NUMEROLOGIES = 5"
definition NOF_SFNS :: nat where "NOF_SFNS = 1024"
definition NOF_SUBFRAMES_PER_FRAME :: nat where "NOF_SUBFRAMES_PER_FRAME = 10"

text \<open>Number of slots in a subframe, in a frame and in a hyper system frame of a numerology.\<close>

definition slots_per_subframe :: "nat \<Rightarrow> nat" where
  "slots_per_subframe \<mu> = push_bit \<mu> 1"

definition slots_per_frame :: "nat \<Rightarrow> nat" where
  "slots_per_frame \<mu> = slots_per_subframe \<mu> * NOF_SUBFRAMES_PER_FRAME"

definition slots_per_hyper :: "nat \<Rightarrow> nat" where
  "slots_per_hyper \<mu> = slots_per_frame \<mu> * NOF_SFNS"

definition nof_slots_per_subframe :: "slot_point \<Rightarrow> nat" where
  "nof_slots_per_subframe s = slots_per_subframe (numerology_val s)"

definition nof_slots_per_frame :: "slot_point \<Rightarrow> nat" where
  "nof_slots_per_frame s = slots_per_frame (numerology_val s)"

definition nof_slots_per_hyper_system_frame :: "slot_point \<Rightarrow> nat" where
  "nof_slots_per_hyper_system_frame s = slots_per_hyper (numerology_val s)"

text \<open>Constructors.  The assertions of the constructors are the predicates ending in \<open>_pre\<close>.\<close>

definition invalid_slot_point :: slot_point where
  "invalid_slot_point = \<lparr>numerology_val = NOF_NUMEROLOGIES, count_val = 0\<rparr>"

definition slot_point_count :: "nat \<Rightarrow> nat \<Rightarrow> slot_point" where
  "slot_point_count \<mu> cnt = \<lparr>numerology_val = \<mu>, count_val = cnt\<rparr>"

definition slot_point_count_pre :: "nat \<Rightarrow> nat \<Rightarrow> bool" where
  "slot_point_count_pre \<mu> cnt \<longleftrightarrow> \<mu> < NOF_NUMEROLOGIES \<and> cnt < slots_per_hyper \<mu>"

definition slot_point_sfn :: "nat \<Rightarrow> nat \<Rightarrow> nat \<Rightarrow> slot_point" where
  "slot_point_sfn \<mu> sfn_val slot_radio_frame_idx =
     \<lparr>numerology_val = \<mu>, count_val = slot_radio_frame_idx + sfn_val * slots_per_frame \<mu>\<rparr>"

definition slot_point_subframe :: "nat \<Rightarrow> nat \<Rightarrow> nat \<Rightarrow> nat \<Rightarrow> slot_point" where
  "slot_point_subframe \<mu> sfn_val subframe slot_subframe =
     \<lparr>numerology_val = \<mu>,
      count_val = slot_subframe + subframe * slots_per_subframe \<mu> + sfn_val * slots_per_frame \<mu>\<rparr>"

definition slot_point_subframe_pre :: "nat \<Rightarrow> nat \<Rightarrow> nat \<Rightarrow> nat \<Rightarrow> bool" where
  "slot_point_subframe_pre \<mu> sfn_val subframe slot_subframe \<longleftrightarrow>
     \<mu> < NOF_NUMEROLOGIES \<and> sfn_val < NOF_SFNS \<and> subframe < NOF_SUBFRAMES_PER_FRAME \<and>
     slot_subframe < slots_per_subframe \<mu>"

definition sp_valid :: "slot_point \<Rightarrow> bool" where
  "sp_valid s \<longleftrightarrow> numerology_val s < NOF_NUMEROLOGIES"

text \<open>Class invariant established by every constructor under its assertions.\<close>

definition sp_wf :: "slot_point \<Rightarrow> bool" where
  "sp_wf s \<longleftrightarrow> sp_valid s \<and> count_val s < nof_slots_per_hyper_system_frame s"

definition slot_index :: "slot_point \<Rightarrow> nat" where
  "slot_index s = count_val s mod nof_slots_per_frame s"

definition sfn :: "slot_point \<Rightarrow> nat" where
  "sfn s = (count_val s div nof_slots_per_frame s) mod NOF_SFNS"

definition subframe_index :: "slot_point \<Rightarrow> nat" where
  "subframe_index s = slot_index s div nof_slots_per_subframe s"

definition subframe_slot_index :: "slot_point \<Rightarrow> nat" where
  "subframe_slot_index s = count_val s mod nof_slots_per_subframe s"

definition nof_hrf_slots :: "slot_point \<Rightarrow> nat" where
  "nof_hrf_slots s = nof_slots_per_frame s div 2"

definition is_odd_hrf :: "slot_point \<Rightarrow> bool" where
  "is_odd_hrf s \<longleftrightarrow> subframe_index s \<ge> NOF_SUBFRAMES_PER_FRAME div 2"

definition hrf_slot_index :: "slot_point \<Rightarrow> nat" where
  "hrf_slot_index s = count_val s mod nof_hrf_slots s"

definition half_sfn :: "slot_point \<Rightarrow> nat" where
  "half_sfn s = (count_val s * 2 div nof_slots_per_frame s) mod (NOF_SFNS * 2)"

text \<open>Comparisons and differences, on the raw counters and on slot points.\<close>

definition circular_less :: "int \<Rightarrow> int \<Rightarrow> int \<Rightarrow> bool" where
  "circular_less n a b = (let v = b - a in if v > 0 then v < n div 2 else v < - (n div 2))"

definition sp_less :: "slot_point \<Rightarrow> slot_point \<Rightarrow> bool" where
  "sp_less s t =
     circular_less (int (nof_slots_per_hyper_system_frame s)) (int (count_val s)) (int (count_val t))"

definition sp_less_eq :: "slot_point \<Rightarrow> slot_point \<Rightarrow> bool" where
  "sp_less_eq s t \<longleftrightarrow> s = t \<or> sp_less s t"

definition sp_greater_eq :: "slot_point \<Rightarrow> slot_point \<Rightarrow> bool" where
  "sp_greater_eq s t \<longleftrightarrow> \<not> sp_less s t"

definition sp_greater :: "slot_point \<Rightarrow> slot_point \<Rightarrow> bool" where
  "sp_greater s t \<longleftrightarrow> s \<noteq> t \<and> sp_greater_eq s t"

definition sp_diff :: "slot_point \<Rightarrow> slot_point \<Rightarrow> int" where
  "sp_diff s t =
     fold_half_open (int (nof_slots_per_hyper_system_frame s)) (int (count_val s) - int (count_val t))"

definition sp_inc :: "slot_point \<Rightarrow> slot_point" where
  "sp_inc s =
     (let c = count_val s + 1
      in s\<lparr>count_val := if c = nof_slots_per_hyper_system_frame s then 0 else c\<rparr>)"

text \<open>
  The sum with a signed jump: C++ \<open>%\<close> truncates towards zero, which is \<open>smod\<close>, and the code adds
  one period to a negative remainder.
\<close>

definition wrap_add :: "int \<Rightarrow> int \<Rightarrow> int \<Rightarrow> int" where
  "wrap_add n a j = (let tmp = (a + j) smod n in tmp + (if tmp < 0 then n else 0))"

definition sp_plus :: "slot_point \<Rightarrow> int \<Rightarrow> slot_point" where
  "sp_plus s j =
     s\<lparr>count_val := nat (wrap_add (int (nof_slots_per_hyper_system_frame s)) (int (count_val s)) j)\<rparr>"

definition sp_minus :: "slot_point \<Rightarrow> int \<Rightarrow> slot_point" where
  "sp_minus s j = sp_plus s (- j)"

definition sp_is_in_interval :: "slot_point \<Rightarrow> slot_point \<Rightarrow> slot_point \<Rightarrow> bool" where
  "sp_is_in_interval s b e \<longleftrightarrow> sp_greater_eq s b \<and> sp_less s e"

definition sp_max :: "slot_point \<Rightarrow> slot_point \<Rightarrow> slot_point" where
  "sp_max s t = (if sp_greater s t then s else t)"

definition sp_min :: "slot_point \<Rightarrow> slot_point \<Rightarrow> slot_point" where
  "sp_min s t = (if sp_less s t then s else t)"

definition set_slot_numerology :: "slot_point \<Rightarrow> nat \<Rightarrow> slot_point" where
  "set_slot_numerology s \<mu> =
     (let old = numerology_val s
      in if old > \<mu> then slot_point_count \<mu> (drop_bit (old - \<mu>) (count_val s))
         else if old < \<mu> then slot_point_count \<mu> (push_bit (\<mu> - old) (count_val s))
         else s)"

section \<open>Slot symbol points\<close>

record slot_symbol_point =
  ssp_nof_symbols :: nat
  ssp_numerology :: nat
  ssp_count :: nat

definition slot_symbol_point_of :: "slot_point \<Rightarrow> nat \<Rightarrow> nat \<Rightarrow> slot_symbol_point" where
  "slot_symbol_point_of s symbol nof_symbols =
     \<lparr>ssp_nof_symbols = nof_symbols, ssp_numerology = numerology_val s,
      ssp_count = count_val s * nof_symbols + symbol\<rparr>"

definition ssp_is_valid :: "slot_symbol_point \<Rightarrow> bool" where
  "ssp_is_valid p \<longleftrightarrow> ssp_nof_symbols p \<noteq> 0 \<and> ssp_numerology p < NOF_NUMEROLOGIES"

definition get_slot :: "slot_symbol_point \<Rightarrow> slot_point" where
  "get_slot p =
     (if ssp_numerology p < NOF_NUMEROLOGIES
      then slot_point_count (ssp_numerology p) (ssp_count p div ssp_nof_symbols p)
      else invalid_slot_point)"

definition get_symbol_index :: "slot_symbol_point \<Rightarrow> nat" where
  "get_symbol_index p = ssp_count p mod ssp_nof_symbols p"

definition nof_symbols_per_slot_wrap :: "slot_symbol_point \<Rightarrow> int" where
  "nof_symbols_per_slot_wrap p =
     int (NOF_SFNS * NOF_SUBFRAMES_PER_FRAME * slots_per_subframe (ssp_numerology p) * ssp_nof_symbols p)"

definition ssp_plus :: "slot_symbol_point \<Rightarrow> int \<Rightarrow> slot_symbol_point" where
  "ssp_plus p j = p\<lparr>ssp_count := nat (wrap_add (nof_symbols_per_slot_wrap p) (int (ssp_count p)) j)\<rparr>"

definition ssp_minus :: "slot_symbol_point \<Rightarrow> int \<Rightarrow> slot_symbol_point" where
  "ssp_minus p j = ssp_plus p (- j)"

definition ssp_less :: "slot_symbol_point \<Rightarrow> slot_symbol_point \<Rightarrow> bool" where
  "ssp_less p q = circular_less (nof_symbols_per_slot_wrap p) (int (ssp_count p)) (int (ssp_count q))"

definition ssp_less_eq :: "slot_symbol_point \<Rightarrow> slot_symbol_point \<Rightarrow> bool" where
  "ssp_less_eq p q \<longleftrightarrow> p = q \<or> ssp_less p q"

definition ssp_greater_eq :: "slot_symbol_point \<Rightarrow> slot_symbol_point \<Rightarrow> bool" where
  "ssp_greater_eq p q \<longleftrightarrow> \<not> ssp_less p q"

definition ssp_greater :: "slot_symbol_point \<Rightarrow> slot_symbol_point \<Rightarrow> bool" where
  "ssp_greater p q \<longleftrightarrow> p \<noteq> q \<and> ssp_greater_eq p q"

definition ssp_diff :: "slot_symbol_point \<Rightarrow> slot_symbol_point \<Rightarrow> int" where
  "ssp_diff p q = fold_closed (nof_symbols_per_slot_wrap p) (int (ssp_count p) - int (ssp_count q))"

text \<open>Well-formed slot symbol points: the counter is inside the hyper system frame.\<close>

definition ssp_wf :: "slot_symbol_point \<Rightarrow> bool" where
  "ssp_wf p \<longleftrightarrow> ssp_is_valid p \<and> int (ssp_count p) < nof_symbols_per_slot_wrap p"

section \<open>Lemmas on slot points\<close>

lemma slots_per_subframe_pos [simp]: "0 < slots_per_subframe \<mu>"
  by (simp add: slots_per_subframe_def push_bit_nat)

lemma slots_per_frame_eq: "slots_per_frame \<mu> = 10 * slots_per_subframe \<mu>"
  by (simp add: slots_per_frame_def NOF_SUBFRAMES_PER_FRAME_def)

lemma slots_per_hyper_eq: "slots_per_hyper \<mu> = 10240 * slots_per_subframe \<mu>"
  by (simp add: slots_per_hyper_def slots_per_frame_eq NOF_SFNS_def)

lemma slots_per_frame_pos [simp]: "0 < slots_per_frame \<mu>"
  by (simp add: slots_per_frame_eq)

lemma slots_per_hyper_pos [simp]: "0 < slots_per_hyper \<mu>"
  by (simp add: slots_per_hyper_eq)

lemma even_slots_per_hyper [simp]: "even (slots_per_hyper \<mu>)"
  by (simp add: slots_per_hyper_eq)

lemma even_nof_symbols_wrap [simp]: "even (nof_symbols_per_slot_wrap p)"
  by (simp add: nof_symbols_per_slot_wrap_def NOF_SFNS_def)

lemma smod_fix_mod:
  fixes x n :: int
  assumes "0 < n"
  shows "x smod n + (if x smod n < 0 then n else 0) = x mod n"
proof (cases "0 \<le> x")
  case True
  moreover have "\<not> x mod n < 0" using assms by (simp add: not_less)
  ultimately show ?thesis using assms by (auto simp: smod_int_alt_def sgn_if)
next
  case False
  then have "x smod n = - ((- x) mod n)" using assms by (simp add: smod_int_alt_def sgn_if)
  moreover have "x mod n = (if (- x) mod n = 0 then 0 else n - (- x) mod n)"
    using zmod_zminus1_eq_if [of "- x" n] by simp
  ultimately show ?thesis using pos_mod_sign [OF assms, of "- x"] by auto
qed

lemma wrap_add_mod: "0 < n \<Longrightarrow> wrap_add n a j = (a + j) mod n"
  by (simp only: wrap_add_def Let_def smod_fix_mod)

interpretation sp_dist: circular_distance "int (slots_per_hyper \<mu>)"
  "\<lambda>a b. fold_half_open (int (slots_per_hyper \<mu>)) (a - b)" for \<mu>
  by (rule fold_half_open_circular) simp

interpretation ssp_dist: circular_distance "nof_symbols_per_slot_wrap p"
  "\<lambda>a b. fold_closed (nof_symbols_per_slot_wrap p) (a - b)" for p
  by (rule fold_closed_circular) simp

text \<open>Field extraction from a counter that was composed by a constructor.\<close>

lemma frame_fields:
  fixes spsf :: nat
  assumes "l < spsf" "f < 10" "n < 1024"
  shows "((l + f * spsf + n * (10 * spsf)) div (10 * spsf)) mod 1024 = n"
    and "(l + f * spsf + n * (10 * spsf)) mod (10 * spsf) = l + f * spsf"
    and "(l + f * spsf) div spsf = f" and "(l + f * spsf + n * (10 * spsf)) mod spsf = l"
proof -
  have "l + f * spsf < Suc f * spsf" using assms(1) by simp
  also have "\<dots> \<le> 10 * spsf" using assms(2) by (intro mult_le_mono1) simp
  finally have less: "l + f * spsf < 10 * spsf" .
  have pos: "0 < spsf" using assms(1) by simp
  show "((l + f * spsf + n * (10 * spsf)) div (10 * spsf)) mod 1024 = n"
    using less assms(3) pos by simp
  show "(l + f * spsf + n * (10 * spsf)) mod (10 * spsf) = l + f * spsf"
    using less by simp
  show "(l + f * spsf) div spsf = f" using assms(1) pos by simp
  have "(l + f * spsf + n * (10 * spsf)) mod spsf = (l + (f + 10 * n) * spsf) mod spsf"
    by (simp add: algebra_simps)
  also have "\<dots> = l" using assms(1) by simp
  finally show "(l + f * spsf + n * (10 * spsf)) mod spsf = l" .
qed

lemma slot_point_subframe_wf [wf_intros]:
  assumes "slot_point_subframe_pre \<mu> n f l"
  shows "sp_wf (slot_point_subframe \<mu> n f l)"
proof -
  let ?s = "slots_per_subframe \<mu>"
  have a: "l < ?s" "f \<le> 9" "n \<le> 1023"
    using assms by (auto simp: slot_point_subframe_pre_def NOF_SUBFRAMES_PER_FRAME_def NOF_SFNS_def)
  have "f * ?s \<le> 9 * ?s" "n * (10 * ?s) \<le> 1023 * (10 * ?s)"
    by (rule mult_le_mono1 [OF a(2)], rule mult_le_mono1 [OF a(3)])
  then have "l + f * ?s + n * (10 * ?s) < 10240 * ?s" using a(1) by linarith
  then show ?thesis
    using assms by (simp add: sp_wf_def sp_valid_def slot_point_subframe_def slot_point_subframe_pre_def
        nof_slots_per_hyper_system_frame_def slots_per_hyper_eq slots_per_frame_eq)
qed

lemma slot_point_subframe_fields [simp]:
  assumes "slot_point_subframe_pre \<mu> n f l"
  shows "sfn (slot_point_subframe \<mu> n f l) = n"
    and "subframe_index (slot_point_subframe \<mu> n f l) = f"
    and "subframe_slot_index (slot_point_subframe \<mu> n f l) = l"
    and "slot_index (slot_point_subframe \<mu> n f l) = l + f * slots_per_subframe \<mu>"
    and "numerology_val (slot_point_subframe \<mu> n f l) = \<mu>"
  using assms frame_fields [of l "slots_per_subframe \<mu>" f n]
  by (auto simp: slot_point_subframe_def slot_point_subframe_pre_def sfn_def subframe_index_def
      subframe_slot_index_def slot_index_def nof_slots_per_frame_def nof_slots_per_subframe_def
      slots_per_frame_eq NOF_SFNS_def NOF_SUBFRAMES_PER_FRAME_def)

lemma sp_wf_bounds:
  assumes "sp_wf s"
  shows "sfn s < 1024" "subframe_index s < 10" "subframe_slot_index s < slots_per_subframe (numerology_val s)"
    "slot_index s < slots_per_frame (numerology_val s)"
  by (simp_all add: sfn_def NOF_SFNS_def subframe_slot_index_def nof_slots_per_subframe_def
      slot_index_def nof_slots_per_frame_def subframe_index_def slots_per_frame_eq
      less_mult_imp_div_less)

text \<open>Every well-formed slot point is recomposed from its SFN, subframe and slot fields.\<close>

lemma sp_recompose:
  assumes "sp_wf s"
  shows "slot_point_subframe (numerology_val s) (sfn s) (subframe_index s) (subframe_slot_index s) = s"
proof -
  let ?p = "slots_per_subframe (numerology_val s)" and ?c = "count_val s"
  have "?c div (10 * ?p) < 1024"
    using assms by (simp add: sp_wf_def nof_slots_per_hyper_system_frame_def slots_per_hyper_eq
        less_mult_imp_div_less)
  moreover have "?c mod ?p + (?c mod (10 * ?p)) div ?p * ?p = ?c mod (10 * ?p)"
    using mod_div_mult_eq [of "?c mod (10 * ?p)" ?p] by (simp add: mod_mod_cancel add.commute)
  moreover have "?c mod (10 * ?p) + ?c div (10 * ?p) * (10 * ?p) = ?c" by (rule mod_div_mult_eq)
  ultimately show ?thesis
    by (simp add: slot_point_subframe_def sfn_def subframe_index_def subframe_slot_index_def
        slot_index_def nof_slots_per_frame_def nof_slots_per_subframe_def slots_per_frame_eq NOF_SFNS_def)
qed

lemma sp_plus_fields [simp]:
  "numerology_val (sp_plus s j) = numerology_val s"
  "int (count_val (sp_plus s j)) = (int (count_val s) + j) mod int (slots_per_hyper (numerology_val s))"
  by (simp_all add: sp_plus_def nof_slots_per_hyper_system_frame_def wrap_add_mod)

lemma count_sp_plus_less: "count_val (sp_plus s j) < slots_per_hyper (numerology_val s)"
  using sp_plus_fields(2) [of s j]
  by (metis of_nat_0_less_iff of_nat_less_iff pos_mod_bound slots_per_hyper_pos)

lemma sp_plus_wf [wf_intros]: "sp_wf s \<Longrightarrow> sp_wf (sp_plus s j)"
  by (simp add: sp_wf_def sp_valid_def nof_slots_per_hyper_system_frame_def count_sp_plus_less)

lemma sp_inc_eq_plus:
  assumes "sp_wf s"
  shows "sp_inc s = sp_plus s 1"
proof -
  let ?n = "slots_per_hyper (numerology_val s)"
  have "count_val s + 1 \<le> ?n"
    using assms by (simp add: sp_wf_def nof_slots_per_hyper_system_frame_def)
  then have "(count_val s + 1) mod ?n = (if count_val s + 1 = ?n then 0 else count_val s + 1)"
    by (auto simp: le_less)
  moreover have "int (count_val s) + 1 = int (count_val s + 1)" by simp
  ultimately have "(int (count_val s) + 1) mod int ?n = int (if count_val s + 1 = ?n then 0 else count_val s + 1)"
    by (simp only: zmod_int [symmetric])
  then show ?thesis
    by (simp add: sp_inc_def sp_plus_def Let_def nof_slots_per_hyper_system_frame_def wrap_add_mod)
qed

lemma sp_less_iff_diff_pos:
  assumes "sp_wf s" "sp_wf t" "numerology_val s = numerology_val t"
  shows "sp_less s t \<longleftrightarrow> 0 < sp_diff t s"
  using assms
  by (auto simp: sp_less_def circular_less_def sp_diff_def fold_half_open_def Let_def sp_wf_def
      nof_slots_per_hyper_system_frame_def)

lemma circular_less_iff_fold_closed:
  assumes "0 \<le> a" "a < n" "0 \<le> b" "b < n" "even n" "2 * \<bar>b - a\<bar> \<noteq> n"
  shows "circular_less n a b \<longleftrightarrow> 0 < fold_closed n (b - a)"
  using assms by (auto simp: circular_less_def fold_closed_def Let_def elim!: evenE)

lemma ssp_less_iff_diff_pos:
  assumes "ssp_wf p" "ssp_wf q" "ssp_numerology p = ssp_numerology q" "ssp_nof_symbols p = ssp_nof_symbols q"
    and "2 * \<bar>int (ssp_count q) - int (ssp_count p)\<bar> \<noteq> nof_symbols_per_slot_wrap p"
  shows "ssp_less p q \<longleftrightarrow> 0 < ssp_diff q p"
proof -
  have "nof_symbols_per_slot_wrap q = nof_symbols_per_slot_wrap p"
    using assms by (simp add: nof_symbols_per_slot_wrap_def)
  then show ?thesis
    using assms by (simp add: ssp_less_def ssp_diff_def circular_less_iff_fold_closed ssp_wf_def)
qed

lemma ssp_plus_count:
  assumes "0 < nof_symbols_per_slot_wrap p"
  shows "int (ssp_count (ssp_plus p j)) = (int (ssp_count p) + j) mod nof_symbols_per_slot_wrap p"
  using assms by (simp add: ssp_plus_def wrap_add_mod)

lemma ssp_count_of: "ssp_count (slot_symbol_point_of s l n) = count_val s * n + l"
  by (simp add: slot_symbol_point_of_def)

lemma get_slot_of [simp]:
  "symbol < nsym \<Longrightarrow> sp_valid s \<Longrightarrow> get_slot (slot_symbol_point_of s symbol nsym) = s"
  by (simp add: get_slot_def slot_symbol_point_of_def slot_point_count_def sp_valid_def)

lemma get_symbol_index_of [simp]:
  "symbol < nsym \<Longrightarrow> get_symbol_index (slot_symbol_point_of s symbol nsym) = symbol"
  by (simp add: get_symbol_index_def slot_symbol_point_of_def)

end
