(* ===== verification/Network_Order.thy ===== *)
theory Network_Order
  imports Prelude
begin

text \<open>
  The network-order serializer and deserializer (lib/ofh/support/network_order_binary_serializer.h,
  network_order_binary_deserializer.h).  A serializer writes consecutive bytes, so a sequence of
  writes is the concatenation of the byte lists of the single writes, laid over the buffer with
  \<open>overlay\<close>.  A deserializer is the list of the unconsumed bytes; the C++ reads do not check the
  remaining size, so a read that needs more bytes than are left is None.
\<close>

section \<open>Definitions\<close>

definition write_u8 :: "byte \<Rightarrow> bytes" where
  "write_u8 x = [x]"

definition write_u16 :: "u16 \<Rightarrow> bytes" where
  "write_u16 x = [ucast (drop_bit 8 x), ucast x]"

definition read_u8 :: "bytes \<Rightarrow> (byte \<times> bytes) option" where
  "read_u8 bs = (case bs of x # r \<Rightarrow> Some (x, r) | [] \<Rightarrow> None)"

definition read_u16 :: "bytes \<Rightarrow> (u16 \<times> bytes) option" where
  "read_u16 bs = (case bs of x # y # r \<Rightarrow> Some (push_bit 8 (ucast x) OR ucast y, r) | _ \<Rightarrow> None)"

definition read_span :: "nat \<Rightarrow> bytes \<Rightarrow> (bytes \<times> bytes) option" where
  "read_span n bs = (if n \<le> length bs then Some (take n bs, drop n bs) else None)"

definition advance :: "nat \<Rightarrow> bytes \<Rightarrow> (unit \<times> bytes) option" where
  "advance n bs = (if n \<le> length bs then Some ((), drop n bs) else None)"

section \<open>Lemmas\<close>

lemma length_write [wire, simp]: "length (write_u8 x) = 1" "length (write_u16 w) = 2"
  by (simp_all add: write_u8_def write_u16_def)

lemma write_nonempty [simp]: "write_u8 x \<noteq> []" "write_u16 w \<noteq> []"
  by (simp_all add: write_u8_def write_u16_def)

lemma read_u8_write [wire, simp]: "read_u8 (write_u8 x @ r) = Some (x, r)"
  by (simp add: read_u8_def write_u8_def)

lemma join_split_u16: "push_bit 8 (ucast (ucast (drop_bit 8 w) :: byte)) OR ucast (ucast w :: byte) = (w :: u16)"
proof (rule bit_word_eqI)
  fix n assume "n < LENGTH(16)"
  then show "bit (push_bit 8 (ucast (ucast (drop_bit 8 w) :: byte)) OR ucast (ucast w :: byte) :: u16) n = bit w n"
    by (cases "n < 8") (auto simp: bit_simps)
qed

lemma read_u16_write [wire, simp]: "read_u16 (write_u16 w @ r) = Some (w, r)"
  by (simp add: read_u16_def write_u16_def join_split_u16)

lemma read_span_append [wire, simp]: "length bs = n \<Longrightarrow> read_span n (bs @ r) = Some (bs, r)"
  by (auto simp: read_span_def)

lemma read_u8_len: "0 < length bs \<Longrightarrow> \<exists>x r. read_u8 bs = Some (x, r) \<and> length r = length bs - 1"
  by (cases bs) (auto simp: read_u8_def)

lemma read_u16_len: "2 \<le> length bs \<Longrightarrow> \<exists>x r. read_u16 bs = Some (x, r) \<and> r = drop 2 bs"
  by (cases bs; cases "tl bs") (auto simp: read_u16_def)

text \<open>
  Size checks discharge the reads: with enough bytes left a read succeeds and leaves the tail.
  These conditional equations carry the memory-safety proofs of the decoders.
\<close>

lemma read_u8_enough [wire]: "1 \<le> length bs \<Longrightarrow> read_u8 bs = Some (hd bs, drop 1 bs)"
  by (cases bs) (auto simp: read_u8_def)

lemma read_u16_enough [wire]:
  "2 \<le> length bs \<Longrightarrow> read_u16 bs = Some (push_bit 8 (ucast (bs ! 0)) OR ucast (bs ! 1), drop 2 bs)"
  by (cases bs; cases "tl bs") (auto simp: read_u16_def)

lemma read_span_enough [wire]: "n \<le> length bs \<Longrightarrow> read_span n bs = Some (take n bs, drop n bs)"
  by (simp add: read_span_def)

lemma advance_enough [wire]: "n \<le> length bs \<Longrightarrow> advance n bs = Some ((), drop n bs)"
  by (simp add: advance_def)

section \<open>Layers of the protocol stack\<close>

text \<open>
  A framing layer writes its header in front of a payload.  Its law: the decoder, given what the
  encoder wrote followed by any padding the medium appends, returns the header parameters and the
  payload, the latter with the padding that this layer cannot tell from payload (\<open>trail\<close> says which).
\<close>

locale frame_layer =
  fixes ok :: "'p \<Rightarrow> bytes \<Rightarrow> bool"
    and enc :: "'p \<Rightarrow> bytes \<Rightarrow> bytes"
    and dec :: "bytes \<Rightarrow> ('p \<times> bytes) option"
    and trail :: "bytes \<Rightarrow> bytes"
    and minlen :: nat
  assumes dec_enc: "ok p x \<Longrightarrow> length (enc p x @ pad) \<ge> minlen \<Longrightarrow> dec (enc p x @ pad) = Some (p, x @ trail pad)"
begin

lemma enc_inject:
  assumes "ok p x" "ok q y" "length (enc p x) \<ge> minlen" "enc p x = enc q y"
  shows "p = q \<and> x @ trail [] = y @ trail []"
proof -
  have "dec (enc p x @ []) = Some (p, x @ trail [])" using assms by (intro dec_enc) auto
  moreover have "dec (enc q y @ []) = Some (q, y @ trail [])" using assms by (intro dec_enc) auto
  ultimately show ?thesis using assms(4) by simp
qed

end

text \<open>A layer on top of another one: the inner layer sees the padding that the outer one leaves.\<close>

locale frame_stack =
  outer: frame_layer ok_o enc_o dec_o trail_o minlen_o +
  inner: frame_layer ok_i enc_i dec_i trail_i 0
  for ok_o :: "'p \<Rightarrow> bytes \<Rightarrow> bool" and enc_o dec_o trail_o minlen_o
    and ok_i :: "'q \<Rightarrow> bytes \<Rightarrow> bool" and enc_i dec_i trail_i
begin

definition stack_enc :: "'p \<times> 'q \<Rightarrow> bytes \<Rightarrow> bytes" where
  "stack_enc pq x = enc_o (fst pq) (enc_i (snd pq) x)"

definition stack_dec :: "bytes \<Rightarrow> (('p \<times> 'q) \<times> bytes) option" where
  "stack_dec bs = do { (p, y) \<leftarrow> dec_o bs; (q, x) \<leftarrow> dec_i y; Some ((p, q), x) }"

lemma stack_dec_enc:
  assumes "ok_o p (enc_i q x)" "ok_i q x" "length (enc_o p (enc_i q x) @ pad) \<ge> minlen_o"
  shows "stack_dec (stack_enc (p, q) x @ pad) = Some ((p, q), x @ trail_i (trail_o pad))"
  using assms by (simp add: stack_dec_def stack_enc_def outer.dec_enc inner.dec_enc)

end

end
