(* ===== verification/Ethernet_Frame.thy ===== *)
theory Ethernet_Frame
  imports Network_Order
begin

text \<open>
  Ethernet framing (lib/ofh/ethernet): the untagged and the VLAN frame builders and the frame
  decoder, which accepts both.  MAC addresses are byte lists of length 6.
\<close>

section \<open>Definitions\<close>

record vlan_parameters =
  tci_vid :: u16
  tci_pcp :: byte

record vlan_frame_params =
  mac_dst_address :: bytes
  mac_src_address :: bytes
  vlan_config :: "vlan_parameters option"
  eth_type :: u16

definition VLAN_TPID :: u16 where "VLAN_TPID = 0x8100"
definition ECPRI_ETH_TYPE :: u16 where "ECPRI_ETH_TYPE = 0xaefe"
definition ETH_HEADER_SIZE :: nat where "ETH_HEADER_SIZE = 6 * 2 + 2"
definition ETH_VLAN_TAG_SIZE :: nat where "ETH_VLAN_TAG_SIZE = 2 * 2"
definition MIN_ETH_LEN :: nat where "MIN_ETH_LEN = 64"

definition encode_tci :: "u16 \<Rightarrow> byte \<Rightarrow> u16" where
  "encode_tci vid pcp = vid OR push_bit 13 (ucast pcp)"

definition vlan_header :: "vlan_frame_params \<Rightarrow> vlan_parameters \<Rightarrow> bytes" where
  "vlan_header p v =
     mac_dst_address p @ mac_src_address p @ write_u16 VLAN_TPID @
     write_u16 (encode_tci (tci_vid v) (tci_pcp v)) @ write_u16 (eth_type p)"

definition vlan_build_frame :: "vlan_frame_params \<Rightarrow> bytes \<Rightarrow> bytes option" where
  "vlan_build_frame p buf =
     (case vlan_config p of None \<Rightarrow> None | Some v \<Rightarrow> Some (overlay (vlan_header p v) buf))"

definition eth_header :: "vlan_frame_params \<Rightarrow> bytes" where
  "eth_header p = mac_dst_address p @ mac_src_address p @ write_u16 (eth_type p)"

definition eth_build_frame :: "vlan_frame_params \<Rightarrow> bytes \<Rightarrow> bytes" where
  "eth_build_frame p buf = overlay (eth_header p) buf"

definition vlan_get_header_size :: nat where
  "vlan_get_header_size = ETH_HEADER_SIZE + ETH_VLAN_TAG_SIZE"

definition eth_get_header_size :: nat where
  "eth_get_header_size = ETH_HEADER_SIZE"

text \<open>
  The decoder.  The outer option is undefined behaviour (None: a read past the end); the inner pair
  holds the output parameters and the returned span, empty when the frame is dropped.
\<close>

definition eth_decode :: "vlan_frame_params \<Rightarrow> bytes \<Rightarrow> (vlan_frame_params \<times> bytes) option" where
  "eth_decode p0 frame =
     (if length frame < MIN_ETH_LEN then Some (p0, [])
      else do {
        (dst, r) \<leftarrow> read_span 6 frame;
        (src, r) \<leftarrow> read_span 6 r;
        (ty, r) \<leftarrow> read_u16 r;
        let p = \<lparr>mac_dst_address = dst, mac_src_address = src, vlan_config = None, eth_type = ty\<rparr>;
        if ty = VLAN_TPID then do {
          (tci, r) \<leftarrow> read_u16 r;
          (ty, r) \<leftarrow> read_u16 r;
          Some (p\<lparr>vlan_config := Some \<lparr>tci_vid = tci AND 0x0fff,
                                      tci_pcp = ucast (drop_bit 13 tci AND 0x07)\<rparr>,
                  eth_type := ty\<rparr>, r)
        } else Some (p, r)
      })"

section \<open>Lemmas\<close>

definition eth_params_wf :: "vlan_frame_params \<Rightarrow> bool" where
  "eth_params_wf p \<longleftrightarrow>
     length (mac_dst_address p) = 6 \<and> length (mac_src_address p) = 6 \<and>
     (case vlan_config p of
        None \<Rightarrow> eth_type p \<noteq> VLAN_TPID
      | Some v \<Rightarrow> tci_vid v < 0x1000 \<and> tci_pcp v < 8)"

text \<open>The frame built for given parameters: tagged exactly when a VLAN configuration is present.\<close>

definition eth_frame :: "vlan_frame_params \<Rightarrow> bytes \<Rightarrow> bytes" where
  "eth_frame p x =
     (case vlan_config p of
        None \<Rightarrow> eth_build_frame p (replicate eth_get_header_size 0 @ x)
      | Some v \<Rightarrow> the (vlan_build_frame p (replicate vlan_get_header_size 0 @ x)))"

lemma tci_vid_decode:
  assumes "vid < 0x1000"
  shows "encode_tci vid pcp AND 0x0fff = vid"
proof -
  have "take_bit 12 vid = vid" by (rule take_bit_word_less) (use assms in \<open>simp add: word_less_nat_alt\<close>)
  then have "take_bit 12 (encode_tci vid pcp) = vid"
    by (simp add: encode_tci_def take_bit_push_bit)
  then show ?thesis by (simp add: take_bit_eq_mask mask_numeral)
qed

lemma tci_pcp_decode:
  assumes "vid < 0x1000" "pcp < 8"
  shows "ucast (drop_bit 13 (encode_tci vid pcp) AND 0x07) = pcp"
proof -
  have vid: "take_bit 12 vid = vid" by (rule take_bit_word_less) (use assms in \<open>simp add: word_less_nat_alt\<close>)
  have pcp: "take_bit 3 pcp = pcp" by (rule take_bit_word_less) (use assms in \<open>simp add: word_less_nat_alt\<close>)
  have v: "\<not> bit vid i" if "12 \<le> i" for i using vid that by (metis bit_take_bit_iff linorder_not_le)
  have q: "\<not> bit pcp i" if "3 \<le> i" for i using pcp that by (metis bit_take_bit_iff linorder_not_le)
  have "ucast (take_bit 3 (drop_bit 13 (encode_tci vid pcp))) = pcp"
  proof (rule bit_word_eqI)
    fix n assume "n < LENGTH(8)"
    then show "bit (ucast (take_bit 3 (drop_bit 13 (encode_tci vid pcp))) :: byte) n = bit pcp n"
      using v [of "13 + n"] q [of n] by (cases "n < 3") (auto simp: bit_simps encode_tci_def)
  qed
  then show ?thesis by (simp add: take_bit_eq_mask mask_numeral)
qed

lemma length_vlan_header [wire]:
  "eth_params_wf p \<Longrightarrow> length (vlan_header p v) = vlan_get_header_size"
  by (simp add: vlan_header_def eth_params_wf_def vlan_get_header_size_def ETH_HEADER_SIZE_def
      ETH_VLAN_TAG_SIZE_def)

lemma length_eth_header [wire]: "eth_params_wf p \<Longrightarrow> length (eth_header p) = eth_get_header_size"
  by (simp add: eth_header_def eth_params_wf_def eth_get_header_size_def ETH_HEADER_SIZE_def)

lemma eth_frame_eq:
  assumes "eth_params_wf p"
  shows "eth_frame p x = (case vlan_config p of None \<Rightarrow> eth_header p | Some v \<Rightarrow> vlan_header p v) @ x"
  using assms by (auto simp: eth_frame_def eth_build_frame_def vlan_build_frame_def overlay_def
      length_vlan_header length_eth_header split: option.split)

lemma eth_decode_frame:
  assumes "eth_params_wf p" "length (eth_frame p x @ pad) \<ge> MIN_ETH_LEN"
  shows "eth_decode p0 (eth_frame p x @ pad) = Some (p, x @ pad)"
proof (cases "vlan_config p")
  case None
  then show ?thesis using assms
    by (simp add: eth_decode_def eth_frame_eq eth_header_def eth_params_wf_def Let_def)
next
  case (Some v)
  then show ?thesis using assms
    by (simp add: eth_decode_def eth_frame_eq vlan_header_def eth_params_wf_def Let_def
        tci_vid_decode tci_pcp_decode)
qed

text \<open>The size check of the decoder covers every read: the decoder has no undefined behaviour.\<close>

lemma eth_decode_safe: "\<exists>p r. eth_decode p0 frame = Some (p, r) \<and> length r \<le> length frame"
  by (simp add: eth_decode_def MIN_ETH_LEN_def wire Let_def)

interpretation eth: frame_layer "\<lambda>p x. eth_params_wf p" eth_frame "eth_decode p0" "\<lambda>pad. pad" MIN_ETH_LEN
  for p0
  by unfold_locales (rule eth_decode_frame)

end
