(* ===== verification/Ecpri.thy ===== *)
theory Ecpri
  imports Network_Order
begin

text \<open>
  eCPRI transport (lib/ofh/ecpri): the packet builder, which writes its header in front of a payload
  that is already in the buffer, and the two packet decoders, one that trusts the payload size of
  the header and one that ignores it.
\<close>

section \<open>Definitions\<close>

definition ECPRI_PROTOCOL_REVISION :: nat where "ECPRI_PROTOCOL_REVISION = 1"
definition ECPRI_COMMON_HEADER_SIZE :: nat where "ECPRI_COMMON_HEADER_SIZE = 4"
definition ECPRI_IQ_DATA_PACKET_FIELDS_SIZE :: nat where "ECPRI_IQ_DATA_PACKET_FIELDS_SIZE = 4"
definition ECPRI_REALTIME_CONTROL_PACKET_FIELDS_SIZE :: nat where
  "ECPRI_REALTIME_CONTROL_PACKET_FIELDS_SIZE = 4"

text \<open>The C++ enumeration is read from the wire with a cast, so any byte value can occur.\<close>

type_synonym message_type = byte

definition iq_data :: message_type where "iq_data = 0x00"
definition rt_control_data :: message_type where "rt_control_data = 0x02"

record common_header =
  revision :: nat
  is_last_packet :: bool
  msg_type :: message_type
  payload_size :: nat

datatype type_params =
    iq_data_parameters (pc_id: u16) (iq_seq_id: u16)
  | realtime_control_parameters (rtc_id: u16) (rt_seq_id: u16)

record packet_parameters =
  header :: common_header
  type_params :: type_params

definition ecpri_get_header_size :: "message_type \<Rightarrow> nat" where
  "ecpri_get_header_size t =
     (if t = rt_control_data then ECPRI_COMMON_HEADER_SIZE + ECPRI_REALTIME_CONTROL_PACKET_FIELDS_SIZE
      else if t = iq_data then ECPRI_COMMON_HEADER_SIZE + ECPRI_IQ_DATA_PACKET_FIELDS_SIZE
      else ECPRI_COMMON_HEADER_SIZE)"

definition get_first_byte_in_common_header :: "bool \<Rightarrow> byte" where
  "get_first_byte_in_common_header concat_flag =
     of_nat (push_bit 4 ECPRI_PROTOCOL_REVISION OR (if concat_flag then 1 else 0))"

definition ecpri_header :: "message_type \<Rightarrow> nat \<Rightarrow> u16 \<Rightarrow> u16 \<Rightarrow> bytes" where
  "ecpri_header t sz ident seq =
     write_u8 (get_first_byte_in_common_header False) @ write_u8 t @ write_u16 (of_nat sz) @
     write_u16 ident @ write_u16 seq"

definition build_control_packet :: "bytes \<Rightarrow> u16 \<Rightarrow> u16 \<Rightarrow> bytes" where
  "build_control_packet buf rtc seq =
     overlay (ecpri_header rt_control_data (length buf - ECPRI_COMMON_HEADER_SIZE) rtc seq) buf"

definition build_data_packet :: "bytes \<Rightarrow> u16 \<Rightarrow> u16 \<Rightarrow> bytes" where
  "build_data_packet buf pc seq =
     overlay (ecpri_header iq_data (length buf - ECPRI_COMMON_HEADER_SIZE) pc seq) buf"

definition deserialize_header :: "bytes \<Rightarrow> (common_header \<times> bytes) option" where
  "deserialize_header bs = do {
     (v, r) \<leftarrow> read_u8 bs;
     (t, r) \<leftarrow> read_u8 r;
     (len, r) \<leftarrow> read_u16 r;
     Some (\<lparr>revision = unat (drop_bit 4 v), is_last_packet = (v AND 1 = 0), msg_type = t,
            payload_size = unat len\<rparr>, r)
   }"

definition is_header_valid :: "common_header \<Rightarrow> bool" where
  "is_header_valid h \<longleftrightarrow> revision h = ECPRI_PROTOCOL_REVISION \<and> is_last_packet h"

definition deserialize_iq_data_parameters :: "bytes \<Rightarrow> (type_params \<times> bytes) option" where
  "deserialize_iq_data_parameters bs = do {
     (pc, r) \<leftarrow> read_u16 bs; (sq, r) \<leftarrow> read_u16 r; Some (iq_data_parameters pc sq, r) }"

definition deserialize_rt_control_parameters :: "bytes \<Rightarrow> (type_params \<times> bytes) option" where
  "deserialize_rt_control_parameters bs = do {
     (rtc, r) \<leftarrow> read_u16 bs; (sq, r) \<leftarrow> read_u16 r; Some (realtime_control_parameters rtc sq, r) }"

text \<open>
  Every decoding function takes the output parameters and returns them updated, with the span it
  returns (empty when the packet is dropped); None is a read past the end.
\<close>

definition decode_header :: "packet_parameters \<Rightarrow> bytes \<Rightarrow> (packet_parameters \<times> bytes) option" where
  "decode_header p packet =
     (if length packet < ECPRI_COMMON_HEADER_SIZE then Some (p, [])
      else do {
        (h, r) \<leftarrow> deserialize_header packet;
        Some (p\<lparr>header := h\<rparr>, if is_header_valid h then r else [])
      })"

definition decode_payload_use_size :: "packet_parameters \<Rightarrow> bytes \<Rightarrow> (packet_parameters \<times> bytes) option" where
  "decode_payload_use_size p packet =
     (let sz = payload_size (header p); t = msg_type (header p)
      in if sz > length packet then Some (p, [])
         else if sz < ECPRI_IQ_DATA_PACKET_FIELDS_SIZE then Some (p, [])
         else if t = iq_data then do {
           (tp, r) \<leftarrow> deserialize_iq_data_parameters packet;
           (pl, _) \<leftarrow> read_span (sz - ECPRI_IQ_DATA_PACKET_FIELDS_SIZE) r;
           Some (p\<lparr>type_params := tp\<rparr>, pl) }
         else if t = rt_control_data then do {
           (tp, r) \<leftarrow> deserialize_rt_control_parameters packet;
           (pl, _) \<leftarrow> read_span (sz - ECPRI_REALTIME_CONTROL_PACKET_FIELDS_SIZE) r;
           Some (p\<lparr>type_params := tp\<rparr>, pl) }
         else Some (p, []))"

definition decode_payload_ignore_size :: "packet_parameters \<Rightarrow> bytes \<Rightarrow> (packet_parameters \<times> bytes) option" where
  "decode_payload_ignore_size p packet =
     (let t = msg_type (header p)
      in if length packet < ECPRI_IQ_DATA_PACKET_FIELDS_SIZE then Some (p, [])
         else if t = iq_data then do {
           (tp, r) \<leftarrow> deserialize_iq_data_parameters packet; Some (p\<lparr>type_params := tp\<rparr>, r) }
         else if t = rt_control_data then do {
           (tp, r) \<leftarrow> deserialize_rt_control_parameters packet; Some (p\<lparr>type_params := tp\<rparr>, r) }
         else Some (p, []))"

definition ecpri_decode ::
  "(packet_parameters \<Rightarrow> bytes \<Rightarrow> (packet_parameters \<times> bytes) option) \<Rightarrow>
   packet_parameters \<Rightarrow> bytes \<Rightarrow> (packet_parameters \<times> bytes) option" where
  "ecpri_decode decode_payload p packet = do {
     (p, payload) \<leftarrow> decode_header p packet;
     if payload = [] then Some (p, []) else decode_payload p payload }"

section \<open>Lemmas\<close>

text \<open>The packet that the builder produces for a payload, and the parameters it stands for.\<close>

definition ecpri_packet :: "type_params \<Rightarrow> bytes \<Rightarrow> bytes" where
  "ecpri_packet tp x =
     (case tp of
        iq_data_parameters pc sq \<Rightarrow> build_data_packet (replicate (ecpri_get_header_size iq_data) 0 @ x) pc sq
      | realtime_control_parameters rtc sq \<Rightarrow>
          build_control_packet (replicate (ecpri_get_header_size rt_control_data) 0 @ x) rtc sq)"

definition type_of_params :: "type_params \<Rightarrow> message_type" where
  "type_of_params tp =
     (case tp of iq_data_parameters _ _ \<Rightarrow> iq_data | realtime_control_parameters _ _ \<Rightarrow> rt_control_data)"

definition ident_of_params :: "type_params \<Rightarrow> u16" where
  "ident_of_params tp =
     (case tp of iq_data_parameters pc _ \<Rightarrow> pc | realtime_control_parameters rtc _ \<Rightarrow> rtc)"

definition seq_of_params :: "type_params \<Rightarrow> u16" where
  "seq_of_params tp =
     (case tp of iq_data_parameters _ sq \<Rightarrow> sq | realtime_control_parameters _ sq \<Rightarrow> sq)"

lemmas ecpri_sizes = ECPRI_COMMON_HEADER_SIZE_def ECPRI_IQ_DATA_PACKET_FIELDS_SIZE_def
  ECPRI_REALTIME_CONTROL_PACKET_FIELDS_SIZE_def ecpri_get_header_size_def iq_data_def rt_control_data_def

lemma length_ecpri_header [wire, simp]: "length (ecpri_header t sz ident sq) = 8"
  by (simp add: ecpri_header_def)

lemma ecpri_packet_eq:
  "ecpri_packet tp x = ecpri_header (type_of_params tp) (length x + 4) (ident_of_params tp) (seq_of_params tp) @ x"
  by (cases tp) (simp_all add: ecpri_packet_def build_data_packet_def build_control_packet_def overlay_def
      type_of_params_def ident_of_params_def seq_of_params_def ecpri_sizes add.commute)

lemma first_byte [simp]: "get_first_byte_in_common_header False = 0x10"
  by (simp add: get_first_byte_in_common_header_def ECPRI_PROTOCOL_REVISION_def)

lemma deserialize_ecpri_header [wire]:
  "deserialize_header (ecpri_header t sz ident sq @ r) =
     Some (\<lparr>revision = 1, is_last_packet = True, msg_type = t, payload_size = sz mod 65536\<rparr>,
           write_u16 ident @ write_u16 sq @ r)"
  by (simp add: deserialize_header_def ecpri_header_def unat_u16)

lemma ecpri_decode_packet:
  assumes "length x + 4 < 65536"
  shows "ecpri_decode decode_payload_use_size p0 (ecpri_packet tp x @ pad) =
     Some (\<lparr>header = \<lparr>revision = 1, is_last_packet = True, msg_type = type_of_params tp,
                      payload_size = length x + 4\<rparr>,
            type_params = tp\<rparr>, x)"
  using assms
  by (cases tp; cases p0)
    (simp_all add: ecpri_decode_def decode_header_def ecpri_packet_eq deserialize_ecpri_header
      is_header_valid_def ECPRI_PROTOCOL_REVISION_def decode_payload_use_size_def Let_def
      deserialize_iq_data_parameters_def deserialize_rt_control_parameters_def
      type_of_params_def ident_of_params_def seq_of_params_def ecpri_sizes)

lemma deserialize_header_enough:
  "4 \<le> length bs \<Longrightarrow> \<exists>h. deserialize_header bs = Some (h, drop 4 bs)"
  by (simp add: deserialize_header_def wire)

lemma decode_payload_use_size_safe:
  "\<exists>q r. decode_payload_use_size p bs = Some (q, r) \<and> length r \<le> length bs - 4"
  by (auto simp: decode_payload_use_size_def Let_def wire deserialize_iq_data_parameters_def
      deserialize_rt_control_parameters_def ecpri_sizes not_less)

lemma decode_payload_ignore_size_safe:
  "\<exists>q r. decode_payload_ignore_size p bs = Some (q, r) \<and> length r \<le> length bs - 4"
  by (auto simp: decode_payload_ignore_size_def Let_def wire deserialize_iq_data_parameters_def
      deserialize_rt_control_parameters_def ecpri_sizes not_less)

text \<open>
  Whatever the bytes are, both decoders stay inside the packet and the payload they return is at
  least the eight header bytes shorter than the packet.
\<close>

lemma ecpri_decode_safe:
  assumes "dp = decode_payload_use_size \<or> dp = decode_payload_ignore_size"
  shows "\<exists>q r. ecpri_decode dp p bs = Some (q, r) \<and> length r \<le> length bs - 8"
proof (cases "length bs < ECPRI_COMMON_HEADER_SIZE")
  case True
  then show ?thesis by (simp add: ecpri_decode_def decode_header_def)
next
  case False
  then obtain h where "deserialize_header bs = Some (h, drop 4 bs)"
    using deserialize_header_enough [of bs] by (auto simp: ecpri_sizes)
  then have eq: "decode_header p bs = Some (p\<lparr>header := h\<rparr>, if is_header_valid h then drop 4 bs else [])"
    using False by (simp add: decode_header_def)
  show ?thesis
    using assms decode_payload_use_size_safe [of "p\<lparr>header := h\<rparr>" "drop 4 bs"]
      decode_payload_ignore_size_safe [of "p\<lparr>header := h\<rparr>" "drop 4 bs"]
    by (auto simp: ecpri_decode_def eq)
qed

interpretation ecpri: frame_layer "\<lambda>p x. length x + 4 < 65536 \<and>
    header p = \<lparr>revision = 1, is_last_packet = True, msg_type = type_of_params (type_params p),
                payload_size = length x + 4\<rparr>"
  "\<lambda>p. ecpri_packet (type_params p)" "ecpri_decode decode_payload_use_size p0" "\<lambda>pad. []" 0
  for p0
  by unfold_locales (auto simp: ecpri_decode_packet)

end
