(* ===== verification/Message_Properties.thy ===== *)
theory Message_Properties
  imports Slot_Point Network_Order
begin

text \<open>
  Properties shared by Control-Plane and User-Plane messages: data direction, filter index,
  compression parameters (include/ocudu/ofh/serdes/ofh_message_properties.h,
  include/ocudu/ofh/compression/compression_params.h and compression_properties.h).
\<close>

section \<open>Definitions\<close>

datatype data_direction = uplink | downlink

definition direction_value :: "data_direction \<Rightarrow> nat" where
  "direction_value d = (case d of uplink \<Rightarrow> 0 | downlink \<Rightarrow> 1)"

text \<open>The cast of a single bit to the direction enumeration.\<close>

definition to_data_direction :: "nat \<Rightarrow> data_direction" where
  "to_data_direction v = (if v = 0 then uplink else downlink)"

datatype filter_index_type =
    standard_channel_filter
  | ul_prach_preamble_1p25khz
  | ul_prach_preamble_5kHz
  | ul_prach_preamble_short
  | ul_prach_preamble_short_15kHz
  | ul_prach_preamble_short_30kHz
  | ul_nprach_preamble
  | ul_prach_preamble_7p5kHz
  | filter_reserved

fun filter_value :: "filter_index_type \<Rightarrow> nat" where
  "filter_value standard_channel_filter = 0"
| "filter_value ul_prach_preamble_1p25khz = 1"
| "filter_value ul_prach_preamble_5kHz = 2"
| "filter_value ul_prach_preamble_short = 3"
| "filter_value ul_prach_preamble_short_15kHz = 6"
| "filter_value ul_prach_preamble_short_30kHz = 7"
| "filter_value ul_nprach_preamble = 4"
| "filter_value ul_prach_preamble_7p5kHz = 5"
| "filter_value filter_reserved = 8"

text \<open>Enumerators of the filter index compare by their value.\<close>

instantiation filter_index_type :: linorder
begin

definition less_eq_filter_index_type :: "filter_index_type \<Rightarrow> filter_index_type \<Rightarrow> bool" where
  "less_eq_filter_index_type f g \<longleftrightarrow> filter_value f \<le> filter_value g"

definition less_filter_index_type :: "filter_index_type \<Rightarrow> filter_index_type \<Rightarrow> bool" where
  "less_filter_index_type f g \<longleftrightarrow> filter_value f < filter_value g"

instance
proof
  fix f g :: filter_index_type
  assume "f \<le> g" "g \<le> f"
  then show "f = g" by (cases f; cases g) (simp_all add: less_eq_filter_index_type_def)
qed (auto simp: less_eq_filter_index_type_def less_filter_index_type_def)

end

definition to_filter_index_type :: "nat \<Rightarrow> filter_index_type" where
  "to_filter_index_type index =
     (if index = 0 then standard_channel_filter
      else if index = 1 then ul_prach_preamble_1p25khz
      else if index = 2 then ul_prach_preamble_5kHz
      else if index = 3 then ul_prach_preamble_short
      else if index = 4 then ul_nprach_preamble
      else if index = 5 then ul_prach_preamble_7p5kHz
      else if index = 6 then ul_prach_preamble_short_15kHz
      else if index = 7 then ul_prach_preamble_short_30kHz
      else filter_reserved)"

definition is_a_prach_message :: "filter_index_type \<Rightarrow> bool" where
  "is_a_prach_message f \<longleftrightarrow> ul_prach_preamble_1p25khz \<le> f \<and> f \<le> ul_prach_preamble_short_30kHz"

datatype compression_type =
    compr_none | BFP | block_scaling | mu_law | modulation | bfp_selective | mod_selective | compr_reserved

fun compression_value :: "compression_type \<Rightarrow> nat" where
  "compression_value compr_none = 0"
| "compression_value BFP = 1"
| "compression_value block_scaling = 2"
| "compression_value mu_law = 3"
| "compression_value modulation = 4"
| "compression_value bfp_selective = 5"
| "compression_value mod_selective = 6"
| "compression_value compr_reserved = 7"

definition to_compression_type :: "nat \<Rightarrow> compression_type" where
  "to_compression_type v =
     (if v < compression_value compr_reserved
      then [compr_none, BFP, block_scaling, mu_law, modulation, bfp_selective, mod_selective] ! v
      else compr_reserved)"

definition MAX_IQ_WIDTH :: nat where "MAX_IQ_WIDTH = 16"

record ru_compression_params =
  compr_type :: compression_type
  data_width :: nat

definition OFH_PAYLOAD_VERSION :: nat where "OFH_PAYLOAD_VERSION = 1"

section \<open>Lemmas\<close>

lemma filter_value_le: "filter_value f \<le> 8"
  by (cases f) simp_all

lemma to_filter_index_value [simp]: "to_filter_index_type (filter_value f) = f"
  by (cases f) (simp_all add: to_filter_index_type_def)

lemma to_compression_type_value [simp]: "to_compression_type (compression_value c) = c"
  by (cases c) (simp_all add: to_compression_type_def)

lemma compression_value_le: "compression_value c \<le> 7"
  by (cases c) simp_all

lemma to_data_direction_value [simp]: "to_data_direction (direction_value d) = d"
  by (cases d) (simp_all add: to_data_direction_def direction_value_def)

lemma direction_value_le: "direction_value d \<le> 1"
  by (cases d) (simp_all add: direction_value_def)

lemma is_a_prach_message_iff:
  "is_a_prach_message f \<longleftrightarrow> f \<noteq> standard_channel_filter \<and> f \<noteq> filter_reserved"
  by (cases f) (simp_all add: is_a_prach_message_def less_eq_filter_index_type_def)

end
