(* ===== verification/Cplane_Message.thy ===== *)
theory Cplane_Message
  imports Message_Properties
begin

text \<open>
  Control-Plane messages (lib/ofh/serdes/ofh_cplane_message_builder_impl.cpp, its static and dynamic
  compression variants, and ofh_cplane_message_decoder_impl.cpp).  The O-DU builds section type 0, 1
  and 3 messages, the O-RU decodes them.  A builder returns the bytes it serializes; their number is
  the offset that the C++ builder returns.  The decoder results are threaded through the decoding
  functions as in the source; None is a read past the end of the message.
\<close>

section \<open>Message parameters\<close>

type_synonym cplane_scs = nat
type_synonym cplane_fft_size = nat

definition cplane_kHz15 :: cplane_scs where "cplane_kHz15 = 0"
definition cplane_kHz30 :: cplane_scs where "cplane_kHz30 = 1"
definition cplane_kHz60 :: cplane_scs where "cplane_kHz60 = 2"
definition cplane_kHz120 :: cplane_scs where "cplane_kHz120 = 3"
definition cplane_kHz1_25 :: cplane_scs where "cplane_kHz1_25 = 0x0c"
definition cplane_kHz5 :: cplane_scs where "cplane_kHz5 = 0x0e"
definition cplane_scs_reserved :: cplane_scs where "cplane_scs_reserved = 0x0f"
definition fft_noop :: cplane_fft_size where "fft_noop = 0"

record cplane_common_section =
  section_id :: nat
  prb_start :: nat
  nof_prb :: nat
  re_mask :: nat
  nof_symbols :: nat

record cplane_radio_application_header =
  direction :: data_direction
  filter_index :: filter_index_type
  start_symbol :: nat
  slot :: slot_point

record cplane_section_type1_parameters =
  t1_radio_hdr :: cplane_radio_application_header
  t1_section :: cplane_common_section
  t1_compr :: ru_compression_params

record cplane_section_type0_parameters =
  t0_radio_hdr :: cplane_radio_application_header
  t0_section :: cplane_common_section
  t0_numerology :: nat
  t0_time_offset :: u16

record cplane_section_type3_parameters =
  t3_radio_hdr :: cplane_radio_application_header
  t3_section :: cplane_common_section
  t3_frequency_offset :: int
  t3_compr :: ru_compression_params
  t3_scs :: cplane_scs
  t3_fft_size :: cplane_fft_size
  t3_cpLength :: nat
  t3_time_offset :: u16

section \<open>Builder\<close>

definition encode_frame_structure :: "cplane_scs \<Rightarrow> cplane_fft_size \<Rightarrow> byte" where
  "encode_frame_structure scs fft = of_nat (push_bit 4 fft OR scs)"

definition encode_data_direction :: "cplane_radio_application_header \<Rightarrow> byte" where
  "encode_data_direction h =
     of_nat (push_bit 7 (direction_value (direction h)) OR push_bit 4 (OFH_PAYLOAD_VERSION AND 7) OR
             filter_value (filter_index h))"

definition encode_subframe_and_slot :: "slot_point \<Rightarrow> byte" where
  "encode_subframe_and_slot s =
     of_nat (push_bit 4 (subframe_index s AND 15) OR (drop_bit 2 (subframe_slot_index s) AND 15))"

definition encode_slot_and_start_symbol :: "slot_point \<Rightarrow> nat \<Rightarrow> byte" where
  "encode_slot_and_start_symbol s symbol =
     of_nat (push_bit 6 (subframe_slot_index s AND 3) OR (symbol AND 63))"

text \<open>Resource block and symbol increment indicators are the zero enumerators \<open>every_rb_used\<close> and
  \<open>current_symbol_number\<close>.\<close>

definition encode_sect_id_rb_symbols :: "cplane_common_section \<Rightarrow> byte" where
  "encode_sect_id_rb_symbols sec =
     of_nat (push_bit 4 (section_id sec AND 15) OR push_bit 3 0 OR push_bit 2 0 OR
             (drop_bit 8 (prb_start sec) AND 3))"

definition encode_re_mask_and_nof_symbols :: "cplane_common_section \<Rightarrow> byte" where
  "encode_re_mask_and_nof_symbols sec =
     of_nat (push_bit 4 (re_mask sec AND 15) OR (nof_symbols sec AND 15))"

definition serialize_section_0_1_3_5_fields :: "cplane_common_section \<Rightarrow> bytes" where
  "serialize_section_0_1_3_5_fields sec =
     write_u8 (of_nat (drop_bit 4 (section_id sec))) @
     write_u8 (encode_sect_id_rb_symbols sec) @
     write_u8 (of_nat (prb_start sec)) @
     write_u8 (of_nat (if nof_prb sec > 255 then 0 else nof_prb sec)) @
     write_u8 (of_nat (drop_bit 4 (re_mask sec))) @
     write_u8 (encode_re_mask_and_nof_symbols sec)"

text \<open>The compression header is written by a virtual function of the builder, here a parameter.\<close>

type_synonym compression_header_serializer = "ru_compression_params \<Rightarrow> data_direction \<Rightarrow> bytes"

definition serialize_compression_header_dynamic :: compression_header_serializer where
  "serialize_compression_header_dynamic compr d =
     (if d = downlink then write_u8 0
      else write_u8 (of_nat (push_bit 4 (if data_width compr = 16 then 0 else data_width compr) OR
                             compression_value (compr_type compr))))"

definition serialize_compression_header_static :: compression_header_serializer where
  "serialize_compression_header_static compr d = write_u8 0"

definition serialize_section1_extensions :: bytes where
  "serialize_section1_extensions = write_u8 0 @ write_u8 0"

definition serialize_section_1 :: "cplane_common_section \<Rightarrow> bytes" where
  "serialize_section_1 sec = serialize_section_0_1_3_5_fields sec @ serialize_section1_extensions"

definition build_radio_hdr :: "cplane_radio_application_header \<Rightarrow> byte \<Rightarrow> bytes" where
  "build_radio_hdr h section_type =
     write_u8 (encode_data_direction h) @
     write_u8 (of_nat (sfn (slot h))) @
     write_u8 (encode_subframe_and_slot (slot h)) @
     write_u8 (encode_slot_and_start_symbol (slot h) (start_symbol h)) @
     write_u8 1 @
     write_u8 section_type"

definition build_dl_ul_radio_channel_message ::
  "compression_header_serializer \<Rightarrow> cplane_section_type1_parameters \<Rightarrow> bytes" where
  "build_dl_ul_radio_channel_message ser p =
     build_radio_hdr (t1_radio_hdr p) 1 @
     ser (t1_compr p) (direction (t1_radio_hdr p)) @
     write_u8 0 @
     serialize_section_1 (t1_section p)"

definition to_cplane_scs_value :: "nat \<Rightarrow> cplane_scs" where
  "to_cplane_scs_value numerology =
     (if numerology = 0 then cplane_kHz15
      else if numerology = 1 then cplane_kHz30
      else if numerology = 2 then cplane_kHz60
      else if numerology = 3 then cplane_kHz120
      else cplane_scs_reserved)"

definition encode_cp_length :: u16 where
  "encode_cp_length = 0"

definition serialize_section0_extensions :: bytes where
  "serialize_section0_extensions = write_u8 0 @ write_u8 0"

definition serialize_section_0 :: "cplane_common_section \<Rightarrow> bytes" where
  "serialize_section_0 sec = serialize_section_0_1_3_5_fields sec @ serialize_section0_extensions"

definition build_idle_guard_period_message :: "cplane_section_type0_parameters \<Rightarrow> bytes" where
  "build_idle_guard_period_message p =
     build_radio_hdr (t0_radio_hdr p) 0 @
     write_u16 (t0_time_offset p) @
     write_u8 (encode_frame_structure (to_cplane_scs_value (t0_numerology p)) fft_noop) @
     write_u16 encode_cp_length @
     write_u8 0 @
     serialize_section_0 (t0_section p)"

definition serialize_section_3 :: "cplane_common_section \<Rightarrow> int \<Rightarrow> bytes" where
  "serialize_section_3 sec freq =
     serialize_section_0_1_3_5_fields sec @
     write_u16 0 @
     write_u8 (of_int (drop_bit 16 freq)) @
     write_u16 (of_int (freq AND 0xffff)) @
     write_u8 0"

definition build_prach_mixed_numerology_message ::
  "compression_header_serializer \<Rightarrow> cplane_section_type3_parameters \<Rightarrow> bytes" where
  "build_prach_mixed_numerology_message ser p =
     build_radio_hdr (t3_radio_hdr p) 3 @
     write_u16 (t3_time_offset p) @
     write_u8 (encode_frame_structure (t3_scs p) (t3_fft_size p)) @
     write_u16 (of_nat (t3_cpLength p)) @
     ser (t3_compr p) (direction (t3_radio_hdr p)) @
     serialize_section_3 (t3_section p) (t3_frequency_offset p)"

section \<open>Decoder\<close>

record cplane_message_decoder_results =
  num_sections :: nat
  section_type :: nat
  radio_hdr :: cplane_radio_application_header
  "section" :: cplane_common_section
  compr_params :: ru_compression_params
  time_offset :: u16
  frame_structure_scs :: cplane_scs
  fft_size :: cplane_fft_size
  cp_length :: u16
  frequency_offset :: int

text \<open>Value initialisation of the results at the start of the decoding.\<close>

definition empty_section :: cplane_common_section where
  "empty_section = \<lparr>section_id = 0, prb_start = 0, nof_prb = 0, re_mask = 0, nof_symbols = 0\<rparr>"

definition empty_results :: cplane_message_decoder_results where
  "empty_results =
     \<lparr>num_sections = 0, section_type = 0,
      radio_hdr = \<lparr>direction = uplink, filter_index = standard_channel_filter, start_symbol = 0,
                   slot = invalid_slot_point\<rparr>,
      section = empty_section, compr_params = \<lparr>compr_type = compr_none, data_width = 0\<rparr>,
      time_offset = 0, frame_structure_scs = 0, fft_size = 0, cp_length = 0, frequency_offset = 0\<rparr>"

definition NOF_BYTES_CP_RADIO_HDR :: nat where "NOF_BYTES_CP_RADIO_HDR = 6"
definition NOF_BYTES_COMMON_SECTION :: nat where "NOF_BYTES_COMMON_SECTION = 6"

definition decode_common_section_fields :: "bytes \<Rightarrow> (cplane_common_section \<times> bytes) option" where
  "decode_common_section_fields bs = do {
     (section_id_msb, bs) \<leftarrow> read_u8 bs;
     (sect_id_rb_symbols, bs) \<leftarrow> read_u8 bs;
     (prb_start_lsb, bs) \<leftarrow> read_u8 bs;
     (n, bs) \<leftarrow> read_u8 bs;
     (re_mask_msb, bs) \<leftarrow> read_u8 bs;
     (re_mask_and_symbols, bs) \<leftarrow> read_u8 bs;
     Some (\<lparr>section_id = push_bit 4 (unat section_id_msb) OR drop_bit 4 (unat sect_id_rb_symbols),
            prb_start = push_bit 8 (unat sect_id_rb_symbols AND 3) OR unat prb_start_lsb,
            nof_prb = unat n,
            re_mask = push_bit 4 (unat re_mask_msb) OR drop_bit 4 (unat re_mask_and_symbols),
            nof_symbols = unat re_mask_and_symbols AND 15\<rparr>, bs)
   }"

definition decode_compression_header :: "bytes \<Rightarrow> (ru_compression_params \<times> bytes) option" where
  "decode_compression_header bs = do {
     (v, bs) \<leftarrow> read_u8 bs;
     let width = drop_bit 4 (unat v);
     Some (\<lparr>compr_type = to_compression_type (unat v AND 15),
            data_width = (if width = 0 then MAX_IQ_WIDTH else width)\<rparr>, bs)
   }"

text \<open>Each decoding step returns whether it succeeded, the results and the unconsumed bytes.\<close>

type_synonym decode_step = "(bool \<times> cplane_message_decoder_results \<times> bytes) option"

definition decode_radio_app_header :: "nat \<Rightarrow> cplane_message_decoder_results \<Rightarrow> bytes \<Rightarrow> decode_step" where
  "decode_radio_app_header numerology res bs =
     (if length bs < NOF_BYTES_CP_RADIO_HDR then Some (False, res, bs)
      else do {
        (direction_byte, bs) \<leftarrow> read_u8 bs;
        let version = drop_bit 4 (unat direction_byte) AND 7;
        let hdr = (radio_hdr res)\<lparr>direction := to_data_direction (drop_bit 7 (unat direction_byte)),
                                  filter_index := to_filter_index_type (unat direction_byte AND 15)\<rparr>;
        let res = res\<lparr>radio_hdr := hdr\<rparr>;
        if version \<noteq> OFH_PAYLOAD_VERSION then Some (False, res, bs)
        else do {
          (frame, bs) \<leftarrow> read_u8 bs;
          (subframe_and_slot, bs) \<leftarrow> read_u8 bs;
          let subframe = drop_bit 4 (unat subframe_and_slot);
          let slot_id = push_bit 2 (unat subframe_and_slot AND 15);
          (slot_and_symbol, bs) \<leftarrow> read_u8 bs;
          let slot_id = slot_id OR (drop_bit 6 (unat slot_and_symbol) AND 3);
          let hdr = hdr\<lparr>start_symbol := unat slot_and_symbol AND 63,
                        slot := slot_point_subframe numerology (unat frame) subframe slot_id\<rparr>;
          (n, bs) \<leftarrow> read_u8 bs;
          (ty, bs) \<leftarrow> read_u8 bs;
          let res = res\<lparr>radio_hdr := hdr, num_sections := unat n, section_type := unat ty\<rparr>;
          if num_sections res \<noteq> 1 then Some (False, res, bs) else Some (True, res, bs)
        }
      })"

definition decode_section_type_1 :: "cplane_message_decoder_results \<Rightarrow> bytes \<Rightarrow> decode_step" where
  "decode_section_type_1 res bs =
     (if length bs < 1 + 1 + NOF_BYTES_COMMON_SECTION + 2 then Some (False, res, bs)
      else do {
        (c, bs) \<leftarrow> decode_compression_header bs;
        (_, bs) \<leftarrow> advance 1 bs;
        (sec, bs) \<leftarrow> decode_common_section_fields bs;
        (_, bs) \<leftarrow> advance 2 bs;
        Some (True, res\<lparr>compr_params := c, section := sec\<rparr>, bs)
      })"

definition decode_section_type_0 :: "cplane_message_decoder_results \<Rightarrow> bytes \<Rightarrow> decode_step" where
  "decode_section_type_0 res bs =
     (if length bs < 2 + 1 + 2 + 1 + NOF_BYTES_COMMON_SECTION + 2 then Some (False, res, bs)
      else do {
        (t, bs) \<leftarrow> read_u16 bs;
        (frame_structure, bs) \<leftarrow> read_u8 bs;
        (cp, bs) \<leftarrow> read_u16 bs;
        (_, bs) \<leftarrow> advance 1 bs;
        (sec, bs) \<leftarrow> decode_common_section_fields bs;
        (_, bs) \<leftarrow> advance 2 bs;
        Some (True, res\<lparr>time_offset := t, frame_structure_scs := unat frame_structure AND 15,
                        fft_size := drop_bit 4 (unat frame_structure), cp_length := cp,
                        section := sec\<rparr>, bs)
      })"

text \<open>Sign extension of the 24-bit frequency offset.\<close>

definition decode_frequency_offset :: "byte \<Rightarrow> u16 \<Rightarrow> int" where
  "decode_frequency_offset msb lsb =
     (let freq = push_bit 16 (uint msb) OR uint lsb
      in if freq AND 0x800000 \<noteq> 0 then freq OR NOT 0xffffff else freq)"

definition decode_section_type_3 :: "cplane_message_decoder_results \<Rightarrow> bytes \<Rightarrow> decode_step" where
  "decode_section_type_3 res bs =
     (if length bs < 2 + 1 + 2 + 1 + NOF_BYTES_COMMON_SECTION + 2 + 3 + 1 then Some (False, res, bs)
      else do {
        (t, bs) \<leftarrow> read_u16 bs;
        (frame_structure, bs) \<leftarrow> read_u8 bs;
        (cp, bs) \<leftarrow> read_u16 bs;
        (c, bs) \<leftarrow> decode_compression_header bs;
        (sec, bs) \<leftarrow> decode_common_section_fields bs;
        (_, bs) \<leftarrow> advance 2 bs;
        (freq_offset_msb, bs) \<leftarrow> read_u8 bs;
        (freq_offset_lsb, bs) \<leftarrow> read_u16 bs;
        (_, bs) \<leftarrow> advance 1 bs;
        Some (True, res\<lparr>time_offset := t, frame_structure_scs := unat frame_structure AND 15,
                        fft_size := drop_bit 4 (unat frame_structure), cp_length := cp,
                        compr_params := c, section := sec,
                        frequency_offset := decode_frequency_offset freq_offset_msb freq_offset_lsb\<rparr>, bs)
      })"

definition cplane_decode :: "nat \<Rightarrow> bytes \<Rightarrow> (bool \<times> cplane_message_decoder_results) option" where
  "cplane_decode numerology message = do {
     (ok, res, bs) \<leftarrow> decode_radio_app_header numerology empty_results message;
     if \<not> ok then Some (False, res)
     else do {
       (ok, res, bs) \<leftarrow>
         (if section_type res = 0 then decode_section_type_0 res bs
          else if section_type res = 1 then decode_section_type_1 res bs
          else if section_type res = 3 then decode_section_type_3 res bs
          else Some (False, res, bs));
       Some (ok, res)
     }
   }"

section \<open>Fields on the wire\<close>

text \<open>The frame identifier has eight bits: the O-RU sees the slot with its SFN modulo 256.\<close>

definition wire_slot :: "slot_point \<Rightarrow> slot_point" where
  "wire_slot s =
     slot_point_subframe (numerology_val s) (sfn s mod 256) (subframe_index s) (subframe_slot_index s)"

definition radio_hdr_wf :: "nat \<Rightarrow> cplane_radio_application_header \<Rightarrow> bool" where
  "radio_hdr_wf numerology h \<longleftrightarrow>
     sp_wf (slot h) \<and> numerology_val (slot h) = numerology \<and> start_symbol h < 64"

definition section_wf :: "cplane_common_section \<Rightarrow> bool" where
  "section_wf sec \<longleftrightarrow>
     section_id sec < 4096 \<and> prb_start sec < 1024 \<and> re_mask sec < 4096 \<and> nof_symbols sec < 16"

text \<open>What the decoder reports of a section: more than 255 PRBs are transmitted as zero.\<close>

definition wire_section :: "cplane_common_section \<Rightarrow> cplane_common_section" where
  "wire_section sec = sec\<lparr>nof_prb := if nof_prb sec > 255 then 0 else nof_prb sec\<rparr>"

lemma slot_in_subframe_le: "sp_wf s \<Longrightarrow> subframe_slot_index s < 16"
proof -
  assume wf: "sp_wf s"
  then have "numerology_val s \<le> 4" by (simp add: sp_wf_def sp_valid_def NOF_NUMEROLOGIES_def)
  then have "(2::nat) ^ numerology_val s \<le> 2 ^ 4" by (intro power_increasing) auto
  then show ?thesis
    using sp_wf_bounds(3) [OF wf] by (simp add: slots_per_subframe_def push_bit_nat)
qed

lemma unat_encode_data_direction:
  "unat (encode_data_direction h) = direction_value (direction h) * 128 + 16 + filter_value (filter_index h)"
  by (cases "direction h"; cases "filter_index h")
    (simp_all add: encode_data_direction_def direction_value_def OFH_PAYLOAD_VERSION_def)

lemma unat_encode_subframe_and_slot:
  assumes "sp_wf s"
  shows "unat (encode_subframe_and_slot s) = subframe_index s * 16 + subframe_slot_index s div 4"
  using unat_byte_field [of "subframe_slot_index s div 4" 4 "subframe_index s"]
    sp_wf_bounds(2) [OF assms] slot_in_subframe_le [OF assms]
  by (simp add: encode_subframe_and_slot_def and_ones_nat drop_bit_nat)

lemma unat_encode_slot_and_start_symbol:
  assumes "sp_wf s" "symbol < 64"
  shows "unat (encode_slot_and_start_symbol s symbol) = subframe_slot_index s mod 4 * 64 + symbol"
  using unat_byte_field [of symbol 6 "subframe_slot_index s mod 4"] assms(2)
    mod_less_divisor [of 4 "subframe_slot_index s"]
  by (simp add: encode_slot_and_start_symbol_def and_ones_nat)

lemma wire_slot_eq [simp]: "sp_wf s \<Longrightarrow> sfn s < 256 \<Longrightarrow> wire_slot s = s"
  using sp_recompose [of s] by (simp add: wire_slot_def)

lemma wire_slot_pre:
  assumes "sp_wf s"
  shows "slot_point_subframe_pre (numerology_val s) (sfn s mod 256) (subframe_index s) (subframe_slot_index s)"
  using assms sp_wf_bounds [OF assms]
  by (simp add: slot_point_subframe_pre_def sp_wf_def sp_valid_def NOF_SFNS_def NOF_SUBFRAMES_PER_FRAME_def)

lemma wire_slot_wf [wf_intros]: "sp_wf s \<Longrightarrow> sp_wf (wire_slot s)"
  unfolding wire_slot_def by (intro slot_point_subframe_wf wire_slot_pre)

lemma decode_radio_app_header_build [wire]:
  assumes wf: "radio_hdr_wf numerology h"
  shows "decode_radio_app_header numerology res (build_radio_hdr h ty @ r) =
     Some (True, res\<lparr>radio_hdr := h\<lparr>slot := wire_slot (slot h)\<rparr>, num_sections := 1,
                      section_type := unat ty\<rparr>, r)"
proof -
  let ?s = "slot h"
  have s: "sp_wf ?s" and num: "numerology_val ?s = numerology" and sym: "start_symbol h < 64"
    using wf by (simp_all add: radio_hdr_wf_def)
  note b = unat_encode_data_direction [of h] unat_encode_subframe_and_slot [OF s]
    unat_encode_slot_and_start_symbol [OF s sym]
  have d: "(direction_value (direction h) * 128 + 16 + filter_value (filter_index h)) div 128 =
      direction_value (direction h)"
    "(direction_value (direction h) * 128 + 16 + filter_value (filter_index h)) div 16 mod 8 = 1"
    "(direction_value (direction h) * 128 + 16 + filter_value (filter_index h)) mod 16 =
      filter_value (filter_index h)"
    by (cases "direction h"; cases "filter_index h"; simp add: direction_value_def)+
  have l: "subframe_slot_index ?s < 16" by (rule slot_in_subframe_le [OF s])
  have or: "push_bit 2 (subframe_slot_index ?s div 4) OR (subframe_slot_index ?s mod 4) = subframe_slot_index ?s"
    using or_disjoint_nat [of "subframe_slot_index ?s mod 4" 2 "subframe_slot_index ?s div 4"] by simp
  have sl: "(subframe_index ?s * 16 + subframe_slot_index ?s div 4) mod 16 = subframe_slot_index ?s div 4"
    "(subframe_index ?s * 16 + subframe_slot_index ?s div 4) div 16 = subframe_index ?s"
    "(subframe_slot_index ?s mod 4 * 64 + start_symbol h) div 64 mod 4 = subframe_slot_index ?s mod 4"
    "(subframe_slot_index ?s mod 4 * 64 + start_symbol h) mod 64 = start_symbol h"
    using l sym by simp_all
  have hdr: "(radio_hdr res)\<lparr>direction := direction h, filter_index := filter_index h,
      start_symbol := start_symbol h, slot := x\<rparr> = h\<lparr>slot := x\<rparr>" for x by simp
  show ?thesis
    using l sym by (simp add: decode_radio_app_header_def build_radio_hdr_def NOF_BYTES_CP_RADIO_HDR_def Let_def b
        and_ones_nat drop_bit_nat d sl or OFH_PAYLOAD_VERSION_def unat_byte wire_slot_def num hdr)
qed

lemma decode_common_section_fields_serialize [wire]:
  assumes "section_wf sec"
  shows "decode_common_section_fields (serialize_section_0_1_3_5_fields sec @ r) = Some (wire_section sec, r)"
proof -
  have b: "section_id sec < 4096" "prb_start sec < 1024" "re_mask sec < 4096" "nof_symbols sec < 16"
    using assms by (simp_all add: section_wf_def)
  have e1: "unat (encode_sect_id_rb_symbols sec) = section_id sec mod 16 * 16 + prb_start sec div 256"
    using unat_byte_field [of "prb_start sec div 256" 4 "section_id sec mod 16"] b(2)
      mod_less_divisor [of 16 "section_id sec"]
    by (simp add: encode_sect_id_rb_symbols_def and_ones_nat drop_bit_nat)
  have e2: "unat (encode_re_mask_and_nof_symbols sec) = re_mask sec mod 16 * 16 + nof_symbols sec"
    using unat_byte_field [of "nof_symbols sec" 4 "re_mask sec mod 16"] b(4)
      mod_less_divisor [of 16 "re_mask sec"]
    by (simp add: encode_re_mask_and_nof_symbols_def and_ones_nat)
  have o: "push_bit 4 (x div 16) OR x mod 16 = x" "push_bit 8 (x div 256) OR x mod 256 = x" for x :: nat
    using or_disjoint_nat [of "x mod 16" 4 "x div 16"] or_disjoint_nat [of "x mod 256" 8 "x div 256"] by simp_all
  have d: "(section_id sec mod 16 * 16 + prb_start sec div 256) div 16 = section_id sec mod 16"
    "(section_id sec mod 16 * 16 + prb_start sec div 256) mod 4 = prb_start sec div 256"
    "section_id sec div 16 mod 256 = section_id sec div 16" "re_mask sec div 16 mod 256 = re_mask sec div 16"
    "(re_mask sec mod 16 * 16 + nof_symbols sec) div 16 = re_mask sec mod 16"
    "(re_mask sec mod 16 * 16 + nof_symbols sec) mod 16 = nof_symbols sec"
    using b by (simp_all add: mod_mult_eq [symmetric] mod_add_eq [symmetric])
  have eta: "\<lparr>section_id = section_id sec, prb_start = prb_start sec, nof_prb = n, re_mask = re_mask sec,
      nof_symbols = nof_symbols sec\<rparr> = sec\<lparr>nof_prb := n\<rparr>" for n by simp
  show ?thesis
    using b by (simp add: eta decode_common_section_fields_def serialize_section_0_1_3_5_fields_def e1 e2 unat_byte
        and_ones_nat drop_bit_nat d o wire_section_def)
qed

lemma length_serialize_section [wire, simp]: "length (serialize_section_0_1_3_5_fields sec) = 6"
  by (simp add: serialize_section_0_1_3_5_fields_def)

lemma length_build_radio_hdr [wire, simp]: "length (build_radio_hdr h ty) = 6"
  by (simp add: build_radio_hdr_def)

lemma decode_frame_structure:
  assumes "scs < 16" "fft < 16"
  shows "unat (encode_frame_structure scs fft) AND 15 = scs"
    and "drop_bit 4 (unat (encode_frame_structure scs fft)) = fft"
  using unat_byte_field [of scs 4 fft] assms
  by (simp_all add: encode_frame_structure_def and_ones_nat drop_bit_nat)

text \<open>The sign extension of the decoder restores every 24-bit offset.\<close>

lemma decode_frequency_offset_encode [wire]:
  assumes "- (2 ^ 23) \<le> freq" "freq < 2 ^ 23"
  shows "decode_frequency_offset (of_int (drop_bit 16 freq)) (of_int (freq AND 0xffff)) = freq"
proof -
  let ?f = "push_bit 16 (uint (of_int (drop_bit 16 freq) :: byte)) OR uint (of_int (freq AND 0xffff) :: u16)"
  have mask: "freq AND 0xffff = take_bit 16 freq" by (simp add: take_bit_eq_mask mask_numeral)
  have "?f = take_bit 24 freq"
    by (rule bit_eqI) (auto simp: mask bit_simps)
  moreover have "freq mod 16777216 = (if freq < 0 then freq + 16777216 else freq)"
    using assms mod_pos_pos_trivial [of "freq + 16777216" 16777216] by auto
  ultimately have f: "?f = (if freq < 0 then freq + 16777216 else freq)" by (simp add: take_bit_eq_mod)
  have "?f AND 0x800000 \<noteq> 0 \<longleftrightarrow> bit ?f 23"
    using bit_iff_and_push_bit_not_eq_0 [of ?f 23] by simp
  moreover have "freq < 0 \<Longrightarrow> (freq + 16777216) div 8388608 = 1"
    using assms int_div_pos_eq [of "freq + 16777216" 8388608 1 "freq + 8388608"] by simp
  moreover have "\<not> freq < 0 \<Longrightarrow> freq div 8388608 = 0" using assms by simp
  ultimately have neg: "?f AND 0x800000 \<noteq> 0 \<longleftrightarrow> freq < 0"
    unfolding f by (auto simp: bit_iff_odd)
  have "x OR NOT 0xffffff = x - 16777216" if "0 \<le> x" "x < 16777216" for x :: int
  proof -
    have "take_bit 24 x = x" using that by (simp add: take_bit_int_eq_self)
    then have nb: "bit x i \<Longrightarrow> i < 24" for i by (metis bit_take_bit_iff)
    have "NOT (mask 24) = (- 16777216 :: int)" by (simp add: mask_numeral)
    moreover have "x AND NOT (mask 24) = 0"
      by (rule bit_eqI) (auto simp: bit_simps dest: nb)
    ultimately have "x AND - 16777216 = 0" by simp
    then have "x + - 16777216 = x OR - 16777216" by (rule disjunctive_add_eq_or)
    then show ?thesis by simp
  qed
  then have "freq < 0 \<Longrightarrow> ?f OR NOT 0xffffff = freq" using assms by (simp add: f)
  then show ?thesis
    using neg f by (simp only: decode_frequency_offset_def Let_def split: if_split) auto
qed

section \<open>Round trips\<close>

text \<open>
  The contract between the builders and the decoder on the compression header: one byte, from which
  the decoder recovers what the builder variant transmits (\<open>seen\<close>).  Round trips of section type 1
  and 3 messages are proved once for it.
\<close>

locale cplane_compression_header =
  fixes ser :: compression_header_serializer
    and c_ok :: "ru_compression_params \<Rightarrow> bool"
    and seen :: "ru_compression_params \<Rightarrow> data_direction \<Rightarrow> ru_compression_params"
  assumes length_ser: "length (ser c d) = 1"
    and decode_ser: "c_ok c \<Longrightarrow> decode_compression_header (ser c d @ r) = Some (seen c d, r)"
begin

lemma type_1_round_trip:
  assumes "radio_hdr_wf numerology (t1_radio_hdr p)" "section_wf (t1_section p)" "c_ok (t1_compr p)"
  shows "cplane_decode numerology (build_dl_ul_radio_channel_message ser p @ pad) =
     Some (True, empty_results\<lparr>num_sections := 1, section_type := 1,
       radio_hdr := (t1_radio_hdr p)\<lparr>slot := wire_slot (slot (t1_radio_hdr p))\<rparr>,
       section := wire_section (t1_section p),
       compr_params := seen (t1_compr p) (direction (t1_radio_hdr p))\<rparr>)"
  using assms
  by (simp add: cplane_decode_def build_dl_ul_radio_channel_message_def decode_radio_app_header_build
      decode_section_type_1_def NOF_BYTES_COMMON_SECTION_def length_ser decode_ser serialize_section_1_def
      serialize_section1_extensions_def decode_common_section_fields_serialize advance_def write_u8_def)

lemma type_3_round_trip:
  assumes "radio_hdr_wf numerology (t3_radio_hdr p)" "section_wf (t3_section p)" "c_ok (t3_compr p)"
    and "t3_scs p < 16" "t3_fft_size p < 16" "t3_cpLength p < 65536"
    and "- (2 ^ 23) \<le> t3_frequency_offset p" "t3_frequency_offset p < 2 ^ 23"
  shows "cplane_decode numerology (build_prach_mixed_numerology_message ser p @ pad) =
     Some (True, empty_results\<lparr>num_sections := 1, section_type := 3,
       radio_hdr := (t3_radio_hdr p)\<lparr>slot := wire_slot (slot (t3_radio_hdr p))\<rparr>,
       section := wire_section (t3_section p),
       compr_params := seen (t3_compr p) (direction (t3_radio_hdr p)),
       time_offset := t3_time_offset p, frame_structure_scs := t3_scs p, fft_size := t3_fft_size p,
       cp_length := of_nat (t3_cpLength p), frequency_offset := t3_frequency_offset p\<rparr>)"
  using assms decode_frequency_offset_encode [of "t3_frequency_offset p"]
  by (simp add: cplane_decode_def build_prach_mixed_numerology_message_def decode_radio_app_header_build
      decode_section_type_3_def NOF_BYTES_COMMON_SECTION_def length_ser decode_ser serialize_section_3_def
      decode_common_section_fields_serialize decode_frame_structure advance_enough)

end

lemma type_0_round_trip:
  assumes "radio_hdr_wf numerology (t0_radio_hdr p)" "section_wf (t0_section p)"
  shows "cplane_decode numerology (build_idle_guard_period_message p @ pad) =
     Some (True, empty_results\<lparr>num_sections := 1, section_type := 0,
       radio_hdr := (t0_radio_hdr p)\<lparr>slot := wire_slot (slot (t0_radio_hdr p))\<rparr>,
       section := wire_section (t0_section p), time_offset := t0_time_offset p,
       frame_structure_scs := to_cplane_scs_value (t0_numerology p)\<rparr>)"
proof -
  have "to_cplane_scs_value n < 16" for n
    by (simp add: to_cplane_scs_value_def cplane_kHz15_def cplane_kHz30_def cplane_kHz60_def
        cplane_kHz120_def cplane_scs_reserved_def)
  then show ?thesis
    using assms
    by (simp add: cplane_decode_def build_idle_guard_period_message_def decode_radio_app_header_build
        decode_section_type_0_def NOF_BYTES_COMMON_SECTION_def serialize_section_0_def fft_noop_def
        serialize_section0_extensions_def decode_common_section_fields_serialize decode_frame_structure
        advance_enough encode_cp_length_def empty_results_def)
qed

definition compr_wf :: "ru_compression_params \<Rightarrow> bool" where
  "compr_wf c \<longleftrightarrow> 1 \<le> data_width c \<and> data_width c \<le> 16"

definition zero_header_compr :: ru_compression_params where
  "zero_header_compr = \<lparr>compr_type = compr_none, data_width = 16\<rparr>"

interpretation static_header: cplane_compression_header serialize_compression_header_static
  "\<lambda>_. True" "\<lambda>_ _. zero_header_compr"
  by unfold_locales (simp_all add: serialize_compression_header_static_def decode_compression_header_def
      MAX_IQ_WIDTH_def zero_header_compr_def to_compression_type_def Let_def)

lemma unat_dynamic_header:
  assumes "compr_wf c"
  shows "unat (of_nat (push_bit 4 (if data_width c = 16 then 0 else data_width c) OR
      compression_value (compr_type c)) :: byte) =
    (if data_width c = 16 then 0 else data_width c) * 16 + compression_value (compr_type c)"
  using unat_byte_field [of "compression_value (compr_type c)" 4 "if data_width c = 16 then 0 else data_width c"]
    assms compression_value_le [of "compr_type c"] by (simp add: compr_wf_def)

interpretation dynamic_header: cplane_compression_header serialize_compression_header_dynamic compr_wf
  "\<lambda>c d. if d = downlink then zero_header_compr else c"
proof unfold_locales
  fix c d r assume wf: "compr_wf c"
  let ?w = "if data_width c = 16 then 0 else data_width c" and ?t = "compression_value (compr_type c)"
  have t: "?t < 16" using compression_value_le [of "compr_type c"] by simp
  have "(?w * 16 + ?t) mod 16 = ?t" "(?w * 16 + ?t) div 16 = ?w" using t by simp_all
  then have "decode_compression_header (write_u8 (of_nat (push_bit 4 ?w OR ?t)) @ r) = Some (c, r)"
    using wf unat_dynamic_header [OF wf]
    by (simp only: decode_compression_header_def Let_def read_u8_write bind_simps prod.case and_ones_nat
        drop_bit_nat) (simp add: MAX_IQ_WIDTH_def compr_wf_def)
  then show "decode_compression_header (serialize_compression_header_dynamic c d @ r) =
      Some (if d = downlink then zero_header_compr else c, r)"
    using static_header.decode_ser [of c d r]
    by (simp add: serialize_compression_header_dynamic_def serialize_compression_header_static_def)
qed (simp add: serialize_compression_header_dynamic_def)

section \<open>Memory safety\<close>

lemma decode_compression_header_enough:
  "k + 1 \<le> length bs \<Longrightarrow> \<exists>c. decode_compression_header (drop k bs) = Some (c, drop (k + 1) bs)"
  by (simp add: decode_compression_header_def wire Let_def)

lemma decode_common_section_fields_enough:
  assumes "k + 6 \<le> length bs"
  shows "\<exists>sec. decode_common_section_fields (drop k bs) = Some (sec, drop (k + 6) bs) \<and> nof_symbols sec < 16"
  using assms by (simp add: decode_common_section_fields_def wire and_ones_nat) (simp add: eval_nat_numeral)

lemma decode_section_type_1_safe:
  "\<exists>ok res' r. decode_section_type_1 res bs = Some (ok, res', r) \<and> section_type res' = section_type res \<and>
     num_sections res' = num_sections res \<and> radio_hdr res' = radio_hdr res \<and>
     (ok \<longrightarrow> 10 \<le> length bs \<and> nof_symbols (section res') < 16)"
proof (cases "length bs < 10")
  case False
  then obtain sec where "decode_common_section_fields (drop 2 bs) = Some (sec, drop 8 bs)" "nof_symbols sec < 16"
    using decode_common_section_fields_enough [of 2 bs] by auto
  moreover obtain c where "decode_compression_header bs = Some (c, drop 1 bs)"
    using False decode_compression_header_enough [of 0 bs] by auto
  moreover note False
  ultimately show ?thesis
    by (auto simp: decode_section_type_1_def NOF_BYTES_COMMON_SECTION_def advance_enough numeral_2_eq_2)
qed (auto simp: decode_section_type_1_def NOF_BYTES_COMMON_SECTION_def)

lemma decode_section_type_0_safe:
  "\<exists>ok res' r. decode_section_type_0 res bs = Some (ok, res', r) \<and> section_type res' = section_type res \<and>
     num_sections res' = num_sections res \<and> radio_hdr res' = radio_hdr res \<and>
     (ok \<longrightarrow> 14 \<le> length bs \<and> nof_symbols (section res') < 16)"
proof (cases "length bs < 14")
  case False
  then obtain sec where "decode_common_section_fields (drop 6 bs) = Some (sec, drop 12 bs)" "nof_symbols sec < 16"
    using decode_common_section_fields_enough [of 6 bs] by auto
  with False show ?thesis
    by (auto simp: decode_section_type_0_def NOF_BYTES_COMMON_SECTION_def read_u16_enough read_u8_enough advance_enough)
qed (auto simp: decode_section_type_0_def NOF_BYTES_COMMON_SECTION_def)

lemma decode_section_type_3_safe:
  "\<exists>ok res' r. decode_section_type_3 res bs = Some (ok, res', r) \<and> section_type res' = section_type res \<and>
     num_sections res' = num_sections res \<and> radio_hdr res' = radio_hdr res \<and>
     (ok \<longrightarrow> 18 \<le> length bs \<and> nof_symbols (section res') < 16)"
proof (cases "length bs < 18")
  case False
  then obtain sec where "decode_common_section_fields (drop 6 bs) = Some (sec, drop 12 bs)" "nof_symbols sec < 16"
    using decode_common_section_fields_enough [of 6 bs] by auto
  moreover obtain c where "decode_compression_header (drop 5 bs) = Some (c, drop 6 bs)"
    using False decode_compression_header_enough [of 5 bs] by auto
  ultimately show ?thesis
    using False by (auto simp: decode_section_type_3_def NOF_BYTES_COMMON_SECTION_def read_u16_enough read_u8_enough advance_enough)
qed (auto simp: decode_section_type_3_def NOF_BYTES_COMMON_SECTION_def)

lemma decode_radio_app_header_safe:
  "\<exists>ok res' r. decode_radio_app_header \<mu> res bs = Some (ok, res', r) \<and>
     (ok \<longrightarrow> length bs = length r + 6 \<and> num_sections res' = 1 \<and> start_symbol (radio_hdr res') < 64)"
proof (cases "length bs < 6")
  case False
  then show ?thesis
    by (auto simp: decode_radio_app_header_def NOF_BYTES_CP_RADIO_HDR_def read_u8_enough Let_def and_ones_nat
        hd_drop_conv_nth)
qed (auto simp: decode_radio_app_header_def NOF_BYTES_CP_RADIO_HDR_def)

lemma cplane_decode_bounds:
  "\<exists>ok res. cplane_decode \<mu> msg = Some (ok, res) \<and>
     (ok \<longrightarrow> num_sections res = 1 \<and>
        (section_type res = 0 \<and> 20 \<le> length msg \<or> section_type res = 1 \<and> 16 \<le> length msg \<or>
         section_type res = 3 \<and> 24 \<le> length msg) \<and>
        start_symbol (radio_hdr res) < 64 \<and> nof_symbols (section res) < 16)"
proof -
  obtain ok res r where h: "decode_radio_app_header \<mu> empty_results msg = Some (ok, res, r)"
    and ok: "ok \<longrightarrow> length msg = length r + 6 \<and> num_sections res = 1 \<and> start_symbol (radio_hdr res) < 64"
    using decode_radio_app_header_safe [of \<mu> empty_results msg] by blast
  show ?thesis
    using h ok decode_section_type_0_safe [of res r] decode_section_type_1_safe [of res r]
      decode_section_type_3_safe [of res r]
    by (cases ok) (auto simp: cplane_decode_def)
qed

text \<open>
  The Control-Plane decoder never reads past the end of a message, whatever its bytes are, and a
  message it accepts has exactly one section, of type 0, 1 or 3, all of whose bytes are present, a
  six-bit start symbol and a four-bit number of symbols.
\<close>

theorem cplane_decode_safe:
  "\<exists>ok res. cplane_decode \<mu> msg = Some (ok, res) \<and>
     (ok \<longrightarrow> num_sections res = 1 \<and>
        (section_type res = 0 \<and> 20 \<le> length msg \<or> section_type res = 1 \<and> 16 \<le> length msg \<or>
         section_type res = 3 \<and> 24 \<le> length msg) \<and>
        start_symbol (radio_hdr res) < 64 \<and> nof_symbols (section res) < 16)"
  by (rule cplane_decode_bounds)

theorem cplane_decode_safe_witness:
  "\<exists>ok res. cplane_decode 1 [] = Some (ok, res) \<and> (ok \<longrightarrow> num_sections res = 1)"
  using cplane_decode_safe [of 1 "[]"] by blast

text \<open>
  A section type 1 message built by the O-DU with a dynamic compression header is decoded by the
  O-RU to the same radio header and section, with the SFN modulo 256, more than 255 PRBs read as
  zero, and, in uplink, the same compression parameters.  Bytes that follow the message are ignored.
\<close>

theorem cplane_type_1_round_trip:
  assumes "radio_hdr_wf \<mu> (t1_radio_hdr p)" "section_wf (t1_section p)" "compr_wf (t1_compr p)"
  shows "cplane_decode \<mu> (build_dl_ul_radio_channel_message serialize_compression_header_dynamic p @ pad) =
     Some (True, empty_results\<lparr>num_sections := 1, section_type := 1,
       radio_hdr := (t1_radio_hdr p)\<lparr>slot := wire_slot (slot (t1_radio_hdr p))\<rparr>,
       section := wire_section (t1_section p),
       compr_params := if direction (t1_radio_hdr p) = downlink then zero_header_compr else t1_compr p\<rparr>)"
  using assms by (rule dynamic_header.type_1_round_trip)

definition sample_radio_hdr :: cplane_radio_application_header where
  "sample_radio_hdr = \<lparr>direction = uplink, filter_index = ul_prach_preamble_short, start_symbol = 2,
     slot = slot_point_subframe 1 700 9 1\<rparr>"

definition sample_section :: cplane_common_section where
  "sample_section = \<lparr>section_id = 2049, prb_start = 700, nof_prb = 273, re_mask = 4095, nof_symbols = 12\<rparr>"

lemma sample_wf: "radio_hdr_wf 1 sample_radio_hdr" "section_wf sample_section"
proof -
  have "slot_point_subframe_pre 1 700 9 1"
    by (simp add: slot_point_subframe_pre_def NOF_NUMEROLOGIES_def NOF_SFNS_def NOF_SUBFRAMES_PER_FRAME_def
        slots_per_subframe_def)
  then show "radio_hdr_wf 1 sample_radio_hdr"
    by (simp add: radio_hdr_wf_def sample_radio_hdr_def slot_point_subframe_wf)
qed (simp add: section_wf_def sample_section_def)

lemma sample_fields: "direction sample_radio_hdr = uplink" "nof_prb sample_section = 273"
    "prb_start sample_section = 700"
  by (simp_all add: sample_radio_hdr_def sample_section_def)

theorem cplane_type_1_round_trip_witness:
  "\<exists>res. cplane_decode 1 (build_dl_ul_radio_channel_message serialize_compression_header_dynamic
     \<lparr>t1_radio_hdr = sample_radio_hdr, t1_section = sample_section,
      t1_compr = \<lparr>compr_type = BFP, data_width = 9\<rparr>\<rparr> @ [0, 0]) = Some (True, res) \<and>
     nof_prb (section res) = 0 \<and> prb_start (section res) = 700 \<and> data_width (compr_params res) = 9"
  by (subst cplane_type_1_round_trip)
    (simp_all add: sample_wf [simplified] compr_wf_def wire_section_def sample_fields)

text \<open>
  C22: a section type 3 (PRACH) message built by the O-DU is decoded by the O-RU to the same radio
  header, section, time offset, frame structure and cyclic prefix, and the signed 24-bit frequency
  offset survives the round trip.
\<close>

theorem cplane_type_3_round_trip:
  assumes "radio_hdr_wf \<mu> (t3_radio_hdr p)" "section_wf (t3_section p)" "compr_wf (t3_compr p)"
    and "t3_scs p < 16" "t3_fft_size p < 16" "t3_cpLength p < 65536"
    and "- (2 ^ 23) \<le> t3_frequency_offset p" "t3_frequency_offset p < 2 ^ 23"
  shows "cplane_decode \<mu> (build_prach_mixed_numerology_message serialize_compression_header_dynamic p @ pad) =
     Some (True, empty_results\<lparr>num_sections := 1, section_type := 3,
       radio_hdr := (t3_radio_hdr p)\<lparr>slot := wire_slot (slot (t3_radio_hdr p))\<rparr>,
       section := wire_section (t3_section p),
       compr_params := if direction (t3_radio_hdr p) = downlink then zero_header_compr else t3_compr p,
       time_offset := t3_time_offset p, frame_structure_scs := t3_scs p, fft_size := t3_fft_size p,
       cp_length := of_nat (t3_cpLength p), frequency_offset := t3_frequency_offset p\<rparr>)"
  using assms by (rule dynamic_header.type_3_round_trip)

theorem cplane_type_3_round_trip_witness:
  "\<exists>res. cplane_decode 1 (build_prach_mixed_numerology_message serialize_compression_header_dynamic
     \<lparr>t3_radio_hdr = sample_radio_hdr, t3_section = sample_section, t3_frequency_offset = -3276,
      t3_compr = \<lparr>compr_type = compr_none, data_width = 16\<rparr>, t3_scs = cplane_kHz30, t3_fft_size = 12,
      t3_cpLength = 0, t3_time_offset = 100\<rparr> @ []) = Some (True, res) \<and> frequency_offset res = -3276"
  by (subst cplane_type_3_round_trip) (simp_all add: sample_wf [simplified] compr_wf_def cplane_kHz30_def)

text \<open>
  A section type 0 (idle or guard period) message is decoded to the same radio header, section
  and time offset, with the subcarrier spacing of the frame structure field.
\<close>

theorem cplane_type_0_round_trip:
  assumes "radio_hdr_wf \<mu> (t0_radio_hdr p)" "section_wf (t0_section p)"
  shows "cplane_decode \<mu> (build_idle_guard_period_message p @ pad) =
     Some (True, empty_results\<lparr>num_sections := 1, section_type := 0,
       radio_hdr := (t0_radio_hdr p)\<lparr>slot := wire_slot (slot (t0_radio_hdr p))\<rparr>,
       section := wire_section (t0_section p), time_offset := t0_time_offset p,
       frame_structure_scs := to_cplane_scs_value (t0_numerology p)\<rparr>)"
  using assms by (rule type_0_round_trip)

theorem cplane_type_0_round_trip_witness:
  "\<exists>res. cplane_decode 1 (build_idle_guard_period_message
     \<lparr>t0_radio_hdr = sample_radio_hdr, t0_section = sample_section, t0_numerology = 1,
      t0_time_offset = 5\<rparr> @ []) = Some (True, res) \<and> time_offset res = 5"
  by (subst cplane_type_0_round_trip) (simp_all add: sample_wf [simplified])


end
