(* ===== verification/Uplane_Message.thy ===== *)
theory Uplane_Message
  imports Cplane_Message
begin

text \<open>
  User-Plane messages (lib/ofh/serdes/ofh_uplane_message_builder_impl.cpp and
  ofh_uplane_message_decoder_impl.cpp with their static and dynamic compression variants).  The IQ
  compressor and decompressor are interfaces of the program with several implementations; here they
  are parameters, on an arbitrary type of IQ samples.
\<close>

section \<open>Parameters\<close>

definition NOF_SUBCARRIERS_PER_RB :: nat where "NOF_SUBCARRIERS_PER_RB = 12"
definition MAX_NOF_PRBS :: nat where "MAX_NOF_PRBS = 275"
definition MAX_NOF_SUBCARRIERS :: nat where "MAX_NOF_SUBCARRIERS = MAX_NOF_PRBS * NOF_SUBCARRIERS_PER_RB"

datatype section_kind = type_0 | type_1 | type_3 | type_5 | type_6

record uplane_message_params =
  up_direction :: data_direction
  up_slot :: slot_point
  up_filter_index :: filter_index_type
  up_start_prb :: nat
  up_nof_prb :: nat
  up_symbol_id :: nat
  up_sect_type :: section_kind
  up_compression_params :: ru_compression_params
  up_section_id :: nat

text \<open>Sizes in bytes of a compressed PRB (include/ocudu/ofh/compression/compression_properties.h).\<close>

definition round_up_to_bytes :: "nat \<Rightarrow> nat" where
  "round_up_to_bytes bits = (bits + 8 - 1) div 8"

definition is_compression_param_present :: "compression_type \<Rightarrow> bool" where
  "is_compression_param_present ty \<longleftrightarrow>
     ty = BFP \<or> ty = mu_law \<or> ty = bfp_selective \<or> ty = mod_selective"

definition get_compressed_prb_size :: "ru_compression_params \<Rightarrow> nat" where
  "get_compressed_prb_size c =
     (let prb_size = NOF_SUBCARRIERS_PER_RB * 2 * data_width c;
          prb_size = (if is_compression_param_present (compr_type c) then prb_size + 1 * 8 else prb_size)
      in round_up_to_bytes prb_size)"

section \<open>Builder\<close>

definition up_encode_data_direction :: "data_direction \<Rightarrow> filter_index_type \<Rightarrow> byte" where
  "up_encode_data_direction d f =
     of_nat (push_bit 7 (direction_value d) OR push_bit 4 OFH_PAYLOAD_VERSION OR (filter_value f AND 15))"

definition up_encode_subframe_and_slot :: "slot_point \<Rightarrow> byte" where
  "up_encode_subframe_and_slot s =
     of_nat (push_bit 4 (subframe_index s) OR drop_bit 2 (subframe_slot_index s))"

definition encode_slot_lsb_and_symbol :: "uplane_message_params \<Rightarrow> byte" where
  "encode_slot_lsb_and_symbol p =
     of_nat (push_bit 6 (subframe_slot_index (up_slot p) AND 3) OR up_symbol_id p)"

definition up_encode_sect_id_rb_symbols :: "uplane_message_params \<Rightarrow> byte" where
  "up_encode_sect_id_rb_symbols p =
     of_nat (push_bit 4 (up_section_id p AND 15) OR push_bit 3 0 OR push_bit 2 0 OR
             (drop_bit 8 (up_start_prb p) AND 3))"

definition build_radio_app_header :: "uplane_message_params \<Rightarrow> bytes" where
  "build_radio_app_header p =
     write_u8 (up_encode_data_direction (up_direction p) (up_filter_index p)) @
     write_u8 (of_nat (sfn (up_slot p))) @
     write_u8 (up_encode_subframe_and_slot (up_slot p)) @
     write_u8 (encode_slot_lsb_and_symbol p)"

definition build_section1_header :: "uplane_message_params \<Rightarrow> bytes" where
  "build_section1_header p =
     write_u8 (of_nat (drop_bit 4 (up_section_id p))) @
     write_u8 (up_encode_sect_id_rb_symbols p) @
     write_u8 (of_nat (up_start_prb p)) @
     write_u8 (of_nat (if up_nof_prb p > 255 then 0 else up_nof_prb p))"

text \<open>The compression header of a section, a virtual function with two implementations.\<close>

definition up_serialize_compression_header_dynamic :: "ru_compression_params \<Rightarrow> bytes" where
  "up_serialize_compression_header_dynamic c =
     write_u8 (of_nat (push_bit 4 (if data_width c = 16 then 0 else data_width c) OR
                       compression_value (compr_type c))) @
     write_u8 0"

definition up_serialize_compression_header_static :: "ru_compression_params \<Rightarrow> bytes" where
  "up_serialize_compression_header_static c = []"

definition up_get_header_size_dynamic :: "ru_compression_params \<Rightarrow> nat" where
  "up_get_header_size_dynamic c =
     10 + (if compr_type c = bfp_selective \<or> compr_type c = mod_selective then 2 else 0)"

definition up_get_header_size_static :: "ru_compression_params \<Rightarrow> nat" where
  "up_get_header_size_static c =
     8 + (if compr_type c = bfp_selective \<or> compr_type c = mod_selective then 2 else 0)"

text \<open>
  The compressor fills a view of \<open>nof_prbs\<close> compressed PRBs of the buffer; the flag
  \<open>ud_comp_length_support\<close> of the builder is the constant false.
\<close>

definition ud_comp_length_support :: bool where "ud_comp_length_support = False"

definition serialize_iq_data ::
  "('iq list \<Rightarrow> ru_compression_params \<Rightarrow> bytes) \<Rightarrow> (ru_compression_params \<Rightarrow> bytes) \<Rightarrow>
   'iq list \<Rightarrow> nat \<Rightarrow> ru_compression_params \<Rightarrow> bytes" where
  "serialize_iq_data compress ser iq nof_prbs c =
     ser c @
     (if ud_comp_length_support \<and> (compr_type c = bfp_selective \<or> compr_type c = mod_selective)
      then write_u16 (of_nat (round_up_to_bytes (NOF_SUBCARRIERS_PER_RB * 2 * data_width c))) else []) @
     take (get_compressed_prb_size c * nof_prbs) (compress iq c)"

definition build_message ::
  "('iq list \<Rightarrow> ru_compression_params \<Rightarrow> bytes) \<Rightarrow> (ru_compression_params \<Rightarrow> bytes) \<Rightarrow>
   'iq list \<Rightarrow> uplane_message_params \<Rightarrow> bytes option" where
  "build_message compress ser iq p =
     (if up_sect_type p \<noteq> type_1 \<or> length iq \<noteq> up_nof_prb p * NOF_SUBCARRIERS_PER_RB then None
      else Some (build_radio_app_header p @ build_section1_header p @
                 serialize_iq_data compress ser iq (up_nof_prb p) (up_compression_params p)))"

section \<open>Decoder\<close>

datatype decoded_section_status = status_ok | status_incomplete | status_malformed

record decoder_uplane_section_params =
  sec_section_id :: nat
  is_every_rb_used :: bool
  use_current_symbol_number :: bool
  sec_start_prb :: nat
  sec_nof_prbs :: nat
  ud_comp_hdr :: ru_compression_params
  ud_comp_len :: "nat option"

record 'iq uplane_section_params = decoder_uplane_section_params +
  iq_samples :: "'iq list"

record 'iq uplane_message_decoder_results =
  params :: uplane_message_params
  sections :: "'iq uplane_section_params list"

record uplane_decoder_config =
  dec_numerology :: nat
  dec_nof_symbols :: nat
  ru_nof_prbs :: nat
  expected_direction :: data_direction

definition RESULTS_MAX_NOF_SUPPORTED_SECTIONS :: nat where "RESULTS_MAX_NOF_SUPPORTED_SECTIONS = 2"
definition NOF_BYTES_UP_HEADER :: nat where "NOF_BYTES_UP_HEADER = 4"
definition SECTION_ID_HEADER_NO_COMPRESSION_SIZE :: nat where "SECTION_ID_HEADER_NO_COMPRESSION_SIZE = 4"

definition up_is_header_valid :: "uplane_decoder_config \<Rightarrow> uplane_message_params \<Rightarrow> nat \<Rightarrow> bool" where
  "up_is_header_valid cfg p version \<longleftrightarrow>
     up_direction p = expected_direction cfg \<and> version = OFH_PAYLOAD_VERSION \<and>
     up_filter_index p \<noteq> filter_reserved \<and> \<not> up_symbol_id p \<ge> dec_nof_symbols cfg"

definition up_decode_header ::
  "uplane_decoder_config \<Rightarrow> uplane_message_params \<Rightarrow> bytes \<Rightarrow> (bool \<times> uplane_message_params \<times> bytes) option" where
  "up_decode_header cfg p bs =
     (if length bs < NOF_BYTES_UP_HEADER then Some (False, p, bs)
      else do {
        (v, bs) \<leftarrow> read_u8 bs;
        let version = drop_bit 4 (unat v) AND 7;
        let p = p\<lparr>up_direction := to_data_direction (drop_bit 7 (unat v)),
                  up_filter_index := to_filter_index_type (unat v AND 15)\<rparr>;
        (frame, bs) \<leftarrow> read_u8 bs;
        (subframe_and_slot, bs) \<leftarrow> read_u8 bs;
        let subframe = drop_bit 4 (unat subframe_and_slot);
        let slot_id = push_bit 2 (unat subframe_and_slot AND 15);
        (slot_and_symbol, bs) \<leftarrow> read_u8 bs;
        let p = p\<lparr>up_symbol_id := unat slot_and_symbol AND 63\<rparr>;
        let slot_id = slot_id OR drop_bit 6 (unat slot_and_symbol);
        if subframe \<ge> NOF_SUBFRAMES_PER_FRAME then Some (False, p, bs)
        else if slot_id \<ge> slots_per_subframe (dec_numerology cfg) then Some (False, p, bs)
        else do {
          let p = p\<lparr>up_slot := slot_point_subframe (dec_numerology cfg) (unat frame) subframe slot_id\<rparr>;
          Some (up_is_header_valid cfg p version, p, bs)
        }
      })"

definition check_iq_data_size :: "nat \<Rightarrow> bytes \<Rightarrow> ru_compression_params \<Rightarrow> bool" where
  "check_iq_data_size nof_prbs bs c =
     (let sz = round_up_to_bytes (NOF_SUBCARRIERS_PER_RB * 2 * data_width c);
          sz = (if is_compression_param_present (compr_type c) then sz + 1 else sz)
      in \<not> length bs < sz * nof_prbs)"

text \<open>The decoding functions of a section return a status, the section and the unconsumed bytes.\<close>

type_synonym section_step = "(decoded_section_status \<times> decoder_uplane_section_params \<times> bytes) option"

definition decode_section_header ::
  "uplane_decoder_config \<Rightarrow> decoder_uplane_section_params \<Rightarrow> bytes \<Rightarrow> section_step" where
  "decode_section_header cfg s bs =
     (if length bs < SECTION_ID_HEADER_NO_COMPRESSION_SIZE then Some (status_incomplete, s, bs)
      else do {
        (b0, bs) \<leftarrow> read_u8 bs;
        (b1, bs) \<leftarrow> read_u8 bs;
        (b2, bs) \<leftarrow> read_u8 bs;
        (b3, bs) \<leftarrow> read_u8 bs;
        let s = s\<lparr>sec_section_id := push_bit 4 (unat b0) OR drop_bit 4 (unat b1),
                  is_every_rb_used := (drop_bit 3 (unat b1) AND 1 = 0),
                  use_current_symbol_number := (drop_bit 2 (unat b1) AND 1 = 0),
                  sec_start_prb := push_bit 8 (unat b1 AND 3) OR unat b2,
                  sec_nof_prbs := unat b3\<rparr>;
        let s = (if sec_nof_prbs s = 0 then s\<lparr>sec_nof_prbs := ru_nof_prbs cfg, sec_start_prb := 0\<rparr> else s);
        Some (status_ok, s, bs)
      })"

definition up_decode_compression_header_dynamic :: "decoder_uplane_section_params \<Rightarrow> bytes \<Rightarrow> section_step" where
  "up_decode_compression_header_dynamic s bs =
     (if length bs < 2 then Some (status_incomplete, s, bs)
      else do {
        (v, bs) \<leftarrow> read_u8 bs;
        let s = s\<lparr>ud_comp_hdr := (ud_comp_hdr s)\<lparr>compr_type := to_compression_type (unat v AND 15)\<rparr>\<rparr>;
        if compr_type (ud_comp_hdr s) = compr_reserved then Some (status_malformed, s, bs)
        else do {
          let width = drop_bit 4 (unat v);
          let s = s\<lparr>ud_comp_hdr := (ud_comp_hdr s)\<lparr>data_width := if width = 0 then MAX_IQ_WIDTH else width\<rparr>\<rparr>;
          (_, bs) \<leftarrow> advance 1 bs;
          Some (status_ok, s, bs)
        }
      })"

definition up_decode_compression_header_static ::
  "ru_compression_params \<Rightarrow> decoder_uplane_section_params \<Rightarrow> bytes \<Rightarrow> section_step" where
  "up_decode_compression_header_static compression_params s bs =
     Some (status_ok, s\<lparr>ud_comp_hdr := compression_params\<rparr>, bs)"

definition decode_compression_length ::
  "decoder_uplane_section_params \<Rightarrow> bytes \<Rightarrow> ru_compression_params \<Rightarrow> section_step" where
  "decode_compression_length s bs c =
     (if compr_type c \<in> {compr_none, BFP, block_scaling, mu_law, modulation} then Some (status_ok, s, bs)
      else if length bs < 2 then Some (status_incomplete, s, bs)
      else do {
        (len, bs) \<leftarrow> read_u16 bs;
        Some (status_ok, s\<lparr>ud_comp_len := Some (unat len)\<rparr>, bs)
      })"

text \<open>Decompression of the IQ data: None when the samples exceed the capacity of the section.\<close>

definition decode_iq_data ::
  "(nat \<Rightarrow> bytes \<Rightarrow> ru_compression_params \<Rightarrow> 'iq list) \<Rightarrow> 'iq uplane_section_params \<Rightarrow> bytes \<Rightarrow>
   ru_compression_params \<Rightarrow> ('iq uplane_section_params \<times> bytes) option" where
  "decode_iq_data decompress s bs c = do {
     let bits = NOF_SUBCARRIERS_PER_RB * 2 * data_width c;
     let bits = (if is_compression_param_present (compr_type c) then bits + 8 else bits);
     (compressed_data, bs) \<leftarrow> read_span (sec_nof_prbs s * round_up_to_bytes bits) bs;
     if sec_nof_prbs s * NOF_SUBCARRIERS_PER_RB > MAX_NOF_SUBCARRIERS then None
     else Some (s\<lparr>iq_samples := decompress (sec_nof_prbs s * NOF_SUBCARRIERS_PER_RB) compressed_data c\<rparr>, bs)
   }"

definition blank_section :: decoder_uplane_section_params where
  "blank_section =
     \<lparr>sec_section_id = 0, is_every_rb_used = False, use_current_symbol_number = False, sec_start_prb = 0,
      sec_nof_prbs = 0, ud_comp_hdr = \<lparr>compr_type = compr_none, data_width = 0\<rparr>, ud_comp_len = None\<rparr>"

definition fill_results_from_decoder_section ::
  "decoder_uplane_section_params \<Rightarrow> 'iq uplane_section_params" where
  "fill_results_from_decoder_section s = decoder_uplane_section_params.extend s \<lparr>iq_samples = []\<rparr>"

definition decode_section ::
  "uplane_decoder_config \<Rightarrow> (decoder_uplane_section_params \<Rightarrow> bytes \<Rightarrow> section_step) \<Rightarrow>
   (nat \<Rightarrow> bytes \<Rightarrow> ru_compression_params \<Rightarrow> 'iq list) \<Rightarrow> 'iq uplane_message_decoder_results \<Rightarrow> bytes \<Rightarrow>
   (decoded_section_status \<times> 'iq uplane_message_decoder_results \<times> bytes) option" where
  "decode_section cfg dch decompress res bs = do {
     (st, s, bs) \<leftarrow> decode_section_header cfg blank_section bs;
     if st \<noteq> status_ok then Some (st, res, bs) else do {
       (st, s, bs) \<leftarrow> dch s bs;
       if st \<noteq> status_ok then Some (st, res, bs) else do {
         (st, s, bs) \<leftarrow> decode_compression_length s bs (ud_comp_hdr s);
         if st \<noteq> status_ok then Some (st, res, bs)
         else if \<not> check_iq_data_size (sec_nof_prbs s) bs (ud_comp_hdr s)
         then Some (status_incomplete, res, bs)
         else if length (sections res) \<ge> RESULTS_MAX_NOF_SUPPORTED_SECTIONS then None
         else do {
           (sec, bs) \<leftarrow> decode_iq_data decompress (fill_results_from_decoder_section s) bs (ud_comp_hdr s);
           Some (status_ok, res\<lparr>sections := sections res @ [sec]\<rparr>, bs)
         }
       }
     }
   }"

lemma decode_section_ok_grows:
  "decode_section cfg dch dec res bs = Some (status_ok, res', bs') \<Longrightarrow>
     length (sections res') = Suc (length (sections res)) \<and> params res' = params res \<and>
     length (sections res) < RESULTS_MAX_NOF_SUPPORTED_SECTIONS"
  by (auto simp: decode_section_def split: Option.bind_splits if_splits prod.splits)

text \<open>The section loop: every iteration that continues adds a section and the capacity is fixed.\<close>

function (sequential) decode_all_sections ::
  "uplane_decoder_config \<Rightarrow> (decoder_uplane_section_params \<Rightarrow> bytes \<Rightarrow> section_step) \<Rightarrow>
   (nat \<Rightarrow> bytes \<Rightarrow> ru_compression_params \<Rightarrow> 'iq list) \<Rightarrow> 'iq uplane_message_decoder_results \<Rightarrow> bytes \<Rightarrow>
   (bool \<times> 'iq uplane_message_decoder_results) option" where
  "decode_all_sections cfg dch dec res bs =
     (if bs = [] then Some (sections res \<noteq> [], res)
      else case decode_section cfg dch dec res bs of
        None \<Rightarrow> None
      | Some (status_incomplete, res', bs') \<Rightarrow> Some (sections res' \<noteq> [], res')
      | Some (status_malformed, res', bs') \<Rightarrow> Some (False, res')
      | Some (status_ok, res', bs') \<Rightarrow>
          if length (sections res') = RESULTS_MAX_NOF_SUPPORTED_SECTIONS then Some (False, res')
          else decode_all_sections cfg dch dec res' bs')"
  by pat_completeness auto
termination
  by (relation "measure (\<lambda>(cfg, dch, dec, res, bs). RESULTS_MAX_NOF_SUPPORTED_SECTIONS - length (sections res))")
    (auto dest!: decode_section_ok_grows)

declare decode_all_sections.simps [simp del]

text \<open>One iteration of the section loop.\<close>

lemma decode_all_sections_step:
  assumes "decode_section cfg dch dec res bs = Some (st, res', bs')"
  shows "decode_all_sections cfg dch dec res bs =
    (if bs = [] then Some (sections res \<noteq> [], res)
     else case st of
       status_incomplete \<Rightarrow> Some (sections res' \<noteq> [], res')
     | status_malformed \<Rightarrow> Some (False, res')
     | status_ok \<Rightarrow>
         if length (sections res') = RESULTS_MAX_NOF_SUPPORTED_SECTIONS then Some (False, res')
         else decode_all_sections cfg dch dec res' bs')"
  using assms by (subst decode_all_sections.simps) (cases st; simp)

definition uplane_decode ::
  "uplane_decoder_config \<Rightarrow> (decoder_uplane_section_params \<Rightarrow> bytes \<Rightarrow> section_step) \<Rightarrow>
   (nat \<Rightarrow> bytes \<Rightarrow> ru_compression_params \<Rightarrow> 'iq list) \<Rightarrow> 'iq uplane_message_decoder_results \<Rightarrow> bytes \<Rightarrow>
   (bool \<times> 'iq uplane_message_decoder_results) option" where
  "uplane_decode cfg dch dec res message = do {
     (ok, p, bs) \<leftarrow> up_decode_header cfg (params res) message;
     let res = res\<lparr>params := p\<rparr>;
     if \<not> ok then Some (False, res) else decode_all_sections cfg dch dec res bs
   }"

section \<open>Peekers\<close>

definition peek_filter_index :: "bytes \<Rightarrow> filter_index_type option" where
  "peek_filter_index message =
     (if message = [] then None else Some (to_filter_index_type (unat (message ! 0) AND 15)))"

definition peek_slot_symbol_point :: "bytes \<Rightarrow> nat \<Rightarrow> nat \<Rightarrow> slot_symbol_point option" where
  "peek_slot_symbol_point message nsym numerology =
     (if length message < 4 then None
      else let frame = unat (message ! 1);
               subframe_and_slot = unat (message ! 2);
               subframe = drop_bit 4 subframe_and_slot;
               slot_and_symbol = unat (message ! 3);
               symbol_id = slot_and_symbol AND 63;
               slot_id = push_bit 2 (subframe_and_slot AND 15) OR drop_bit 6 slot_and_symbol
           in if subframe \<ge> NOF_SUBFRAMES_PER_FRAME then None
              else if slot_id \<ge> slots_per_subframe numerology then None
              else if symbol_id \<ge> nsym then None
              else Some (slot_symbol_point_of (slot_point_subframe numerology frame subframe slot_id)
                           symbol_id nsym))"

section \<open>Fields on the wire\<close>

lemma round_up_to_bytes_prb: "round_up_to_bytes (24 * w) = 3 * w" "round_up_to_bytes (8 + 24 * w) = 3 * w + 1"
  unfolding round_up_to_bytes_def by presburger+

lemma prb_size_eq: "get_compressed_prb_size c =
    3 * data_width c + (if is_compression_param_present (compr_type c) then 1 else 0)"
  by (simp add: get_compressed_prb_size_def Let_def round_up_to_bytes_prb NOF_SUBCARRIERS_PER_RB_def add.commute)

text \<open>The three computations of the size of the IQ data of a section agree.\<close>

lemma check_iq_data_size_iff: "check_iq_data_size n bs c \<longleftrightarrow> get_compressed_prb_size c * n \<le> length bs"
  by (simp add: check_iq_data_size_def prb_size_eq Let_def round_up_to_bytes_prb NOF_SUBCARRIERS_PER_RB_def not_less)

lemma decode_iq_data_eq:
  "decode_iq_data dec sec bs c =
     (if sec_nof_prbs sec * get_compressed_prb_size c \<le> length bs \<and> sec_nof_prbs sec \<le> MAX_NOF_PRBS
      then Some (sec\<lparr>iq_samples := dec (sec_nof_prbs sec * 12) (take (sec_nof_prbs sec * get_compressed_prb_size c) bs) c\<rparr>,
                 drop (sec_nof_prbs sec * get_compressed_prb_size c) bs)
      else None)"
proof -
  have "round_up_to_bytes (if is_compression_param_present (compr_type c) then
      NOF_SUBCARRIERS_PER_RB * 2 * data_width c + 8 else NOF_SUBCARRIERS_PER_RB * 2 * data_width c) =
    get_compressed_prb_size c"
    by (simp add: get_compressed_prb_size_def Let_def)
  then show ?thesis
    by (auto simp: decode_iq_data_def Let_def read_span_def MAX_NOF_SUBCARRIERS_def NOF_SUBCARRIERS_PER_RB_def)
qed

definition uplane_params_wf :: "uplane_decoder_config \<Rightarrow> uplane_message_params \<Rightarrow> bool" where
  "uplane_params_wf cfg p \<longleftrightarrow>
     sp_wf (up_slot p) \<and> numerology_val (up_slot p) = dec_numerology cfg \<and>
     up_direction p = expected_direction cfg \<and> up_filter_index p \<noteq> filter_reserved \<and>
     up_symbol_id p < dec_nof_symbols cfg \<and> dec_nof_symbols cfg \<le> 14 \<and>
     up_section_id p < 4096 \<and> up_start_prb p < 1024 \<and> 0 < up_nof_prb p \<and> up_nof_prb p \<le> MAX_NOF_PRBS \<and>
     (up_nof_prb p > 255 \<longrightarrow> up_nof_prb p = ru_nof_prbs cfg \<and> up_start_prb p = 0) \<and> up_sect_type p = type_1"

lemma unat_up_encode_data_direction:
  "unat (up_encode_data_direction d f) = direction_value d * 128 + 16 + filter_value f"
proof -
  have "filter_value f AND 15 = filter_value f" using filter_value_le [of f] by (simp add: and_ones_nat)
  then show ?thesis
    unfolding up_encode_data_direction_def
    by (cases d; cases f) (simp_all only: direction_value_def OFH_PAYLOAD_VERSION_def, simp_all)
qed

lemma unat_up_encode_subframe_and_slot:
  assumes "sp_wf s"
  shows "unat (up_encode_subframe_and_slot s) = subframe_index s * 16 + subframe_slot_index s div 4"
  using unat_byte_field [of "subframe_slot_index s div 4" 4 "subframe_index s"]
    sp_wf_bounds(2) [OF assms] slot_in_subframe_le [OF assms]
  by (simp add: up_encode_subframe_and_slot_def drop_bit_nat)

lemma unat_encode_slot_lsb_and_symbol:
  assumes "up_symbol_id p < 64"
  shows "unat (encode_slot_lsb_and_symbol p) = subframe_slot_index (up_slot p) mod 4 * 64 + up_symbol_id p"
  using unat_byte_field [of "up_symbol_id p" 6 "subframe_slot_index (up_slot p) mod 4"] assms
    mod_less_divisor [of 4 "subframe_slot_index (up_slot p)"]
  by (simp add: encode_slot_lsb_and_symbol_def and_ones_nat)

text \<open>The first four bytes of Control-Plane and User-Plane messages have the same layout.\<close>

lemma radio_header_fields:
  assumes "sp_wf s" "symbol < 64"
  shows "(subframe_index s * 16 + subframe_slot_index s div 4) div 16 = subframe_index s"
    and "push_bit 2 ((subframe_index s * 16 + subframe_slot_index s div 4) mod 16) OR
      (subframe_slot_index s mod 4 * 64 + symbol) div 64 = subframe_slot_index s"
    and "(subframe_slot_index s mod 4 * 64 + symbol) mod 64 = symbol"
proof -
  have l: "subframe_slot_index s div 4 < 16" using slot_in_subframe_le [OF assms(1)] by simp
  then have m: "(subframe_index s * 16 + subframe_slot_index s div 4) mod 16 = subframe_slot_index s div 4" by simp
  show "(subframe_index s * 16 + subframe_slot_index s div 4) div 16 = subframe_index s" using l by simp
  show "(subframe_slot_index s mod 4 * 64 + symbol) mod 64 = symbol" using assms by simp
  show "push_bit 2 ((subframe_index s * 16 + subframe_slot_index s div 4) mod 16) OR
      (subframe_slot_index s mod 4 * 64 + symbol) div 64 = subframe_slot_index s"
    using or_disjoint_nat [of "subframe_slot_index s mod 4" 2 "subframe_slot_index s div 4"] assms(2)
    unfolding m by simp
qed

lemma direction_byte_fields:
  "(direction_value d * 128 + 16 + filter_value f) div 128 = direction_value d"
  "(direction_value d * 128 + 16 + filter_value f) div 16 mod 8 = 1"
  "(direction_value d * 128 + 16 + filter_value f) mod 16 = filter_value f"
  by (cases d; cases f; simp add: direction_value_def)+

lemma up_decode_header_build [wire]:
  assumes wf: "uplane_params_wf cfg p"
  shows "up_decode_header cfg p0 (build_radio_app_header p @ r) =
     Some (True, p0\<lparr>up_direction := up_direction p, up_filter_index := up_filter_index p,
                   up_symbol_id := up_symbol_id p, up_slot := wire_slot (up_slot p)\<rparr>, r)"
proof -
  let ?s = "up_slot p"
  have s: "sp_wf ?s" and sym: "up_symbol_id p < 64" and num: "numerology_val ?s = dec_numerology cfg"
    using wf by (auto simp: uplane_params_wf_def)
  have sf: "subframe_index ?s < 10" "subframe_slot_index ?s < slots_per_subframe (dec_numerology cfg)"
    using sp_wf_bounds [OF s] num by auto
  note d = direction_byte_fields [folded unat_up_encode_data_direction]
  note f = radio_header_fields [OF s sym, folded unat_up_encode_subframe_and_slot [OF s]
      unat_encode_slot_lsb_and_symbol [OF sym]]
  show ?thesis
    using wf sf
    by (simp add: up_decode_header_def build_radio_app_header_def Let_def and_ones_nat drop_bit_nat d f
        NOF_BYTES_UP_HEADER_def NOF_SUBFRAMES_PER_FRAME_def up_is_header_valid_def
        OFH_PAYLOAD_VERSION_def uplane_params_wf_def wire_slot_def num unat_byte)
qed

definition wire_up_section :: "uplane_message_params \<Rightarrow> decoder_uplane_section_params" where
  "wire_up_section p =
     \<lparr>sec_section_id = up_section_id p, is_every_rb_used = True, use_current_symbol_number = True,
      sec_start_prb = up_start_prb p, sec_nof_prbs = up_nof_prb p,
      ud_comp_hdr = ud_comp_hdr blank_section, ud_comp_len = None\<rparr>"

lemma section_byte_fields:
  assumes "(h::nat) < 4"
  shows "(i * 16 + h) div 16 = i" "(i * 16 + h) mod 4 = h" "(i * 16 + h) div 8 mod 2 = 0"
    "(i * 16 + h) div 4 mod 2 = 0"
proof -
  have "(h + (i * 2) * 8) div 8 = i * 2" "(h + (i * 4) * 4) div 4 = i * 4" "(h + (i * 4) * 4) mod 4 = h"
    "(h + i * 16) div 16 = i"
    using assms by (simp_all only: div_mult_self1 mod_mult_self1 div_less mod_less less_numeral_extra)
  then show "(i * 16 + h) div 16 = i" "(i * 16 + h) mod 4 = h" "(i * 16 + h) div 8 mod 2 = 0"
    "(i * 16 + h) div 4 mod 2 = 0"
    by (simp_all add: algebra_simps)
qed

lemma decode_section_header_build [wire]:
  assumes wf: "uplane_params_wf cfg p"
  shows "decode_section_header cfg blank_section (build_section1_header p @ r) =
     Some (status_ok, wire_up_section p, r)"
proof -
  have b: "up_section_id p < 4096" "up_start_prb p < 1024" "0 < up_nof_prb p"
    using wf by (simp_all add: uplane_params_wf_def)
  let ?i = "up_section_id p mod 16" and ?h = "up_start_prb p div 256"
  have h: "?h < 4" using b by simp
  have e: "unat (up_encode_sect_id_rb_symbols p) = ?i * 16 + ?h"
    using unat_byte_field [of ?h 4 ?i] b(2) mod_less_divisor [of 16 "up_section_id p"]
    by (simp add: up_encode_sect_id_rb_symbols_def and_ones_nat drop_bit_nat)
  have o: "push_bit 4 (x div 16) OR x mod 16 = x" "push_bit 8 (x div 256) OR x mod 256 = x" for x :: nat
    using or_disjoint_nat [of "x mod 16" 4 "x div 16"] or_disjoint_nat [of "x mod 256" 8 "x div 256"] by simp_all
  have d: "(?i * 16 + ?h) div 16 = ?i" "(?i * 16 + ?h) mod 4 = ?h" "(?i * 16 + ?h) div 8 mod 2 = 0"
    "(?i * 16 + ?h) div 4 mod 2 = 0"
    using section_byte_fields [OF h, of ?i] by auto
  note d' = d [folded e]
  have id: "up_section_id p div 16 mod 256 = up_section_id p div 16" using b by simp
  show ?thesis
    using wf by (simp add: decode_section_header_def build_section1_header_def Let_def unat_byte and_ones_nat
        drop_bit_nat d' id o SECTION_ID_HEADER_NO_COMPRESSION_SIZE_def wire_up_section_def blank_section_def
        uplane_params_wf_def)
qed

section \<open>The decoder and its compression header\<close>

text \<open>
  What every compression header decoder promises to the section decoder: it stays inside the
  message and only sets the compression parameters of the section.
\<close>

lemma sec_nof_prbs_fill [simp]: "sec_nof_prbs (fill_results_from_decoder_section s) = sec_nof_prbs s"
  by (simp add: fill_results_from_decoder_section_def decoder_uplane_section_params.defs)

locale uplane_header_decoder =
  fixes dch :: "decoder_uplane_section_params \<Rightarrow> bytes \<Rightarrow> section_step"
  assumes dch_safe: "\<exists>st s' bs'. dch s bs = Some (st, s', bs') \<and> sec_nof_prbs s' = sec_nof_prbs s \<and> length bs' \<le> length bs"
begin

lemma decode_section_header_safe:
  "\<exists>st s' bs'. decode_section_header cfg s bs = Some (st, s', bs') \<and> length bs' \<le> length bs \<and>
     (st = status_ok \<longrightarrow> sec_nof_prbs s' \<le> max 255 (ru_nof_prbs cfg))"
  by (auto simp: decode_section_header_def SECTION_ID_HEADER_NO_COMPRESSION_SIZE_def Let_def read_u8_enough
      le_max_iff_disj unat_byte_le)

lemma decode_compression_length_safe:
  "\<exists>st s' bs'. decode_compression_length s bs c = Some (st, s', bs') \<and> sec_nof_prbs s' = sec_nof_prbs s \<and>
     length bs' \<le> length bs"
  by (auto simp: decode_compression_length_def read_u16_enough)

lemma decode_section_safe:
  assumes "ru_nof_prbs cfg \<le> MAX_NOF_PRBS" "length (sections res) < RESULTS_MAX_NOF_SUPPORTED_SECTIONS"
  shows "\<exists>st res' bs'. decode_section cfg dch dec res bs = Some (st, res', bs') \<and>
     (st \<noteq> status_ok \<longrightarrow> res' = res)"
proof -
  obtain st s bs1 where h: "decode_section_header cfg blank_section bs = Some (st, s, bs1)"
    and n: "st = status_ok \<Longrightarrow> sec_nof_prbs s \<le> 275"
    using decode_section_header_safe [of cfg blank_section bs] assms(1) by (auto simp: MAX_NOF_PRBS_def)
  obtain st2 s2 bs2 where c: "dch s bs1 = Some (st2, s2, bs2)" "sec_nof_prbs s2 = sec_nof_prbs s"
    using dch_safe [of s bs1] by blast
  obtain st3 s3 bs3 where l: "decode_compression_length s2 bs2 (ud_comp_hdr s2) = Some (st3, s3, bs3)"
    "sec_nof_prbs s3 = sec_nof_prbs s"
    using decode_compression_length_safe [of s2 bs2 "ud_comp_hdr s2"] c(2) by auto
  have "\<exists>sec r. decode_iq_data dec (fill_results_from_decoder_section s3) bs3 (ud_comp_hdr s3) = Some (sec, r)"
    if "st = status_ok" "check_iq_data_size (sec_nof_prbs s3) bs3 (ud_comp_hdr s3)"
    using n that l(2) by (simp add: decode_iq_data_eq check_iq_data_size_iff MAX_NOF_PRBS_def mult.commute)
  then show ?thesis
    using assms(2) by (cases "st = status_ok"; cases "st2 = status_ok"; cases "st3 = status_ok";
        cases "check_iq_data_size (sec_nof_prbs s3) bs3 (ud_comp_hdr s3)")
      (auto simp: decode_section_def h c(1) l(1))
qed

lemma decode_all_sections_safe:
  assumes "ru_nof_prbs cfg \<le> MAX_NOF_PRBS" "length (sections res) < RESULTS_MAX_NOF_SUPPORTED_SECTIONS"
  shows "\<exists>ok res'. decode_all_sections cfg dch dec res bs = Some (ok, res') \<and> params res' = params res \<and>
     (ok \<longrightarrow> length (sections res') = 1)"
proof -
  have last: "\<exists>ok res'. decode_all_sections cfg dch dec res bs = Some (ok, res') \<and> params res' = params res \<and>
      (ok \<longrightarrow> length (sections res') = 1)" if one: "length (sections res) = 1" for res bs
  proof -
    obtain st res1 bs1 where d: "decode_section cfg dch dec res bs = Some (st, res1, bs1)"
      and same: "st \<noteq> status_ok \<longrightarrow> res1 = res"
      using decode_section_safe [OF assms(1)] one by (metis RESULTS_MAX_NOF_SUPPORTED_SECTIONS_def one_less_numeral_iff semiring_norm(76))
    have "st = status_ok \<Longrightarrow> length (sections res1) = 2 \<and> params res1 = params res"
      using decode_section_ok_grows [of cfg dch dec res bs res1 bs1] d one by simp
    then show ?thesis
      unfolding decode_all_sections_step [OF d] using one same
      by (cases st) (auto simp: RESULTS_MAX_NOF_SUPPORTED_SECTIONS_def)
  qed
  obtain st res1 bs1 where d: "decode_section cfg dch dec res bs = Some (st, res1, bs1)"
    and same: "st \<noteq> status_ok \<longrightarrow> res1 = res"
    using decode_section_safe [OF assms] by blast
  show ?thesis
  proof (cases "length (sections res) = 0")
    case True
    then have "st = status_ok \<Longrightarrow> length (sections res1) = 1 \<and> params res1 = params res"
      using decode_section_ok_grows [of cfg dch dec res bs res1 bs1] d by simp
    then show ?thesis
      unfolding decode_all_sections_step [OF d] using True same last [of res1 bs1]
      by (cases st) (auto simp: RESULTS_MAX_NOF_SUPPORTED_SECTIONS_def)
  next
    case False
    then show ?thesis using last [of res bs] assms(2)
      by (simp add: RESULTS_MAX_NOF_SUPPORTED_SECTIONS_def numeral_2_eq_2 less_Suc_eq)
  qed
qed

end

lemma up_decode_header_safe:
  assumes "dec_numerology cfg < NOF_NUMEROLOGIES"
  shows "\<exists>ok p r. up_decode_header cfg p0 bs = Some (ok, p, r) \<and>
     (ok \<longrightarrow> length bs = length r + 4 \<and> sp_wf (up_slot p) \<and> sfn (up_slot p) < 256 \<and>
        numerology_val (up_slot p) = dec_numerology cfg \<and> up_symbol_id p < dec_nof_symbols cfg \<and>
        up_direction p = expected_direction cfg \<and> up_filter_index p \<noteq> filter_reserved)"
proof (cases "length bs < 4")
  case False
  have pre: "slot_point_subframe_pre (dec_numerology cfg) (unat b) sf sl"
    if "\<not> NOF_SUBFRAMES_PER_FRAME \<le> sf" "\<not> slots_per_subframe (dec_numerology cfg) \<le> sl" for b :: byte and sf sl
    using that assms unat_byte_le [of b] by (simp add: slot_point_subframe_pre_def NOF_SFNS_def)
  show ?thesis
    using False pre slot_point_subframe_wf [OF pre]
    by (auto simp: up_decode_header_def NOF_BYTES_UP_HEADER_def read_u8_enough Let_def up_is_header_valid_def)
qed (auto simp: up_decode_header_def NOF_BYTES_UP_HEADER_def)

text \<open>
  A compression header codec: on top of the promise of the decoder, the decoder reads back what the
  serializer of the builder wrote for the parameters both sides agree on.
\<close>

locale uplane_header_codec = uplane_header_decoder dch for dch +
  fixes ser :: "ru_compression_params \<Rightarrow> bytes" and c_ok :: "ru_compression_params \<Rightarrow> bool"
  assumes dch_ser: "c_ok c \<Longrightarrow> dch s (ser c @ r) = Some (status_ok, s\<lparr>ud_comp_hdr := c\<rparr>, r)"
begin

lemma decode_section_build:
  assumes wf: "uplane_params_wf cfg p" and c: "c_ok c"
    and plain: "compr_type c \<in> {compr_none, BFP, block_scaling, mu_law, modulation}"
    and len: "length pl = up_nof_prb p * get_compressed_prb_size c"
    and room: "length (sections res) < RESULTS_MAX_NOF_SUPPORTED_SECTIONS"
  shows "decode_section cfg dch dec res (build_section1_header p @ ser c @ pl) =
    Some (status_ok, res\<lparr>sections := sections res @ [decoder_uplane_section_params.extend
      ((wire_up_section p)\<lparr>ud_comp_hdr := c\<rparr>) \<lparr>iq_samples = dec (up_nof_prb p * 12) pl c\<rparr>]\<rparr>, [])"
proof -
  let ?s = "(wire_up_section p)\<lparr>ud_comp_hdr := c\<rparr>"
  have n: "sec_nof_prbs (wire_up_section p) = up_nof_prb p" "up_nof_prb p \<le> MAX_NOF_PRBS"
    using wf by (simp_all add: wire_up_section_def uplane_params_wf_def)
  have "decode_compression_length ?s pl c = Some (status_ok, ?s, pl)"
    using plain by (simp add: decode_compression_length_def)
  moreover have "check_iq_data_size (sec_nof_prbs ?s) pl c"
    using len n by (simp add: check_iq_data_size_iff mult.commute)
  moreover have "decode_iq_data dec (fill_results_from_decoder_section ?s) pl c =
      Some (decoder_uplane_section_params.extend ?s \<lparr>iq_samples = dec (up_nof_prb p * 12) pl c\<rparr>, [])"
    using len n by (simp add: decode_iq_data_eq)
      (simp add: fill_results_from_decoder_section_def decoder_uplane_section_params.defs)
  ultimately show ?thesis
    using room c by (simp add: decode_section_def decode_section_header_build [OF wf] dch_ser)
qed

lemma round_trip:
  assumes wf: "uplane_params_wf cfg p" and c: "c_ok (up_compression_params p)"
    and plain: "compr_type (up_compression_params p) \<in> {compr_none, BFP, block_scaling, mu_law, modulation}"
    and len: "length (compress iq (up_compression_params p)) =
      up_nof_prb p * get_compressed_prb_size (up_compression_params p)"
    and iq: "length iq = up_nof_prb p * NOF_SUBCARRIERS_PER_RB" and fresh: "sections res = []"
  shows "\<exists>msg. build_message compress ser iq p = Some msg \<and>
     uplane_decode cfg dch dec res msg =
       Some (True, \<lparr>params = (params res)\<lparr>up_direction := up_direction p, up_filter_index := up_filter_index p,
                     up_symbol_id := up_symbol_id p, up_slot := wire_slot (up_slot p)\<rparr>,
         sections = [decoder_uplane_section_params.extend
           ((wire_up_section p)\<lparr>ud_comp_hdr := up_compression_params p\<rparr>)
           \<lparr>iq_samples = dec (up_nof_prb p * 12) (compress iq (up_compression_params p)) (up_compression_params p)\<rparr>]\<rparr>)"
proof -
  let ?c = "up_compression_params p"
  let ?msg = "build_radio_app_header p @ build_section1_header p @ ser ?c @ compress iq ?c"
  have msg: "build_message compress ser iq p = Some ?msg"
    using wf iq len by (simp add: build_message_def uplane_params_wf_def serialize_iq_data_def
        ud_comp_length_support_def mult.commute)
  let ?h = "(params res)\<lparr>up_direction := up_direction p, up_filter_index := up_filter_index p,
      up_symbol_id := up_symbol_id p, up_slot := wire_slot (up_slot p)\<rparr>"
  note d = decode_section_build [OF wf c plain len, of "res\<lparr>params := ?h\<rparr>" dec]
  have "decode_all_sections cfg dch dec (res\<lparr>params := ?h\<rparr>) (build_section1_header p @ ser ?c @ compress iq ?c) =
      Some (True, \<lparr>params = ?h, sections = [decoder_uplane_section_params.extend
        ((wire_up_section p)\<lparr>ud_comp_hdr := ?c\<rparr>) \<lparr>iq_samples = dec (up_nof_prb p * 12) (compress iq ?c) ?c\<rparr>]\<rparr>)"
    using fresh
    by (subst decode_all_sections_step [OF d])
      (simp_all add: RESULTS_MAX_NOF_SUPPORTED_SECTIONS_def decode_all_sections.simps build_section1_header_def)
  then show ?thesis
    using msg by (simp add: uplane_decode_def up_decode_header_build [OF wf] Let_def)
qed

end

lemma up_dynamic_header_safe:
  "\<exists>st s' bs'. up_decode_compression_header_dynamic s bs = Some (st, s', bs') \<and>
     sec_nof_prbs s' = sec_nof_prbs s \<and> length bs' \<le> length bs"
  by (auto simp: up_decode_compression_header_dynamic_def Let_def read_u8_enough advance_enough)

lemma up_dynamic_header_round_trip:
  assumes "compr_wf c" "compr_type c \<noteq> compr_reserved"
  shows "up_decode_compression_header_dynamic s (up_serialize_compression_header_dynamic c @ r) =
    Some (status_ok, s\<lparr>ud_comp_hdr := c\<rparr>, r)"
proof -
  let ?w = "if data_width c = 16 then 0 else data_width c" and ?t = "compression_value (compr_type c)"
  have t: "?t < 16" using compression_value_le [of "compr_type c"] by simp
  have "(?w * 16 + ?t) mod 16 = ?t" "(?w * 16 + ?t) div 16 = ?w" using t by simp_all
  note f = this [folded unat_dynamic_header [OF assms(1)]]
  have "(ud_comp_hdr s)\<lparr>compr_type := compr_type c, data_width := data_width c\<rparr> = c" by simp
  then show ?thesis
    using assms f
    by (auto simp: up_decode_compression_header_dynamic_def up_serialize_compression_header_dynamic_def Let_def
        and_ones_nat drop_bit_nat advance_enough write_u8_def [of 0] MAX_IQ_WIDTH_def compr_wf_def)
qed

interpretation up_dynamic: uplane_header_codec up_decode_compression_header_dynamic
  up_serialize_compression_header_dynamic "\<lambda>c. compr_wf c \<and> compr_type c \<noteq> compr_reserved"
  by unfold_locales (auto intro: up_dynamic_header_safe up_dynamic_header_round_trip)

interpretation up_static: uplane_header_codec "up_decode_compression_header_static cfg_params"
  up_serialize_compression_header_static "\<lambda>c. c = cfg_params" for cfg_params
  by unfold_locales (simp_all add: up_decode_compression_header_static_def up_serialize_compression_header_static_def)

section \<open>Properties\<close>

lemma decode_section_params:
  "decode_section cfg dch dec res bs = Some (st, res', bs') \<Longrightarrow> params res' = params res"
  by (auto simp: decode_section_def split: Option.bind_splits if_splits prod.splits)

text \<open>What every section step keeps, the section loop keeps.\<close>

lemma decode_all_sections_invariant:
  assumes keep: "\<And>res bs st res' bs'. decode_section cfg dch dec res bs = Some (st, res', bs') \<Longrightarrow> P res \<Longrightarrow> P res'"
  shows "decode_all_sections cfg dch dec res bs = Some (ok, res') \<Longrightarrow> P res \<Longrightarrow> P res'"
proof (induction "RESULTS_MAX_NOF_SUPPORTED_SECTIONS - length (sections res)" arbitrary: res bs rule: less_induct)
  case less
  show ?case
  proof (cases "decode_section cfg dch dec res bs")
    case None
    then show ?thesis using less.prems by (subst (asm) decode_all_sections.simps) (auto split: if_splits)
  next
    case (Some x)
    obtain st res1 bs1 where d: "decode_section cfg dch dec res bs = Some (st, res1, bs1)"
      using Some by (cases x) auto
    have p1: "P res1" by (rule keep [OF d less.prems(2)])
    show ?thesis
    proof (cases "st = status_ok \<and> bs \<noteq> [] \<and> length (sections res1) \<noteq> RESULTS_MAX_NOF_SUPPORTED_SECTIONS")
      case True
      then have "decode_all_sections cfg dch dec res1 bs1 = Some (ok, res')"
        using less.prems unfolding decode_all_sections_step [OF d] by simp
      moreover have "length (sections res1) = Suc (length (sections res))"
        "length (sections res) < RESULTS_MAX_NOF_SUPPORTED_SECTIONS"
        using decode_section_ok_grows [of cfg dch dec res bs res1 bs1] d True by auto
      ultimately show ?thesis using less.hyps [of res1 bs1] p1 by simp
    next
      case False
      then show ?thesis
        using less.prems p1 unfolding decode_all_sections_step [OF d] by (cases st) (auto split: if_splits)
    qed
  qed
qed

lemma decode_all_sections_params:
  "decode_all_sections cfg dch dec res bs = Some (ok, res') \<Longrightarrow> params res' = params res"
  using decode_all_sections_invariant [of cfg dch dec "\<lambda>r. params r = params res" res bs ok res'] decode_section_params
  by metis

lemma up_decode_header_peek:
  assumes "up_decode_header cfg p0 msg = Some (True, p, r)"
  shows "peek_slot_symbol_point msg (dec_nof_symbols cfg) (dec_numerology cfg) =
    Some (slot_symbol_point_of (up_slot p) (up_symbol_id p) (dec_nof_symbols cfg))"
  using assms
  by (auto simp: up_decode_header_def peek_slot_symbol_point_def NOF_BYTES_UP_HEADER_def read_u8_enough Let_def
      up_is_header_valid_def hd_drop_conv_nth hd_conv_nth numeral_2_eq_2 numeral_3_eq_3 split: if_splits)

lemma uplane_decode_total:
  assumes "dec_numerology cfg < NOF_NUMEROLOGIES" "ru_nof_prbs cfg \<le> MAX_NOF_PRBS" "sections res = []"
    and "dch = up_decode_compression_header_dynamic \<or> dch = up_decode_compression_header_static c"
  shows "\<exists>ok res'. uplane_decode cfg dch dec res msg = Some (ok, res') \<and>
     (ok \<longrightarrow> length (sections res') = 1 \<and> sp_wf (up_slot (params res')) \<and> sfn (up_slot (params res')) < 256 \<and>
        up_symbol_id (params res') < dec_nof_symbols cfg \<and> up_direction (params res') = expected_direction cfg)"
proof -
  obtain ok p r where h: "up_decode_header cfg (params res) msg = Some (ok, p, r)"
    and ok: "ok \<longrightarrow> sp_wf (up_slot p) \<and> sfn (up_slot p) < 256 \<and> up_symbol_id p < dec_nof_symbols cfg \<and>
      up_direction p = expected_direction cfg"
    using up_decode_header_safe [OF assms(1), of "params res" msg] by blast
  have "length (sections (res\<lparr>params := p\<rparr>)) < RESULTS_MAX_NOF_SUPPORTED_SECTIONS"
    using assms(3) by (simp add: RESULTS_MAX_NOF_SUPPORTED_SECTIONS_def)
  then obtain ok2 res2 where "decode_all_sections cfg dch dec (res\<lparr>params := p\<rparr>) r = Some (ok2, res2)"
    "params res2 = p" "ok2 \<longrightarrow> length (sections res2) = 1"
    using up_dynamic.decode_all_sections_safe [OF assms(2), of "res\<lparr>params := p\<rparr>" dec r]
      up_static.decode_all_sections_safe [OF assms(2), of "res\<lparr>params := p\<rparr>" c dec r] assms(4)
    by fastforce
  then show ?thesis
    using h ok by (cases ok) (auto simp: uplane_decode_def Let_def)
qed

text \<open>The samples of a decoded section are as many as its PRBs say.\<close>

definition sections_sized :: "'iq uplane_message_decoder_results \<Rightarrow> bool" where
  "sections_sized res \<longleftrightarrow> (\<forall>sec \<in> set (sections res). length (iq_samples sec) = sec_nof_prbs sec * 12)"

lemma decode_section_sized:
  assumes "decode_section cfg dch dec res bs = Some (st, res', bs')" "sections_sized res" "\<And>n bs c. length (dec n bs c) = n"
  shows "sections_sized res'"
  using assms
  by (auto simp: decode_section_def decode_iq_data_eq sections_sized_def split: Option.bind_splits if_splits prod.splits)

lemma decode_all_sections_sized:
  assumes "\<And>n bs c. length (dec n bs c) = n" "decode_all_sections cfg dch dec res bs = Some (ok, res')" "sections_sized res"
  shows "sections_sized res'"
  using decode_section_sized [OF _ _ assms(1)] assms(2,3) by (rule decode_all_sections_invariant)

lemma uplane_decode_sized:
  assumes "uplane_decode cfg dch dec res msg = Some (ok, res')" "sections res = []" "\<And>n bs c. length (dec n bs c) = n"
  shows "sections_sized res'"
  using assms(1,2) decode_all_sections_sized [OF assms(3)]
  by (auto simp: uplane_decode_def Let_def sections_sized_def split: Option.bind_splits if_splits)


definition sample_decoder :: uplane_decoder_config where
  "sample_decoder = \<lparr>dec_numerology = 1, dec_nof_symbols = 14, ru_nof_prbs = 273, expected_direction = downlink\<rparr>"

definition sample_up_params :: uplane_message_params where
  "sample_up_params = \<lparr>up_direction = downlink, up_slot = slot_point_subframe 1 700 9 1,
     up_filter_index = standard_channel_filter, up_start_prb = 100, up_nof_prb = 2, up_symbol_id = 13,
     up_sect_type = type_1, up_compression_params = \<lparr>compr_type = BFP, data_width = 9\<rparr>, up_section_id = 77\<rparr>"

definition empty_up_results :: "'iq uplane_message_decoder_results" where
  "empty_up_results = \<lparr>params = sample_up_params, sections = []\<rparr>"


text \<open>
  C23: a User-Plane message built with a dynamic compression header is decoded to the same direction,
  filter, symbol and slot (SFN modulo 256) and to exactly one section with the same identifier, PRB
  range and compression parameters, whose IQ data is what the decompressor returns for the bytes the
  compressor produced.  The only fact used of the compressor is the size of its output.
\<close>

theorem uplane_round_trip:
  assumes "uplane_params_wf cfg p" "compr_wf (up_compression_params p)"
    and "compr_type (up_compression_params p) \<in> {compr_none, BFP, block_scaling, mu_law, modulation}"
    and "length (compress iq (up_compression_params p)) =
      up_nof_prb p * get_compressed_prb_size (up_compression_params p)"
    and "length iq = up_nof_prb p * NOF_SUBCARRIERS_PER_RB" "sections res = []"
  shows "\<exists>msg. build_message compress up_serialize_compression_header_dynamic iq p = Some msg \<and>
     uplane_decode cfg up_decode_compression_header_dynamic dec res msg =
       Some (True, \<lparr>params = (params res)\<lparr>up_direction := up_direction p, up_filter_index := up_filter_index p,
                     up_symbol_id := up_symbol_id p, up_slot := wire_slot (up_slot p)\<rparr>,
         sections = [decoder_uplane_section_params.extend
           ((wire_up_section p)\<lparr>ud_comp_hdr := up_compression_params p\<rparr>)
           \<lparr>iq_samples = dec (up_nof_prb p * 12) (compress iq (up_compression_params p)) (up_compression_params p)\<rparr>]\<rparr>)"
  using assms by (intro up_dynamic.round_trip) auto

lemma sample_up_wf: "uplane_params_wf sample_decoder sample_up_params"
proof -
  have "slot_point_subframe_pre 1 700 9 1"
    by (simp add: slot_point_subframe_pre_def NOF_NUMEROLOGIES_def NOF_SFNS_def NOF_SUBFRAMES_PER_FRAME_def
        slots_per_subframe_def)
  from slot_point_subframe_wf [OF this] slot_point_subframe_fields(5) [OF this] show ?thesis
    by (simp add: uplane_params_wf_def sample_up_params_def sample_decoder_def MAX_NOF_PRBS_def)
qed

theorem uplane_round_trip_witness:
  "\<exists>msg res'. build_message (\<lambda>iq c. replicate 56 7) up_serialize_compression_header_dynamic
       (replicate 24 ()) sample_up_params = Some msg \<and>
     uplane_decode sample_decoder up_decode_compression_header_dynamic (\<lambda>n bs c. replicate n ())
       empty_up_results msg = Some (True, res') \<and> length (sections res') = 1"
proof -
  have "compr_wf (up_compression_params sample_up_params)"
    "compr_type (up_compression_params sample_up_params) \<in> {compr_none, BFP, block_scaling, mu_law, modulation}"
    "length (replicate 56 (7 :: byte)) = up_nof_prb sample_up_params *
       get_compressed_prb_size (up_compression_params sample_up_params)"
    "length (replicate 24 ()) = up_nof_prb sample_up_params * NOF_SUBCARRIERS_PER_RB"
    "sections (empty_up_results :: unit uplane_message_decoder_results) = []"
    by (simp_all add: sample_up_params_def compr_wf_def prb_size_eq is_compression_param_present_def
        NOF_SUBCARRIERS_PER_RB_def empty_up_results_def)
  from uplane_round_trip [OF sample_up_wf this, of "\<lambda>n bs c. replicate n ()"]
  show ?thesis by auto
qed

text \<open>
  The peeker used for the reception window statistics reports, for every message that the
  User-Plane decoder accepts, the slot and the symbol that the decoder extracts.
\<close>

theorem peek_agrees_with_decode:
  assumes "uplane_decode cfg dch dec res msg = Some (True, res')"
  shows "peek_slot_symbol_point msg (dec_nof_symbols cfg) (dec_numerology cfg) =
    Some (slot_symbol_point_of (up_slot (params res')) (up_symbol_id (params res')) (dec_nof_symbols cfg))"
proof -
  obtain p r where h: "up_decode_header cfg (params res) msg = Some (True, p, r)"
    and d: "decode_all_sections cfg dch dec (res\<lparr>params := p\<rparr>) r = Some (True, res')"
    using assms by (auto simp: uplane_decode_def Let_def split: Option.bind_splits if_splits)
  from decode_all_sections_params [OF d] have "params res' = p" by simp
  with up_decode_header_peek [OF h] show ?thesis by simp
qed

theorem peek_agrees_with_decode_witness:
  "\<exists>msg. peek_slot_symbol_point msg 14 1 =
     Some (slot_symbol_point_of (wire_slot (slot_point_subframe 1 700 9 1)) 13 14)"
proof -
  let ?c = "\<lambda>(iq :: unit list) c. replicate 56 (7 :: byte)" and ?p = sample_up_params
  have "compr_wf (up_compression_params ?p) \<and> compr_type (up_compression_params ?p) \<noteq> compr_reserved"
    "compr_type (up_compression_params ?p) \<in> {compr_none, BFP, block_scaling, mu_law, modulation}"
    "length (?c (replicate 24 ()) (up_compression_params ?p)) =
       up_nof_prb ?p * get_compressed_prb_size (up_compression_params ?p)"
    "length (replicate 24 ()) = up_nof_prb ?p * NOF_SUBCARRIERS_PER_RB"
    "sections (empty_up_results :: unit uplane_message_decoder_results) = []"
    by (simp_all add: sample_up_params_def compr_wf_def prb_size_eq is_compression_param_present_def
        NOF_SUBCARRIERS_PER_RB_def empty_up_results_def)
  from up_dynamic.round_trip [OF sample_up_wf this, of "\<lambda>n bs c. replicate n ()"] obtain msg
    where "uplane_decode sample_decoder up_decode_compression_header_dynamic (\<lambda>n bs c. replicate n ())
        empty_up_results msg = Some (True, \<lparr>params = (params (empty_up_results :: unit uplane_message_decoder_results))
          \<lparr>up_direction := up_direction ?p, up_filter_index := up_filter_index ?p,
           up_symbol_id := up_symbol_id ?p, up_slot := wire_slot (up_slot ?p)\<rparr>,
          sections = [decoder_uplane_section_params.extend
            ((wire_up_section ?p)\<lparr>ud_comp_hdr := up_compression_params ?p\<rparr>)
            \<lparr>iq_samples = replicate (up_nof_prb ?p * 12) ()\<rparr>]\<rparr>)" by blast
  from peek_agrees_with_decode [OF this] show ?thesis
    by (auto simp: sample_decoder_def sample_up_params_def)
qed

end
