(* ===== verification/Window_Checks.thy ===== *)
theory Window_Checks
  imports Slot_Point
begin

text \<open>
  Sequence identifiers and timing windows: the sequence identifier generator of the transmitter and
  the checker of the receiver (lib/ofh/transmitter/sequence_identifier_generator.h,
  lib/ofh/receiver/ofh_sequence_id_checker_impl.h), the reception window checker
  (lib/ofh/receiver/ofh_rx_window_checker.cpp) and the transmission window checker
  (lib/ofh/transmitter/ofh_tx_window_checker.h).  Atomics are read and written in program order.
\<close>

section \<open>Sequence identifiers\<close>

definition MAX_SUPPORTED_EAXC_ID_VALUE :: nat where "MAX_SUPPORTED_EAXC_ID_VALUE = 32"
definition NOF_SEQUENCES_IDENTIFIERS :: int where "NOF_SEQUENCES_IDENTIFIERS = 256"

record sequence_id_checker =
  initialized :: "bool list"
  counters :: "byte list"

definition seq_checker_init :: sequence_id_checker where
  "seq_checker_init =
     \<lparr>initialized = replicate MAX_SUPPORTED_EAXC_ID_VALUE False,
      counters = replicate MAX_SUPPORTED_EAXC_ID_VALUE 0\<rparr>"

definition get_nof_skipped_sequence_id :: "byte \<Rightarrow> byte \<Rightarrow> int" where
  "get_nof_skipped_sequence_id seq_id expected =
     fold_half_open NOF_SEQUENCES_IDENTIFIERS (uint seq_id - uint expected)"

text \<open>None is the assertion on the eAxC value.\<close>

definition update_and_compare_seq_id ::
  "nat \<Rightarrow> byte \<Rightarrow> sequence_id_checker \<Rightarrow> (int \<times> sequence_id_checker) option" where
  "update_and_compare_seq_id eaxc seq_id chk =
     (if \<not> eaxc < MAX_SUPPORTED_EAXC_ID_VALUE then None
      else if \<not> initialized chk ! eaxc
      then Some (0, chk\<lparr>initialized := (initialized chk)[eaxc := True],
                        counters := (counters chk)[eaxc := seq_id]\<rparr>)
      else let expected = counters chk ! eaxc + 1
           in if seq_id = expected
              then Some (0, chk\<lparr>counters := (counters chk)[eaxc := counters chk ! eaxc + 1]\<rparr>)
              else let skipped = get_nof_skipped_sequence_id seq_id expected
                   in Some (skipped, if skipped > 0 then chk\<lparr>counters := (counters chk)[eaxc := seq_id]\<rparr> else chk))"

type_synonym sequence_identifier_generator = "byte list"

definition seq_generator_init :: "nat \<Rightarrow> sequence_identifier_generator" where
  "seq_generator_init init_value = replicate MAX_SUPPORTED_EAXC_ID_VALUE (of_nat init_value)"

definition seq_generate ::
  "nat \<Rightarrow> sequence_identifier_generator \<Rightarrow> (byte \<times> sequence_identifier_generator) option" where
  "seq_generate eaxc g =
     (if \<not> eaxc < MAX_SUPPORTED_EAXC_ID_VALUE then None else Some (g ! eaxc, g[eaxc := g ! eaxc + 1]))"

section \<open>Reception window\<close>

definition OFH_MAX_NOF_SFN :: nat where "OFH_MAX_NOF_SFN = 256"
definition EARLIEST_INITIAL_VALUE :: int where "EARLIEST_INITIAL_VALUE = 2147483647"

record rx_window_statistics =
  latest_packet_in_symbols :: int
  earliest_packet_in_symbols :: int
  on_time_counter :: nat
  early_counter :: nat
  late_counter :: nat
  last_on_time_value_printed :: nat
  last_early_value_printed :: nat
  last_late_value_printed :: nat

record rx_window_checker =
  sym_start :: nat
  sym_end :: nat
  is_disabled :: bool
  statistics :: rx_window_statistics
  slot_raw_value :: nat

record received_messages_metrics =
  nof_early_messages :: nat
  nof_on_time_messages :: nat
  nof_late_messages :: nat
  earliest_rx_msg_in_symbols :: int
  latest_rx_msg_in_symbols :: int

definition calculate_ofh_slot_symbol_point :: "slot_symbol_point \<Rightarrow> slot_symbol_point" where
  "calculate_ofh_slot_symbol_point p =
     (let ota_slot = get_slot p;
          ofh_slot = slot_point_sfn (numerology_val ota_slot) (sfn ota_slot mod OFH_MAX_NOF_SFN) (slot_index ota_slot)
      in slot_symbol_point_of ofh_slot (get_symbol_index p) (ssp_nof_symbols p))"

text \<open>Number of symbols after which the slots of the wire repeat.\<close>

definition ofh_symbols_wrap :: "nat \<Rightarrow> nat \<Rightarrow> int" where
  "ofh_symbols_wrap \<mu> nsym = int (OFH_MAX_NOF_SFN * NOF_SUBFRAMES_PER_FRAME * slots_per_subframe \<mu> * nsym)"

definition calculate_slot_symbol_point_distance :: "slot_symbol_point \<Rightarrow> slot_symbol_point \<Rightarrow> int" where
  "calculate_slot_symbol_point_distance lhs rhs =
     fold_half_open (ofh_symbols_wrap (ssp_numerology rhs) (ssp_nof_symbols rhs))
       (int (ssp_count lhs) - int (ssp_count rhs))"

definition rx_on_new_symbol :: "slot_symbol_point \<Rightarrow> rx_window_checker \<Rightarrow> rx_window_checker" where
  "rx_on_new_symbol p c =
     (if is_disabled c then c else c\<lparr>slot_raw_value := ssp_count (calculate_ofh_slot_symbol_point p)\<rparr>)"

definition update_minmax :: "int \<Rightarrow> int \<Rightarrow> int \<Rightarrow> int \<times> int" where
  "update_minmax v mx mn = (if v > mx then v else mx, if v < mn then v else mn)"

definition update_rx_timing_stats :: "int \<Rightarrow> rx_window_statistics \<Rightarrow> rx_window_statistics" where
  "update_rx_timing_stats v s =
     (let (mx, mn) = update_minmax v (latest_packet_in_symbols s) (earliest_packet_in_symbols s)
      in s\<lparr>latest_packet_in_symbols := mx, earliest_packet_in_symbols := mn\<rparr>)"

definition update_rx_window_statistics :: "slot_symbol_point \<Rightarrow> rx_window_checker \<Rightarrow> rx_window_checker" where
  "update_rx_window_statistics p c =
     (if is_disabled c then c
      else let ota_point = \<lparr>ssp_nof_symbols = ssp_nof_symbols p, ssp_numerology = ssp_numerology p,
                            ssp_count = slot_raw_value c\<rparr>;
               diff = calculate_slot_symbol_point_distance ota_point p;
               st = update_rx_timing_stats diff (statistics c)
           in if diff > int (sym_end c) then c\<lparr>statistics := st\<lparr>late_counter := late_counter st + 1\<rparr>\<rparr>
              else if diff < int (sym_start c) then c\<lparr>statistics := st\<lparr>early_counter := early_counter st + 1\<rparr>\<rparr>
              else c\<lparr>statistics := st\<lparr>on_time_counter := on_time_counter st + 1\<rparr>\<rparr>)"

definition rx_collect_metrics :: "rx_window_checker \<Rightarrow> received_messages_metrics \<times> rx_window_checker" where
  "rx_collect_metrics c =
     (let s = statistics c
      in (\<lparr>nof_early_messages = early_counter s - last_early_value_printed s,
           nof_on_time_messages = on_time_counter s - last_on_time_value_printed s,
           nof_late_messages = late_counter s - last_late_value_printed s,
           earliest_rx_msg_in_symbols =
             (if earliest_packet_in_symbols s = EARLIEST_INITIAL_VALUE then 0 else earliest_packet_in_symbols s),
           latest_rx_msg_in_symbols = latest_packet_in_symbols s\<rparr>,
          c\<lparr>statistics := s\<lparr>earliest_packet_in_symbols := EARLIEST_INITIAL_VALUE, latest_packet_in_symbols := 0,
                            last_late_value_printed := late_counter s,
                            last_early_value_printed := early_counter s,
                            last_on_time_value_printed := on_time_counter s\<rparr>\<rparr>))"

section \<open>Transmission window\<close>

record tx_window_checker =
  advance_time_in_symbols :: nat
  tx_nof_symbols :: nat
  tx_count_val :: nat
  tx_late_counter :: nat

definition tx_on_new_symbol :: "slot_symbol_point \<Rightarrow> tx_window_checker \<Rightarrow> tx_window_checker" where
  "tx_on_new_symbol p c = c\<lparr>tx_count_val := ssp_count p\<rparr>"

definition is_late :: "slot_point \<Rightarrow> tx_window_checker \<Rightarrow> bool \<times> tx_window_checker" where
  "is_late s c =
     (let ota = \<lparr>ssp_nof_symbols = tx_nof_symbols c, ssp_numerology = numerology_val s,
                 ssp_count = tx_count_val c\<rparr>;
          rg_point = ssp_minus (slot_symbol_point_of s 0 (tx_nof_symbols c)) (int (advance_time_in_symbols c))
      in if ssp_less ota rg_point then (False, c)
         else (True, c\<lparr>tx_late_counter := tx_late_counter c + 1\<rparr>))"

definition get_nof_lates_and_reset :: "tx_window_checker \<Rightarrow> nat \<times> tx_window_checker" where
  "get_nof_lates_and_reset c = (tx_late_counter c, c\<lparr>tx_late_counter := 0\<rparr>)"

section \<open>Lemmas\<close>

interpretation seq_dist: circular_distance NOF_SEQUENCES_IDENTIFIERS
  "\<lambda>a b. fold_half_open NOF_SEQUENCES_IDENTIFIERS (a - b)"
  by (rule fold_half_open_circular) (simp add: NOF_SEQUENCES_IDENTIFIERS_def)

interpretation rx_dist: circular_distance "ofh_symbols_wrap \<mu> nsym"
  "\<lambda>a b. fold_half_open (ofh_symbols_wrap \<mu> nsym) (a - b)" for \<mu> nsym
  by (rule fold_half_open_circular) (simp add: ofh_symbols_wrap_def OFH_MAX_NOF_SFN_def)

definition seq_checker_wf :: "sequence_id_checker \<Rightarrow> bool" where
  "seq_checker_wf c \<longleftrightarrow>
     length (initialized c) = MAX_SUPPORTED_EAXC_ID_VALUE \<and> length (counters c) = MAX_SUPPORTED_EAXC_ID_VALUE"

lemma update_and_compare_total:
  assumes "eaxc < MAX_SUPPORTED_EAXC_ID_VALUE"
  shows "\<exists>r chk'. update_and_compare_seq_id eaxc seq_id chk = Some (r, chk')"
proof -
  have "update_and_compare_seq_id eaxc seq_id chk \<noteq> None"
    using assms by (simp add: update_and_compare_seq_id_def Let_def)
  then show ?thesis by auto
qed

lemma seq_checker_init_wf [wf_intros]: "seq_checker_wf seq_checker_init"
  by (simp add: seq_checker_wf_def seq_checker_init_def)

lemma update_seq_wf [wf_intros]:
  "seq_checker_wf c \<Longrightarrow> update_and_compare_seq_id e q c = Some (r, c') \<Longrightarrow> seq_checker_wf c'"
  by (auto simp: update_and_compare_seq_id_def seq_checker_wf_def Let_def split: if_splits)

text \<open>Signed distance of sequence identifiers: the identifier that is \<open>k\<close> steps ahead has distance \<open>k\<close>.\<close>

lemma skipped_seq_ahead:
  assumes "- 128 < k" "k < 128"
  shows "get_nof_skipped_sequence_id (expected + of_int k) expected = k"
proof -
  have b: "0 \<le> uint e" "uint e < 256" for e :: byte
    using uint_bounded [of e] by simp_all
  have "uint (expected + of_int k) = (uint expected + k) mod 256"
    by (simp add: uint_word_ariths uint_word_of_int_eq take_bit_eq_mod mod_simps)
  then show ?thesis
    using seq_dist.dist_advance [of "uint expected" k] assms b [of expected]
    by (simp add: get_nof_skipped_sequence_id_def NOF_SEQUENCES_IDENTIFIERS_def)
qed

text \<open>A transmitter and a receiver in lock step: for each eAxC of the list, one message is sent.\<close>

fun seq_run ::
  "nat list \<Rightarrow> sequence_identifier_generator \<Rightarrow> sequence_id_checker \<Rightarrow> (int list \<times> sequence_id_checker) option" where
  "seq_run [] g c = Some ([], c)"
| "seq_run (e # es) g c = do {
     (q, g') \<leftarrow> seq_generate e g;
     (r, c') \<leftarrow> update_and_compare_seq_id e q c;
     (rs, c'') \<leftarrow> seq_run es g' c';
     Some (r # rs, c'') }"

definition seq_synced :: "sequence_identifier_generator \<Rightarrow> sequence_id_checker \<Rightarrow> bool" where
  "seq_synced g c \<longleftrightarrow> length g = MAX_SUPPORTED_EAXC_ID_VALUE \<and> seq_checker_wf c \<and>
     (\<forall>e < MAX_SUPPORTED_EAXC_ID_VALUE. initialized c ! e \<longrightarrow> g ! e = counters c ! e + 1)"

lemma seq_run_synced:
  "seq_synced g c \<Longrightarrow> \<forall>e \<in> set es. e < MAX_SUPPORTED_EAXC_ID_VALUE \<Longrightarrow>
     \<exists>c'. seq_run es g c = Some (replicate (length es) 0, c')"
proof (induction es arbitrary: g c)
  case (Cons e es)
  let ?g = "g[e := g ! e + 1]"
  let ?c = "c\<lparr>initialized := (initialized c)[e := True], counters := (counters c)[e := g ! e]\<rparr>"
  have e: "e < MAX_SUPPORTED_EAXC_ID_VALUE" using Cons.prems by simp
  have len: "length g = MAX_SUPPORTED_EAXC_ID_VALUE" "length (initialized c) = MAX_SUPPORTED_EAXC_ID_VALUE"
    "length (counters c) = MAX_SUPPORTED_EAXC_ID_VALUE"
    using Cons.prems(1) by (simp_all add: seq_synced_def seq_checker_wf_def)
  have syn: "initialized c ! e \<Longrightarrow> g ! e = counters c ! e + 1"
    using Cons.prems(1) e by (simp add: seq_synced_def)
  have "initialized c ! e \<Longrightarrow> (initialized c)[e := True] = initialized c"
    by (metis list_update_id)
  then have "update_and_compare_seq_id e (g ! e) c = Some (0, ?c)"
    using e syn by (cases c) (auto simp: update_and_compare_seq_id_def)
  moreover have "seq_synced ?g ?c"
    using Cons.prems(1) e len by (auto simp: seq_synced_def seq_checker_wf_def nth_list_update)
  ultimately show ?case
    using Cons.IH [of ?g ?c] Cons.prems(2) e by (auto simp: seq_generate_def)
qed simp

text \<open>
  The sequence identifiers of the transmitter's generator are accepted by the receiver's checker
  without a reported gap, for any number of messages, any interleaving of eAxCs and any wrap-around
  of the eight-bit identifiers.
\<close>

theorem seq_ids_in_order_accepted:
  assumes "\<forall>e \<in> set es. e < MAX_SUPPORTED_EAXC_ID_VALUE"
  shows "\<exists>c'. seq_run es (seq_generator_init v) seq_checker_init = Some (replicate (length es) 0, c')"
proof (rule seq_run_synced [OF _ assms])
  show "seq_synced (seq_generator_init v) seq_checker_init"
    by (simp add: seq_synced_def seq_generator_init_def seq_checker_wf_def seq_checker_init_def)
qed

theorem seq_ids_in_order_accepted_witness:
  "\<exists>c'. seq_run [3, 31, 3] (seq_generator_init 255) seq_checker_init = Some ([0, 0, 0], c')"
  using seq_ids_in_order_accepted [of "[3, 31, 3]" 255]
  by (simp add: MAX_SUPPORTED_EAXC_ID_VALUE_def numeral_3_eq_3)

text \<open>
  An identifier that is \<open>k\<close> steps from the expected one is reported as \<open>k\<close> (negative: from the
  past).  After a gap the checker is synchronised to the received identifier, so that its successor
  is accepted; an identifier from the past leaves the checker as it was.
\<close>

theorem seq_checker_gap:
  assumes "seq_checker_wf c" "e < MAX_SUPPORTED_EAXC_ID_VALUE" "initialized c ! e" "- 128 < k" "k < 128" "k \<noteq> 0"
  shows "\<exists>c'. update_and_compare_seq_id e (counters c ! e + 1 + of_int k) c = Some (k, c') \<and>
     (if k < 0 then c' = c
      else counters c' ! e = counters c ! e + 1 + of_int k \<and>
        (\<exists>c''. update_and_compare_seq_id e (counters c ! e + 1 + of_int k + 1) c' = Some (0, c'')))"
proof -
  let ?q = "counters c ! e + 1 + of_int k"
  have skip: "get_nof_skipped_sequence_id ?q (counters c ! e + 1) = k"
    using skipped_seq_ahead [of k "counters c ! e + 1"] assms(4,5) by simp
  moreover have "get_nof_skipped_sequence_id (counters c ! e + 1) (counters c ! e + 1) = 0"
    using skipped_seq_ahead [of 0 "counters c ! e + 1"] by simp
  ultimately have "?q \<noteq> counters c ! e + 1" using assms(6) by auto
  then show ?thesis
    using assms skip by (auto simp: update_and_compare_seq_id_def Let_def seq_checker_wf_def)
qed

theorem seq_checker_gap_witness:
  "\<exists>c'. update_and_compare_seq_id 2 (0 + 1 + of_int 5)
     \<lparr>initialized = replicate 32 True, counters = replicate 32 0\<rparr> = Some (5, c')"
  using seq_checker_gap [of "\<lparr>initialized = replicate 32 True, counters = replicate 32 0\<rparr>" 2 5]
  by (auto simp: seq_checker_wf_def MAX_SUPPORTED_EAXC_ID_VALUE_def)

section \<open>Window classification\<close>

lemma sp_slot_index_wf: "sp_wf s \<Longrightarrow> slot_index s < slots_per_frame (numerology_val s)"
  by (rule sp_wf_bounds(4))

text \<open>The wire image of an over-the-air symbol point is its counter modulo the wire period.\<close>

lemma ofh_point_count:
  assumes "ssp_wf p"
  shows "int (ssp_count (calculate_ofh_slot_symbol_point p)) =
    int (ssp_count p) mod ofh_symbols_wrap (ssp_numerology p) (ssp_nof_symbols p)"
proof -
  let ?n = "ssp_nof_symbols p" and ?f = "slots_per_frame (ssp_numerology p)" and ?c = "ssp_count p"
  have n: "0 < ?n" and num: "ssp_numerology p < NOF_NUMEROLOGIES"
    using assms by (simp_all add: ssp_wf_def ssp_is_valid_def)
  have slot: "get_slot p = slot_point_count (ssp_numerology p) (?c div ?n)"
    using num by (simp add: get_slot_def)
  have "?c div ?n div ?f mod 1024 mod 256 = ?c div ?n div ?f mod 256"
    by (simp add: mod_mod_cancel)
  then have "ssp_count (calculate_ofh_slot_symbol_point p) =
      (?c div ?n mod ?f + ?c div ?n div ?f mod 256 * ?f) * ?n + ?c mod ?n"
    by (simp add: calculate_ofh_slot_symbol_point_def Let_def slot slot_symbol_point_of_def slot_point_sfn_def
        slot_point_count_def sfn_def slot_index_def nof_slots_per_frame_def OFH_MAX_NOF_SFN_def NOF_SFNS_def
        get_symbol_index_def)
  also have "\<dots> = (?c div ?n mod (?f * 256)) * ?n + ?c mod ?n"
    by (simp add: mod_mult2_eq add.commute mult.commute)
  also have "\<dots> = ?c mod (?n * (?f * 256))"
    by (simp only: mod_mult2_eq mult.commute)
  finally show ?thesis
    by (simp add: ofh_symbols_wrap_def OFH_MAX_NOF_SFN_def slots_per_frame_def ac_simps flip: zmod_int of_nat_mult)
qed

lemma rx_distance_of_message:
  assumes wf: "ssp_wf ota" and same: "ssp_numerology msg = ssp_numerology ota" "ssp_nof_symbols msg = ssp_nof_symbols ota"
    and msg: "int (ssp_count msg) = (int (ssp_count ota) - k) mod ofh_symbols_wrap (ssp_numerology ota) (ssp_nof_symbols ota)"
    and k: "2 * \<bar>k\<bar> < ofh_symbols_wrap (ssp_numerology ota) (ssp_nof_symbols ota)"
  shows "fold_half_open (ofh_symbols_wrap (ssp_numerology msg) (ssp_nof_symbols msg))
      (int (ssp_count (calculate_ofh_slot_symbol_point ota)) - int (ssp_count msg)) = k"
proof -
  let ?w = "ofh_symbols_wrap (ssp_numerology ota) (ssp_nof_symbols ota)"
  have w: "0 < ?w" using k by linarith
  have "?w dvd int (ssp_count ota) mod ?w - (int (ssp_count ota) - k) mod ?w - k"
    by (rule dvd_mod_diff)
  then show ?thesis
    unfolding same ofh_point_count [OF wf] msg
    using w k by (intro rx_dist.dist_unique) auto
qed

definition messages_seen :: "rx_window_checker \<Rightarrow> nat" where
  "messages_seen c = on_time_counter (statistics c) + early_counter (statistics c) + late_counter (statistics c)"

text \<open>
  A message for the symbol \<open>k\<close> symbols before the current over-the-air symbol is counted late when
  \<open>k\<close> exceeds the end of the reception window, early when it is below its start and on time
  otherwise.  This holds across the wrap of the wire's eight-bit frame number, for every distance
  below half of its period, and the extreme distances are recorded.
\<close>

theorem rx_window_classification:
  assumes "ssp_wf ota" "\<not> is_disabled c"
    and "ssp_numerology msg = ssp_numerology ota" "ssp_nof_symbols msg = ssp_nof_symbols ota"
    and "int (ssp_count msg) = (int (ssp_count ota) - k) mod ofh_symbols_wrap (ssp_numerology ota) (ssp_nof_symbols ota)"
    and "2 * \<bar>k\<bar> < ofh_symbols_wrap (ssp_numerology ota) (ssp_nof_symbols ota)"
  shows "statistics (update_rx_window_statistics msg (rx_on_new_symbol ota c)) =
     (statistics c)\<lparr>latest_packet_in_symbols := max (latest_packet_in_symbols (statistics c)) k,
       earliest_packet_in_symbols := min (earliest_packet_in_symbols (statistics c)) k,
       late_counter := late_counter (statistics c) + (if k > int (sym_end c) then 1 else 0),
       early_counter := early_counter (statistics c) + (if k \<le> int (sym_end c) \<and> k < int (sym_start c) then 1 else 0),
       on_time_counter := on_time_counter (statistics c) +
         (if k \<le> int (sym_end c) \<and> int (sym_start c) \<le> k then 1 else 0)\<rparr>"
  using assms(2) rx_distance_of_message [OF assms(1,3-6)]
  by (auto simp: update_rx_window_statistics_def rx_on_new_symbol_def calculate_slot_symbol_point_distance_def
      update_rx_timing_stats_def update_minmax_def Let_def)

definition sample_window :: rx_window_checker where
  "sample_window = \<lparr>sym_start = 3, sym_end = 10, is_disabled = False,
     statistics = \<lparr>latest_packet_in_symbols = 0, earliest_packet_in_symbols = EARLIEST_INITIAL_VALUE,
       on_time_counter = 0, early_counter = 0, late_counter = 0, last_on_time_value_printed = 0,
       last_early_value_printed = 0, last_late_value_printed = 0\<rparr>,
     slot_raw_value = 0\<rparr>"

theorem rx_window_classification_witness:
  "on_time_counter (statistics (update_rx_window_statistics
     \<lparr>ssp_nof_symbols = 14, ssp_numerology = 1, ssp_count = 71678\<rparr>
     (rx_on_new_symbol \<lparr>ssp_nof_symbols = 14, ssp_numerology = 1, ssp_count = 71684\<rparr> sample_window))) = 1"
  by (subst rx_window_classification [where k = 6])
    (simp_all add: sample_window_def ssp_wf_def ssp_is_valid_def NOF_NUMEROLOGIES_def nof_symbols_per_slot_wrap_def
      NOF_SFNS_def NOF_SUBFRAMES_PER_FRAME_def slots_per_subframe_def ofh_symbols_wrap_def OFH_MAX_NOF_SFN_def)

text \<open>
  The reception window checker loses no message: over any sequence of messages an enabled checker
  increments exactly one of its three counters per message, and a metrics report together with what
  was reported before accounts for every message since the start.
\<close>

theorem rx_window_counts_every_message:
  assumes "\<not> is_disabled c"
  shows "messages_seen (fold update_rx_window_statistics msgs c) = messages_seen c + length msgs"
proof -
  have "messages_seen (fold update_rx_window_statistics msgs c) = messages_seen c + length msgs \<and>
      \<not> is_disabled (fold update_rx_window_statistics msgs c)"
    using assms
  proof (induction msgs arbitrary: c)
    case (Cons m msgs)
    have "messages_seen (update_rx_window_statistics m c) = Suc (messages_seen c)"
      "\<not> is_disabled (update_rx_window_statistics m c)"
      using Cons.prems by (auto simp: update_rx_window_statistics_def messages_seen_def Let_def
          update_rx_timing_stats_def split: prod.split)
    then show ?case using Cons.IH by simp
  qed simp
  then show ?thesis by simp
qed

theorem rx_window_counts_every_message_witness:
  "messages_seen (fold update_rx_window_statistics
     [\<lparr>ssp_nof_symbols = 14, ssp_numerology = 1, ssp_count = 5\<rparr>] sample_window) = 1"
  using rx_window_counts_every_message [of sample_window "[\<lparr>ssp_nof_symbols = 14, ssp_numerology = 1, ssp_count = 5\<rparr>]"]
  by (simp add: sample_window_def messages_seen_def)

lemma ssp_dist_int: "ssp_diff p q = fold_closed (nof_symbols_per_slot_wrap p) (int (ssp_count p) - int (ssp_count q))"
  by (simp add: ssp_diff_def)

text \<open>
  A downlink slot is late exactly when at most \<open>advance_time_in_symbols\<close> symbols are left between
  the current over-the-air symbol and the first symbol of the slot, across the wrap of the counters.
\<close>

theorem is_late_iff:
  assumes "sp_wf s" "numerology_val s = ssp_numerology ota" "tx_nof_symbols c = ssp_nof_symbols ota" "ssp_wf ota"
    and "int (count_val s * ssp_nof_symbols ota) = (int (ssp_count ota) + d) mod nof_symbols_per_slot_wrap ota"
    and "2 * \<bar>d - int (advance_time_in_symbols c)\<bar> < nof_symbols_per_slot_wrap ota"
  shows "fst (is_late s (tx_on_new_symbol ota c)) \<longleftrightarrow> d \<le> int (advance_time_in_symbols c)"
proof -
  let ?w = "nof_symbols_per_slot_wrap ota" and ?a = "int (advance_time_in_symbols c)"
  let ?rg = "ssp_minus (slot_symbol_point_of s 0 (ssp_nof_symbols ota)) ?a"
  have w: "0 < ?w" by (rule le_less_trans [OF _ assms(6)]) simp
  have wrg: "nof_symbols_per_slot_wrap (slot_symbol_point_of s 0 (ssp_nof_symbols ota)) = ?w"
    using assms(2) by (simp add: nof_symbols_per_slot_wrap_def slot_symbol_point_of_def)
  have rgc: "int (ssp_count ?rg) = (int (ssp_count ota) + (d - ?a)) mod ?w"
    using w assms(5) ssp_plus_count [of "slot_symbol_point_of s 0 (ssp_nof_symbols ota)" "- ?a"]
    by (simp add: ssp_minus_def wrg ssp_count_of mod_diff_left_eq add_diff_eq)
  let ?o = "int (ssp_count ota)" and ?r = "int (ssp_count ?rg)"
  have o: "0 \<le> ?o" "?o < ?w" using assms(4) by (simp_all add: ssp_wf_def)
  have r: "0 \<le> ?r" "?r < ?w" using w by (simp_all add: rgc)
  have d: "fold_half_open ?w (?r - ?o) = d - ?a"
    using circular_distance.dist_advance [OF fold_half_open_circular [OF even_nof_symbols_wrap] o, of "d - ?a"] assms(6)
    by (simp add: rgc)
  have "circular_less ?w ?o ?r \<longleftrightarrow> 0 < fold_half_open ?w (?r - ?o)"
    using o r even_nof_symbols_wrap [of ota]
    by (auto simp: circular_less_def fold_half_open_def Let_def)
  moreover have "nof_symbols_per_slot_wrap \<lparr>ssp_nof_symbols = ssp_nof_symbols ota,
      ssp_numerology = ssp_numerology ota, ssp_count = n\<rparr> = ?w" for n
    by (simp add: nof_symbols_per_slot_wrap_def)
  ultimately show ?thesis
    using d assms(2,3) by (auto simp: is_late_def tx_on_new_symbol_def Let_def ssp_less_def)
qed

theorem is_late_iff_witness:
  "fst (is_late (slot_point_count 1 0) (tx_on_new_symbol
     \<lparr>ssp_nof_symbols = 14, ssp_numerology = 1, ssp_count = 286715\<rparr>
     \<lparr>advance_time_in_symbols = 7, tx_nof_symbols = 14, tx_count_val = 0, tx_late_counter = 0\<rparr>))"
  by (subst is_late_iff [where d = 5])
    (simp_all add: slot_point_count_def sp_wf_def sp_valid_def nof_slots_per_hyper_system_frame_def ssp_wf_def ssp_is_valid_def NOF_NUMEROLOGIES_def
      nof_symbols_per_slot_wrap_def NOF_SFNS_def NOF_SUBFRAMES_PER_FRAME_def slots_per_subframe_def)

end
