(* ===== verification/Repositories.thy ===== *)
theory Repositories
  imports Cplane_Message Window_Checks
begin

text \<open>
  Context repositories of the fronthaul (lib/ofh/support): the slot index computation shared by all
  of them, the uplink Control-Plane context repository with its packed 64-bit entries and the
  repository that re-orders the notification of received symbols.
\<close>

section \<open>Repository index\<close>

definition SFN_MAX_VALUE :: nat where "SFN_MAX_VALUE = push_bit 8 1"

text \<open>
  The search for a repository size that divides the number of slots of the wire period.  The loop is
  partial: a zero size divides by zero, a size beyond the number of slots would run on.
\<close>

partial_function (option) calculate_repository_size_loop :: "nat \<Rightarrow> nat \<Rightarrow> nat option" where
  "calculate_repository_size_loop nof_slots sz =
     (if sz = 0 then None
      else if nof_slots mod sz = 0 then Some sz
      else calculate_repository_size_loop nof_slots (sz + 1))"

definition calculate_repository_size :: "nat \<Rightarrow> nat \<Rightarrow> nat option" where
  "calculate_repository_size \<mu> minimum_repo_size =
     calculate_repository_size_loop (SFN_MAX_VALUE * slots_per_subframe \<mu> * NOF_SUBFRAMES_PER_FRAME) minimum_repo_size"

definition calculate_repository_index :: "slot_point \<Rightarrow> nat \<Rightarrow> nat" where
  "calculate_repository_index s repo_size =
     count_val (slot_point_sfn (numerology_val s) (sfn s mod SFN_MAX_VALUE) (slot_index s)) mod repo_size"

section \<open>Uplink Control-Plane contexts\<close>

record ul_cplane_context =
  ctx_filter_index :: filter_index_type
  ctx_start_symbol :: byte
  ctx_prb_start :: u16
  ctx_nof_prb :: u16
  ctx_nof_symbols :: byte

type_synonym uplink_cplane_context_repository = "64 word list list"

definition pack_context :: "ul_cplane_context \<Rightarrow> 64 word" where
  "pack_context c =
     of_nat (filter_value (ctx_filter_index c)) OR push_bit 8 (ucast (ctx_start_symbol c)) OR
     push_bit 16 (ucast (ctx_prb_start c)) OR push_bit 32 (ucast (ctx_nof_prb c)) OR
     push_bit 48 (ucast (ctx_nof_symbols c))"

definition unpack_context :: "64 word \<Rightarrow> ul_cplane_context" where
  "unpack_context d =
     \<lparr>ctx_filter_index = to_filter_index_type (unat (ucast d :: byte)),
      ctx_start_symbol = ucast (drop_bit 8 d), ctx_prb_start = ucast (drop_bit 16 d),
      ctx_nof_prb = ucast (drop_bit 32 d), ctx_nof_symbols = ucast (drop_bit 48 d)\<rparr>"

definition ul_cplane_repo_init :: "nat \<Rightarrow> uplink_cplane_context_repository" where
  "ul_cplane_repo_init n = replicate n (replicate MAX_SUPPORTED_EAXC_ID_VALUE 0)"

definition ul_cplane_add ::
  "slot_point \<Rightarrow> nat \<Rightarrow> ul_cplane_context \<Rightarrow> uplink_cplane_context_repository \<Rightarrow> uplink_cplane_context_repository" where
  "ul_cplane_add s eaxc c repo =
     (let i = calculate_repository_index s (length repo) in repo[i := (repo ! i)[eaxc := pack_context c]])"

definition ul_cplane_get :: "slot_point \<Rightarrow> nat \<Rightarrow> uplink_cplane_context_repository \<Rightarrow> ul_cplane_context" where
  "ul_cplane_get s eaxc repo =
     unpack_context (repo ! calculate_repository_index s (length repo) ! eaxc)"

section \<open>Notified grid symbols\<close>

text \<open>
  An entry is a 32-bit word: bits 0 to 13 the symbols received so far, bit 14 the cyclic prefix,
  bit 15 whether the slot is in use, bits 16 to 29 whether the symbol was received validly.
\<close>

type_synonym notified_repo = "32 word list"

definition VALID_SYMBOL_BITMASK_START_BIT :: nat where "VALID_SYMBOL_BITMASK_START_BIT = 16"
definition EXTENDED_CP_BIT :: nat where "EXTENDED_CP_BIT = 14"
definition USED_SLOT_BIT :: nat where "USED_SLOT_BIT = 15"
definition USED_SLOT_BITMAP :: "32 word" where "USED_SLOT_BITMAP = push_bit USED_SLOT_BIT 1"
definition EXTENDED_CP_BITMAP :: "32 word" where "EXTENDED_CP_BITMAP = push_bit EXTENDED_CP_BIT 1"
definition MAX_NSYMB_PER_SLOT :: nat where "MAX_NSYMB_PER_SLOT = 14"

definition get_nsymb_per_slot :: "bool \<Rightarrow> nat" where
  "get_nsymb_per_slot extended_cp = (if extended_cp then 12 else 14)"

definition ALL_SYMBOLS_NOTIFIED_CP_NORMAL :: "32 word" where
  "ALL_SYMBOLS_NOTIFIED_CP_NORMAL = push_bit (get_nsymb_per_slot False) 1 - 1"

definition ALL_SYMBOLS_NOTIFIED_CP_EXTENDED :: "32 word" where
  "ALL_SYMBOLS_NOTIFIED_CP_EXTENDED = push_bit (get_nsymb_per_slot True) 1 - 1"

definition is_slot_used :: "32 word \<Rightarrow> bool" where
  "is_slot_used v \<longleftrightarrow> v AND USED_SLOT_BITMAP \<noteq> 0"

definition are_all_symbols_notified :: "32 word \<Rightarrow> bool" where
  "are_all_symbols_notified v =
     (if v AND EXTENDED_CP_BITMAP \<noteq> 0
      then v AND ALL_SYMBOLS_NOTIFIED_CP_EXTENDED = ALL_SYMBOLS_NOTIFIED_CP_EXTENDED
      else v AND ALL_SYMBOLS_NOTIFIED_CP_NORMAL = ALL_SYMBOLS_NOTIFIED_CP_NORMAL)"

definition is_any_previous_symbol_missed :: "32 word \<Rightarrow> nat \<Rightarrow> bool" where
  "is_any_previous_symbol_missed v symbol = list_ex (\<lambda>i. drop_bit i v AND 1 = 0) [0..<symbol]"

definition notified_get_nof_symbols :: "32 word \<Rightarrow> nat" where
  "notified_get_nof_symbols v = get_nsymb_per_slot (drop_bit EXTENDED_CP_BIT (v AND EXTENDED_CP_BITMAP) \<noteq> 0)"

definition get_nof_symbols_to_notify :: "32 word \<Rightarrow> nat \<Rightarrow> nat" where
  "get_nof_symbols_to_notify v symbol =
     (let n = notified_get_nof_symbols v; w = drop_bit symbol v
      in case find (\<lambda>i. drop_bit i w AND 1 = 0) [1..<n - symbol] of Some i \<Rightarrow> i | None \<Rightarrow> n - symbol)"

definition notified_add :: "slot_point \<Rightarrow> nat \<Rightarrow> bool \<Rightarrow> notified_repo \<Rightarrow> notified_repo" where
  "notified_add s start_symb extended_cp repo =
     (let v = USED_SLOT_BITMAP;
          v = (if extended_cp then v OR EXTENDED_CP_BITMAP else v);
          v = v OR (push_bit start_symb 1 - 1)
      in repo[count_val s mod length repo := v])"

text \<open>The result is the interval of symbols to notify and the bits of their validity.\<close>

definition update_rx_symbol_and_compute_symbols_to_notify ::
  "slot_point \<Rightarrow> nat \<Rightarrow> bool \<Rightarrow> notified_repo \<Rightarrow> ((nat \<times> nat) \<times> 32 word) option \<times> notified_repo" where
  "update_rx_symbol_and_compute_symbols_to_notify s symbol is_valid repo =
     (let i = count_val s mod length repo;
          bitmask = push_bit symbol 1;
          bitmask = (if is_valid then bitmask OR push_bit (symbol + VALID_SYMBOL_BITMASK_START_BIT) 1 else bitmask);
          v = repo ! i;
          repo = repo[i := v OR bitmask]
      in if \<not> is_slot_used v then (None, repo)
         else if is_any_previous_symbol_missed v symbol then (None, repo)
         else let n = get_nof_symbols_to_notify v symbol;
                  v = v OR bitmask;
                  repo = (if are_all_symbols_notified v then repo[i := 0] else repo)
              in (Some ((symbol, symbol + n), drop_bit VALID_SYMBOL_BITMASK_START_BIT v), repo))"

section \<open>Lemmas on the index\<close>

lemma SFN_MAX_VALUE_eq: "SFN_MAX_VALUE = 256"
  by (simp add: SFN_MAX_VALUE_def)

text \<open>The index is the slot counter modulo the wire period and then modulo the size.\<close>

lemma repository_index_eq:
  "calculate_repository_index s n = count_val s mod (slots_per_frame (numerology_val s) * 256) mod n"
proof -
  let ?f = "slots_per_frame (numerology_val s)"
  have "count_val s div ?f mod 1024 mod 256 = count_val s div ?f mod 256"
    by (simp add: mod_mod_cancel)
  then show ?thesis
    by (simp add: calculate_repository_index_def slot_point_sfn_def sfn_def slot_index_def nof_slots_per_frame_def
        NOF_SFNS_def SFN_MAX_VALUE_eq mod_mult2_eq add.commute mult.commute)
qed

lemma repository_index_divides:
  assumes "n dvd slots_per_frame (numerology_val s) * 256"
  shows "calculate_repository_index s n = count_val s mod n"
  using assms by (simp add: repository_index_eq mod_mod_cancel)

lemma repository_size_loop_result:
  assumes "1 \<le> m" "m \<le> n"
  shows "\<exists>d. calculate_repository_size_loop n m = Some d \<and> m \<le> d \<and> d \<le> n \<and> d dvd n \<and>
    (\<forall>x. m \<le> x \<and> x < d \<longrightarrow> \<not> x dvd n)"
  using assms
proof (induction "n - m" arbitrary: m rule: less_induct)
  case less
  show ?case
  proof (cases "n mod m = 0")
    case True
    then show ?thesis using less.prems
      by (subst calculate_repository_size_loop.simps) (auto simp: mod_eq_0_iff_dvd)
  next
    case False
    then have "m \<noteq> n" by auto
    with less.prems have lt: "n - (m + 1) < n - m" by simp
    obtain d where d: "calculate_repository_size_loop n (m + 1) = Some d" "m + 1 \<le> d" "d \<le> n" "d dvd n"
      "\<forall>x. m + 1 \<le> x \<and> x < d \<longrightarrow> \<not> x dvd n"
      using less.hyps [OF lt] less.prems \<open>m \<noteq> n\<close> by auto
    have "\<not> x dvd n" if "m \<le> x" "x < d" for x
      using that d(5) False by (cases "x = m") (auto simp: mod_eq_0_iff_dvd)
    then show ?thesis
      using d False less.prems by (subst calculate_repository_size_loop.simps) auto
  qed
qed

lemma sfn_slot_index_of [simp]:
  assumes "n < 1024"
  shows "sfn (slot_point_sfn (numerology_val s) n (slot_index s)) = n"
    "slot_index (slot_point_sfn (numerology_val s) n (slot_index s)) = slot_index s"
    "numerology_val (slot_point_sfn \<mu> n i) = \<mu>"
proof -
  have "slot_index s < slots_per_frame (numerology_val s)" by (simp add: slot_index_def nof_slots_per_frame_def)
  then show "sfn (slot_point_sfn (numerology_val s) n (slot_index s)) = n"
    "slot_index (slot_point_sfn (numerology_val s) n (slot_index s)) = slot_index s"
    using assms by (simp_all add: sfn_def slot_index_def [of "\<lparr>numerology_val = _, count_val = _\<rparr>"] slot_point_sfn_def
        nof_slots_per_frame_def NOF_SFNS_def)
qed (simp add: slot_point_sfn_def)

section \<open>Repositories keyed by slot\<close>

text \<open>
  The contract of the repositories that store one value per repository index and column, an eAxC or a
  symbol: a lookup returns the last value stored under the same key and column.
\<close>

locale slot_repository =
  fixes inv :: "'r \<Rightarrow> bool"
    and key :: "slot_point \<Rightarrow> 'r \<Rightarrow> nat"
    and put :: "slot_point \<Rightarrow> nat \<Rightarrow> 'v \<Rightarrow> 'r \<Rightarrow> 'r"
    and look :: "slot_point \<Rightarrow> nat \<Rightarrow> 'r \<Rightarrow> 'v"
    and width :: nat
  assumes inv_put: "inv r \<Longrightarrow> inv (put s e v r)"
    and key_put: "inv r \<Longrightarrow> key t (put s e v r) = key t r"
    and look_put_same: "inv r \<Longrightarrow> e < width \<Longrightarrow> key t r = key s r \<Longrightarrow> look t e (put s e v r) = v"
    and look_put_other: "inv r \<Longrightarrow> key t r \<noteq> key s r \<or> f \<noteq> e \<Longrightarrow> look t f (put s e v r) = look t f r"
begin

definition put_all :: "(slot_point \<times> nat \<times> 'v) list \<Rightarrow> 'r \<Rightarrow> 'r" where
  "put_all xs r = fold (\<lambda>(s, e, v). put s e v) xs r"

lemma put_all_inv: "inv r \<Longrightarrow> inv (put_all xs r) \<and> key t (put_all xs r) = key t r"
  by (induction xs arbitrary: r) (auto simp: put_all_def inv_put key_put)

lemma look_put_all_other:
  "inv r \<Longrightarrow> \<forall>(s, e, v) \<in> set xs. key s r \<noteq> key t r \<or> e \<noteq> f \<Longrightarrow> look t f (put_all xs r) = look t f r"
proof (induction xs arbitrary: r)
  case (Cons x xs)
  obtain s e v where x: "x = (s, e, v)" by (cases x)
  have "look t f (put_all xs (put s e v r)) = look t f (put s e v r)"
    using Cons by (intro Cons.IH) (auto simp: x inv_put key_put)
  then show ?case
    using Cons.prems look_put_other [of r t s f e v] by (auto simp: x put_all_def)
qed (simp add: put_all_def)

text \<open>A value survives any later stores to other keys or eAxCs.\<close>

lemma look_put_all_last:
  assumes "inv r" "e < width"
    and "\<forall>(s', e', v') \<in> set xs. key s' r \<noteq> key s r \<or> e' \<noteq> e"
  shows "look s e (put_all xs (put s e v r)) = v"
  using look_put_all_other [of "put s e v r" xs s e] assms by (auto simp: inv_put key_put look_put_same)

end

definition ul_cplane_repo_wf :: "uplink_cplane_context_repository \<Rightarrow> bool" where
  "ul_cplane_repo_wf repo \<longleftrightarrow> repo \<noteq> [] \<and> (\<forall>row \<in> set repo. length row = MAX_SUPPORTED_EAXC_ID_VALUE)"

lemma repository_index_less [simp]: "0 < n \<Longrightarrow> calculate_repository_index s n < n"
  by (simp add: repository_index_eq)

lemma row_update_wf:
  assumes "\<forall>row \<in> set repo. length row = n"
  shows "\<forall>row \<in> set (repo[i := (repo ! i)[e := v]]). length row = n"
proof (cases "i < length repo")
  case True
  then show ?thesis using assms set_update_subset_insert [of repo i "(repo ! i)[e := v]"] by auto
next
  case False
  then show ?thesis using assms by (simp add: list_update_beyond)
qed

lemma ucast_field:
  assumes "\<And>i. i < LENGTH('b) \<Longrightarrow> bit (drop_bit k d) i \<longleftrightarrow> bit (x :: 'b::len word) i"
  shows "ucast (drop_bit k (d :: 'a::len word)) = x"
  using assms by (intro bit_word_eqI) (auto simp: bit_simps)

lemma unpack_pack_context [simp]: "unpack_context (pack_context c) = c"
proof -
  let ?d = "pack_context c" and ?f = "filter_value (ctx_filter_index c)"
  have "take_bit 8 ?f = ?f"
    using filter_value_le [of "ctx_filter_index c"] by (simp add: take_bit_nat_eq_self)
  then have f: "\<not> bit ?f i" if "8 \<le> i" for i using that by (metis bit_take_bit_iff linorder_not_le)
  have b8: "8 \<le> i \<Longrightarrow> \<not> bit w i" for w :: byte and i using bit_imp_le_length [of w i] by auto
  have b16: "16 \<le> i \<Longrightarrow> \<not> bit w i" for w :: u16 and i using bit_imp_le_length [of w i] by auto
  have "(ucast ?d :: byte) = of_nat (filter_value (ctx_filter_index c))"
    by (rule bit_word_eqI) (auto simp: pack_context_def bit_simps)
  then have 1: "to_filter_index_type (unat (ucast ?d :: byte)) = ctx_filter_index c"
    using filter_value_le [of "ctx_filter_index c"] by (simp add: unat_byte)
  have 2: "ucast (drop_bit 8 ?d) = ctx_start_symbol c"
    by (rule ucast_field) (auto simp: pack_context_def bit_simps f)
  have 3: "ucast (drop_bit 16 ?d) = ctx_prb_start c"
    by (rule ucast_field) (auto simp: pack_context_def bit_simps f b8 b16)
  have 4: "ucast (drop_bit 32 ?d) = ctx_nof_prb c"
    by (rule ucast_field) (auto simp: pack_context_def bit_simps f b8 b16)
  have 5: "ucast (drop_bit 48 ?d) = ctx_nof_symbols c"
    by (rule ucast_field) (auto simp: pack_context_def bit_simps f b8 b16)
  show ?thesis by (simp add: unpack_context_def 1 2 3 4 5)
qed

interpretation ul_cplane: slot_repository ul_cplane_repo_wf
  "\<lambda>s r. calculate_repository_index s (length r)" ul_cplane_add ul_cplane_get MAX_SUPPORTED_EAXC_ID_VALUE
proof unfold_locales
  fix r s e v assume "ul_cplane_repo_wf r"
  then show "ul_cplane_repo_wf (ul_cplane_add s e v r)"
    using row_update_wf [of r MAX_SUPPORTED_EAXC_ID_VALUE] by (simp add: ul_cplane_repo_wf_def ul_cplane_add_def Let_def)
  show "calculate_repository_index t (length (ul_cplane_add s e v r)) = calculate_repository_index t (length r)" for t
    by (simp add: ul_cplane_add_def Let_def)
qed (auto simp: ul_cplane_repo_wf_def ul_cplane_add_def ul_cplane_get_def Let_def nth_list_update)

section \<open>Re-ordering of symbol notifications\<close>

lemma drop_bit_and_1: "drop_bit i (v :: 32 word) AND 1 = 0 \<longleftrightarrow> \<not> bit v i"
  by (simp add: and_one_eq bit_iff_odd_drop_bit even_iff_mod_2_eq_zero)

lemma and_push_bit_1: "v AND push_bit i 1 \<noteq> 0 \<longleftrightarrow> bit (v :: 32 word) i"
  by (simp add: bit_iff_and_push_bit_not_eq_0)

lemma is_slot_used_iff: "is_slot_used v \<longleftrightarrow> bit v 15"
  by (simp add: is_slot_used_def USED_SLOT_BITMAP_def USED_SLOT_BIT_def and_push_bit_1 del: push_bit_of_1)

lemma previous_missed_iff: "is_any_previous_symbol_missed v n \<longleftrightarrow> (\<exists>i < n. \<not> bit v i)"
  by (auto simp: is_any_previous_symbol_missed_def list_ex_iff drop_bit_and_1)

lemma and_mask_full: "(v :: 32 word) AND (push_bit n 1 - 1) = push_bit n 1 - 1 \<longleftrightarrow> (\<forall>i < n. i < 32 \<longrightarrow> bit v i)"
proof -
  have "push_bit n 1 - 1 = (mask n :: 32 word)" by (simp add: mask_eq_exp_minus_1)
  then show ?thesis by (auto simp: bit_eq_iff bit_simps)
qed

lemma all_notified_iff:
  "are_all_symbols_notified v \<longleftrightarrow> (\<forall>i < (if bit v 14 then 12 else 14). bit v i)"
  using and_mask_full [of v 12] and_mask_full [of v 14]
  by (auto simp: are_all_symbols_notified_def EXTENDED_CP_BITMAP_def EXTENDED_CP_BIT_def and_push_bit_1
      ALL_SYMBOLS_NOTIFIED_CP_EXTENDED_def ALL_SYMBOLS_NOTIFIED_CP_NORMAL_def get_nsymb_per_slot_def
      simp del: push_bit_of_1)

lemma notified_nof_symbols_eq: "notified_get_nof_symbols v = (if bit v 14 then 12 else 14)"
proof -
  have "drop_bit 14 (v AND push_bit 14 1) \<noteq> 0 \<longleftrightarrow> bit v 14"
  proof
    assume "drop_bit 14 (v AND push_bit 14 1) \<noteq> 0"
    then have "v AND push_bit 14 1 \<noteq> 0" by (metis drop_bit_of_0)
    then show "bit v 14" by (simp only: and_push_bit_1)
  next
    assume "bit v 14"
    then have "bit (drop_bit 14 (v AND push_bit 14 1)) 0" by (simp add: bit_simps)
    then show "drop_bit 14 (v AND push_bit 14 1) \<noteq> 0" by (metis bit_0_eq bot_apply bot_bool_def)
  qed
  then show ?thesis
    by (simp add: notified_get_nof_symbols_def EXTENDED_CP_BITMAP_def EXTENDED_CP_BIT_def get_nsymb_per_slot_def
        del: push_bit_of_1)
qed

text \<open>The run of received symbols after \<open>symbol\<close>: it ends at the slot or at a symbol not received.\<close>

lemma nof_symbols_to_notify_run:
  assumes "symbol < N" "N = (if bit v 14 then 12 else 14)"
  shows "let n = get_nof_symbols_to_notify v symbol in
    1 \<le> n \<and> symbol + n \<le> N \<and> (\<forall>i. symbol < i \<and> i < symbol + n \<longrightarrow> bit v i) \<and>
    (symbol + n < N \<longrightarrow> \<not> bit v (symbol + n))"
proof (cases "find (\<lambda>i. drop_bit i (drop_bit symbol v) AND 1 = 0) [1..<N - symbol]")
  case None
  then have "bit v (symbol + i)" if "1 \<le> i" "i < N - symbol" for i
    using that by (auto simp: find_None_iff drop_bit_and_1 bit_drop_bit_eq add.commute)
  then have "bit v i" if "symbol < i" "i < N" for i
    using that by (metis add_diff_inverse_nat diff_less_mono less_imp_le_nat not_less_iff_gr_or_eq
        zero_less_diff Suc_leI One_nat_def)
  then show ?thesis
    using None assms by (simp add: get_nof_symbols_to_notify_def notified_nof_symbols_eq Let_def)
next
  case (Some n)
  then obtain k where k: "k < length [1..<N - symbol]" "[1..<N - symbol] ! k = n"
    "drop_bit n (drop_bit symbol v) AND 1 = 0" "\<forall>j < k. drop_bit ([1..<N - symbol] ! j) (drop_bit symbol v) AND 1 \<noteq> 0"
    by (auto simp: find_Some_iff)
  then have n: "n = Suc k" "n < N - symbol" "\<not> bit v (symbol + n)"
    by (auto simp: drop_bit_and_1 bit_drop_bit_eq add.commute)
  have "bit v (symbol + i)" if "1 \<le> i" "i < n" for i
    using k(4) that n(1,2) by (auto simp: drop_bit_and_1 bit_drop_bit_eq add.commute dest!: spec [of _ "i - 1"])
  then have "bit v i" if "symbol < i" "i < symbol + n" for i
    using that by (metis add_diff_inverse_nat less_diff_conv2 add.commute less_imp_le_nat not_less_iff_gr_or_eq
        zero_less_diff Suc_leI One_nat_def)
  then show ?thesis
    using Some n assms by (auto simp: get_nof_symbols_to_notify_def notified_nof_symbols_eq Let_def)
qed

text \<open>One received symbol, on the entry of its slot.\<close>

definition notify_entry :: "32 word \<Rightarrow> nat \<Rightarrow> bool \<Rightarrow> (nat \<times> nat) option \<times> 32 word" where
  "notify_entry v symbol is_valid =
     (let b = (if is_valid then push_bit symbol 1 OR push_bit (symbol + 16) 1 else push_bit symbol 1)
      in if \<not> bit v 15 \<or> (\<exists>i < symbol. \<not> bit v i) then (None, v OR b)
         else (Some (symbol, symbol + get_nof_symbols_to_notify v symbol),
               if are_all_symbols_notified (v OR b) then 0 else v OR b))"

lemma update_rx_symbol_entry:
  assumes "repo \<noteq> []"
  shows "map_option fst (fst (update_rx_symbol_and_compute_symbols_to_notify s symbol is_valid repo)) =
      fst (notify_entry (repo ! (count_val s mod length repo)) symbol is_valid)"
    and "snd (update_rx_symbol_and_compute_symbols_to_notify s symbol is_valid repo) =
      repo[count_val s mod length repo := snd (notify_entry (repo ! (count_val s mod length repo)) symbol is_valid)]"
  using assms
  by (auto simp: update_rx_symbol_and_compute_symbols_to_notify_def notify_entry_def Let_def is_slot_used_iff
      previous_missed_iff VALID_SYMBOL_BITMASK_START_BIT_def)

lemma bit_or_mask:
  "i < 16 \<Longrightarrow> bit ((v :: 32 word) OR (if b then push_bit n 1 OR push_bit (n + 16) 1 else push_bit n 1)) i \<longleftrightarrow>
     bit v i \<or> i = n"
  by (auto simp: bit_simps)

text \<open>The symbols notified, in order, while a list of symbols of one slot is received.\<close>

fun notify_run :: "slot_point \<Rightarrow> (nat \<times> bool) list \<Rightarrow> notified_repo \<Rightarrow> nat list \<times> notified_repo" where
  "notify_run s [] repo = ([], repo)"
| "notify_run s ((symbol, is_valid) # xs) repo =
     (let (r, repo') = update_rx_symbol_and_compute_symbols_to_notify s symbol is_valid repo;
          (ys, repo'') = notify_run s xs repo'
      in ((case r of Some ((a, b), _) \<Rightarrow> [a..<b] | None \<Rightarrow> []) @ ys, repo''))"

fun notify_entry_run :: "(nat \<times> bool) list \<Rightarrow> 32 word \<Rightarrow> nat list \<times> 32 word" where
  "notify_entry_run [] v = ([], v)"
| "notify_entry_run ((symbol, is_valid) # xs) v =
     (let (ys, w) = notify_entry_run xs (snd (notify_entry v symbol is_valid))
      in ((case fst (notify_entry v symbol is_valid) of Some (a, b) \<Rightarrow> [a..<b] | None \<Rightarrow> []) @ ys, w))"

lemma notify_run_entry:
  assumes "repo \<noteq> []"
  shows "notify_run s xs repo =
    (let (ys, w) = notify_entry_run xs (repo ! (count_val s mod length repo))
     in (ys, repo[count_val s mod length repo := w]))"
  using assms
proof (induction xs arbitrary: repo)
  case (Cons x xs)
  obtain symbol b where x: "x = (symbol, b)" by (cases x)
  let ?i = "count_val s mod length repo"
  obtain r repo' where u: "update_rx_symbol_and_compute_symbols_to_notify s symbol b repo = (r, repo')"
    by (cases "update_rx_symbol_and_compute_symbols_to_notify s symbol b repo")
  have r: "map_option fst r = fst (notify_entry (repo ! ?i) symbol b)"
    and repo': "repo' = repo[?i := snd (notify_entry (repo ! ?i) symbol b)]"
    using update_rx_symbol_entry [OF Cons.prems, of s symbol b] u by simp_all
  have "?i < length repo" using Cons.prems by simp
  moreover have "(case r of Some ((a, b), _) \<Rightarrow> [a..<b] | None \<Rightarrow> []) =
      (case map_option fst r of Some (a, b) \<Rightarrow> [a..<b] | None \<Rightarrow> [])"
    by (auto split: option.split prod.split)
  ultimately show ?case
    using Cons.IH [of repo'] Cons.prems repo'
    by (simp add: x u r Let_def split: prod.split)
qed simp

text \<open>
  The invariant of a slot that is being received: the entry is in use and its clear symbol bits are
  the symbols still to come.
\<close>

definition entry_awaits :: "nat \<Rightarrow> nat set \<Rightarrow> 32 word \<Rightarrow> bool" where
  "entry_awaits N M v \<longleftrightarrow> bit v 15 \<and> N = (if bit v 14 then 12 else 14) \<and> (\<forall>i < N. bit v i \<longleftrightarrow> i \<notin> M)"

lemma entry_awaitsD:
  assumes "entry_awaits N M v"
  shows "bit v 15" "N \<le> 14" "(if bit v 14 then 12 else 14) = N"
    and "i < N \<Longrightarrow> bit v i = (i \<notin> M)"
proof -
  have d: "bit v 15 \<and> N = (if bit v 14 then 12 else 14) \<and> (\<forall>i < N. bit v i \<longleftrightarrow> i \<notin> M)"
    by (rule assms [unfolded entry_awaits_def])
  show "bit v 15" using d by (elim conjE)
  show N: "(if bit v 14 then 12 else 14) = N" using d by (elim conjE) (rule sym)
  show "N \<le> 14" unfolding N [symmetric] by simp
  show "i < N \<Longrightarrow> bit v i = (i \<notin> M)" using d by blast
qed

lemma entry_awaits_or:
  assumes aw: "entry_awaits N M v" and s: "symbol < N"
  shows "entry_awaits N (M - {symbol})
    (v OR (if b then push_bit symbol 1 OR push_bit (symbol + 16) 1 else push_bit symbol 1))"
proof -
  define w where "w = v OR (if b then push_bit symbol 1 OR push_bit (symbol + 16) 1 else push_bit symbol 1)"
  have w: "bit w i \<longleftrightarrow> bit v i \<or> i = symbol" if "i < 16" for i using bit_or_mask [OF that] by (simp only: w_def)
  note D = entry_awaitsD [OF aw]
  have "bit w 15" "(if bit w 14 then 12 else 14) = N" using w [of 14] w [of 15] D(1,2,3) s by auto
  moreover have "bit w i = (i \<notin> M - {symbol})" if "i < N" for i
  proof -
    have "i < 16" using that D(2) by simp
    then show ?thesis using w [of i] D(4) [OF that] by blast
  qed
  ultimately show ?thesis unfolding entry_awaits_def w_def [symmetric] by (metis (full_types))
qed

lemma notify_entry_out_of_order:
  assumes aw: "entry_awaits N M v" and j: "j \<in> M" "j < symbol" "symbol < N"
  shows "fst (notify_entry v symbol b) = None \<and> entry_awaits N (M - {symbol}) (snd (notify_entry v symbol b))"
proof -
  have "\<not> bit v j" using entry_awaitsD(4) [OF aw, of j] j by simp
  then have "\<exists>i < symbol. \<not> bit v i" using j(2) by blast
  then show ?thesis
    using entry_awaits_or [OF aw j(3), of b] by (simp add: notify_entry_def Let_def)
qed

lemma notify_entry_in_order:
  assumes aw: "entry_awaits N M v" and M: "symbol \<in> M" "\<forall>j \<in> M. symbol \<le> j" "M \<subseteq> {..<N}"
  shows "\<exists>e. fst (notify_entry v symbol b) = Some (symbol, e) \<and> symbol < e \<and>
    (if M = {symbol} then e = N \<and> snd (notify_entry v symbol b) = 0
     else e = Min (M - {symbol}) \<and> entry_awaits N (M - {symbol}) (snd (notify_entry v symbol b)))"
proof -
  define mask where "mask = (if b then push_bit symbol 1 OR push_bit (symbol + 16) 1 else push_bit symbol 1 :: 32 word)"
  note D = entry_awaitsD [OF aw]
  have s: "symbol < N" using M(1,3) by blast
  have prev: "\<not> (\<exists>i < symbol. \<not> bit v i)"
  proof (intro notI, elim exE conjE)
    fix i assume "i < symbol" "\<not> bit v i"
    then show False using D(4) [of i] M(2) s by (meson not_le order.strict_trans)
  qed
  define e where "e = symbol + get_nof_symbols_to_notify v symbol"
  have e: "symbol < e" "e \<le> N" "\<And>i. symbol < i \<Longrightarrow> i < e \<Longrightarrow> bit v i" "e < N \<Longrightarrow> \<not> bit v e"
    using nof_symbols_to_notify_run [OF s D(3) [symmetric]] by (auto simp: e_def Let_def)
  have aw': "entry_awaits N (M - {symbol}) (v OR mask)"
    unfolding mask_def by (rule entry_awaits_or [OF aw s])
  note D' = entry_awaitsD [OF aw']
  have "are_all_symbols_notified (v OR mask) \<longleftrightarrow> (\<forall>i < N. i \<notin> M - {symbol})"
    using D'(3,4) by (simp add: all_notified_iff)
  then have all: "are_all_symbols_notified (v OR mask) \<longleftrightarrow> M = {symbol}" using M by auto
  have eN: "e = N" if "M = {symbol}"
    using that e D(4) [of e] by (cases "e < N") auto
  have eM: "e = Min (M - {symbol})" if ne: "M \<noteq> {symbol}"
  proof -
    have fin: "finite (M - {symbol})" and nonempty: "M - {symbol} \<noteq> {}"
      using M ne by (auto intro: finite_subset [of _ "{..<N}"])
    define m where "m = Min (M - {symbol})"
    have m: "m \<in> M" "m \<noteq> symbol" using Min_in [OF fin nonempty] by (auto simp: m_def)
    then have "symbol < m" "m < N" using M by (auto simp: le_less)
    moreover from this have "\<not> bit v m" using D(4) [of m] m by blast
    ultimately have "e \<le> m" using e(3) [of m] by (meson not_le)
    then have "e < N" using \<open>m < N\<close> by simp
    then have "e \<in> M - {symbol}" using e(1,4) D(4) [of e] by auto
    then have "m \<le> e" unfolding m_def using fin by (intro Min_le)
    with \<open>e \<le> m\<close> show ?thesis by (simp add: m_def)
  qed
  have "notify_entry v symbol b = (Some (symbol, e), if M = {symbol} then 0 else v OR mask)"
    using D(1) prev by (simp add: notify_entry_def Let_def e_def mask_def [symmetric] all)
  then show ?thesis using e(1) eN eM aw' by simp
qed

lemma Min_remove:
  assumes "finite M" "j \<in> M" "j < (k :: nat)"
  shows "Min (M - {k}) = Min M"
proof (rule Min_eqI)
  have "M \<noteq> {}" using assms(2) by blast
  then have "Min M \<in> M" "Min M \<le> j" using assms(1,2) by auto
  then show "Min M \<in> M - {k}" using assms(3) by simp
qed (use assms in auto)

lemma notify_entry_run_complete:
  assumes "entry_awaits N (set (map fst xs)) v" "distinct (map fst xs)" "set (map fst xs) \<subseteq> {..<N}" "xs \<noteq> []"
  shows "notify_entry_run xs v = ([Min (set (map fst xs))..<N], 0)"
  using assms
proof (induction xs arbitrary: v)
  case (Cons x xs)
  obtain symbol b where x: "x = (symbol, b)" by (cases x)
  define M R w where "M = set (map fst (x # xs))" and "R = set (map fst xs)" and "w = snd (notify_entry v symbol b)"
  have R: "M - {symbol} = R" "finite M" "symbol \<in> M" "R = {} \<longleftrightarrow> xs = []" "R \<subseteq> {..<N}" "symbol < N"
    using Cons.prems(2,3) by (auto simp: x M_def R_def)
  have aw: "entry_awaits N M v" and sub: "M \<subseteq> {..<N}" using Cons.prems by (simp_all only: M_def)
  have IH: "notify_entry_run xs w = ([Min R..<N], 0)" if "entry_awaits N R w" "xs \<noteq> []"
    using that Cons.IH [of w] Cons.prems(2) R(5) by (simp add: R_def x)
  show ?case unfolding M_def [symmetric]
  proof (cases "\<forall>j \<in> M. symbol \<le> j")
    case True
    then have min: "Min M = symbol" using R(2,3) by (intro Min_eqI) auto
    obtain e where e: "fst (notify_entry v symbol b) = Some (symbol, e)" "symbol < e"
      "if M = {symbol} then e = N \<and> w = 0 else e = Min R \<and> entry_awaits N R w"
      using notify_entry_in_order [OF aw R(3) True sub, of b] R(1) by (auto simp: w_def)
    show "notify_entry_run (x # xs) v = ([Min M..<N], 0)"
    proof (cases "xs = []")
      case True
      then have "M = {symbol}" by (simp add: x M_def)
      with e True min show ?thesis by (simp add: x w_def)
    next
      case False
      then have "M \<noteq> {symbol}" "finite R" "R \<noteq> {}" using R by auto
      then have "e = Min R" "entry_awaits N R w" "Min R \<in> R" using e(3) by simp_all
      then have "notify_entry_run xs w = ([e..<N], 0)" "e \<le> N" using IH [OF _ False] R(5) by auto
      then show ?thesis
        using e(1,2) min upt_add_eq_append [of symbol e "N - e"] by (simp add: x w_def)
    qed
  next
    case False
    then obtain j where j: "j \<in> M" "j < symbol" by (auto simp: not_le)
    then have "fst (notify_entry v symbol b) = None" "entry_awaits N R w"
      using notify_entry_out_of_order [OF aw j R(6), of b] by (auto simp: w_def R(1))
    moreover have "xs \<noteq> []" using j R(1,4) by auto
    moreover have "Min R = Min M" using Min_remove [OF R(2) j] by (simp only: R(1))
    ultimately show "notify_entry_run (x # xs) v = ([Min M..<N], 0)" using IH by (simp add: x w_def)
  qed
qed simp

lemma notified_add_awaits:
  assumes "start_symb < get_nsymb_per_slot extended_cp" "repo \<noteq> []"
  shows "entry_awaits (get_nsymb_per_slot extended_cp) {start_symb..<get_nsymb_per_slot extended_cp}
    (notified_add s start_symb extended_cp repo ! (count_val s mod length repo))"
proof -
  define w where "w = ((if extended_cp then push_bit 15 1 OR push_bit 14 1 else push_bit 15 1) OR mask start_symb :: 32 word)"
  have "notified_add s start_symb extended_cp repo ! (count_val s mod length repo) = w"
    using assms(2) by (simp add: notified_add_def w_def USED_SLOT_BITMAP_def EXTENDED_CP_BITMAP_def USED_SLOT_BIT_def
        EXTENDED_CP_BIT_def Let_def mask_eq_exp_minus_1)
  moreover have n: "start_symb < 14" "get_nsymb_per_slot extended_cp \<le> 14"
    using assms(1) by (auto simp: get_nsymb_per_slot_def split: if_splits)
  have "bit w 15" "bit w 14 \<longleftrightarrow> extended_cp" "\<And>i. i < 14 \<Longrightarrow> bit w i \<longleftrightarrow> i < start_symb"
    using n(1) by (auto simp: w_def bit_simps simp del: push_bit_of_1)
  then have "entry_awaits (get_nsymb_per_slot extended_cp) {start_symb..<get_nsymb_per_slot extended_cp} w"
    using n(2) by (auto simp: entry_awaits_def get_nsymb_per_slot_def)
  ultimately show ?thesis by simp
qed

text \<open>
  Symbol notifications leave the re-ordering repository in order. Once a slot is added with its
  first symbol, receiving its remaining symbols in any order (each once, valid or not) notifies every
  one of them exactly once and in increasing order, and the entry of the slot is freed at the end.
\<close>

lemma symbols_notified_in_order:
  assumes "repo \<noteq> []" "start_symb < get_nsymb_per_slot extended_cp"
    and "distinct (map fst xs)" "set (map fst xs) = {start_symb..<get_nsymb_per_slot extended_cp}"
  shows "notify_run s xs (notified_add s start_symb extended_cp repo) =
    ([start_symb..<get_nsymb_per_slot extended_cp], repo[count_val s mod length repo := 0])"
proof -
  let ?repo = "notified_add s start_symb extended_cp repo"
  have len: "length ?repo = length repo" by (simp add: notified_add_def Let_def)
  have ne: "xs \<noteq> []" using assms(2,4) by auto
  have min: "Min (set (map fst xs)) = start_symb" unfolding assms(4) using assms(2) by (intro Min_eqI) auto
  have "notify_entry_run xs (?repo ! (count_val s mod length repo)) =
      ([Min (set (map fst xs))..<get_nsymb_per_slot extended_cp], 0)"
    by (rule notify_entry_run_complete)
      (use notified_add_awaits [OF assms(2,1)] assms(3,4) ne in \<open>auto simp del: set_map\<close>)
  moreover have "?repo[count_val s mod length repo := 0] = repo[count_val s mod length repo := 0]"
    by (simp add: notified_add_def Let_def)
  moreover have "?repo \<noteq> []" using assms(1) len by auto
  ultimately show ?thesis unfolding min using notify_run_entry [of ?repo s xs] by (simp add: len)
qed

section \<open>Indices of neighbouring slots\<close>

lemma repository_size_dvd:
  assumes "calculate_repository_size \<mu> m = Some n" "1 \<le> m" "m \<le> 256 * slots_per_subframe \<mu> * 10"
  shows "n dvd slots_per_frame \<mu> * 256" "n dvd slots_per_hyper \<mu>"
proof -
  have "n dvd 256 * slots_per_subframe \<mu> * 10"
    using repository_size_loop_result [OF assms(2,3)] assms(1)
    by (auto simp: calculate_repository_size_def SFN_MAX_VALUE_eq NOF_SUBFRAMES_PER_FRAME_def)
  then show d: "n dvd slots_per_frame \<mu> * 256" by (simp add: slots_per_frame_eq mult.commute mult.left_commute)
  have "slots_per_hyper \<mu> = slots_per_frame \<mu> * 256 * 4" by (simp add: slots_per_hyper_eq slots_per_frame_eq)
  with d show "n dvd slots_per_hyper \<mu>" by (metis dvd_mult2)
qed

lemma count_sp_plus_mod:
  assumes "n dvd slots_per_hyper (numerology_val s)"
  shows "count_val (sp_plus s (int d)) mod n = (count_val s + d) mod n"
proof -
  have "count_val (sp_plus s (int d)) = (count_val s + d) mod slots_per_hyper (numerology_val s)"
    by (simp add: nat_mod_distrib nat_add_distrib sp_plus_def wrap_add_mod nof_slots_per_hyper_system_frame_def)
  then show ?thesis using assms by (simp add: mod_mod_cancel)
qed

lemma add_mod_neq:
  assumes "0 < d" "d < (n :: nat)"
  shows "(c + d) mod n \<noteq> c mod n"
proof
  assume "(c + d) mod n = c mod n"
  then have "n dvd d" using mod_eq_dvd_iff_nat [of c "c + d" n] by simp
  with assms show False by (auto dest: dvd_imp_le)
qed

section \<open>Properties\<close>

text \<open>
  C25: The repository size search succeeds for every non-zero minimum up to the number of slots of the
  wire period (256 frames), and returns the smallest divisor of that number not below the minimum.
\<close>

theorem repository_size_found:
  assumes "1 \<le> m" "m \<le> 256 * slots_per_subframe \<mu> * 10"
  shows "\<exists>n. calculate_repository_size \<mu> m = Some n \<and> m \<le> n \<and> n dvd 256 * slots_per_subframe \<mu> * 10 \<and>
    (\<forall>x. m \<le> x \<and> x < n \<longrightarrow> \<not> x dvd 256 * slots_per_subframe \<mu> * 10)"
  using repository_size_loop_result [OF assms]
  by (auto simp: calculate_repository_size_def SFN_MAX_VALUE_eq NOF_SUBFRAMES_PER_FRAME_def)

theorem repository_size_found_witness:
  "\<exists>n. calculate_repository_size 1 21 = Some n \<and> 21 \<le> n \<and> n dvd 256 * slots_per_subframe 1 * 10 \<and>
    (\<forall>x. 21 \<le> x \<and> x < n \<longrightarrow> \<not> x dvd 256 * slots_per_subframe 1 * 10)"
  using repository_size_found [of 21 1] by (simp add: slots_per_subframe_def)

text \<open>
  A repository of a size found by the search separates slots: two slots less than the size apart
  (also across the wrap of the 10-bit frame counter) get different indices, while a slot and the slot
  the wire can carry of it (its frame number modulo 256) get the same index.
\<close>

theorem repository_index_separates:
  assumes "sp_wf s" "calculate_repository_size (numerology_val s) m = Some n" "1 \<le> m"
    "m \<le> 256 * slots_per_subframe (numerology_val s) * 10" "0 < d" "d < n"
  shows "calculate_repository_index (sp_plus s (int d)) n \<noteq> calculate_repository_index s n \<and>
    calculate_repository_index (slot_point_sfn (numerology_val s) (sfn s mod 256) (slot_index s)) n =
    calculate_repository_index s n"
proof
  note dvd = repository_size_dvd [OF assms(2-4)]
  show "calculate_repository_index (sp_plus s (int d)) n \<noteq> calculate_repository_index s n"
    using dvd add_mod_neq [OF assms(5,6), of "count_val s"]
    by (simp add: repository_index_divides count_sp_plus_mod)
  have "sfn s mod 256 mod 1024 = sfn s mod 256" by simp
  then show "calculate_repository_index (slot_point_sfn (numerology_val s) (sfn s mod 256) (slot_index s)) n =
      calculate_repository_index s n"
    by (simp add: calculate_repository_index_def SFN_MAX_VALUE_eq sfn_slot_index_of)
qed

theorem repository_index_separates_witness:
  "calculate_repository_index (sp_plus \<lparr>numerology_val = 1, count_val = 20479\<rparr> (int 3)) 20 \<noteq>
     calculate_repository_index \<lparr>numerology_val = 1, count_val = 20479\<rparr> 20 \<and>
   calculate_repository_index (slot_point_sfn 1 255 19) 20 =
     calculate_repository_index \<lparr>numerology_val = 1, count_val = 20479\<rparr> 20"
proof -
  have "calculate_repository_size 1 20 = Some 20"
    by (simp add: calculate_repository_size_def calculate_repository_size_loop.simps SFN_MAX_VALUE_eq
        slots_per_subframe_def NOF_SUBFRAMES_PER_FRAME_def)
  then show ?thesis
    using repository_index_separates [of "\<lparr>numerology_val = 1, count_val = 20479\<rparr>" 20 20 3]
    by (simp add: sp_wf_def sp_valid_def NOF_NUMEROLOGIES_def nof_slots_per_hyper_system_frame_def slots_per_hyper_eq
        slots_per_subframe_def sfn_def slot_index_def nof_slots_per_frame_def slots_per_frame_eq NOF_SFNS_def)
qed

text \<open>
  An uplink Control-Plane context is found again: after it was added for a slot and an eAxC, and
  after any further contexts were added for slots with another repository index or other eAxCs, the
  lookup returns exactly the stored context, through the packed 64-bit representation.
\<close>

theorem ul_cplane_context_found:
  assumes "ul_cplane_repo_wf repo" "eaxc < MAX_SUPPORTED_EAXC_ID_VALUE"
    and "\<forall>(s', e', c') \<in> set xs. calculate_repository_index s' (length repo) \<noteq> calculate_repository_index s (length repo) \<or> e' \<noteq> eaxc"
  shows "ul_cplane_get s eaxc (fold (\<lambda>(s, e, c). ul_cplane_add s e c) xs (ul_cplane_add s eaxc c repo)) = c"
  using ul_cplane.look_put_all_last [OF assms] by (simp add: ul_cplane.put_all_def)

theorem ul_cplane_context_found_witness:
  "ul_cplane_get \<lparr>numerology_val = 1, count_val = 7\<rparr> 2
     (fold (\<lambda>(s, e, c). ul_cplane_add s e c)
       [(\<lparr>numerology_val = 1, count_val = 8\<rparr>, 2, unpack_context 0), (\<lparr>numerology_val = 1, count_val = 7\<rparr>, 3, unpack_context 0)]
       (ul_cplane_add \<lparr>numerology_val = 1, count_val = 7\<rparr> 2
         \<lparr>ctx_filter_index = standard_channel_filter, ctx_start_symbol = 0, ctx_prb_start = 0, ctx_nof_prb = 273, ctx_nof_symbols = 14\<rparr>
         (ul_cplane_repo_init 20))) =
   \<lparr>ctx_filter_index = standard_channel_filter, ctx_start_symbol = 0, ctx_prb_start = 0, ctx_nof_prb = 273, ctx_nof_symbols = 14\<rparr>"
  by (rule ul_cplane_context_found)
    (auto simp: ul_cplane_repo_wf_def ul_cplane_repo_init_def MAX_SUPPORTED_EAXC_ID_VALUE_def repository_index_eq
      slots_per_frame_eq slots_per_subframe_def)

text \<open>
  C29: The uplink Control-Plane context returned for a slot is not necessarily one of that slot: the
  entry does not record the slot, so the context added for a slot is also returned for the slot one
  repository period later.
\<close>

theorem ul_cplane_get_stale:
  assumes "ul_cplane_repo_wf repo" "eaxc < MAX_SUPPORTED_EAXC_ID_VALUE" "sp_wf s"
    "calculate_repository_size (numerology_val s) m = Some (length repo)" "1 \<le> m"
    "m \<le> 256 * slots_per_subframe (numerology_val s) * 10"
  shows "ul_cplane_get (sp_plus s (int (length repo))) eaxc (ul_cplane_add s eaxc c repo) = c"
proof (rule ul_cplane.look_put_same [OF assms(1,2)])
  show "calculate_repository_index (sp_plus s (int (length repo))) (length repo) = calculate_repository_index s (length repo)"
    using repository_size_dvd [OF assms(4-6)] by (simp add: repository_index_divides count_sp_plus_mod)
qed

theorem ul_cplane_get_stale_witness:
  "ul_cplane_get (sp_plus \<lparr>numerology_val = 1, count_val = 7\<rparr> (int 20)) 2
     (ul_cplane_add \<lparr>numerology_val = 1, count_val = 7\<rparr> 2 (unpack_context 5) (ul_cplane_repo_init 20)) = unpack_context 5"
proof -
  have "calculate_repository_size 1 20 = Some (length (ul_cplane_repo_init 20))"
    by (simp add: calculate_repository_size_def calculate_repository_size_loop.simps SFN_MAX_VALUE_eq
        slots_per_subframe_def NOF_SUBFRAMES_PER_FRAME_def ul_cplane_repo_init_def)
  then show ?thesis
    using ul_cplane_get_stale [of "ul_cplane_repo_init 20" 2 "\<lparr>numerology_val = 1, count_val = 7\<rparr>" 20 "unpack_context 5"]
    by (simp add: ul_cplane_repo_wf_def ul_cplane_repo_init_def MAX_SUPPORTED_EAXC_ID_VALUE_def sp_wf_def sp_valid_def
        NOF_NUMEROLOGIES_def nof_slots_per_hyper_system_frame_def slots_per_hyper_eq slots_per_subframe_def)
qed

end
