(* ===== verification/Frame_Pool.thy ===== *)
theory Frame_Pool
  imports Slot_Point "HOL-Library.Multiset"
begin

text \<open>
  The pool of Ethernet frame buffers (include/ocudu/ofh/ethernet/ethernet_frame_pool.h).  A buffer is
  named by its index in the pool; a scoped frame buffer is such an index, held by the thread that
  reserved or popped it, and its destructor is \<open>update_state\<close>.  An index is popped from a queue by
  one thread only, so the atomic exchanges of the state word that follow act on a buffer that no
  other thread can reach, and every operation is one atomic step of the model.
\<close>

section \<open>Buffers\<close>

definition MAX_ETH_FRAME_LENGTH :: nat where "MAX_ETH_FRAME_LENGTH = 9600"
definition MIN_ETH_FRAME_LENGTH :: nat where "MIN_ETH_FRAME_LENGTH = 64"
definition MAX_TX_BURST_SIZE :: nat where "MAX_TX_BURST_SIZE = 128"

datatype buffer_state = buf_free | buf_reserved | buf_pending | buf_queued

record frame_buffer =
  buf_state :: buffer_state
  buf_storage :: bytes
  buf_sz :: nat
  buf_symbol_point :: slot_symbol_point

definition frame_buffer_init :: "nat \<Rightarrow> frame_buffer" where
  "frame_buffer_init n =
     \<lparr>buf_state = buf_free, buf_storage = replicate n 0, buf_sz = 0,
      buf_symbol_point = slot_symbol_point_of invalid_slot_point 0 14\<rparr>"

definition buf_empty :: "frame_buffer \<Rightarrow> bool" where
  "buf_empty b \<longleftrightarrow> buf_sz b = 0"

text \<open>None: the assertion on the maximum, or zeroing past the end of the storage.\<close>

definition set_size :: "nat \<Rightarrow> frame_buffer \<Rightarrow> frame_buffer option" where
  "set_size new_size b =
     (if \<not> new_size \<le> MAX_ETH_FRAME_LENGTH then None
      else if new_size < MIN_ETH_FRAME_LENGTH then
        (if length (buf_storage b) < MIN_ETH_FRAME_LENGTH then None
         else Some (b\<lparr>buf_storage := take new_size (buf_storage b) @
                        replicate (MIN_ETH_FRAME_LENGTH - new_size) 0 @ drop MIN_ETH_FRAME_LENGTH (buf_storage b),
                      buf_sz := MIN_ETH_FRAME_LENGTH\<rparr>))
      else Some (b\<lparr>buf_sz := new_size\<rparr>))"

definition buf_data :: "frame_buffer \<Rightarrow> bytes" where
  "buf_data b = take (buf_sz b) (buf_storage b)"

section \<open>Pool of one symbol\<close>

record frame_buffer_pool =
  pool_entries :: "frame_buffer list"
  free_list :: "nat list"
  pending_list :: "nat list"

definition frame_buffer_pool_init :: "nat \<Rightarrow> nat \<Rightarrow> frame_buffer_pool" where
  "frame_buffer_pool_init min_nof_buffers buffer_size =
     (let n = min_nof_buffers * 2
      in \<lparr>pool_entries = replicate n (frame_buffer_init buffer_size), free_list = [0..<n], pending_list = []\<rparr>)"

definition number_of_buffers :: "frame_buffer_pool \<Rightarrow> nat" where
  "number_of_buffers p = length (pool_entries p)"

definition set_state :: "nat \<Rightarrow> buffer_state \<Rightarrow> frame_buffer_pool \<Rightarrow> frame_buffer_pool" where
  "set_state i st p = p\<lparr>pool_entries := (pool_entries p)[i := (pool_entries p ! i)\<lparr>buf_state := st\<rparr>]\<rparr>"

definition pool_reserve :: "slot_symbol_point \<Rightarrow> frame_buffer_pool \<Rightarrow> nat option \<times> frame_buffer_pool" where
  "pool_reserve symbol_point p =
     (case free_list p of
        [] \<Rightarrow> (None, p)
      | i # r \<Rightarrow>
          (Some i, p\<lparr>free_list := r,
             pool_entries := (pool_entries p)[i := (pool_entries p ! i)\<lparr>buf_state := buf_reserved, buf_sz := 0,
                                                                      buf_symbol_point := symbol_point\<rparr>]\<rparr>))"

text \<open>Draining the pending queue into a vector of limited capacity; None: the capacity is exceeded.\<close>

fun enqueue_pending_loop :: "nat list \<Rightarrow> nat \<Rightarrow> frame_buffer_pool \<Rightarrow> (nat list \<times> frame_buffer_pool) option" where
  "enqueue_pending_loop [] room p = Some ([], p)"
| "enqueue_pending_loop (i # r) room p =
     (if room = 0 then None
      else map_option (\<lambda>(xs, p). (i # xs, p)) (enqueue_pending_loop r (room - 1) (set_state i buf_queued p)))"

definition enqueue_pending :: "nat \<Rightarrow> frame_buffer_pool \<Rightarrow> (nat list \<times> frame_buffer_pool) option" where
  "enqueue_pending room p = enqueue_pending_loop (pending_list p) room (p\<lparr>pending_list := []\<rparr>)"

definition pop_pending :: "nat \<Rightarrow> frame_buffer_pool \<Rightarrow> (nat list \<times> frame_buffer_pool) option" where
  "pop_pending room p =
     (if room < length (pending_list p) then None else Some (pending_list p, p\<lparr>pending_list := []\<rparr>))"

definition return_to_pending :: "nat \<Rightarrow> frame_buffer_pool \<Rightarrow> frame_buffer_pool" where
  "return_to_pending i p = set_state i buf_reserved p"

text \<open>
  Both queues have the capacity of the pool.  \<open>pool_free\<close> retries until the push succeeds: None is a
  loop that does not end.  A full pending queue sends the buffer to the free list.
\<close>

definition try_push :: "nat \<Rightarrow> nat \<Rightarrow> nat list \<Rightarrow> nat list option" where
  "try_push capacity i q = (if length q < capacity then Some (q @ [i]) else None)"

definition pool_free :: "nat \<Rightarrow> frame_buffer_pool \<Rightarrow> frame_buffer_pool option" where
  "pool_free i p = map_option (\<lambda>q. p\<lparr>free_list := q\<rparr>) (try_push (number_of_buffers p) i (free_list p))"

definition put_to_pending_queue :: "nat \<Rightarrow> frame_buffer_pool \<Rightarrow> frame_buffer_pool option" where
  "put_to_pending_queue i p =
     (case try_push (number_of_buffers p) i (pending_list p) of
        Some q \<Rightarrow> Some (p\<lparr>pending_list := q\<rparr>)
      | None \<Rightarrow> pool_free i p)"

definition update_state :: "nat \<Rightarrow> frame_buffer_pool \<Rightarrow> frame_buffer_pool option" where
  "update_state i p =
     (case buf_state (pool_entries p ! i) of
        buf_reserved \<Rightarrow>
          if buf_empty (pool_entries p ! i) then pool_free i (set_state i buf_free p)
          else put_to_pending_queue i (set_state i buf_pending p)
      | buf_pending \<Rightarrow> pool_free i (set_state i buf_free p)
      | buf_queued \<Rightarrow> pool_free i (set_state i buf_free p)
      | buf_free \<Rightarrow> Some p)"

fun update_states :: "nat list \<Rightarrow> frame_buffer_pool \<Rightarrow> frame_buffer_pool option" where
  "update_states [] p = Some p"
| "update_states (i # r) p = Option.bind (update_state i p) (update_states r)"

section \<open>Pool of all symbols\<close>

definition NUM_SLOTS :: nat where "NUM_SLOTS = 20"
definition NOF_OFDM_SYM_PER_SLOT_NORMAL_CP :: nat where "NOF_OFDM_SYM_PER_SLOT_NORMAL_CP = 14"
definition NUM_ENTRIES :: nat where "NUM_ENTRIES = NOF_OFDM_SYM_PER_SLOT_NORMAL_CP * NUM_SLOTS"

definition get_pool_entry :: "slot_point \<Rightarrow> nat \<Rightarrow> nat" where
  "get_pool_entry s symbol = (slot_index s * NOF_OFDM_SYM_PER_SLOT_NORMAL_CP + symbol) mod NUM_ENTRIES"

type_synonym eth_frame_pool = "frame_buffer_pool list"

definition eth_pool_reserve :: "slot_symbol_point \<Rightarrow> eth_frame_pool \<Rightarrow> nat option \<times> eth_frame_pool" where
  "eth_pool_reserve sp pool =
     (let e = get_pool_entry (get_slot sp) (get_symbol_index sp); (r, p) = pool_reserve sp (pool ! e)
      in (r, pool[e := p]))"

text \<open>A burst element is a buffer of an entry, so it is a pair of the entry and the buffer index.\<close>

definition eth_enqueue_symbol ::
  "slot_symbol_point \<Rightarrow> (nat \<times> nat) list \<Rightarrow> eth_frame_pool \<Rightarrow> ((nat \<times> nat) list \<times> eth_frame_pool) option" where
  "eth_enqueue_symbol sp burst pool =
     (let e = get_pool_entry (get_slot sp) (get_symbol_index sp)
      in map_option (\<lambda>(xs, p). (burst @ map (Pair e) xs, pool[e := p]))
           (enqueue_pending (MAX_TX_BURST_SIZE - length burst) (pool ! e)))"

fun eth_enqueue_symbols ::
  "slot_symbol_point list \<Rightarrow> (nat \<times> nat) list \<Rightarrow> eth_frame_pool \<Rightarrow> ((nat \<times> nat) list \<times> eth_frame_pool) option" where
  "eth_enqueue_symbols [] burst pool = Some (burst, pool)"
| "eth_enqueue_symbols (sp # sps) burst pool =
     Option.bind (eth_enqueue_symbol sp burst pool) (\<lambda>(burst, pool). eth_enqueue_symbols sps burst pool)"

definition interval_symbols :: "slot_symbol_point \<Rightarrow> slot_symbol_point \<Rightarrow> slot_symbol_point list" where
  "interval_symbols start stop =
     (if ssp_greater start stop then []
      else map (\<lambda>i. ssp_plus start (int i)) [0..<nat (ssp_diff stop start + 1)])"

definition enqueue_pending_into_burst ::
  "slot_symbol_point \<Rightarrow> slot_symbol_point \<Rightarrow> (nat \<times> nat) list \<Rightarrow> eth_frame_pool \<Rightarrow>
   ((nat \<times> nat) list \<times> eth_frame_pool) option" where
  "enqueue_pending_into_burst start stop burst pool = eth_enqueue_symbols (interval_symbols start stop) burst pool"

text \<open>
  Clearing of a slot.  Of each entry the pending buffers are popped; those of another slot are counted
  and freed by their destructor, the others are marked as reserved and so pushed back by theirs.
\<close>

definition buf_slot :: "frame_buffer_pool \<Rightarrow> nat \<Rightarrow> slot_point" where
  "buf_slot p i = get_slot (buf_symbol_point (pool_entries p ! i))"

definition clear_entry :: "slot_point \<Rightarrow> frame_buffer_pool \<Rightarrow> (nat \<times> frame_buffer_pool) option" where
  "clear_entry s p = do {
     (burst, q) \<leftarrow> pop_pending MAX_TX_BURST_SIZE p;
     let late = filter (\<lambda>i. buf_slot q i \<noteq> s) burst;
     let q = fold (\<lambda>i q. if buf_slot q i \<noteq> s then q else return_to_pending i q) burst q;
     q \<leftarrow> update_states burst q;
     Some (length late, q)
   }"

fun clear_symbols :: "slot_point \<Rightarrow> nat list \<Rightarrow> eth_frame_pool \<Rightarrow> (nat \<times> eth_frame_pool) option" where
  "clear_symbols s [] pool = Some (0, pool)"
| "clear_symbols s (symbol # r) pool = do {
     let e = get_pool_entry s symbol;
     (n, p) \<leftarrow> clear_entry s (pool ! e);
     (m, pool) \<leftarrow> clear_symbols s r (pool[e := p]);
     Some (n + m, pool)
   }"

definition clear_slot :: "bool \<Rightarrow> slot_point \<Rightarrow> eth_frame_pool \<Rightarrow> (nat \<times> eth_frame_pool) option" where
  "clear_slot dl_cplane s pool = do {
     (n, pool) \<leftarrow> clear_symbols s [0] pool;
     if dl_cplane then Some (n, pool)
     else do {
       (m, pool) \<leftarrow> clear_symbols s [1..<NOF_OFDM_SYM_PER_SLOT_NORMAL_CP] pool;
       Some (n + m, pool)
     }
   }"

section \<open>Interleavings\<close>

text \<open>
  The threads of the program: encoders reserve a buffer, write it and drop it; the transmitter queues
  the pending buffers and drops them once sent; the expiry check pops pending buffers, may mark them
  to be returned, and drops them.  The second component of a configuration is the list of the scoped
  buffers alive in any thread.
\<close>

type_synonym pool_conf = "frame_buffer_pool \<times> nat list"

inductive pool_step :: "pool_conf \<Rightarrow> pool_conf \<Rightarrow> bool" where
  step_reserve: "pool_reserve sp p = (Some i, q) \<Longrightarrow> pool_step (p, h) (q, i # h)"
| step_write: "i \<in> set h \<Longrightarrow> buf_state (pool_entries p ! i) = buf_reserved \<Longrightarrow>
    pool_step (p, h)
      (p\<lparr>pool_entries := (pool_entries p)[i := (pool_entries p ! i)\<lparr>buf_storage := bs, buf_sz := n\<rparr>]\<rparr>, h)"
| step_enqueue: "enqueue_pending room p = Some (xs, q) \<Longrightarrow> pool_step (p, h) (q, xs @ h)"
| step_pop: "pop_pending room p = Some (xs, q) \<Longrightarrow> pool_step (p, h) (q, xs @ h)"
| step_return: "i \<in> set h \<Longrightarrow> buf_state (pool_entries p ! i) = buf_pending \<Longrightarrow>
    pool_step (p, h) (return_to_pending i p, h)"
| step_release: "i \<in> set h \<Longrightarrow> update_state i p = Some q \<Longrightarrow> pool_step (p, h) (q, remove1 i h)"

inductive_cases pool_stepE: "pool_step (p, h) c"

text \<open>
  The invariant: every buffer is in exactly one of the free list, the pending list and the hands of a
  thread, its state word agrees with where it is, and a pending buffer has been written.
\<close>

definition pool_inv :: "pool_conf \<Rightarrow> bool" where
  "pool_inv c \<longleftrightarrow> (case c of (p, h) \<Rightarrow>
     mset (free_list p @ pending_list p @ h) = mset [0..<number_of_buffers p] \<and>
     (\<forall>i \<in> set (free_list p). buf_state (pool_entries p ! i) = buf_free) \<and>
     (\<forall>i \<in> set (pending_list p). buf_state (pool_entries p ! i) = buf_pending \<and> buf_sz (pool_entries p ! i) \<noteq> 0) \<and>
     (\<forall>i \<in> set h. buf_state (pool_entries p ! i) \<noteq> buf_free))"

lemma pool_invI:
  assumes "mset (free_list p) + mset (pending_list p) + mset h = mset [0..<number_of_buffers p]"
    and "\<And>i. i \<in> set (free_list p) \<Longrightarrow> buf_state (pool_entries p ! i) = buf_free"
    and "\<And>i. i \<in> set (pending_list p) \<Longrightarrow> buf_state (pool_entries p ! i) = buf_pending \<and> buf_sz (pool_entries p ! i) \<noteq> 0"
    and "\<And>i. i \<in> set h \<Longrightarrow> buf_state (pool_entries p ! i) \<noteq> buf_free"
  shows "pool_inv (p, h)"
  using assms by (simp add: pool_inv_def add.assoc)

lemma number_of_buffers_update [simp]:
  "number_of_buffers (p\<lparr>free_list := xs\<rparr>) = number_of_buffers p"
  "number_of_buffers (p\<lparr>pending_list := xs\<rparr>) = number_of_buffers p"
  "number_of_buffers (p\<lparr>pool_entries := (pool_entries p)[i := b]\<rparr>) = number_of_buffers p"
  "number_of_buffers (p\<lparr>free_list := xs, pool_entries := (pool_entries p)[i := b]\<rparr>) = number_of_buffers p"
  by (simp_all add: number_of_buffers_def)

lemma pool_inv_init: "pool_inv (frame_buffer_pool_init n sz, [])"
  by (simp add: pool_inv_def frame_buffer_pool_init_def number_of_buffers_def frame_buffer_init_def Let_def)

lemma set_state_fields [simp]:
  "free_list (set_state i st p) = free_list p" "pending_list (set_state i st p) = pending_list p"
  "length (pool_entries (set_state i st p)) = length (pool_entries p)"
  "number_of_buffers (set_state i st p) = number_of_buffers p"
  by (simp_all add: set_state_def number_of_buffers_def)

lemma buf_state_set_state:
  "i < number_of_buffers p \<Longrightarrow>
     buf_state (pool_entries (set_state i st p) ! j) = (if i = j then st else buf_state (pool_entries p ! j))"
  by (simp add: set_state_def number_of_buffers_def nth_list_update)

lemma buf_data_set_state [simp]:
  "buf_sz (pool_entries (set_state i st p) ! j) = buf_sz (pool_entries p ! j)"
  "buf_symbol_point (pool_entries (set_state i st p) ! j) = buf_symbol_point (pool_entries p ! j)"
  "buf_slot (set_state i st p) j = buf_slot p j"
  by (cases "i < length (pool_entries p)"; simp add: set_state_def nth_list_update buf_slot_def list_update_beyond)+

text \<open>What the invariant says about the lists.\<close>

lemma pool_invD:
  assumes "pool_inv (p, h)"
  shows "distinct (free_list p @ pending_list p @ h)"
    "set (free_list p @ pending_list p @ h) = {..<number_of_buffers p}"
    "length (free_list p) + length (pending_list p) + length h = number_of_buffers p"
proof -
  have m: "mset (free_list p @ pending_list p @ h) = mset [0..<number_of_buffers p]"
    using assms by (simp add: pool_inv_def)
  show "distinct (free_list p @ pending_list p @ h)"
    using mset_eq_imp_distinct_iff [OF m] by simp
  show "set (free_list p @ pending_list p @ h) = {..<number_of_buffers p}"
    using mset_eq_setD [OF m] by (auto simp: atLeast0LessThan)
  show "length (free_list p) + length (pending_list p) + length h = number_of_buffers p"
    using mset_eq_length [OF m] by simp
qed

lemma enqueue_pending_loop_spec:
  "enqueue_pending_loop xs room p = Some (ys, q) \<Longrightarrow>
     ys = xs \<and> q = fold (\<lambda>i. set_state i buf_queued) xs p \<and> length xs \<le> room"
  by (induction xs arbitrary: room p ys q) (fastforce split: if_splits)+

lemma enqueue_pending_loop_enough:
  "length xs \<le> room \<Longrightarrow>
     enqueue_pending_loop xs room p = Some (xs, fold (\<lambda>i. set_state i buf_queued) xs p)"
  by (induction xs arbitrary: room p) auto

lemma fold_set_state:
  "free_list (fold (\<lambda>i. set_state i st) xs p) = free_list p \<and>
   pending_list (fold (\<lambda>i. set_state i st) xs p) = pending_list p \<and>
   number_of_buffers (fold (\<lambda>i. set_state i st) xs p) = number_of_buffers p \<and>
   (set xs \<subseteq> {..<number_of_buffers p} \<longrightarrow>
     buf_state (pool_entries (fold (\<lambda>i. set_state i st) xs p) ! j) =
       (if j \<in> set xs then st else buf_state (pool_entries p ! j)))"
  by (induction xs arbitrary: p) (auto simp: buf_state_set_state)

lemma enqueue_pending_inv:
  assumes inv: "pool_inv (p, h)" and e: "enqueue_pending room p = Some (xs, q)"
  shows "pool_inv (q, xs @ h)"
proof -
  have xs: "xs = pending_list p" and q: "q = fold (\<lambda>i. set_state i buf_queued) xs (p\<lparr>pending_list := []\<rparr>)"
    using enqueue_pending_loop_spec e unfolding enqueue_pending_def by blast+
  have n: "number_of_buffers (p\<lparr>pending_list := []\<rparr>) = number_of_buffers p" by (simp add: number_of_buffers_def)
  have sub: "set xs \<subseteq> {..<number_of_buffers (p\<lparr>pending_list := []\<rparr>)}" using pool_invD(2) [OF inv] xs n by auto
  note f = fold_set_state [of buf_queued xs "p\<lparr>pending_list := []\<rparr>", folded q]
  have "set (free_list p) \<inter> set xs = {}" using pool_invD(1) [OF inv] xs by auto
  then show ?thesis
    using inv f sub xs n by (auto simp: pool_inv_def disjoint_iff)
qed

lemma pop_pending_inv:
  assumes "pool_inv (p, h)" "pop_pending room p = Some (xs, q)"
  shows "pool_inv (q, xs @ h)"
  using assms by (auto simp: pop_pending_def pool_inv_def number_of_buffers_def split: if_splits)

lemma pool_reserve_inv:
  assumes inv: "pool_inv (p, h)" and r: "pool_reserve sp p = (Some i, q)"
  shows "pool_inv (q, i # h)"
proof -
  obtain r where fl: "free_list p = i # r" using r by (auto simp: pool_reserve_def split: list.splits)
  then have "i < length (pool_entries p)" "i \<notin> set r" "i \<notin> set (pending_list p)" "i \<notin> set h"
    using pool_invD(1,2) [OF inv] by (auto simp: number_of_buffers_def)
  then show ?thesis
    using inv r fl
    by (auto simp: pool_reserve_def pool_inv_def number_of_buffers_def nth_list_update split: if_splits)
qed

lemma held_update_inv:
  assumes "pool_inv (p, h)" "i \<in> set h" "buf_state b \<noteq> buf_free"
  shows "pool_inv (p\<lparr>pool_entries := (pool_entries p)[i := b]\<rparr>, h)"
proof -
  have "i < length (pool_entries p)" "i \<notin> set (free_list p)" "i \<notin> set (pending_list p)"
    using pool_invD(1,2) [OF assms(1)] assms(2) by (auto simp: number_of_buffers_def)
  then show ?thesis using assms by (auto simp: pool_inv_def number_of_buffers_def nth_list_update)
qed

text \<open>
  Dropping a scoped buffer always ends: the retry loop of \<open>pool_free\<close> cannot spin and the pending queue
  cannot be full, since the dropped buffer itself is in neither queue.
\<close>

lemma update_state_inv:
  assumes inv: "pool_inv (p, h)" and i: "i \<in> set h"
  shows "\<exists>q. update_state i p = Some q \<and> pool_inv (q, remove1 i h) \<and> number_of_buffers q = number_of_buffers p"
proof -
  have less: "i < number_of_buffers p" "i \<notin> set (free_list p)" "i \<notin> set (pending_list p)" "distinct h"
    using pool_invD(1,2) [OF inv] i by auto
  have st: "buf_state (pool_entries p ! i) \<noteq> buf_free" using inv i by (auto simp: pool_inv_def)
  have room: "length (free_list p) < number_of_buffers p" "length (pending_list p) < number_of_buffers p"
    using pool_invD(3) [OF inv] i by (auto simp: neq_Nil_conv dest!: split_list)
  define R where "R = remove1 i h"
  have m: "mset h = add_mset i (mset R)" using i by (simp add: R_def)
  have R: "j \<in> set R \<Longrightarrow> j \<noteq> i \<and> j \<in> set h" for j using less(4) by (simp add: R_def)
  have total: "mset (free_list p) + mset (pending_list p) + add_mset i (mset R) = mset [0..<number_of_buffers p]"
    unfolding m [symmetric] using inv by (simp add: pool_inv_def add.assoc)
  have loc: "j \<in> set (free_list p) \<Longrightarrow> buf_state (pool_entries p ! j) = buf_free"
    "j \<in> set (pending_list p) \<Longrightarrow> buf_state (pool_entries p ! j) = buf_pending \<and> buf_sz (pool_entries p ! j) \<noteq> 0"
    "j \<in> set R \<Longrightarrow> buf_state (pool_entries p ! j) \<noteq> buf_free" for j
    using inv R by (auto simp: pool_inv_def)
  have fr: "pool_inv ((set_state i buf_free p)\<lparr>free_list := free_list p @ [i]\<rparr>, R)"
    using total less R by (intro pool_invI) (auto simp: buf_state_set_state loc)
  have pd: "\<not> buf_empty (pool_entries p ! i) \<Longrightarrow> pool_inv ((set_state i buf_pending p)\<lparr>pending_list := pending_list p @ [i]\<rparr>, R)"
    using total less R by (intro pool_invI) (auto simp: buf_state_set_state loc buf_empty_def dest: loc(2))
  show ?thesis
    using fr pd room st unfolding R_def [symmetric]
    by (cases "buf_state (pool_entries p ! i)")
      (simp_all add: update_state_def pool_free_def put_to_pending_queue_def try_push_def number_of_buffers_def)
qed

lemma pool_step_inv:
  assumes "pool_step c d" "pool_inv c"
  shows "pool_inv d"
  using assms
proof cases
  case (step_release i h p q)
  then show ?thesis using assms(2) update_state_inv [of p h i] by auto
qed (use assms(2) in \<open>auto simp: return_to_pending_def set_state_def
      intro: pool_reserve_inv held_update_inv enqueue_pending_inv pop_pending_inv\<close>)

lemma pool_step_size:
  assumes "pool_step (p, h) (q, k)"
  shows "number_of_buffers q = number_of_buffers p"
proof -
  have f: "number_of_buffers (fold (\<lambda>i. set_state i st) xs r) = number_of_buffers r" for st xs r
    using fold_set_state [of st xs r] by simp
  show ?thesis using assms
    by cases
      (auto simp: pool_reserve_def enqueue_pending_def pop_pending_def return_to_pending_def update_state_def f
        put_to_pending_queue_def pool_free_def try_push_def
        dest!: enqueue_pending_loop_spec split: list.splits if_splits buffer_state.splits)
qed

section \<open>Expiry\<close>

text \<open>The destructors of a burst: the buffers that were marked go back to the pending list.\<close>

lemma update_states_burst:
  assumes "set xs \<subseteq> {..<number_of_buffers p}" "distinct xs"
    and "length (free_list p) + length (pending_list p) + length xs \<le> number_of_buffers p"
    and "\<forall>i \<in> set xs. buf_state (pool_entries p ! i) = (if P i then buf_reserved else buf_pending) \<and>
      buf_sz (pool_entries p ! i) \<noteq> 0"
  shows "\<exists>q. update_states xs p = Some q \<and> pending_list q = pending_list p @ filter P xs \<and>
    free_list q = free_list p @ filter (\<lambda>i. \<not> P i) xs \<and> number_of_buffers q = number_of_buffers p \<and>
    (\<forall>j. buf_sz (pool_entries q ! j) = buf_sz (pool_entries p ! j) \<and> buf_slot q j = buf_slot p j \<and>
      buf_state (pool_entries q ! j) =
        (if j \<in> set xs then (if P j then buf_pending else buf_free) else buf_state (pool_entries p ! j)))"
  using assms
proof (induction xs arbitrary: p)
  case (Cons i xs)
  let ?q = "if P i then (set_state i buf_pending p)\<lparr>pending_list := pending_list p @ [i]\<rparr>
    else (set_state i buf_free p)\<lparr>free_list := free_list p @ [i]\<rparr>"
  have i: "i < number_of_buffers p" "i \<notin> set xs" using Cons.prems by auto
  have u: "update_state i p = Some ?q"
    using Cons.prems(3,4)
    by (simp add: update_state_def put_to_pending_queue_def pool_free_def try_push_def buf_empty_def)
  have pe: "pool_entries ?q = pool_entries (set_state i (if P i then buf_pending else buf_free) p)" by simp
  have "\<exists>q. update_states xs ?q = Some q \<and> pending_list q = pending_list ?q @ filter P xs \<and>
    free_list q = free_list ?q @ filter (\<lambda>i. \<not> P i) xs \<and> number_of_buffers q = number_of_buffers ?q \<and>
    (\<forall>j. buf_sz (pool_entries q ! j) = buf_sz (pool_entries ?q ! j) \<and> buf_slot q j = buf_slot ?q j \<and>
      buf_state (pool_entries q ! j) =
        (if j \<in> set xs then (if P j then buf_pending else buf_free) else buf_state (pool_entries ?q ! j)))"
  proof (rule Cons.IH)
    show "\<forall>j \<in> set xs. buf_state (pool_entries ?q ! j) = (if P j then buf_reserved else buf_pending) \<and>
      buf_sz (pool_entries ?q ! j) \<noteq> 0"
      unfolding pe using Cons.prems(4) i by (auto simp: buf_state_set_state)
  qed (use Cons.prems in auto)
  moreover have "buf_slot ?q j = buf_slot p j" "buf_sz (pool_entries ?q ! j) = buf_sz (pool_entries p ! j)"
    "buf_state (pool_entries ?q ! j) = (if i = j then (if P i then buf_pending else buf_free) else buf_state (pool_entries p ! j))" for j
    using i(1) by (simp_all add: pe buf_state_set_state buf_slot_def)
  ultimately show ?case using i(2) by (cases "P i") (auto simp: u)
qed simp

lemma fold_return_fields:
  assumes "set xs \<subseteq> {..<number_of_buffers p}" "distinct xs"
  shows "free_list (fold (\<lambda>i q. if buf_slot q i \<noteq> s then q else return_to_pending i q) xs p) = free_list p \<and>
    pending_list (fold (\<lambda>i q. if buf_slot q i \<noteq> s then q else return_to_pending i q) xs p) = pending_list p \<and>
    number_of_buffers (fold (\<lambda>i q. if buf_slot q i \<noteq> s then q else return_to_pending i q) xs p) = number_of_buffers p \<and>
    (\<forall>j. buf_slot (fold (\<lambda>i q. if buf_slot q i \<noteq> s then q else return_to_pending i q) xs p) j = buf_slot p j \<and>
      buf_sz (pool_entries (fold (\<lambda>i q. if buf_slot q i \<noteq> s then q else return_to_pending i q) xs p) ! j) =
        buf_sz (pool_entries p ! j) \<and>
      buf_state (pool_entries (fold (\<lambda>i q. if buf_slot q i \<noteq> s then q else return_to_pending i q) xs p) ! j) =
        (if j \<in> set xs \<and> buf_slot p j = s then buf_reserved else buf_state (pool_entries p ! j)))"
  using assms by (induction xs arbitrary: p) (auto simp: return_to_pending_def buf_state_set_state)

lemma clear_entry_spec:
  assumes inv: "pool_inv (p, h)" and room: "length (pending_list p) \<le> MAX_TX_BURST_SIZE"
  shows "\<exists>q. clear_entry s p = Some (length (filter (\<lambda>i. buf_slot p i \<noteq> s) (pending_list p)), q) \<and>
    pending_list q = filter (\<lambda>i. buf_slot p i = s) (pending_list p) \<and>
    free_list q = free_list p @ filter (\<lambda>i. buf_slot p i \<noteq> s) (pending_list p) \<and> pool_inv (q, h)"
proof -
  let ?xs = "pending_list p" and ?p = "p\<lparr>pending_list := []\<rparr>"
  define r where "r = fold (\<lambda>i q. if buf_slot q i \<noteq> s then q else return_to_pending i q) ?xs ?p"
  have D: "distinct (free_list p @ ?xs @ h)" "set (free_list p @ ?xs @ h) = {..<number_of_buffers p}"
    "length (free_list p) + length ?xs + length h = number_of_buffers p"
    using pool_invD [OF inv] by auto
  have pending: "set ?xs \<subseteq> {..<number_of_buffers ?p}" using D(2) by auto
  have slot: "buf_slot ?p = buf_slot p" by (simp add: buf_slot_def fun_eq_iff)
  have r: "free_list r = free_list p" "pending_list r = []" "number_of_buffers r = number_of_buffers p"
    "\<And>j. buf_slot r j = buf_slot p j" "\<And>j. buf_sz (pool_entries r ! j) = buf_sz (pool_entries p ! j)"
    "\<And>j. buf_state (pool_entries r ! j) =
      (if j \<in> set ?xs \<and> buf_slot p j = s then buf_reserved else buf_state (pool_entries p ! j))"
    using fold_return_fields [of ?xs ?p s, folded r_def] pending D(1) by (simp_all add: slot)
  have "\<exists>q. update_states ?xs r = Some q \<and> pending_list q = pending_list r @ filter (\<lambda>i. buf_slot p i = s) ?xs \<and>
    free_list q = free_list r @ filter (\<lambda>i. \<not> buf_slot p i = s) ?xs \<and> number_of_buffers q = number_of_buffers r \<and>
    (\<forall>j. buf_sz (pool_entries q ! j) = buf_sz (pool_entries r ! j) \<and> buf_slot q j = buf_slot r j \<and>
      buf_state (pool_entries q ! j) = (if j \<in> set ?xs then (if buf_slot p j = s then buf_pending else buf_free)
        else buf_state (pool_entries r ! j)))"
    by (rule update_states_burst) (use D inv in \<open>auto simp: r pool_inv_def\<close>)
  then obtain q where q: "update_states ?xs r = Some q" "pending_list q = filter (\<lambda>i. buf_slot p i = s) ?xs"
    "free_list q = free_list p @ filter (\<lambda>i. buf_slot p i \<noteq> s) ?xs" "number_of_buffers q = number_of_buffers p"
    "\<And>j. buf_sz (pool_entries q ! j) = buf_sz (pool_entries p ! j)"
    "\<And>j. buf_state (pool_entries q ! j) = (if j \<in> set ?xs then (if buf_slot p j = s then buf_pending else buf_free)
        else buf_state (pool_entries p ! j))"
    by (auto simp: r)
  have part: "mset (filter (\<lambda>i. buf_slot p i \<noteq> s) ?xs) + mset (filter (\<lambda>i. buf_slot p i = s) ?xs) = mset ?xs"
    using multiset_partition [of "mset ?xs" "\<lambda>i. buf_slot p i \<noteq> s"] by simp
  have "pool_inv (q, h)"
  proof (rule pool_invI)
    show "mset (free_list q) + mset (pending_list q) + mset h = mset [0..<number_of_buffers q]"
      using inv part by (simp add: q pool_inv_def add.assoc)
  qed (use D(1) inv in \<open>auto simp: q pool_inv_def split: if_splits\<close>)
  then show ?thesis
    using room q by (auto simp: clear_entry_def pop_pending_def Let_def r_def slot)
qed

definition stale :: "slot_point \<Rightarrow> frame_buffer_pool \<Rightarrow> nat list" where
  "stale s p = filter (\<lambda>i. buf_slot p i \<noteq> s) (pending_list p)"

definition eth_pool_inv :: "(nat \<Rightarrow> nat list) \<Rightarrow> eth_frame_pool \<Rightarrow> bool" where
  "eth_pool_inv hs pool \<longleftrightarrow> length pool = NUM_ENTRIES \<and>
     (\<forall>e < NUM_ENTRIES. pool_inv (pool ! e, hs e) \<and> length (pending_list (pool ! e)) \<le> MAX_TX_BURST_SIZE)"

lemma get_pool_entry_less: "get_pool_entry s symbol < NUM_ENTRIES"
  by (simp add: get_pool_entry_def NUM_ENTRIES_def NOF_OFDM_SYM_PER_SLOT_NORMAL_CP_def NUM_SLOTS_def)

lemma get_pool_entry_inject:
  assumes "x < 14" "y < 14" "get_pool_entry s x = get_pool_entry s y"
  shows "x = y"
proof -
  have "(slot_index s * 14 + x) mod 280 = (slot_index s * 14 + y) mod 280"
    using assms(3) by (simp add: get_pool_entry_def NUM_ENTRIES_def NOF_OFDM_SYM_PER_SLOT_NORMAL_CP_def NUM_SLOTS_def)
  then have "(x :: nat) mod 280 = y mod 280" by (simp add: mod_add_cong nat_mod_eq_iff)
  then show ?thesis using assms by simp
qed

lemma clear_symbols_spec:
  assumes "eth_pool_inv hs pool" "distinct xs" "set xs \<subseteq> {..<14}"
  shows "\<exists>pool'. clear_symbols s xs pool = Some (\<Sum>x \<leftarrow> xs. length (stale s (pool ! get_pool_entry s x)), pool') \<and>
    eth_pool_inv hs pool' \<and>
    (\<forall>e < NUM_ENTRIES. if e \<in> get_pool_entry s ` set xs
       then pending_list (pool' ! e) = filter (\<lambda>i. buf_slot (pool ! e) i = s) (pending_list (pool ! e)) \<and>
            free_list (pool' ! e) = free_list (pool ! e) @ stale s (pool ! e)
       else pool' ! e = pool ! e)"
  using assms
proof (induction xs arbitrary: pool)
  case (Cons x xs)
  let ?e = "get_pool_entry s x"
  have e: "?e < NUM_ENTRIES" "length pool = NUM_ENTRIES"
    using Cons.prems(1) by (simp_all add: get_pool_entry_less eth_pool_inv_def)
  have inv: "pool_inv (pool ! ?e, hs ?e)" "length (pending_list (pool ! ?e)) \<le> MAX_TX_BURST_SIZE"
    using Cons.prems(1) e(1) by (simp_all add: eth_pool_inv_def)
  obtain q where q: "clear_entry s (pool ! ?e) = Some (length (stale s (pool ! ?e)), q)"
    "pending_list q = filter (\<lambda>i. buf_slot (pool ! ?e) i = s) (pending_list (pool ! ?e))"
    "free_list q = free_list (pool ! ?e) @ stale s (pool ! ?e)" "pool_inv (q, hs ?e)"
    using clear_entry_spec [OF inv] unfolding stale_def by blast
  have len: "length (pending_list q) \<le> MAX_TX_BURST_SIZE"
    unfolding q(2) using inv(2) length_filter_le order.trans by blast
  have inv': "eth_pool_inv hs (pool[?e := q])"
    using Cons.prems(1) q(4) len e by (auto simp: eth_pool_inv_def nth_list_update)
  have neq: "get_pool_entry s y \<noteq> ?e" if "y \<in> set xs" for y
    using get_pool_entry_inject [of y x s] that Cons.prems(2,3) by auto
  then have notin: "?e \<notin> get_pool_entry s ` set xs" by (metis imageE)
  obtain pool' where IH: "clear_symbols s xs (pool[?e := q]) =
      Some (\<Sum>x \<leftarrow> xs. length (stale s (pool[?e := q] ! get_pool_entry s x)), pool')" "eth_pool_inv hs pool'"
    "\<forall>e < NUM_ENTRIES. if e \<in> get_pool_entry s ` set xs
       then pending_list (pool' ! e) = filter (\<lambda>i. buf_slot (pool[?e := q] ! e) i = s) (pending_list (pool[?e := q] ! e)) \<and>
            free_list (pool' ! e) = free_list (pool[?e := q] ! e) @ stale s (pool[?e := q] ! e)
       else pool' ! e = pool[?e := q] ! e"
    using Cons.IH [OF inv'] Cons.prems by auto
  have "pool[?e := q] ! get_pool_entry s y = pool ! get_pool_entry s y" if "y \<in> set xs" for y
    using neq [OF that] by (metis nth_list_update_neq)
  then have sum: "(\<Sum>x \<leftarrow> xs. length (stale s (pool[?e := q] ! get_pool_entry s x))) =
      (\<Sum>x \<leftarrow> xs. length (stale s (pool ! get_pool_entry s x)))"
    by (simp cong: map_cong)
  show ?case
  proof (intro exI conjI)
    show "clear_symbols s (x # xs) pool =
        Some (\<Sum>x \<leftarrow> x # xs. length (stale s (pool ! get_pool_entry s x)), pool')"
      using q(1) IH(1) sum by (simp add: Let_def)
    show "\<forall>e < NUM_ENTRIES. if e \<in> get_pool_entry s ` set (x # xs)
       then pending_list (pool' ! e) = filter (\<lambda>i. buf_slot (pool ! e) i = s) (pending_list (pool ! e)) \<and>
            free_list (pool' ! e) = free_list (pool ! e) @ stale s (pool ! e)
       else pool' ! e = pool ! e"
    proof (intro allI impI)
      fix e assume "e < NUM_ENTRIES"
      then show "if e \<in> get_pool_entry s ` set (x # xs)
       then pending_list (pool' ! e) = filter (\<lambda>i. buf_slot (pool ! e) i = s) (pending_list (pool ! e)) \<and>
            free_list (pool' ! e) = free_list (pool ! e) @ stale s (pool ! e)
       else pool' ! e = pool ! e"
        using IH(3) [rule_format, of e] q(2,3) e notin by (cases "e = ?e") auto
    qed
  qed (rule IH(2))
qed simp

section \<open>Properties\<close>

text \<open>
  C13: In every interleaving of encoders, transmitter and expiry checks, no frame buffer is lost,
  duplicated or handed out twice: each buffer is in exactly one of the free queue, the pending queue
  and the hands of one thread; and dropping a held buffer always completes.
\<close>

theorem frame_pool_no_leak:
  assumes "pool_step\<^sup>*\<^sup>* (frame_buffer_pool_init n sz, []) (p, h)"
  shows "distinct (free_list p @ pending_list p @ h) \<and>
    set (free_list p @ pending_list p @ h) = {..<2 * n} \<and> (\<forall>i \<in> set h. \<exists>q. update_state i p = Some q)"
proof -
  have "pool_inv (p, h) \<and> number_of_buffers p = 2 * n"
    using assms
  proof (induction rule: rtranclp_induct2)
    case refl
    then show ?case by (simp add: pool_inv_init) (simp add: frame_buffer_pool_init_def number_of_buffers_def Let_def)
  next
    case (step p h q k)
    then have "pool_inv (q, k)" using pool_step_inv by blast
    moreover have "number_of_buffers q = number_of_buffers p"
      using step.hyps(2) pool_step_size by blast
    ultimately show ?case using step.IH by simp
  qed
  then show ?thesis using pool_invD [of p h] update_state_inv [of p h] by (metis (no_types))
qed

theorem frame_pool_no_leak_witness:
  "\<exists>p h. pool_step\<^sup>*\<^sup>* (frame_buffer_pool_init 2 64, []) (p, h) \<and> h = [0] \<and> distinct (free_list p @ pending_list p @ h)"
proof -
  let ?s = "slot_symbol_point_of (slot_point_sfn 1 0 0) 0 14"
  let ?q = "snd (pool_reserve ?s (frame_buffer_pool_init 2 64))"
  have "pool_reserve ?s (frame_buffer_pool_init 2 64) = (Some 0, ?q)"
    by (simp add: pool_reserve_def frame_buffer_pool_init_def Let_def upt_rec)
  then have r: "pool_step\<^sup>*\<^sup>* (frame_buffer_pool_init 2 64, []) (?q, [0])" by (blast intro: step_reserve)
  from frame_pool_no_leak [OF this] r show ?thesis by blast
qed

text \<open>
  C21: Clearing a slot removes exactly the expired frames.  For every OFDM symbol of the slot the pending
  frames reserved for another slot are freed and counted, the frames of the slot itself stay pending
  in their order, and the pools of other slots are untouched.
\<close>

theorem clear_slot_frees_exactly_stale:
  assumes "eth_pool_inv hs pool"
  shows "\<exists>pool'. clear_slot False s pool = Some (\<Sum>x \<leftarrow> [0..<14]. length (stale s (pool ! get_pool_entry s x)), pool') \<and>
    eth_pool_inv hs pool' \<and>
    (\<forall>e < NUM_ENTRIES. if e \<in> get_pool_entry s ` {..<14}
       then pending_list (pool' ! e) = filter (\<lambda>i. buf_slot (pool ! e) i = s) (pending_list (pool ! e)) \<and>
            free_list (pool' ! e) = free_list (pool ! e) @ stale s (pool ! e)
       else pool' ! e = pool ! e)"
proof -
  have "\<exists>pool'. clear_symbols s [0..<14] pool = Some (\<Sum>x \<leftarrow> [0..<14]. length (stale s (pool ! get_pool_entry s x)), pool') \<and>
    eth_pool_inv hs pool' \<and>
    (\<forall>e < NUM_ENTRIES. if e \<in> get_pool_entry s ` set [0..<14]
       then pending_list (pool' ! e) = filter (\<lambda>i. buf_slot (pool ! e) i = s) (pending_list (pool ! e)) \<and>
            free_list (pool' ! e) = free_list (pool ! e) @ stale s (pool ! e)
       else pool' ! e = pool ! e)"
    by (rule clear_symbols_spec [OF assms]) auto
  moreover have "clear_slot False s pool = clear_symbols s [0..<14] pool"
  proof -
    have "[0..<14] = 0 # [1..<14 :: nat]" by (simp add: upt_rec)
    then show ?thesis
      by (auto simp: clear_slot_def NOF_OFDM_SYM_PER_SLOT_NORMAL_CP_def Let_def split: Option.bind_splits prod.splits)
  qed
  ultimately show ?thesis by (simp add: lessThan_atLeast0)
qed

theorem clear_slot_frees_exactly_stale_witness:
  "\<exists>pool'. clear_slot False (slot_point_sfn 1 3 5) (replicate NUM_ENTRIES (frame_buffer_pool_init 2 64)) = Some (0, pool')"
proof -
  have "eth_pool_inv (\<lambda>_. []) (replicate NUM_ENTRIES (frame_buffer_pool_init 2 64))"
    using pool_inv_init [of 2 64] by (simp add: eth_pool_inv_def frame_buffer_pool_init_def Let_def)
  from clear_slot_frees_exactly_stale [OF this, of "slot_point_sfn 1 3 5"] obtain pool'
    where c: "clear_slot False (slot_point_sfn 1 3 5) (replicate NUM_ENTRIES (frame_buffer_pool_init 2 64)) =
      Some (\<Sum>x \<leftarrow> [0..<14]. length (stale (slot_point_sfn 1 3 5)
        (replicate NUM_ENTRIES (frame_buffer_pool_init 2 64) ! get_pool_entry (slot_point_sfn 1 3 5) x)), pool')" by blast
  have "stale s (replicate NUM_ENTRIES (frame_buffer_pool_init 2 64) ! get_pool_entry s x) = []" for s x
    by (simp add: stale_def get_pool_entry_less frame_buffer_pool_init_def Let_def)
  then show ?thesis unfolding c by (simp only: list.size) simp
qed

end
