(* ===== verification/Uplane_Transmitter.thy ===== *)
theory Uplane_Transmitter
  imports Uplane_Message Window_Checks Frame_Pool Ethernet_Frame Ecpri
begin

text \<open>
  User-Plane transmission: the fragment size calculator (lib/ofh/transmitter/
  ofh_uplane_fragment_size_calculator.cpp) and the User-Plane data flow that turns one OFDM symbol of
  a resource grid into Ethernet frames (ofh_data_flow_uplane_data_impl.cpp).
\<close>

section \<open>Fragment size calculator\<close>

record fragment_size_calculator =
  fc_start_prb :: nat
  fc_nof_prbs :: nat
  fc_prb_size :: nat
  fc_next_prb :: nat

definition build_prb_data_size_lut_index :: "nat \<Rightarrow> nat" where
  "build_prb_data_size_lut_index bitwidth = round_up_to_bytes (bitwidth * NOF_SUBCARRIERS_PER_RB * 2)"

definition get_prb_data_size :: "ru_compression_params \<Rightarrow> nat option" where
  "get_prb_data_size c =
     (let prb_data_size = map build_prb_data_size_lut_index [0..<17]
      in if \<not> data_width c < length prb_data_size then None
         else Some (if compr_type c = compr_none \<or> compr_type c = modulation
                    then prb_data_size ! data_width c else prb_data_size ! data_width c + 1))"

definition fragment_calculator_init :: "nat \<Rightarrow> nat \<Rightarrow> ru_compression_params \<Rightarrow> fragment_size_calculator option" where
  "fragment_calculator_init start_prb nof_prbs c =
     map_option (\<lambda>sz. \<lparr>fc_start_prb = start_prb, fc_nof_prbs = nof_prbs, fc_prb_size = sz, fc_next_prb = start_prb\<rparr>)
       (get_prb_data_size c)"

text \<open>The result: whether this is the last fragment, its first PRB and its number of PRBs.\<close>

definition calculate_fragment_size ::
  "nat \<Rightarrow> fragment_size_calculator \<Rightarrow> (bool \<times> nat \<times> nat) \<times> fragment_size_calculator" where
  "calculate_fragment_size frame_size f =
     (if frame_size < fc_prb_size f then ((False, fc_next_prb f, 0), f)
      else let fit = frame_size div fc_prb_size f;
               remaining = fc_nof_prbs f - (fc_next_prb f - fc_start_prb f)
           in if fit \<ge> remaining
              then ((True, fc_next_prb f, remaining), f\<lparr>fc_next_prb := fc_next_prb f + remaining\<rparr>)
              else ((False, fc_next_prb f, fit), f\<lparr>fc_next_prb := fc_next_prb f + fit\<rparr>))"

text \<open>
  The number of frames to pre-allocate.  The code divides in single precision, which is exact enough
  for the ceiling of a quotient of PRB counts; None is the division by zero.
\<close>

definition calculate_nof_segments :: "nat \<Rightarrow> nat \<Rightarrow> ru_compression_params \<Rightarrow> nat \<Rightarrow> nat option" where
  "calculate_nof_segments frame_size nof_prbs c headers_size = do {
     prb_size \<leftarrow> get_prb_data_size c;
     if prb_size = 0 then None else do {
       let fit = (frame_size - headers_size) div prb_size;
       if fit = 0 then None else Some ((nof_prbs + fit - 1) div fit)
     }
   }"

section \<open>User-Plane data flow\<close>

record 'iq uplane_tx_config =
  utx_nof_symbols :: nat
  utx_ru_nof_prbs :: nat
  utx_compr_params :: ru_compression_params
  utx_direction :: data_direction
  utx_vlan :: vlan_frame_params
  utx_compress :: "'iq list \<Rightarrow> ru_compression_params \<Rightarrow> bytes"
  utx_serialize_header :: "ru_compression_params \<Rightarrow> bytes"
  utx_up_header_size :: "ru_compression_params \<Rightarrow> nat"
  utx_zero :: 'iq

record uplane_grid_context =
  ug_slot :: slot_point
  ug_port :: nat
  ug_eaxc :: nat
  ug_start_symbol :: nat
  ug_stop_symbol :: nat
  ug_section_id :: nat

definition generate_ofh_user_parameters ::
  "data_direction \<Rightarrow> filter_index_type \<Rightarrow> slot_point \<Rightarrow> nat \<Rightarrow> nat \<Rightarrow> nat \<Rightarrow> ru_compression_params \<Rightarrow> nat \<Rightarrow>
   uplane_message_params" where
  "generate_ofh_user_parameters d f s symbol_id start_prb n c sect_id =
     \<lparr>up_direction = d, up_slot = s, up_filter_index = f, up_start_prb = start_prb, up_nof_prb = n,
      up_symbol_id = symbol_id, up_sect_type = type_1, up_compression_params = c, up_section_id = sect_id\<rparr>"

definition generate_ecpri_data_parameters :: "u16 \<Rightarrow> u16 \<Rightarrow> type_params" where
  "generate_ecpri_data_parameters sid eaxc =
     iq_data_parameters eaxc (push_bit 8 (sid AND 0x00ff) OR push_bit 7 1)"

text \<open>The Ethernet builder is the VLAN one when a tag is configured (a virtual call in the code).\<close>

definition eth_builder_header_size :: "vlan_frame_params \<Rightarrow> nat" where
  "eth_builder_header_size v = (if vlan_config v = None then eth_get_header_size else vlan_get_header_size)"

definition eth_builder_build_frame :: "vlan_frame_params \<Rightarrow> bytes \<Rightarrow> bytes option" where
  "eth_builder_build_frame v buf = (if vlan_config v = None then Some (eth_build_frame v buf) else vlan_build_frame v buf)"

definition uplane_headers_size :: "'iq uplane_tx_config \<Rightarrow> nat" where
  "uplane_headers_size cfg =
     eth_builder_header_size (utx_vlan cfg) + ecpri_get_header_size iq_data +
     utx_up_header_size cfg (utx_compr_params cfg)"

text \<open>
  One message, written into a frame buffer from the inside out.  The result is the written part of
  the buffer; None is an assertion of the builders or a write past the end of the buffer.
\<close>

definition enqueue_section_type_1_message_symbol ::
  "'iq uplane_tx_config \<Rightarrow> 'iq list \<Rightarrow> uplane_message_params \<Rightarrow> nat \<Rightarrow> bytes \<Rightarrow> sequence_identifier_generator \<Rightarrow>
   (bytes \<times> sequence_identifier_generator) option" where
  "enqueue_section_type_1_message_symbol cfg iq p eaxc buffer gen = do {
     let ether_header_size = eth_builder_header_size (utx_vlan cfg);
     let ecpri_hdr_size = ecpri_get_header_size iq_data;
     let offset = ether_header_size + ecpri_hdr_size;
     msg \<leftarrow> build_message (utx_compress cfg) (utx_serialize_header cfg) iq p;
     if length buffer < offset + length msg then None
     else do {
       let buffer = take offset buffer @ overlay msg (drop offset buffer);
       (sid, gen) \<leftarrow> seq_generate eaxc gen;
       let tp = generate_ecpri_data_parameters (ucast sid) (of_nat eaxc);
       let ecpri_buffer = build_data_packet (take (ecpri_hdr_size + length msg) (drop ether_header_size buffer))
                            (pc_id tp) (iq_seq_id tp);
       let buffer = take ether_header_size buffer @ overlay ecpri_buffer (drop ether_header_size buffer);
       eth_buffer \<leftarrow> eth_builder_build_frame (utx_vlan cfg)
         (take (ether_header_size + length msg + ecpri_hdr_size) buffer);
       Some (eth_buffer, gen)
     }
   }"

text \<open>
  The fragments of one symbol.  The list holds the storage of the buffers the pool hands out one after
  the other; the loop leaves when the pool is empty.  A buffer that is not written goes back to the pool.
  The results: the written frames, the generator, and whether the last fragment was reached.
\<close>

definition frame_room :: "'iq uplane_tx_config \<Rightarrow> bytes \<Rightarrow> nat" where
  "frame_room cfg buffer = nat ((int (length buffer) - int (uplane_headers_size cfg)) mod 2 ^ 32)"

fun enqueue_fragments ::
  "'iq uplane_tx_config \<Rightarrow> uplane_grid_context \<Rightarrow> nat \<Rightarrow> 'iq list \<Rightarrow> fragment_size_calculator \<Rightarrow> bytes list \<Rightarrow>
   sequence_identifier_generator \<Rightarrow> (bytes list \<times> sequence_identifier_generator \<times> bool) option" where
  "enqueue_fragments cfg ctx symbol_id iq f [] gen = Some ([], gen, False)"
| "enqueue_fragments cfg ctx symbol_id iq f (buffer # buffers) gen =
     (let ((is_last, start, n), f) = calculate_fragment_size (frame_room cfg buffer) f
      in if n = 0 then (if is_last then Some ([], gen, True) else enqueue_fragments cfg ctx symbol_id iq f buffers gen)
         else if length iq < (start + n) * NOF_SUBCARRIERS_PER_RB then None
         else do {
           let p = generate_ofh_user_parameters (utx_direction cfg) standard_channel_filter (ug_slot ctx) symbol_id
                     start n (utx_compr_params cfg) (ug_section_id ctx);
           (frame, gen) \<leftarrow> enqueue_section_type_1_message_symbol cfg
             (take (n * NOF_SUBCARRIERS_PER_RB) (drop (start * NOF_SUBCARRIERS_PER_RB) iq)) p (ug_eaxc ctx) buffer gen;
           if is_last then Some ([frame], gen, True)
           else do {
             (frames, gen, complete) \<leftarrow> enqueue_fragments cfg ctx symbol_id iq f buffers gen;
             Some (frame # frames, gen, complete)
           }
         })"

text \<open>The IQ data of a symbol: the grid, or the grid extended with zeros to the bandwidth of the RU.\<close>

definition read_symbol_iq :: "'iq uplane_tx_config \<Rightarrow> 'iq list \<Rightarrow> 'iq list option" where
  "read_symbol_iq cfg grid_row =
     (let n = utx_ru_nof_prbs cfg * NOF_SUBCARRIERS_PER_RB
      in if n = length grid_row then Some grid_row
         else if n < length grid_row then None
         else Some (grid_row @ replicate (n - length grid_row) (utx_zero cfg)))"

text \<open>The loop over the symbols of the context; an empty pool ends the whole burst.\<close>

fun enqueue_symbols ::
  "'iq uplane_tx_config \<Rightarrow> uplane_grid_context \<Rightarrow> (nat \<Rightarrow> nat \<Rightarrow> 'iq list) \<Rightarrow> (nat \<Rightarrow> bytes list) \<Rightarrow> nat list \<Rightarrow>
   sequence_identifier_generator \<Rightarrow> ((nat \<times> bytes list) list \<times> sequence_identifier_generator) option" where
  "enqueue_symbols cfg ctx grid pool [] gen = Some ([], gen)"
| "enqueue_symbols cfg ctx grid pool (symbol_id # symbols) gen = do {
     iq \<leftarrow> read_symbol_iq cfg (grid (ug_port ctx) symbol_id);
     f \<leftarrow> fragment_calculator_init 0 (utx_ru_nof_prbs cfg) (utx_compr_params cfg);
     (frames, gen, complete) \<leftarrow> enqueue_fragments cfg ctx symbol_id iq f (pool symbol_id) gen;
     if \<not> complete then Some ([(symbol_id, frames)], gen)
     else do {
       (rest, gen) \<leftarrow> enqueue_symbols cfg ctx grid pool symbols gen;
       Some ((symbol_id, frames) # rest, gen)
     }
   }"

definition enqueue_section_type_1_message_symbol_burst ::
  "'iq uplane_tx_config \<Rightarrow> uplane_grid_context \<Rightarrow> (nat \<Rightarrow> nat \<Rightarrow> 'iq list) \<Rightarrow> (nat \<Rightarrow> bytes list) \<Rightarrow>
   sequence_identifier_generator \<Rightarrow> ((nat \<times> bytes list) list \<times> sequence_identifier_generator) option" where
  "enqueue_section_type_1_message_symbol_burst cfg ctx grid pool gen =
     enqueue_symbols cfg ctx grid pool [ug_start_symbol ctx..<ug_stop_symbol ctx] gen"

section \<open>PRACH\<close>

datatype prach_subcarrier_spacing =
  ra_kHz15 | ra_kHz30 | ra_kHz60 | ra_kHz120 | ra_kHz1_25 | ra_kHz5 | ra_invalid

datatype subcarrier_spacing = scs_kHz15 | scs_kHz30 | scs_kHz60 | scs_kHz120 | scs_kHz240 | scs_invalid

definition to_subcarrier_spacing :: "nat \<Rightarrow> subcarrier_spacing" where
  "to_subcarrier_spacing \<mu> =
     (if \<mu> = 0 then scs_kHz15 else if \<mu> = 1 then scs_kHz30 else if \<mu> = 2 then scs_kHz60
      else if \<mu> = 3 then scs_kHz120 else if \<mu> = 4 then scs_kHz240 else scs_invalid)"

text \<open>Number of resource blocks and \<open>k_bar\<close>; (0, 0) is the reserved entry.\<close>

fun prach_frequency_mapping_get :: "prach_subcarrier_spacing \<Rightarrow> subcarrier_spacing \<Rightarrow> nat \<times> nat" where
  "prach_frequency_mapping_get ra_kHz1_25 scs_kHz15 = (6, 7)"
| "prach_frequency_mapping_get ra_kHz1_25 scs_kHz30 = (3, 1)"
| "prach_frequency_mapping_get ra_kHz1_25 scs_kHz60 = (2, 133)"
| "prach_frequency_mapping_get ra_kHz5 scs_kHz15 = (24, 12)"
| "prach_frequency_mapping_get ra_kHz5 scs_kHz30 = (12, 10)"
| "prach_frequency_mapping_get ra_kHz5 scs_kHz60 = (6, 7)"
| "prach_frequency_mapping_get ra_kHz15 scs_kHz15 = (12, 2)"
| "prach_frequency_mapping_get ra_kHz15 scs_kHz30 = (6, 2)"
| "prach_frequency_mapping_get ra_kHz15 scs_kHz60 = (3, 2)"
| "prach_frequency_mapping_get ra_kHz30 scs_kHz15 = (24, 2)"
| "prach_frequency_mapping_get ra_kHz30 scs_kHz30 = (12, 2)"
| "prach_frequency_mapping_get ra_kHz30 scs_kHz60 = (6, 2)"
| "prach_frequency_mapping_get ra_kHz60 scs_kHz60 = (12, 2)"
| "prach_frequency_mapping_get ra_kHz60 scs_kHz120 = (6, 2)"
| "prach_frequency_mapping_get ra_kHz120 scs_kHz60 = (24, 2)"
| "prach_frequency_mapping_get ra_kHz120 scs_kHz120 = (12, 2)"
| "prach_frequency_mapping_get _ _ = (0, 0)"

record uplane_prach_context =
  pr_slot :: slot_point
  pr_port :: nat
  pr_eaxc :: nat
  pr_prb_start :: nat
  pr_nof_prb :: nat
  pr_start_symbol :: nat
  pr_nof_symbols :: nat
  pr_filter_index :: filter_index_type
  pr_prach_scs :: prach_subcarrier_spacing
  pr_section_id :: nat

text \<open>
  The loop over the PRACH symbols: an empty pool ends the function, a buffer no larger than the
  headers is skipped.  The list holds the buffer that the pool gives for each symbol, if any.
\<close>

fun enqueue_prach_symbols ::
  "'iq uplane_tx_config \<Rightarrow> uplane_prach_context \<Rightarrow> (nat \<Rightarrow> 'iq list) \<Rightarrow> nat \<Rightarrow> nat \<Rightarrow> (nat \<times> bytes option) list \<Rightarrow>
   sequence_identifier_generator \<Rightarrow> (bytes list \<times> sequence_identifier_generator) option" where
  "enqueue_prach_symbols cfg ctx prach offset nof_re [] gen = Some ([], gen)"
| "enqueue_prach_symbols cfg ctx prach offset nof_re ((prach_symbol, None) # r) gen = Some ([], gen)"
| "enqueue_prach_symbols cfg ctx prach offset nof_re ((prach_symbol, Some buffer) # r) gen =
     (if length buffer \<le> uplane_headers_size cfg
      then enqueue_prach_symbols cfg ctx prach offset nof_re r gen
      else do {
        let iq = replicate offset (utx_zero cfg) @ prach prach_symbol @
                 replicate (nof_re - offset - length (prach prach_symbol)) (utx_zero cfg);
        let p = generate_ofh_user_parameters (utx_direction cfg) (pr_filter_index ctx) (pr_slot ctx)
                  (pr_start_symbol ctx + prach_symbol) (pr_prb_start ctx) (pr_nof_prb ctx) (utx_compr_params cfg)
                  (pr_section_id ctx);
        (frame, gen) \<leftarrow> enqueue_section_type_1_message_symbol cfg iq p (pr_eaxc ctx) buffer gen;
        (frames, gen) \<leftarrow> enqueue_prach_symbols cfg ctx prach offset nof_re r gen;
        Some (frame # frames, gen)
      })"

text \<open>
  \<open>sequence_length\<close> is the length of the preamble of the buffer and \<open>prach\<close> its symbols for the port
  of the context; None is the assertion on the section size.
\<close>

definition enqueue_prach_message ::
  "'iq uplane_tx_config \<Rightarrow> uplane_prach_context \<Rightarrow> nat \<Rightarrow> (nat \<Rightarrow> 'iq list) \<Rightarrow> (nat \<Rightarrow> bytes option) \<Rightarrow>
   sequence_identifier_generator \<Rightarrow> (bytes list \<times> sequence_identifier_generator) option" where
  "enqueue_prach_message cfg ctx sequence_length prach pool gen =
     (let nof_re = pr_nof_prb ctx * NOF_SUBCARRIERS_PER_RB;
          (nof_rb_ra, offset) = prach_frequency_mapping_get (pr_prach_scs ctx)
                                  (to_subcarrier_spacing (numerology_val (pr_slot ctx)))
      in if \<not> nof_re \<le> MAX_NOF_PRBS * NOF_SUBCARRIERS_PER_RB then None
         else if nof_rb_ra = 0 then Some ([], gen)
         else if offset > nof_re \<or> sequence_length > nof_re - offset then Some ([], gen)
         else enqueue_prach_symbols cfg ctx prach offset nof_re
                (map (\<lambda>i. (i, pool i)) [0..<pr_nof_symbols ctx]) gen)"

section \<open>Fragments\<close>

text \<open>The PRB ranges of the fragments of a symbol, for the room left in the successive buffers.\<close>

fun fragment_ranges :: "fragment_size_calculator \<Rightarrow> nat list \<Rightarrow> (nat \<times> nat) list \<times> bool" where
  "fragment_ranges f [] = ([], False)"
| "fragment_ranges f (room # rooms) =
     (let ((is_last, start, n), f) = calculate_fragment_size room f
      in if n = 0 then (if is_last then ([], True) else fragment_ranges f rooms)
         else if is_last then ([(start, n)], True)
         else let (rs, complete) = fragment_ranges f rooms in ((start, n) # rs, complete))"

definition fc_wf :: "fragment_size_calculator \<Rightarrow> bool" where
  "fc_wf f \<longleftrightarrow> 0 < fc_prb_size f \<and> fc_start_prb f \<le> fc_next_prb f \<and> fc_next_prb f \<le> fc_start_prb f + fc_nof_prbs f"

definition fc_end :: "fragment_size_calculator \<Rightarrow> nat" where
  "fc_end f = fc_start_prb f + fc_nof_prbs f"

text \<open>One call: the fragment continues where the previous one ended, fits, and the last one ends the range.\<close>

lemma calculate_fragment_size_spec:
  assumes wf: "fc_wf f" and c: "calculate_fragment_size room f = ((is_last, start, n), f')"
  shows "start = fc_next_prb f" "n * fc_prb_size f \<le> room" "fc_next_prb f' = start + n" "fc_wf f'"
    "fc_prb_size f' = fc_prb_size f" "fc_end f' = fc_end f" "is_last \<Longrightarrow> start + n = fc_end f"
    "start + n \<le> fc_end f"
proof -
  have le: "x \<le> room div fc_prb_size f \<Longrightarrow> x * fc_prb_size f \<le> room" for x
    using div_times_less_eq_dividend [of room "fc_prb_size f"] mult_le_mono1 [of x] order.trans by blast
  show "n * fc_prb_size f \<le> room"
    using c le by (auto simp: calculate_fragment_size_def Let_def split: if_splits)
qed (use wf c in \<open>auto simp: calculate_fragment_size_def fc_wf_def fc_end_def Let_def split: if_splits\<close>)

lemma fragment_ranges_partition:
  assumes "fc_wf f" "fragment_ranges f rooms = (rs, complete)"
  shows "\<exists>e. concat (map (\<lambda>(s, n). [s..<s + n]) rs) = [fc_next_prb f..<e] \<and> fc_next_prb f \<le> e \<and> e \<le> fc_end f \<and>
    (complete \<longrightarrow> e = fc_end f) \<and> (\<forall>(s, n) \<in> set rs. 0 < n \<and> s + n \<le> fc_end f \<and>
      (\<exists>room \<in> set rooms. n * fc_prb_size f \<le> room))"
  using assms
proof (induction rooms arbitrary: f rs)
  case Nil
  then show ?case by (intro exI [of _ "fc_next_prb f"]) (auto simp: fc_wf_def fc_end_def)
next
  case (Cons room rooms)
  obtain is_last start n f' where c: "calculate_fragment_size room f = ((is_last, start, n), f')" by (metis prod.exhaust)
  note spec = calculate_fragment_size_spec [OF Cons.prems(1) c]
  show ?case
  proof (cases "is_last")
    case True
    then show ?thesis using Cons.prems(2) spec
      by (intro exI [of _ "fc_end f"]) (auto simp: c split: if_splits)
  next
    case False
    obtain rs' where rs': "fragment_ranges f' rooms = (rs', complete)" "rs = (if n = 0 then rs' else (start, n) # rs')"
      using Cons.prems(2) False by (auto simp: c split: if_splits prod.splits)
    from Cons.IH [OF spec(4) rs'(1)] obtain e where
      e: "concat (map (\<lambda>(s, n). [s..<s + n]) rs') = [fc_next_prb f'..<e]" "fc_next_prb f' \<le> e" "e \<le> fc_end f"
        "complete \<longrightarrow> e = fc_end f" "\<forall>(s, n) \<in> set rs'. 0 < n \<and> s + n \<le> fc_end f \<and>
          (\<exists>room \<in> set rooms. n * fc_prb_size f \<le> room)"
      using spec(5,6) by auto
    have "[start..<start + n] @ [start + n..<e] = [start..<e]"
      using e(2) spec(3) upt_add_eq_append [of start "start + n" "e - (start + n)"] by simp
    moreover have "\<forall>(s, n) \<in> set rs'. \<exists>r \<in> set (room # rooms). n * fc_prb_size f \<le> r" using e(5) by fastforce
    ultimately show ?thesis
      using e spec rs'(2) by (intro exI [of _ e]) (auto split: if_splits)
  qed
qed

text \<open>Frames of one size: the fragments are as many as the calculation of the segments says.\<close>

lemma fragment_ranges_uniform:
  assumes "fc_wf f" "fc_next_prb f < fc_end f" "0 < room div fc_prb_size f"
    and "k = (fc_end f - fc_next_prb f + room div fc_prb_size f - 1) div (room div fc_prb_size f)"
  shows "\<exists>rs. fragment_ranges f (replicate k room) = (rs, True) \<and> length rs = k \<and> 
    (fc_end f - fc_next_prb f \<le> room div fc_prb_size f \<longrightarrow> rs = [(fc_next_prb f, fc_end f - fc_next_prb f)])"
  using assms
proof (induction k arbitrary: f)
  case 0
  have "fc_end f - fc_next_prb f + room div fc_prb_size f - 1 < room div fc_prb_size f"
    using 0(3,4) by (metis div_eq_0_iff less_numeral_extra(3))
  then show ?case using 0(2,3) by linarith
next
  case (Suc k)
  let ?fit = "room div fc_prb_size f" and ?R = "fc_end f - fc_next_prb f"
  have R: "fc_nof_prbs f - (fc_next_prb f - fc_start_prb f) = ?R"
    using Suc.prems(1) by (simp add: fc_wf_def fc_end_def)
  have ge: "\<not> room < fc_prb_size f" using Suc.prems(3) by (auto simp: div_eq_0_iff)
  show ?case
  proof (cases "?R \<le> ?fit")
    case True
    then have "?R + ?fit - 1 < 2 * ?fit" using Suc.prems(3) by linarith
    then have "k = 0" using less_mult_imp_div_less [of "?R + ?fit - 1" 2 ?fit] Suc.prems(4) by simp
    then show ?thesis using True ge Suc.prems(2) R
      by (simp add: calculate_fragment_size_def Let_def)
  next
    case False
    define f' where "f' = f\<lparr>fc_next_prb := fc_next_prb f + ?fit\<rparr>"
    have c: "calculate_fragment_size room f = ((False, fc_next_prb f, ?fit), f')"
      using False ge R by (simp add: calculate_fragment_size_def Let_def f'_def)
    have f': "fc_wf f'" "fc_next_prb f' < fc_end f'" "fc_prb_size f' = fc_prb_size f" "fc_end f' = fc_end f"
      "fc_end f' - fc_next_prb f' = ?R - ?fit"
      using False Suc.prems(1) by (auto simp: f'_def fc_wf_def fc_end_def)
    have "?R + ?fit - 1 = (?R - ?fit + ?fit - 1) + ?fit" using False by simp
    then have "(?R + ?fit - 1) div ?fit = Suc ((?R - ?fit + ?fit - 1) div ?fit)"
      using Suc.prems(3) by (metis Suc_eq_plus1 div_add_self2 less_numeral_extra(3))
    then have k: "k = (fc_end f' - fc_next_prb f' + room div fc_prb_size f' - 1) div (room div fc_prb_size f')"
      using Suc.prems(4) f'(3,5) by simp
    from Suc.IH [OF f'(1,2) _ k] Suc.prems(3) f'(3) obtain rs where
      "fragment_ranges f' (replicate k room) = (rs, True)" "length rs = k" by auto
    then show ?thesis using Suc.prems(3) c False by (auto simp: Let_def)
  qed
qed

section \<open>Frames\<close>

lemma eth_builder_frame:
  assumes "eth_params_wf v" "eth_builder_header_size v \<le> length buffer"
  shows "eth_builder_build_frame v (take (eth_builder_header_size v) buffer @ y) = Some (eth_frame v y)"
  using assms
  by (auto simp: eth_builder_build_frame_def eth_frame_def eth_build_frame_def vlan_build_frame_def overlay_def
      eth_builder_header_size_def length_vlan_header length_eth_header split: option.splits)

text \<open>Writing the three headers from the inside out gives the frame of the protocol layers.\<close>

lemma message_symbol_frame:
  assumes v: "eth_params_wf (utx_vlan cfg)" and eaxc: "eaxc < MAX_SUPPORTED_EAXC_ID_VALUE"
    and msg: "build_message (utx_compress cfg) (utx_serialize_header cfg) iq p = Some msg"
    and room: "eth_builder_header_size (utx_vlan cfg) + 8 + length msg \<le> length buffer"
  shows "enqueue_section_type_1_message_symbol cfg iq p eaxc buffer gen =
    Some (eth_frame (utx_vlan cfg) (ecpri_packet (generate_ecpri_data_parameters (ucast (gen ! eaxc)) (of_nat eaxc)) msg),
          gen[eaxc := gen ! eaxc + 1])"
proof -
  let ?E = "eth_builder_header_size (utx_vlan cfg)" and ?m = "length msg"
  let ?tp = "generate_ecpri_data_parameters (ucast (gen ! eaxc)) (of_nat eaxc)"
  define b where "b = take (?E + 8) buffer @ msg @ drop (?E + 8 + ?m) buffer"
  have b: "b = take (?E + 8) buffer @ overlay msg (drop (?E + 8) buffer)" by (simp add: b_def overlay_def add.commute)
  define x where "x = take 8 (drop ?E buffer)"
  have x: "take (?E + 8) buffer = take ?E buffer @ x" "length x = 8" using room by (simp_all add: x_def take_add)
  have inner: "take (8 + ?m) (drop ?E b) = x @ msg" using room x(2) by (simp add: b_def x(1))
  have tp: "?tp = iq_data_parameters (pc_id ?tp) (iq_seq_id ?tp)" by (simp add: generate_ecpri_data_parameters_def)
  have pkt: "build_data_packet (x @ msg) (pc_id ?tp) (iq_seq_id ?tp) = ecpri_packet ?tp msg"
    using x(2) by (subst (3) tp) (simp add: build_data_packet_def ecpri_packet_def overlay_def ecpri_sizes)
  have len: "length (ecpri_packet ?tp msg) = 8 + ?m" by (simp add: ecpri_packet_eq)
  have outer: "take (?E + ?m + 8) (take ?E b @ overlay (ecpri_packet ?tp msg) (drop ?E b)) =
      take ?E buffer @ ecpri_packet ?tp msg"
    using room len by (simp add: overlay_def b_def x(1))
  show ?thesis
    using eaxc room
    by (simp add: enqueue_section_type_1_message_symbol_def msg Let_def ecpri_sizes seq_generate_def
        b [symmetric] inner pkt outer eth_builder_frame [OF v] del: take_append)
qed

text \<open>The configurations that the factories build: both header variants, and a lookup table entry for the width.\<close>

definition utx_wf :: "'iq uplane_tx_config \<Rightarrow> bool" where
  "utx_wf cfg \<longleftrightarrow> eth_params_wf (utx_vlan cfg) \<and> compr_wf (utx_compr_params cfg) \<and>
     ((utx_serialize_header cfg, utx_up_header_size cfg) =
        (up_serialize_compression_header_dynamic, up_get_header_size_dynamic) \<or>
      (utx_serialize_header cfg, utx_up_header_size cfg) =
        (up_serialize_compression_header_static, up_get_header_size_static))"

lemma prb_data_size_eq:
  assumes "compr_wf c"
  shows "get_prb_data_size c = Some (3 * data_width c + (if compr_type c = compr_none \<or> compr_type c = modulation then 0 else 1))"
proof -
  have w: "data_width c < 17" using assms by (simp add: compr_wf_def)
  have "build_prb_data_size_lut_index n = 3 * n" for n
    using round_up_to_bytes_prb(1) [of n] by (simp add: build_prb_data_size_lut_index_def NOF_SUBCARRIERS_PER_RB_def mult.commute)
  then show ?thesis using w by (simp add: get_prb_data_size_def Let_def del: upt_Suc)
qed

lemma prb_data_size_ge:
  assumes "compr_wf c" "get_prb_data_size c = Some sz"
  shows "get_compressed_prb_size c \<le> sz"
  using assms(2) unfolding prb_data_size_eq [OF assms(1)]
  by (auto simp: prb_size_eq is_compression_param_present_def split: if_splits)

text \<open>The header size the data flow reserves covers the headers the builder writes.\<close>

lemma build_message_fits:
  assumes cfg: "utx_wf cfg" and sz: "get_prb_data_size (utx_compr_params cfg) = Some sz"
    and p: "up_sect_type p = type_1" "up_compression_params p = utx_compr_params cfg"
    and iq: "length iq = up_nof_prb p * NOF_SUBCARRIERS_PER_RB"
  shows "\<exists>msg. build_message (utx_compress cfg) (utx_serialize_header cfg) iq p = Some msg \<and>
    length msg \<le> utx_up_header_size cfg (utx_compr_params cfg) + up_nof_prb p * sz"
proof -
  let ?c = "utx_compr_params cfg"
  have h: "8 + length (utx_serialize_header cfg ?c) \<le> utx_up_header_size cfg ?c"
    using cfg by (auto simp: utx_wf_def up_serialize_compression_header_dynamic_def up_get_header_size_dynamic_def
        up_serialize_compression_header_static_def up_get_header_size_static_def)
  have "get_compressed_prb_size ?c \<le> sz" using prb_data_size_ge [OF _ sz] cfg by (simp add: utx_wf_def)
  then have "get_compressed_prb_size ?c * up_nof_prb p \<le> up_nof_prb p * sz" by (simp add: mult.commute)
  then have "min (length (utx_compress cfg iq ?c)) (get_compressed_prb_size ?c * up_nof_prb p) \<le> up_nof_prb p * sz"
    by (rule min.coboundedI2)
  then show ?thesis using h p iq
    by (simp add: build_message_def serialize_iq_data_def ud_comp_length_support_def build_radio_app_header_def
        build_section1_header_def min.commute)
qed

definition fragment_params :: "'iq uplane_tx_config \<Rightarrow> uplane_grid_context \<Rightarrow> nat \<Rightarrow> nat \<times> nat \<Rightarrow> uplane_message_params" where
  "fragment_params cfg ctx symbol_id r =
     generate_ofh_user_parameters (utx_direction cfg) standard_channel_filter (ug_slot ctx) symbol_id (fst r) (snd r)
       (utx_compr_params cfg) (ug_section_id ctx)"

definition fragment_iq :: "'iq list \<Rightarrow> nat \<times> nat \<Rightarrow> 'iq list" where
  "fragment_iq iq r = take (snd r * NOF_SUBCARRIERS_PER_RB) (drop (fst r * NOF_SUBCARRIERS_PER_RB) iq)"

definition fragment_message :: "'iq uplane_tx_config \<Rightarrow> uplane_grid_context \<Rightarrow> nat \<Rightarrow> 'iq list \<Rightarrow> nat \<times> nat \<Rightarrow> bytes" where
  "fragment_message cfg ctx symbol_id iq r =
     the (build_message (utx_compress cfg) (utx_serialize_header cfg) (fragment_iq iq r) (fragment_params cfg ctx symbol_id r))"

definition fragment_frame :: "'iq uplane_tx_config \<Rightarrow> uplane_grid_context \<Rightarrow> nat \<Rightarrow> 'iq list \<Rightarrow> byte \<Rightarrow> nat \<times> nat \<Rightarrow> bytes" where
  "fragment_frame cfg ctx symbol_id iq sid r =
     eth_frame (utx_vlan cfg) (ecpri_packet (generate_ecpri_data_parameters (ucast sid) (of_nat (ug_eaxc ctx)))
       (fragment_message cfg ctx symbol_id iq r))"

lemma fragment_message_enqueued:
  assumes cfg: "utx_wf cfg" and eaxc: "ug_eaxc ctx < MAX_SUPPORTED_EAXC_ID_VALUE"
    and sz: "get_prb_data_size (utx_compr_params cfg) = Some sz"
    and iq: "(fst r + snd r) * NOF_SUBCARRIERS_PER_RB \<le> length iq"
    and room: "uplane_headers_size cfg + snd r * sz \<le> length buffer"
  shows "enqueue_section_type_1_message_symbol cfg (fragment_iq iq r) (fragment_params cfg ctx symbol_id r)
      (ug_eaxc ctx) buffer gen =
    Some (fragment_frame cfg ctx symbol_id iq (gen ! ug_eaxc ctx) r, gen[ug_eaxc ctx := gen ! ug_eaxc ctx + 1])"
    and "build_message (utx_compress cfg) (utx_serialize_header cfg) (fragment_iq iq r) (fragment_params cfg ctx symbol_id r) =
      Some (fragment_message cfg ctx symbol_id iq r)"
    and "eth_builder_header_size (utx_vlan cfg) + 8 + length (fragment_message cfg ctx symbol_id iq r) \<le> length buffer"
    and "length (fragment_iq iq r) = snd r * NOF_SUBCARRIERS_PER_RB"
proof -
  show len: "length (fragment_iq iq r) = snd r * NOF_SUBCARRIERS_PER_RB"
    using iq by (simp add: fragment_iq_def algebra_simps min_absorb2)
  have p: "up_sect_type (fragment_params cfg ctx symbol_id r) = type_1"
    "up_compression_params (fragment_params cfg ctx symbol_id r) = utx_compr_params cfg"
    "up_nof_prb (fragment_params cfg ctx symbol_id r) = snd r"
    by (simp_all add: fragment_params_def generate_ofh_user_parameters_def)
  obtain msg where msg: "build_message (utx_compress cfg) (utx_serialize_header cfg) (fragment_iq iq r)
      (fragment_params cfg ctx symbol_id r) = Some msg"
    "length msg \<le> utx_up_header_size cfg (utx_compr_params cfg) + snd r * sz"
    using build_message_fits [OF cfg sz p(1,2), of "fragment_iq iq r"] len p(3) by auto
  have m: "fragment_message cfg ctx symbol_id iq r = msg" by (simp add: fragment_message_def msg)
  then show "build_message (utx_compress cfg) (utx_serialize_header cfg) (fragment_iq iq r)
      (fragment_params cfg ctx symbol_id r) = Some (fragment_message cfg ctx symbol_id iq r)" using msg by simp
  have fits: "eth_builder_header_size (utx_vlan cfg) + 8 + length msg \<le> length buffer"
    using msg(2) room by (simp add: uplane_headers_size_def ecpri_sizes)
  then show "eth_builder_header_size (utx_vlan cfg) + 8 + length (fragment_message cfg ctx symbol_id iq r) \<le> length buffer"
    by (simp add: m)
  show "enqueue_section_type_1_message_symbol cfg (fragment_iq iq r) (fragment_params cfg ctx symbol_id r)
      (ug_eaxc ctx) buffer gen =
    Some (fragment_frame cfg ctx symbol_id iq (gen ! ug_eaxc ctx) r, gen[ug_eaxc ctx := gen ! ug_eaxc ctx + 1])"
    using message_symbol_frame [OF _ eaxc msg(1) fits, of gen] cfg by (simp add: utx_wf_def fragment_frame_def m)
qed

lemma frame_room_eq:
  assumes "uplane_headers_size cfg \<le> length buffer" "length buffer < 2 ^ 32"
  shows "frame_room cfg buffer = length buffer - uplane_headers_size cfg"
proof -
  have d: "int (length buffer) - int (uplane_headers_size cfg) = int (length buffer - uplane_headers_size cfg)"
    using assms(1) by (simp only: of_nat_diff)
  have "int (length buffer - uplane_headers_size cfg) mod 2 ^ 32 = int (length buffer - uplane_headers_size cfg)"
    using assms(2) by (intro mod_pos_pos_trivial) auto
  then show ?thesis unfolding frame_room_def d by (simp only: nat_int)
qed

text \<open>The loop sends the frames of the ranges with consecutive sequence identifiers.\<close>

lemma enqueue_fragments_frames:
  assumes cfg: "utx_wf cfg" and eaxc: "ug_eaxc ctx < MAX_SUPPORTED_EAXC_ID_VALUE" "length gen = MAX_SUPPORTED_EAXC_ID_VALUE"
    and sz: "get_prb_data_size (utx_compr_params cfg) = Some (fc_prb_size f)" and wf: "fc_wf f"
    and iq: "length iq = fc_end f * NOF_SUBCARRIERS_PER_RB"
    and bufs: "\<forall>b \<in> set buffers. uplane_headers_size cfg \<le> length b \<and> length b < 2 ^ 32"
    and rs: "fragment_ranges f (map (frame_room cfg) buffers) = (rs, complete)"
  shows "enqueue_fragments cfg ctx symbol_id iq f buffers gen =
    Some (map (\<lambda>k. fragment_frame cfg ctx symbol_id iq (gen ! ug_eaxc ctx + of_nat k) (rs ! k)) [0..<length rs],
          gen[ug_eaxc ctx := gen ! ug_eaxc ctx + of_nat (length rs)], complete)"
  using eaxc(2) sz wf iq bufs rs
proof (induction buffers arbitrary: f gen rs)
  case Nil
  then show ?case using eaxc(1) by (auto simp: list_update_same_conv)
next
  case (Cons buffer buffers)
  let ?e = "ug_eaxc ctx"
  obtain is_last start n f' where c: "calculate_fragment_size (frame_room cfg buffer) f = ((is_last, start, n), f')"
    by (metis prod.exhaust)
  note spec = calculate_fragment_size_spec [OF Cons.prems(3) c]
  have frame: "enqueue_section_type_1_message_symbol cfg (fragment_iq iq (start, n)) (fragment_params cfg ctx symbol_id (start, n))
      ?e buffer gen = Some (fragment_frame cfg ctx symbol_id iq (gen ! ?e) (start, n), gen[?e := gen ! ?e + 1])"
  proof (rule fragment_message_enqueued(1) [OF cfg eaxc(1) Cons.prems(2)])
    show "(fst (start, n) + snd (start, n)) * NOF_SUBCARRIERS_PER_RB \<le> length iq"
      using spec(8) Cons.prems(4) by simp
    show "uplane_headers_size cfg + snd (start, n) * fc_prb_size f \<le> length buffer"
      using spec(2) Cons.prems(5) frame_room_eq [of cfg buffer] by (simp add: le_diff_conv2 add.commute)
  qed
  note frame' = frame [unfolded fragment_iq_def fragment_params_def fst_conv snd_conv]
  have enough: "\<not> length iq < (start + n) * NOF_SUBCARRIERS_PER_RB" using spec(8) Cons.prems(4) by (simp add: not_less)
  show ?case
  proof (cases is_last)
    case True
    then show ?thesis using Cons.prems(1,6) enough frame'
      by (auto simp: c Let_def list_update_same_conv eaxc(1))
  next
    case False
    obtain rs' where rs': "fragment_ranges f' (map (frame_room cfg) buffers) = (rs', complete)"
      "rs = (if n = 0 then rs' else (start, n) # rs')"
      using Cons.prems(6) False by (auto simp: c split: if_splits prod.splits)
    have IH: "enqueue_fragments cfg ctx symbol_id iq f' buffers g =
        Some (map (\<lambda>k. fragment_frame cfg ctx symbol_id iq (g ! ?e + of_nat k) (rs' ! k)) [0..<length rs'],
              g[?e := g ! ?e + of_nat (length rs')], complete)"
      if "length g = MAX_SUPPORTED_EAXC_ID_VALUE" for g
      using that Cons.prems spec(4-6) rs'(1) by (intro Cons.IH) auto
    show ?thesis
    proof (cases "n = 0")
      case True
      then show ?thesis using False IH [OF Cons.prems(1)] rs'(2) by (simp add: c)
    next
      case n: False
      have "length (gen[?e := gen ! ?e + 1]) = MAX_SUPPORTED_EAXC_ID_VALUE" using Cons.prems(1) by simp
      from IH [OF this] show ?thesis
        using n False enough frame' rs'(2) eaxc(1) Cons.prems(1)
        by (simp add: c map_upt_Suc algebra_simps del: upt_Suc)
    qed
  qed
qed

section \<open>Properties\<close>

text \<open>
  C12: Fragmentation of a symbol.  With as many frames as \<open>calculate_nof_segments\<close> computes, the fragment
  calculator reaches the last fragment with the last frame; the fragments are non-empty, adjacent, in
  order and together exactly the PRBs of the symbol, and each of them fits the frame with its headers.
\<close>

theorem fragments_partition_symbol:
  assumes "fragment_calculator_init 0 nof_prbs c = Some f" "0 < nof_prbs" "headers_size \<le> frame_size"
    "calculate_nof_segments frame_size nof_prbs c headers_size = Some k"
  shows "\<exists>rs. fragment_ranges f (replicate k (frame_size - headers_size)) = (rs, True) \<and> length rs = k \<and>
    concat (map (\<lambda>(s, n). [s..<s + n]) rs) = [0..<nof_prbs] \<and>
    (\<forall>(s, n) \<in> set rs. 0 < n \<and> headers_size + n * fc_prb_size f \<le> frame_size)"
proof -
  let ?room = "frame_size - headers_size"
  obtain sz where sz: "get_prb_data_size c = Some sz" "0 < sz" "0 < ?room div sz"
    "k = (nof_prbs + ?room div sz - 1) div (?room div sz)"
    using assms(4) by (auto simp: calculate_nof_segments_def Let_def split: Option.bind_splits if_splits)
  have f: "f = \<lparr>fc_start_prb = 0, fc_nof_prbs = nof_prbs, fc_prb_size = sz, fc_next_prb = 0\<rparr>"
    using assms(1) sz(1) by (simp add: fragment_calculator_init_def)
  have wf: "fc_wf f" "fc_next_prb f = 0" "fc_end f = nof_prbs" "fc_prb_size f = sz"
    using sz(2) by (simp_all add: f fc_wf_def fc_end_def)
  obtain rs where rs: "fragment_ranges f (replicate k ?room) = (rs, True)" "length rs = k"
    using fragment_ranges_uniform [OF wf(1), of ?room k] wf sz(3,4) assms(2) by auto
  from fragment_ranges_partition [OF wf(1) rs(1)] wf
  have "concat (map (\<lambda>(s, n). [s..<s + n]) rs) = [0..<nof_prbs]"
    "\<forall>(s, n) \<in> set rs. 0 < n \<and> (\<exists>room \<in> set (replicate k ?room). n * sz \<le> room)" by fastforce+
  then show ?thesis using rs assms(3) wf(4)
    by (intro exI [of _ rs]) (auto simp: le_diff_conv2 add.commute split: if_splits prod.splits)
qed

theorem fragments_partition_symbol_witness:
  "\<exists>f rs. fragment_calculator_init 0 273 \<lparr>compr_type = BFP, data_width = 9\<rparr> = Some f \<and>
    fragment_ranges f (replicate 6 (1500 - 40)) = (rs, True) \<and> length rs = 6 \<and>
    concat (map (\<lambda>(s, n). [s..<s + n]) rs) = [0..<273]"
proof -
  let ?c = "\<lparr>compr_type = BFP, data_width = 9\<rparr>"
  have sz: "get_prb_data_size ?c = Some 28" by (simp add: prb_data_size_eq compr_wf_def)
  then obtain f where f: "fragment_calculator_init 0 273 ?c = Some f" by (simp add: fragment_calculator_init_def)
  have "calculate_nof_segments 1500 273 ?c 40 = Some 6" by (simp add: calculate_nof_segments_def sz Let_def)
  from fragments_partition_symbol [OF f _ _ this] show ?thesis using f by auto
qed

text \<open>
  C31: A fragment of more than 255 but fewer PRBs than the bandwidth of the RU is lost: the builder writes
  a number of PRBs of zero for it, which the receiver reads as the whole bandwidth, and the receiver
  then rejects the message because its IQ data is too short.
\<close>

theorem large_fragment_rejected:
  assumes "uplane_params_wf cfg (p\<lparr>up_nof_prb := ru_nof_prbs cfg\<rparr>)" "0 < get_compressed_prb_size (up_compression_params p)"
    and "compr_type (up_compression_params p) \<in> {compr_none, BFP, block_scaling, mu_law, modulation}"
    and "255 < up_nof_prb p" "up_nof_prb p < ru_nof_prbs cfg" "sections res = []"
    and "length (compress iq (up_compression_params p)) = up_nof_prb p * get_compressed_prb_size (up_compression_params p)"
    and "length iq = up_nof_prb p * NOF_SUBCARRIERS_PER_RB"
  shows "\<exists>msg res'. build_message compress up_serialize_compression_header_static iq p = Some msg \<and>
    uplane_decode cfg (up_decode_compression_header_static (up_compression_params p)) dec res msg = Some (False, res')"
proof -
  let ?c = "up_compression_params p" and ?q = "p\<lparr>up_nof_prb := ru_nof_prbs cfg\<rparr>"
  let ?msg = "build_radio_app_header ?q @ build_section1_header ?q @ compress iq ?c"
  have h: "build_radio_app_header p = build_radio_app_header ?q"
    by (simp add: build_radio_app_header_def encode_slot_lsb_and_symbol_def)
  have s: "build_section1_header p = build_section1_header ?q"
    using assms(4,5) by (simp add: build_section1_header_def up_encode_sect_id_rb_symbols_def)
  have msg: "build_message compress up_serialize_compression_header_static iq p = Some ?msg"
    using assms(1,7,8)
    by (simp add: build_message_def serialize_iq_data_def ud_comp_length_support_def h s mult.commute
        up_serialize_compression_header_static_def uplane_params_wf_def)
  have "up_nof_prb p * get_compressed_prb_size ?c < ru_nof_prbs cfg * get_compressed_prb_size ?c"
    using assms(2,5) by simp
  then have short: "\<not> check_iq_data_size (ru_nof_prbs cfg) (compress iq ?c) ?c"
    using assms(7) by (simp add: check_iq_data_size_iff mult.commute)
  have "decode_section cfg (up_decode_compression_header_static ?c) dec res' (build_section1_header ?q @ compress iq ?c) =
      Some (status_incomplete, res', compress iq ?c)" for res'
    using short assms(3)
    by (simp add: decode_section_def decode_section_header_build [OF assms(1)] up_decode_compression_header_static_def
        wire_up_section_def decode_compression_length_def)
  then have "decode_all_sections cfg (up_decode_compression_header_static ?c) dec res'
      (build_section1_header ?q @ compress iq ?c) = Some (sections res' \<noteq> [], res')"
    for res'
    by (subst decode_all_sections.simps) simp
  then show ?thesis
    using assms(6) by (auto simp: msg uplane_decode_def up_decode_header_build [OF assms(1)] Let_def)
qed

theorem large_fragment_rejected_witness:
  "\<exists>msg res'. build_message (\<lambda>iq c. replicate (260 * 28) 7) up_serialize_compression_header_static
      (replicate (260 * 12) ()) (sample_up_params\<lparr>up_start_prb := 0, up_nof_prb := 260\<rparr>) = Some msg \<and>
    uplane_decode sample_decoder (up_decode_compression_header_static \<lparr>compr_type = BFP, data_width = 9\<rparr>)
      (\<lambda>n bs c. replicate n ()) empty_up_results msg = Some (False, res')"
proof -
  let ?p = "sample_up_params\<lparr>up_start_prb := 0, up_nof_prb := 260\<rparr>"
  have wf: "uplane_params_wf sample_decoder (?p\<lparr>up_nof_prb := ru_nof_prbs sample_decoder\<rparr>)"
    using sample_up_wf by (simp add: uplane_params_wf_def sample_decoder_def MAX_NOF_PRBS_def)
  have c: "up_compression_params ?p = \<lparr>compr_type = BFP, data_width = 9\<rparr>" by (simp add: sample_up_params_def)
  show ?thesis
    using large_fragment_rejected [OF wf, of empty_up_results "\<lambda>iq c. replicate (260 * 28) 7" "replicate (260 * 12) ()"
        "\<lambda>n bs c. replicate n ()"]
    by (simp add: c prb_size_eq is_compression_param_present_def NOF_SUBCARRIERS_PER_RB_def sample_decoder_def
        empty_up_results_def)
qed

end
