(* ===== verification/Cplane_Scheduling.thy ===== *)
theory Cplane_Scheduling
  imports Uplane_Transmitter Repositories
begin

text \<open>
  Control-Plane scheduling commands of the O-DU (lib/ofh/transmitter/
  ofh_data_flow_cplane_scheduling_commands_impl.cpp): the parameters of section type 1 and type 3
  messages and their encoding into Ethernet frames, with the registration of the uplink contexts.
\<close>

section \<open>Parameters\<close>

record cplane_type_1_context =
  c1_slot :: slot_point
  c1_eaxc :: nat
  c1_filter_type :: filter_index_type
  c1_direction :: data_direction
  c1_start_symbol :: nat
  c1_stop_symbol :: nat

record cplane_prach_context =
  c3_slot :: slot_point
  c3_eaxc :: nat
  c3_start_symbol :: nat
  c3_prach_scs :: prach_subcarrier_spacing
  c3_scs :: subcarrier_spacing
  c3_prach_nof_rb :: nat
  c3_nof_repetitions :: nat
  c3_time_offset :: nat
  c3_prach_start_re :: nat
  c3_filter_type :: filter_index_type

definition init_radio_app_header_parameters ::
  "slot_point \<Rightarrow> nat \<Rightarrow> data_direction \<Rightarrow> filter_index_type \<Rightarrow> cplane_radio_application_header" where
  "init_radio_app_header_parameters s start d f =
     \<lparr>direction = d, filter_index = f, start_symbol = start, slot = s\<rparr>"

definition init_common_section_0_1_3_5_fields :: "nat \<Rightarrow> nat \<Rightarrow> cplane_common_section" where
  "init_common_section_0_1_3_5_fields n symbols =
     \<lparr>section_id = 0, prb_start = 0, nof_prb = n, re_mask = 0xfff, nof_symbols = symbols\<rparr>"

definition generate_section1_control_parameters ::
  "cplane_type_1_context \<Rightarrow> nat \<Rightarrow> ru_compression_params \<Rightarrow> cplane_section_type1_parameters" where
  "generate_section1_control_parameters ctx n compr =
     \<lparr>t1_radio_hdr = init_radio_app_header_parameters (c1_slot ctx) (c1_start_symbol ctx) (c1_direction ctx) (c1_filter_type ctx),
      t1_section = init_common_section_0_1_3_5_fields n (c1_stop_symbol ctx - c1_start_symbol ctx),
      t1_compr = compr\<rparr>"

fun ra_numerology_value :: "prach_subcarrier_spacing \<Rightarrow> nat" where
  "ra_numerology_value ra_kHz15 = 0"
| "ra_numerology_value ra_kHz30 = 1"
| "ra_numerology_value ra_kHz60 = 2"
| "ra_numerology_value ra_kHz120 = 3"
| "ra_numerology_value ra_kHz1_25 = 4"
| "ra_numerology_value ra_kHz5 = 5"
| "ra_numerology_value ra_invalid = 6"

definition is_short_preamble_scs :: "prach_subcarrier_spacing \<Rightarrow> bool" where
  "is_short_preamble_scs scs \<longleftrightarrow> scs \<noteq> ra_invalid \<and> ra_numerology_value scs < ra_numerology_value ra_kHz1_25"

fun numerology_value :: "subcarrier_spacing \<Rightarrow> nat" where
  "numerology_value scs_kHz15 = 0"
| "numerology_value scs_kHz30 = 1"
| "numerology_value scs_kHz60 = 2"
| "numerology_value scs_kHz120 = 3"
| "numerology_value scs_kHz240 = 4"
| "numerology_value scs_invalid = 5"

definition ra_scs_to_Hz :: "prach_subcarrier_spacing \<Rightarrow> nat" where
  "ra_scs_to_Hz scs =
     (if scs = ra_kHz1_25 then 1250 else if scs = ra_kHz5 then 5000 else push_bit (ra_numerology_value scs) 15000)"

definition scs_to_khz :: "subcarrier_spacing \<Rightarrow> nat" where
  "scs_to_khz scs = push_bit (numerology_value scs) 15"

definition cplane_convert_scs :: "prach_subcarrier_spacing \<Rightarrow> cplane_scs" where
  "cplane_convert_scs scs =
     (if scs = ra_kHz1_25 then cplane_kHz1_25 else if scs = ra_kHz5 then cplane_kHz5 else ra_numerology_value scs)"

text \<open>
  The frequency offset in half PRACH subcarriers.  The code computes in double precision on integers
  below \<open>2 ^ 53\<close> and truncates the quotient; \<open>twice\<close> is two times the offset in Hz.
\<close>

definition generate_prach_control_parameters ::
  "cplane_prach_context \<Rightarrow> ru_compression_params \<Rightarrow> nat \<Rightarrow> cplane_fft_size \<Rightarrow> cplane_section_type3_parameters" where
  "generate_prach_control_parameters ctx compr ru_prbs fft =
     (let offset_to_prach_Hz = int (c3_prach_start_re ctx * ra_scs_to_Hz (c3_prach_scs ctx));
          total_bw_Hz = int (1000 * scs_to_khz (c3_scs ctx) * ru_prbs * NOF_SUBCARRIERS_PER_RB);
          twice = - (total_bw_Hz - 2 * offset_to_prach_Hz);
          freq_offset = twice sdiv int (2 * (ra_scs_to_Hz (c3_prach_scs ctx) div 2))
      in \<lparr>t3_radio_hdr = init_radio_app_header_parameters (c3_slot ctx) (c3_start_symbol ctx) uplink (c3_filter_type ctx),
          t3_section = init_common_section_0_1_3_5_fields (c3_prach_nof_rb ctx) (c3_nof_repetitions ctx),
          t3_frequency_offset = freq_offset, t3_compr = compr, t3_scs = cplane_convert_scs (c3_prach_scs ctx),
          t3_fft_size = fft, t3_cpLength = 0, t3_time_offset = of_nat (c3_time_offset ctx)\<rparr>)"

definition generate_ecpri_control_parameters :: "u16 \<Rightarrow> u16 \<Rightarrow> type_params" where
  "generate_ecpri_control_parameters sid eaxc =
     realtime_control_parameters eaxc (push_bit 8 (sid AND 0x00ff) OR push_bit 7 1)"

section \<open>Encoding\<close>

record cplane_tx_config =
  ctx_ru_nof_prbs :: nat
  ctx_fft_size :: cplane_fft_size
  ctx_dl_compr :: ru_compression_params
  ctx_ul_compr :: ru_compression_params
  ctx_prach_compr :: ru_compression_params
  ctx_vlan :: vlan_frame_params
  ctx_serialize_header :: compression_header_serializer

record cplane_tx_state =
  cs_ul_repo :: uplink_cplane_context_repository
  cs_prach_repo :: uplink_cplane_context_repository
  cs_dl_seq_gen :: sequence_identifier_generator
  cs_ul_seq_gen :: sequence_identifier_generator

text \<open>
  The control message is written behind the room for the headers, then the eCPRI header and the
  Ethernet header are written in front of it.  None: a write past the end of the buffer.
\<close>

definition build_control_frame :: "vlan_frame_params \<Rightarrow> bytes \<Rightarrow> bytes \<Rightarrow> type_params \<Rightarrow> bytes option" where
  "build_control_frame v buffer msg tp = do {
     let ether_hdr_size = eth_builder_header_size v;
     let ecpri_hdr_size = ecpri_get_header_size rt_control_data;
     let offset = ether_hdr_size + ecpri_hdr_size;
     if length buffer < offset + length msg then None
     else do {
       let buffer = take offset buffer @ overlay msg (drop offset buffer);
       let ecpri_buffer = build_control_packet (take (ecpri_hdr_size + length msg) (drop ether_hdr_size buffer))
                            (rtc_id tp) (rt_seq_id tp);
       let buffer = take ether_hdr_size buffer @ overlay ecpri_buffer (drop ether_hdr_size buffer);
       eth_builder_build_frame v (take (ether_hdr_size + length msg + ecpri_hdr_size) buffer)
     }
   }"

text \<open>The buffer is the one the pool hands out, None when it is empty: the message is then dropped.\<close>

definition cplane_enqueue_section_type_1_message ::
  "cplane_tx_config \<Rightarrow> cplane_type_1_context \<Rightarrow> bytes option \<Rightarrow> cplane_tx_state \<Rightarrow>
   (bytes option \<times> cplane_tx_state) option" where
  "cplane_enqueue_section_type_1_message cfg ctx pool st =
     (case pool of
        None \<Rightarrow> Some (None, st)
      | Some buffer \<Rightarrow> do {
          let p = generate_section1_control_parameters ctx (ctx_ru_nof_prbs cfg)
                    (if c1_direction ctx = downlink then ctx_dl_compr cfg else ctx_ul_compr cfg);
          let msg = build_dl_ul_radio_channel_message (ctx_serialize_header cfg) p;
          let eaxc = c1_eaxc ctx;
          let st = (if c1_direction ctx = uplink
                    then st\<lparr>cs_ul_repo := ul_cplane_add (c1_slot ctx) eaxc
                            \<lparr>ctx_filter_index = filter_index (t1_radio_hdr p),
                             ctx_start_symbol = of_nat (start_symbol (t1_radio_hdr p)),
                             ctx_prb_start = of_nat (prb_start (t1_section p)),
                             ctx_nof_prb = of_nat (nof_prb (t1_section p)),
                             ctx_nof_symbols = of_nat (nof_symbols (t1_section p))\<rparr> (cs_ul_repo st)\<rparr>
                    else st);
          (sid, st) \<leftarrow>
            (if c1_direction ctx = downlink
             then map_option (\<lambda>(sid, g). (sid, st\<lparr>cs_dl_seq_gen := g\<rparr>)) (seq_generate eaxc (cs_dl_seq_gen st))
             else map_option (\<lambda>(sid, g). (sid, st\<lparr>cs_ul_seq_gen := g\<rparr>)) (seq_generate eaxc (cs_ul_seq_gen st)));
          frame \<leftarrow> build_control_frame (ctx_vlan cfg) buffer msg (generate_ecpri_control_parameters (ucast sid) (of_nat eaxc));
          Some (Some frame, st)
        })"

definition cplane_enqueue_section_type_3_prach_message ::
  "cplane_tx_config \<Rightarrow> cplane_prach_context \<Rightarrow> bytes option \<Rightarrow> cplane_tx_state \<Rightarrow>
   (bytes option \<times> cplane_tx_state) option" where
  "cplane_enqueue_section_type_3_prach_message cfg ctx pool st =
     (case pool of
        None \<Rightarrow> Some (None, st)
      | Some buffer \<Rightarrow> do {
          let p = generate_prach_control_parameters ctx (ctx_prach_compr cfg) (ctx_ru_nof_prbs cfg) (ctx_fft_size cfg);
          let msg = build_prach_mixed_numerology_message (ctx_serialize_header cfg) p;
          let eaxc = c3_eaxc ctx;
          let st = st\<lparr>cs_prach_repo := ul_cplane_add (c3_slot ctx) eaxc
                       \<lparr>ctx_filter_index = filter_index (t3_radio_hdr p),
                        ctx_start_symbol = of_nat (start_symbol (t3_radio_hdr p)),
                        ctx_prb_start = of_nat (prb_start (t3_section p)),
                        ctx_nof_prb = of_nat (nof_prb (t3_section p)),
                        ctx_nof_symbols = of_nat (nof_symbols (t3_section p))\<rparr> (cs_prach_repo st)\<rparr>;
          (sid, g) \<leftarrow> seq_generate eaxc (cs_ul_seq_gen st);
          let st = st\<lparr>cs_ul_seq_gen := g\<rparr>;
          frame \<leftarrow> build_control_frame (ctx_vlan cfg) buffer msg (generate_ecpri_control_parameters (ucast sid) (of_nat eaxc));
          Some (Some frame, st)
        })"

section \<open>Frames\<close>

lemma build_control_frame_eq:
  assumes v: "eth_params_wf v" and tp: "tp = realtime_control_parameters r q"
    and room: "eth_builder_header_size v + 8 + length msg \<le> length buffer"
  shows "build_control_frame v buffer msg tp = Some (eth_frame v (ecpri_packet tp msg))"
proof -
  let ?E = "eth_builder_header_size v" and ?m = "length msg"
  define b where "b = take (?E + 8) buffer @ msg @ drop (?E + 8 + ?m) buffer"
  have b: "b = take (?E + 8) buffer @ overlay msg (drop (?E + 8) buffer)" by (simp add: b_def overlay_def add.commute)
  define x where "x = take 8 (drop ?E buffer)"
  have x: "take (?E + 8) buffer = take ?E buffer @ x" "length x = 8" using room by (simp_all add: x_def take_add)
  have inner: "take (8 + ?m) (drop ?E b) = x @ msg" using room x(2) by (simp add: b_def x(1))
  have pkt: "build_control_packet (x @ msg) (rtc_id tp) (rt_seq_id tp) = ecpri_packet tp msg"
    using x(2) by (simp add: tp build_control_packet_def ecpri_packet_def overlay_def ecpri_sizes)
  have len: "length (ecpri_packet tp msg) = 8 + ?m" by (simp add: ecpri_packet_eq)
  have outer: "take (?E + ?m + 8) (take ?E b @ overlay (ecpri_packet tp msg) (drop ?E b)) =
      take ?E buffer @ ecpri_packet tp msg"
    using room len by (simp add: overlay_def b_def x(1))
  show ?thesis
    using room by (simp add: build_control_frame_def Let_def ecpri_sizes b [symmetric] inner pkt outer
        eth_builder_frame [OF v] del: take_append)
qed

end
