(* ===== verification/Ru_Requests.thy ===== *)
theory Ru_Requests
  imports Cplane_Scheduling
begin

text \<open>
  Uplink scheduling of the O-RU (lib/ofh/ru): the requests that the Control-Plane messages of the O-DU
  leave in the request repositories, their dispatching by message and eAxC, and the responders that
  turn captured symbols and PRACH windows into User-Plane replies.
\<close>

section \<open>PRACH frequency mapping\<close>

definition to_prach_subcarrier_spacing :: "cplane_scs \<Rightarrow> prach_subcarrier_spacing" where
  "to_prach_subcarrier_spacing scs =
     (if scs = cplane_kHz15 then ra_kHz15 else if scs = cplane_kHz30 then ra_kHz30
      else if scs = cplane_kHz60 then ra_kHz60 else if scs = cplane_kHz120 then ra_kHz120
      else if scs = cplane_kHz1_25 then ra_kHz1_25 else if scs = cplane_kHz5 then ra_kHz5 else ra_invalid)"

definition is_prach_filter_compatible :: "filter_index_type \<Rightarrow> prach_subcarrier_spacing \<Rightarrow> bool" where
  "is_prach_filter_compatible f scs =
     (case f of
        ul_prach_preamble_1p25khz \<Rightarrow> scs = ra_kHz1_25
      | ul_prach_preamble_5kHz \<Rightarrow> scs = ra_kHz5
      | ul_prach_preamble_short \<Rightarrow> is_short_preamble_scs scs
      | ul_prach_preamble_short_15kHz \<Rightarrow> scs = ra_kHz15
      | ul_prach_preamble_short_30kHz \<Rightarrow> scs = ra_kHz30
      | _ \<Rightarrow> False)"

definition calculate_prach_rb_offset ::
  "int \<Rightarrow> prach_subcarrier_spacing \<Rightarrow> subcarrier_spacing \<Rightarrow> nat \<Rightarrow> nat option" where
  "calculate_prach_rb_offset freq prach_scs pusch_scs ru_prbs =
     (let nof_rb_ra = fst (prach_frequency_mapping_get prach_scs pusch_scs)
      in if nof_rb_ra = 0 then None
         else let prach_scs_hz = int (ra_scs_to_Hz prach_scs);
                  pusch_scs_hz = int (scs_to_khz pusch_scs) * 1000;
                  rb_bw_hz = pusch_scs_hz * int NOF_SUBCARRIERS_PER_RB;
                  total_bw_hz = rb_bw_hz * int ru_prbs;
                  twice_offset = total_bw_hz + freq * prach_scs_hz;
                  twice_rb_bw_hz = 2 * rb_bw_hz
              in if twice_offset < 0 \<or> twice_offset smod twice_rb_bw_hz \<noteq> 0 then None
                 else let rb_offset = nat (twice_offset sdiv twice_rb_bw_hz)
                      in if rb_offset + nof_rb_ra > ru_prbs then None else Some rb_offset)"

section \<open>Request repository\<close>

record ru_uplink_request =
  req_slot :: slot_point
  req_filter_index :: filter_index_type
  req_start_symbol :: nat
  req_prb_start :: nat
  req_nof_prb :: nat
  req_nof_symbols :: nat
  req_section_id :: nat
  req_prach_scs :: prach_subcarrier_spacing
  req_prach_start_rb :: nat

type_synonym ru_uplink_request_repository = "ru_uplink_request list list"

definition request_entry :: "slot_point \<Rightarrow> nat \<Rightarrow> ru_uplink_request_repository \<Rightarrow> ru_uplink_request" where
  "request_entry s eaxc repo = repo ! calculate_repository_index s (length repo) ! eaxc"

definition request_store ::
  "slot_point \<Rightarrow> nat \<Rightarrow> ru_uplink_request \<Rightarrow> ru_uplink_request_repository \<Rightarrow> ru_uplink_request_repository" where
  "request_store s eaxc r repo =
     (let i = calculate_repository_index s (length repo) in repo[i := (repo ! i)[eaxc := r]])"

definition request_add :: "nat \<Rightarrow> ru_uplink_request \<Rightarrow> ru_uplink_request_repository \<Rightarrow> ru_uplink_request_repository" where
  "request_add eaxc r repo = request_store (req_slot r) eaxc r repo"

definition request_get :: "slot_point \<Rightarrow> nat \<Rightarrow> ru_uplink_request_repository \<Rightarrow> ru_uplink_request option" where
  "request_get s eaxc repo =
     (let r = request_entry s eaxc repo in if req_nof_symbols r \<noteq> 0 \<and> req_slot r = s then Some r else None)"

definition request_clear :: "slot_point \<Rightarrow> nat \<Rightarrow> ru_uplink_request_repository \<Rightarrow> ru_uplink_request_repository" where
  "request_clear s eaxc repo =
     (let r = request_entry s eaxc repo
      in if req_slot r = s then request_store s eaxc (r\<lparr>req_nof_symbols := 0\<rparr>) repo else repo)"

definition empty_request :: ru_uplink_request where
  "empty_request =
     \<lparr>req_slot = invalid_slot_point, req_filter_index = standard_channel_filter, req_start_symbol = 0, req_prb_start = 0,
      req_nof_prb = 0, req_nof_symbols = 0, req_section_id = 0, req_prach_scs = ra_invalid, req_prach_start_rb = 0\<rparr>"

definition request_repo_init :: "nat \<Rightarrow> ru_uplink_request_repository" where
  "request_repo_init n = replicate n (replicate MAX_SUPPORTED_EAXC_ID_VALUE empty_request)"

section \<open>Recorder and dispatcher\<close>

definition to_ru_uplink_request :: "cplane_message_decoder_results \<Rightarrow> ru_uplink_request" where
  "to_ru_uplink_request res =
     \<lparr>req_slot = slot (radio_hdr res), req_filter_index = filter_index (radio_hdr res),
      req_start_symbol = start_symbol (radio_hdr res), req_prb_start = prb_start (section res),
      req_nof_prb = nof_prb (section res), req_nof_symbols = nof_symbols (section res),
      req_section_id = section_id (section res), req_prach_scs = ra_invalid, req_prach_start_rb = 0\<rparr>"

record ru_recorder =
  rec_scs :: subcarrier_spacing
  rec_ru_nof_prbs :: nat
  rec_ul_repo :: ru_uplink_request_repository
  rec_prach_repo :: ru_uplink_request_repository

definition recorder_handle_uplink_scheduling :: "nat \<Rightarrow> cplane_message_decoder_results \<Rightarrow> ru_recorder \<Rightarrow> ru_recorder" where
  "recorder_handle_uplink_scheduling eaxc res st =
     st\<lparr>rec_ul_repo := request_add eaxc (to_ru_uplink_request res) (rec_ul_repo st)\<rparr>"

definition recorder_handle_prach_scheduling :: "nat \<Rightarrow> cplane_message_decoder_results \<Rightarrow> ru_recorder \<Rightarrow> ru_recorder" where
  "recorder_handle_prach_scheduling eaxc res st =
     (let scs = to_prach_subcarrier_spacing (frame_structure_scs res)
      in if \<not> is_prach_filter_compatible (filter_index (radio_hdr res)) scs then st
         else case calculate_prach_rb_offset (frequency_offset res) scs (rec_scs st) (rec_ru_nof_prbs st) of
           None \<Rightarrow> st
         | Some rb_offset \<Rightarrow>
             st\<lparr>rec_prach_repo := request_add eaxc
                  ((to_ru_uplink_request res)\<lparr>req_prach_scs := scs, req_prach_start_rb := rb_offset\<rparr>) (rec_prach_repo st)\<rparr>)"

definition CPLANE_SECTION_TYPE_PRACH :: nat where "CPLANE_SECTION_TYPE_PRACH = 3"

definition is_eaxc_configured :: "nat list \<Rightarrow> nat \<Rightarrow> bool" where
  "is_eaxc_configured eaxcs eaxc \<longleftrightarrow> eaxc \<in> set eaxcs"

record ru_dispatcher_config =
  disp_dl_eaxc :: "nat list"
  disp_ul_eaxc :: "nat list"
  disp_prach_eaxc :: "nat list"

text \<open>The handlers are the interface the dispatcher is connected to; they act on the state of the sector.\<close>

record 's scheduling_handlers =
  h_downlink :: "nat \<Rightarrow> cplane_message_decoder_results \<Rightarrow> 's \<Rightarrow> 's"
  h_uplink :: "nat \<Rightarrow> cplane_message_decoder_results \<Rightarrow> 's \<Rightarrow> 's"
  h_prach :: "nat \<Rightarrow> cplane_message_decoder_results \<Rightarrow> 's \<Rightarrow> 's"

definition on_cplane_message_received ::
  "ru_dispatcher_config \<Rightarrow> 's scheduling_handlers \<Rightarrow> nat \<Rightarrow> cplane_message_decoder_results \<Rightarrow> 's \<Rightarrow> 's" where
  "on_cplane_message_received cfg h eaxc res st =
     (if section_type res = CPLANE_SECTION_TYPE_PRACH then
        (if \<not> is_eaxc_configured (disp_prach_eaxc cfg) eaxc then st else h_prach h eaxc res st)
      else if direction (radio_hdr res) = uplink then
        (if \<not> is_eaxc_configured (disp_ul_eaxc cfg) eaxc then st else h_uplink h eaxc res st)
      else if \<not> is_eaxc_configured (disp_dl_eaxc cfg) eaxc then st
      else h_downlink h eaxc res st)"

section \<open>Responders\<close>

text \<open>
  The replies are the contexts handed to the User-Plane data flow, in order.  The loop runs over the
  ports, each with its eAxC.
\<close>

fun respond_symbol_ports ::
  "slot_point \<Rightarrow> nat \<Rightarrow> (nat \<times> nat) list \<Rightarrow> ru_uplink_request_repository \<Rightarrow>
   uplane_grid_context list \<times> ru_uplink_request_repository" where
  "respond_symbol_ports s symbol [] repo = ([], repo)"
| "respond_symbol_ports s symbol ((port, eaxc) # ports) repo =
     (case request_get s eaxc repo of
        None \<Rightarrow> respond_symbol_ports s symbol ports repo
      | Some r \<Rightarrow>
          if symbol < req_start_symbol r \<or> symbol \<ge> req_start_symbol r + req_nof_symbols r
          then respond_symbol_ports s symbol ports repo
          else let c = \<lparr>ug_slot = s, ug_port = port, ug_eaxc = eaxc, ug_start_symbol = symbol, ug_stop_symbol = symbol + 1,
                        ug_section_id = req_section_id r\<rparr>;
                   repo = (if symbol = req_start_symbol r + req_nof_symbols r - 1 then request_clear s eaxc repo else repo);
                   (cs, repo) = respond_symbol_ports s symbol ports repo
               in (c # cs, repo))"

definition handle_uplink_symbol ::
  "nat list \<Rightarrow> nat \<Rightarrow> slot_point \<Rightarrow> nat \<Rightarrow> ru_uplink_request_repository \<Rightarrow>
   uplane_grid_context list \<times> ru_uplink_request_repository" where
  "handle_uplink_symbol ul_eaxc grid_nof_ports s symbol repo =
     (let nof_ports = min grid_nof_ports (length ul_eaxc)
      in respond_symbol_ports s symbol (map (\<lambda>port. (port, ul_eaxc ! port)) [0..<nof_ports]) repo)"

fun respond_prach_ports ::
  "slot_point \<Rightarrow> (nat \<times> nat) list \<Rightarrow> ru_uplink_request_repository \<Rightarrow>
   uplane_prach_context list \<times> ru_uplink_request_repository" where
  "respond_prach_ports s [] repo = ([], repo)"
| "respond_prach_ports s ((port, eaxc) # ports) repo =
     (case request_get s eaxc repo of
        None \<Rightarrow> respond_prach_ports s ports repo
      | Some r \<Rightarrow>
          let c = \<lparr>pr_slot = s, pr_port = port, pr_eaxc = eaxc, pr_prb_start = req_prb_start r, pr_nof_prb = req_nof_prb r,
                   pr_start_symbol = req_start_symbol r, pr_nof_symbols = req_nof_symbols r,
                   pr_filter_index = req_filter_index r, pr_prach_scs = req_prach_scs r, pr_section_id = req_section_id r\<rparr>;
              (cs, repo) = respond_prach_ports s ports (request_clear s eaxc repo)
          in (c # cs, repo))"

definition handle_prach_window ::
  "nat list \<Rightarrow> nat \<Rightarrow> slot_point \<Rightarrow> ru_uplink_request_repository \<Rightarrow>
   uplane_prach_context list \<times> ru_uplink_request_repository" where
  "handle_prach_window prach_eaxc buffer_nof_ports s repo =
     (let nof_ports = min buffer_nof_ports (length prach_eaxc)
      in respond_prach_ports s (map (\<lambda>port. (port, prach_eaxc ! port)) [0..<nof_ports]) repo)"

record ru_prach_occasion =
  occ_slot :: slot_point
  occ_eaxc :: nat
  occ_start_symbol :: nat
  occ_rb_offset :: nat
  occ_prach_scs :: prach_subcarrier_spacing

fun peek_prach_occasion :: "nat list \<Rightarrow> slot_point \<Rightarrow> ru_uplink_request_repository \<Rightarrow> ru_prach_occasion option" where
  "peek_prach_occasion [] s repo = None"
| "peek_prach_occasion (eaxc # eaxcs) s repo =
     (case request_get s eaxc repo of
        Some r \<Rightarrow> Some \<lparr>occ_slot = s, occ_eaxc = eaxc, occ_start_symbol = req_start_symbol r,
                        occ_rb_offset = req_prach_start_rb r, occ_prach_scs = req_prach_scs r\<rparr>
      | None \<Rightarrow> peek_prach_occasion eaxcs s repo)"

section \<open>Repository laws\<close>

definition request_repo_wf :: "ru_uplink_request_repository \<Rightarrow> bool" where
  "request_repo_wf repo \<longleftrightarrow> repo \<noteq> [] \<and> (\<forall>row \<in> set repo. length row = MAX_SUPPORTED_EAXC_ID_VALUE)"

interpretation requests: slot_repository request_repo_wf
  "\<lambda>s r. calculate_repository_index s (length r)" request_store request_entry MAX_SUPPORTED_EAXC_ID_VALUE
proof unfold_locales
  fix r s e v assume "request_repo_wf r"
  then show "request_repo_wf (request_store s e v r)"
    using row_update_wf [of r MAX_SUPPORTED_EAXC_ID_VALUE] by (simp add: request_repo_wf_def request_store_def Let_def)
  show "calculate_repository_index t (length (request_store s e v r)) = calculate_repository_index t (length r)" for t
    by (simp add: request_store_def Let_def)
qed (auto simp: request_repo_wf_def request_store_def request_entry_def Let_def nth_list_update)

lemma request_get_Some: "request_get s e repo = Some r \<Longrightarrow> req_slot r = s \<and> req_nof_symbols r \<noteq> 0 \<and> request_entry s e repo = r"
  by (auto simp: request_get_def Let_def split: if_splits)

lemma request_clear_wf [wf_intros]: "request_repo_wf repo \<Longrightarrow> request_repo_wf (request_clear s e repo)"
  by (simp add: request_clear_def Let_def requests.inv_put)

text \<open>A cleared request is gone, and no other request is affected.\<close>

lemma request_get_clear:
  assumes "request_repo_wf repo" "e < MAX_SUPPORTED_EAXC_ID_VALUE"
  shows "request_get s e (request_clear s e repo) = None"
    and "(t, f) \<noteq> (s, e) \<Longrightarrow> request_get t f (request_clear s e repo) = request_get t f repo"
proof -
  show "request_get s e (request_clear s e repo) = None"
    using assms by (auto simp: request_get_def request_clear_def Let_def requests.look_put_same)
  assume ne: "(t, f) \<noteq> (s, e)"
  show "request_get t f (request_clear s e repo) = request_get t f repo"
  proof (cases "calculate_repository_index t (length repo) = calculate_repository_index s (length repo) \<and> f = e")
    case True
    then have same: "request_entry t f repo = request_entry s e repo" by (simp add: request_entry_def)
    have "t \<noteq> s" using ne True by auto
    then show ?thesis
      using True assms same requests.look_put_same [OF assms, of t s]
      by (auto simp: request_get_def request_clear_def Let_def)
  next
    case False
    then show ?thesis
      using assms(1) requests.look_put_other [OF assms(1), of t s f e]
      by (auto simp: request_get_def request_clear_def Let_def)
  qed
qed

lemma request_add_wf: "request_repo_wf repo \<Longrightarrow> request_repo_wf (request_add e r repo)"
  by (simp add: request_add_def requests.inv_put)

lemma request_get_add:
  assumes "request_repo_wf repo" "e < MAX_SUPPORTED_EAXC_ID_VALUE" "req_nof_symbols r \<noteq> 0"
  shows "request_get (req_slot r) e (request_add e r repo) = Some r"
  using assms by (simp add: request_get_def request_add_def Let_def requests.look_put_same)

section \<open>Replies\<close>

definition in_request_window :: "nat \<Rightarrow> ru_uplink_request \<Rightarrow> bool" where
  "in_request_window symbol r \<longleftrightarrow> req_start_symbol r \<le> symbol \<and> symbol < req_start_symbol r + req_nof_symbols r"

definition reply_context :: "slot_point \<Rightarrow> nat \<Rightarrow> nat \<Rightarrow> nat \<Rightarrow> ru_uplink_request \<Rightarrow> uplane_grid_context" where
  "reply_context s symbol port eaxc r =
     \<lparr>ug_slot = s, ug_port = port, ug_eaxc = eaxc, ug_start_symbol = symbol, ug_stop_symbol = symbol + 1,
      ug_section_id = req_section_id r\<rparr>"

definition port_replies :: "slot_point \<Rightarrow> nat \<Rightarrow> ru_uplink_request_repository \<Rightarrow> nat \<times> nat \<Rightarrow> uplane_grid_context list" where
  "port_replies s symbol repo pe =
     (case request_get s (snd pe) repo of
        Some r \<Rightarrow> if in_request_window symbol r then [reply_context s symbol (fst pe) (snd pe) r] else []
      | None \<Rightarrow> [])"

definition answered :: "slot_point \<Rightarrow> nat \<Rightarrow> ru_uplink_request_repository \<Rightarrow> nat \<Rightarrow> bool" where
  "answered s symbol repo eaxc \<longleftrightarrow>
     (\<exists>r. request_get s eaxc repo = Some r \<and> in_request_window symbol r \<and>
          symbol = req_start_symbol r + req_nof_symbols r - 1)"

lemma respond_symbol_ports_spec:
  assumes "request_repo_wf repo" "distinct (map snd ports)" "\<forall>e \<in> set (map snd ports). e < MAX_SUPPORTED_EAXC_ID_VALUE"
    and "respond_symbol_ports s symbol ports repo = (cs, repo')"
  shows "request_repo_wf repo' \<and> cs = concat (map (port_replies s symbol repo) ports) \<and>
    (\<forall>t f. request_get t f repo' =
      (if t = s \<and> f \<in> set (map snd ports) \<and> answered s symbol repo f then None else request_get t f repo))"
  using assms
proof (induction ports arbitrary: repo cs repo')
  case (Cons pe ports)
  obtain port e where pe: "pe = (port, e)" by (cases pe)
  have e: "e < MAX_SUPPORTED_EAXC_ID_VALUE" "e \<notin> set (map snd ports)" using Cons.prems by (auto simp: pe)
  define repo1 where "repo1 = (if answered s symbol repo e then request_clear s e repo else repo)"
  obtain cs1 where r1: "respond_symbol_ports s symbol ports repo1 = (cs1, repo')" "cs = port_replies s symbol repo pe @ cs1"
    using Cons.prems(4)
    by (auto simp: pe repo1_def port_replies_def answered_def in_request_window_def reply_context_def Let_def
        split: option.splits if_splits prod.splits)
  have wf1: "request_repo_wf repo1" using Cons.prems(1) by (simp add: repo1_def request_clear_wf)
  have get1: "request_get t f repo1 = (if t = s \<and> f = e \<and> answered s symbol repo e then None else request_get t f repo)" for t f
    using request_get_clear [OF Cons.prems(1) e(1)] by (auto simp: repo1_def)
  from Cons.IH [OF wf1 _ _ r1(1)] Cons.prems(2,3)
  have IH: "request_repo_wf repo'" "cs1 = concat (map (port_replies s symbol repo1) ports)"
    "\<And>t f. request_get t f repo' =
      (if t = s \<and> f \<in> set (map snd ports) \<and> answered s symbol repo1 f then None else request_get t f repo1)" by auto
  have same: "port_replies s symbol repo1 q = port_replies s symbol repo q" if "q \<in> set ports" for q
    using that e(2) get1 [of s "snd q"] by (auto simp: port_replies_def)
  have ans: "answered s symbol repo1 f = answered s symbol repo f" if "f \<in> set (map snd ports)" for f
    using that e(2) get1 [of s f] by (auto simp: answered_def)
  have cs: "cs = concat (map (port_replies s symbol repo) (pe # ports))"
    using same by (simp add: r1(2) IH(2) cong: map_cong)
  have "request_get t f repo' =
      (if t = s \<and> f \<in> set (map snd (pe # ports)) \<and> answered s symbol repo f then None else request_get t f repo)" for t f
    using IH(3) [of t f] get1 [of t f] ans [of f] e(2) by (cases "f = e") (auto simp: pe)
  with cs IH(1) show ?case by blast
qed simp

text \<open>The symbols of a slot, one after the other.\<close>

fun respond_symbols ::
  "nat list \<Rightarrow> nat \<Rightarrow> slot_point \<Rightarrow> nat list \<Rightarrow> ru_uplink_request_repository \<Rightarrow>
   uplane_grid_context list \<times> ru_uplink_request_repository" where
  "respond_symbols ul_eaxc ports s [] repo = ([], repo)"
| "respond_symbols ul_eaxc ports s (symbol # symbols) repo =
     (let (cs, repo) = handle_uplink_symbol ul_eaxc ports s symbol repo;
          (ds, repo) = respond_symbols ul_eaxc ports s symbols repo
      in (cs @ ds, repo))"

lemma respond_symbols_append:
  "respond_symbols ul_eaxc ports s (xs @ ys) repo =
     (let (cs, repo) = respond_symbols ul_eaxc ports s xs repo; (ds, repo) = respond_symbols ul_eaxc ports s ys repo
      in (cs @ ds, repo))"
  by (induction xs arbitrary: repo) (auto split: prod.splits)

lemma concat_single:
  assumes "distinct (map snd xs)" "(p, e) \<in> set xs" "\<And>q. q \<in> set xs \<Longrightarrow> \<forall>c \<in> set (g q). ug_eaxc c = snd q"
  shows "filter (\<lambda>c. ug_eaxc c = e) (concat (map g xs)) = g (p, e)"
  using assms
proof (induction xs)
  case (Cons x xs)
  show ?case
  proof (cases "x = (p, e)")
    case True
    have "ug_eaxc c \<noteq> e" if "q \<in> set xs" "c \<in> set (g q)" for q c
      using that Cons.prems(1) Cons.prems(3) [of q] True by auto
    then have "filter (\<lambda>c. ug_eaxc c = e) (concat (map g xs)) = []" by (auto simp: filter_empty_conv)
    moreover have "filter (\<lambda>c. ug_eaxc c = e) (g x) = g x" using Cons.prems(3) [of x] True by (simp add: filter_id_conv)
    ultimately show ?thesis using True by simp
  next
    case False
    then have mem: "(p, e) \<in> set xs" and ne: "snd x \<noteq> e" using Cons.prems(1,2) by (auto simp: image_iff)
    have "filter (\<lambda>c. ug_eaxc c = e) (g x) = []" using Cons.prems(3) [of x] ne by (auto simp: filter_empty_conv)
    then show ?thesis using Cons.IH Cons.prems mem by simp
  qed
qed simp

lemma handle_uplink_symbol_spec:
  assumes "request_repo_wf repo" "distinct ul_eaxc" "\<forall>e \<in> set ul_eaxc. e < MAX_SUPPORTED_EAXC_ID_VALUE"
    and "port < nports" "port < length ul_eaxc" "handle_uplink_symbol ul_eaxc nports s symbol repo = (cs, repo')"
  shows "request_repo_wf repo'" "filter (\<lambda>c. ug_eaxc c = ul_eaxc ! port) cs = port_replies s symbol repo (port, ul_eaxc ! port)"
    "request_get s (ul_eaxc ! port) repo' =
      (if answered s symbol repo (ul_eaxc ! port) then None else request_get s (ul_eaxc ! port) repo)"
proof -
  let ?ports = "map (\<lambda>port. (port, ul_eaxc ! port)) [0..<min nports (length ul_eaxc)]"
  have m: "map snd ?ports = take (min nports (length ul_eaxc)) ul_eaxc" by (rule nth_equalityI) auto
  then have dist: "distinct (map snd ?ports)" using assms(2) by (simp only: distinct_take)
  have bound: "\<forall>e \<in> set (map snd ?ports). e < MAX_SUPPORTED_EAXC_ID_VALUE"
    unfolding m using assms(3) in_set_takeD by metis
  have r: "respond_symbol_ports s symbol ?ports repo = (cs, repo')"
    using assms(6) by (simp add: handle_uplink_symbol_def Let_def)
  note spec = respond_symbol_ports_spec [OF assms(1) dist bound r]
  have mem: "(port, ul_eaxc ! port) \<in> set ?ports" using assms(4,5) by auto
  show "request_repo_wf repo'" using spec by blast
  show "filter (\<lambda>c. ug_eaxc c = ul_eaxc ! port) cs = port_replies s symbol repo (port, ul_eaxc ! port)"
    unfolding conjunct1 [OF conjunct2 [OF spec]]
    by (rule concat_single [OF dist mem]) (auto simp: port_replies_def reply_context_def split: option.splits if_splits)
  have "ul_eaxc ! port \<in> set (map snd ?ports)" using mem by force
  then show "request_get s (ul_eaxc ! port) repo' =
      (if answered s symbol repo (ul_eaxc ! port) then None else request_get s (ul_eaxc ! port) repo)"
    using spec by simp
qed

lemma respond_symbols_prefix:
  assumes wf: "request_repo_wf repo" and eaxc: "distinct ul_eaxc" "\<forall>e \<in> set ul_eaxc. e < MAX_SUPPORTED_EAXC_ID_VALUE"
    and port: "port < nports" "port < length ul_eaxc" and r: "request_get s (ul_eaxc ! port) repo = Some r"
  shows "\<exists>cs repo'. respond_symbols ul_eaxc nports s [0..<k] repo = (cs, repo') \<and> request_repo_wf repo' \<and>
    filter (\<lambda>c. ug_eaxc c = ul_eaxc ! port) cs =
      map (\<lambda>symbol. reply_context s symbol port (ul_eaxc ! port) r)
        [req_start_symbol r..<min k (req_start_symbol r + req_nof_symbols r)] \<and>
    request_get s (ul_eaxc ! port) repo' = (if k < req_start_symbol r + req_nof_symbols r then Some r else None)"
proof (induction k)
  case 0
  then show ?case using wf r request_get_Some [OF r] by auto
next
  case (Suc k)
  let ?e = "ul_eaxc ! port" and ?stop = "req_start_symbol r + req_nof_symbols r"
  obtain cs repo1 where IH: "respond_symbols ul_eaxc nports s [0..<k] repo = (cs, repo1)" "request_repo_wf repo1"
    "filter (\<lambda>c. ug_eaxc c = ?e) cs = map (\<lambda>symbol. reply_context s symbol port ?e r) [req_start_symbol r..<min k ?stop]"
    "request_get s ?e repo1 = (if k < ?stop then Some r else None)"
    using Suc.IH by blast
  obtain ds repo2 where h: "handle_uplink_symbol ul_eaxc nports s k repo1 = (ds, repo2)" by fastforce
  note sp = handle_uplink_symbol_spec [OF IH(2) eaxc port h]
  have ds: "filter (\<lambda>c. ug_eaxc c = ?e) ds =
      (if req_start_symbol r \<le> k \<and> k < ?stop then [reply_context s k port ?e r] else [])"
    unfolding sp(2) using IH(4) by (auto simp: port_replies_def in_request_window_def)
  have get: "request_get s ?e repo2 = (if Suc k < ?stop then Some r else None)"
    unfolding sp(3) using IH(4) request_get_Some [OF r] by (auto simp: answered_def in_request_window_def)
  have "respond_symbols ul_eaxc nports s [0..<Suc k] repo = (cs @ ds, repo2)"
    using IH(1) h by (simp add: respond_symbols_append)
  moreover have "[req_start_symbol r..<min (Suc k) ?stop] =
      [req_start_symbol r..<min k ?stop] @ (if req_start_symbol r \<le> k \<and> k < ?stop then [k] else [])"
    by (cases "k < ?stop") (auto simp: min_def le_Suc_eq)
  ultimately show ?case using sp(1) IH(3) ds get by auto
qed

section \<open>Properties\<close>

text \<open>
  An uplink request is answered exactly once.  When the symbols of its slot are captured in order,
  the responder enqueues, for the eAxC of the request, exactly one reply for each requested symbol, in
  order, with the port of the eAxC and the section identifier of the request; after the last symbol the
  request is gone, so that a later slot with the same number produces no reply.
\<close>

theorem uplink_request_answered_once:
  assumes "request_repo_wf repo" "distinct ul_eaxc" "\<forall>e \<in> set ul_eaxc. e < MAX_SUPPORTED_EAXC_ID_VALUE"
    and "port < nports" "port < length ul_eaxc" "req_nof_symbols r \<noteq> 0" "req_start_symbol r + req_nof_symbols r \<le> 14"
  shows "\<exists>cs repo'. respond_symbols ul_eaxc nports (req_slot r) [0..<14] (request_add (ul_eaxc ! port) r repo) = (cs, repo') \<and>
    filter (\<lambda>c. ug_eaxc c = ul_eaxc ! port) cs =
      map (\<lambda>symbol. \<lparr>ug_slot = req_slot r, ug_port = port, ug_eaxc = ul_eaxc ! port, ug_start_symbol = symbol,
                     ug_stop_symbol = symbol + 1, ug_section_id = req_section_id r\<rparr>)
        [req_start_symbol r..<req_start_symbol r + req_nof_symbols r] \<and>
    request_get (req_slot r) (ul_eaxc ! port) repo' = None"
proof -
  have e: "ul_eaxc ! port < MAX_SUPPORTED_EAXC_ID_VALUE" using assms(3,5) by simp
  from respond_symbols_prefix [OF request_add_wf [OF assms(1)] assms(2-5) request_get_add [OF assms(1) e assms(6)], of 14] assms(7)
  show ?thesis by (auto simp: reply_context_def min_def)
qed

definition sample_request :: ru_uplink_request where
  "sample_request =
     \<lparr>req_slot = slot_point_sfn 1 3 5, req_filter_index = standard_channel_filter, req_start_symbol = 10, req_prb_start = 0,
      req_nof_prb = 0, req_nof_symbols = 4, req_section_id = 7, req_prach_scs = ra_invalid, req_prach_start_rb = 0\<rparr>"

lemma request_repo_init_wf: "0 < n \<Longrightarrow> request_repo_wf (request_repo_init n)"
  by (simp add: request_repo_wf_def request_repo_init_def)

theorem uplink_request_answered_once_witness:
  "\<exists>cs repo'. respond_symbols [4, 5] 2 (slot_point_sfn 1 3 5) [0..<14] (request_add 5 sample_request (request_repo_init 20)) = (cs, repo') \<and>
    length (filter (\<lambda>c. ug_eaxc c = 5) cs) = 4 \<and> request_get (slot_point_sfn 1 3 5) 5 repo' = None"
  using uplink_request_answered_once [OF request_repo_init_wf, of 20 "[4, 5]" 1 2 sample_request]
  by (fastforce simp: MAX_SUPPORTED_EAXC_ID_VALUE_def sample_request_def)

text \<open>
  C30: A request whose symbols run past the end of the slot is never cleared: after all fourteen symbols
  of its slot the request is still in the repository, so it is answered again when the slot number
  recurs, although nothing was requested for that slot.
\<close>

theorem overlong_request_never_cleared:
  assumes "request_repo_wf repo" "distinct ul_eaxc" "\<forall>e \<in> set ul_eaxc. e < MAX_SUPPORTED_EAXC_ID_VALUE"
    and "port < nports" "port < length ul_eaxc" "req_nof_symbols r \<noteq> 0" "14 < req_start_symbol r + req_nof_symbols r"
  shows "\<exists>cs repo'. respond_symbols ul_eaxc nports (req_slot r) [0..<14] (request_add (ul_eaxc ! port) r repo) = (cs, repo') \<and>
    request_get (req_slot r) (ul_eaxc ! port) repo' = Some r"
proof -
  have e: "ul_eaxc ! port < MAX_SUPPORTED_EAXC_ID_VALUE" using assms(3,5) by simp
  from respond_symbols_prefix [OF request_add_wf [OF assms(1)] assms(2-5) request_get_add [OF assms(1) e assms(6)], of 14] assms(7)
  show ?thesis by auto
qed

theorem overlong_request_never_cleared_witness:
  "\<exists>cs repo'. respond_symbols [4, 5] 2 (slot_point_sfn 1 3 5) [0..<14]
      (request_add 5 (sample_request\<lparr>req_nof_symbols := 5\<rparr>) (request_repo_init 20)) = (cs, repo') \<and>
    request_get (slot_point_sfn 1 3 5) 5 repo' = Some (sample_request\<lparr>req_nof_symbols := 5\<rparr>)"
  using overlong_request_never_cleared [OF request_repo_init_wf, of 20 "[4, 5]" 1 2 "sample_request\<lparr>req_nof_symbols := 5\<rparr>"]
  by (fastforce simp: MAX_SUPPORTED_EAXC_ID_VALUE_def sample_request_def)

text \<open>The PRACH responder.\<close>

lemma respond_prach_ports_spec:
  assumes "request_repo_wf repo" "distinct (map snd ports)" "\<forall>e \<in> set (map snd ports). e < MAX_SUPPORTED_EAXC_ID_VALUE"
    and "respond_prach_ports s ports repo = (cs, repo')"
  shows "map pr_eaxc cs = filter (\<lambda>e. request_get s e repo \<noteq> None) (map snd ports) \<and>
    (\<forall>c \<in> set cs. \<exists>r. request_get s (pr_eaxc c) repo = Some r \<and> pr_slot c = s \<and> (pr_port c, pr_eaxc c) \<in> set ports \<and>
       pr_prb_start c = req_prb_start r \<and> pr_nof_prb c = req_nof_prb r \<and> pr_start_symbol c = req_start_symbol r \<and>
       pr_nof_symbols c = req_nof_symbols r \<and> pr_filter_index c = req_filter_index r \<and>
       pr_prach_scs c = req_prach_scs r \<and> pr_section_id c = req_section_id r) \<and>
    (\<forall>t f. request_get t f repo' = (if t = s \<and> f \<in> set (map snd ports) then None else request_get t f repo))"
  using assms
proof (induction ports arbitrary: repo cs repo')
  case (Cons pe ports)
  obtain port e where pe: "pe = (port, e)" by (cases pe)
  have e: "e < MAX_SUPPORTED_EAXC_ID_VALUE" "e \<notin> set (map snd ports)" using Cons.prems by (auto simp: pe)
  show ?case
  proof (cases "request_get s e repo")
    case None
    then have r: "respond_prach_ports s ports repo = (cs, repo')" using Cons.prems(4) by (simp add: pe)
    note IH = Cons.IH [OF Cons.prems(1) _ _ r]
    have "request_get s e repo' = None" using IH Cons.prems(2,3) None by auto
    with IH Cons.prems(2,3) None show ?thesis by (auto simp: pe)
  next
    case (Some r)
    let ?repo = "request_clear s e repo"
    have wf: "request_repo_wf ?repo" by (rule request_clear_wf [OF Cons.prems(1)])
    have get: "request_get t f ?repo = (if t = s \<and> f = e then None else request_get t f repo)" for t f
      using request_get_clear [OF Cons.prems(1) e(1)] by auto
    obtain cs1 where r1: "respond_prach_ports s ports ?repo = (cs1, repo')"
      "cs = \<lparr>pr_slot = s, pr_port = port, pr_eaxc = e, pr_prb_start = req_prb_start r, pr_nof_prb = req_nof_prb r,
             pr_start_symbol = req_start_symbol r, pr_nof_symbols = req_nof_symbols r, pr_filter_index = req_filter_index r,
             pr_prach_scs = req_prach_scs r, pr_section_id = req_section_id r\<rparr> # cs1"
      using Cons.prems(4) Some by (auto simp: pe Let_def split: prod.splits)
    note IH = Cons.IH [OF wf _ _ r1(1)]
    have same: "request_get s f ?repo = request_get s f repo" if "f \<in> set (map snd ports)" for f
      using get that e(2) by auto
    have f: "filter (\<lambda>e. request_get s e ?repo \<noteq> None) (map snd ports) = filter (\<lambda>e. request_get s e repo \<noteq> None) (map snd ports)"
      using same by (intro filter_cong) auto
    have m: "map pr_eaxc cs1 = filter (\<lambda>e. request_get s e repo \<noteq> None) (map snd ports)"
      using IH Cons.prems(2,3) f by simp
    have "pr_eaxc c \<in> set (map snd ports)" if "c \<in> set cs1" for c
      using m that by (metis filter_is_subset image_eqI list.set_map subsetD)
    then have c: "\<forall>c \<in> set cs1. \<exists>r. request_get s (pr_eaxc c) repo = Some r \<and> pr_slot c = s \<and> (pr_port c, pr_eaxc c) \<in> set (pe # ports) \<and>
       pr_prb_start c = req_prb_start r \<and> pr_nof_prb c = req_nof_prb r \<and> pr_start_symbol c = req_start_symbol r \<and>
       pr_nof_symbols c = req_nof_symbols r \<and> pr_filter_index c = req_filter_index r \<and>
       pr_prach_scs c = req_prach_scs r \<and> pr_section_id c = req_section_id r"
      using IH Cons.prems(2,3) same by fastforce
    have "\<forall>t f. request_get t f repo' = (if t = s \<and> f \<in> set (map snd (pe # ports)) then None else request_get t f repo)"
      using IH Cons.prems(2,3) get by (auto simp: pe)
    then show ?thesis using m c Some by (auto simp: pe r1(2))
  qed
qed simp

text \<open>
  A PRACH request is answered exactly once.  For a captured PRACH window the responder enqueues one
  reply for each port whose eAxC has a request for exactly this slot, built from that request, and
  clears it; a second window of the same slot produces no reply, and requests of other slots stay.
\<close>

theorem prach_request_answered_once:
  assumes "request_repo_wf repo" "distinct prach_eaxc" "\<forall>e \<in> set prach_eaxc. e < MAX_SUPPORTED_EAXC_ID_VALUE"
    and "length prach_eaxc \<le> nports" "handle_prach_window prach_eaxc nports s repo = (cs, repo')"
  shows "map pr_eaxc cs = filter (\<lambda>e. request_get s e repo \<noteq> None) prach_eaxc \<and>
    (\<forall>c \<in> set cs. \<exists>r. request_get s (pr_eaxc c) repo = Some r \<and> pr_slot c = s \<and> prach_eaxc ! pr_port c = pr_eaxc c \<and>
       pr_nof_symbols c = req_nof_symbols r \<and> pr_start_symbol c = req_start_symbol r \<and> pr_section_id c = req_section_id r) \<and>
    (\<forall>t e. t \<noteq> s \<longrightarrow> request_get t e repo' = request_get t e repo) \<and>
    fst (handle_prach_window prach_eaxc nports s repo') = []"
proof -
  let ?ports = "map (\<lambda>port. (port, prach_eaxc ! port)) [0..<length prach_eaxc]"
  have m: "map snd ?ports = prach_eaxc" by (rule nth_equalityI) auto
  have h: "handle_prach_window prach_eaxc nports s x = respond_prach_ports s ?ports x" for x
    using assms(4) by (simp add: handle_prach_window_def min_absorb2 Let_def)
  have "distinct (map snd ?ports)" "\<forall>e \<in> set (map snd ?ports). e < MAX_SUPPORTED_EAXC_ID_VALUE"
    unfolding m using assms(2,3) by auto
  from respond_prach_ports_spec [OF assms(1) this] assms(5) [unfolded h]
  have spec: "map pr_eaxc cs = filter (\<lambda>e. request_get s e repo \<noteq> None) prach_eaxc"
    "\<forall>c \<in> set cs. \<exists>r. request_get s (pr_eaxc c) repo = Some r \<and> pr_slot c = s \<and> (pr_port c, pr_eaxc c) \<in> set ?ports \<and>
       pr_prb_start c = req_prb_start r \<and> pr_nof_prb c = req_nof_prb r \<and> pr_start_symbol c = req_start_symbol r \<and>
       pr_nof_symbols c = req_nof_symbols r \<and> pr_filter_index c = req_filter_index r \<and>
       pr_prach_scs c = req_prach_scs r \<and> pr_section_id c = req_section_id r"
    "\<forall>t f. request_get t f repo' = (if t = s \<and> f \<in> set prach_eaxc then None else request_get t f repo)"
    unfolding m by blast+
  have none: "request_get s e repo' = None" if "e \<in> set prach_eaxc" for e using spec(3) that by simp
  have "\<forall>e \<in> set (map snd ports). request_get s e repo' = None \<Longrightarrow> fst (respond_prach_ports s ports repo') = []" for ports
    by (induction ports) auto
  then have "fst (respond_prach_ports s ?ports repo') = []" using none m by metis
  moreover have "prach_eaxc ! pr_port c = pr_eaxc c" if "(pr_port c, pr_eaxc c) \<in> set ?ports" for c using that by auto
  ultimately show ?thesis using spec unfolding h by fastforce
qed

theorem prach_request_answered_once_witness:
  "\<exists>cs repo'. handle_prach_window [4] 1 (slot_point_sfn 1 3 5) (request_add 4 sample_request (request_repo_init 20)) = (cs, repo') \<and>
    map pr_eaxc cs = [4] \<and> fst (handle_prach_window [4] 1 (slot_point_sfn 1 3 5) repo') = []"
proof -
  let ?repo = "request_add 4 sample_request (request_repo_init 20)"
  have s: "req_slot sample_request = slot_point_sfn 1 3 5" by (simp add: sample_request_def)
  have wf: "request_repo_wf ?repo" using request_repo_init_wf [of 20] by (simp add: request_add_def requests.inv_put)
  have "request_get (req_slot sample_request) 4 ?repo = Some sample_request"
    by (rule request_get_add [OF request_repo_init_wf]) (simp_all add: MAX_SUPPORTED_EAXC_ID_VALUE_def sample_request_def)
  then have g: "request_get (slot_point_sfn 1 3 5) 4 ?repo \<noteq> None" by (simp add: s)
  obtain cs repo' where h: "handle_prach_window [4] 1 (slot_point_sfn 1 3 5) ?repo = (cs, repo')" by fastforce
  from prach_request_answered_once [OF wf _ _ _ h] show ?thesis
    using h g by (auto simp: MAX_SUPPORTED_EAXC_ID_VALUE_def)
qed

lemma sdiv_mult_self:
  fixes x r :: int
  assumes "0 < r"
  shows "(x * r) sdiv r = x" "(x * r) smod r = 0"
  using assms by (simp_all add: signed_divide_int_def smod_int_alt_def abs_mult sgn_mult mult_sgn_abs)

lemma prach_frequency_offset_eq:
  assumes "1000 * scs_to_khz (c3_scs ctx) = K * ra_scs_to_Hz (c3_prach_scs ctx)"
    and "c3_prach_start_re ctx = rb * K * NOF_SUBCARRIERS_PER_RB"
  shows "t3_frequency_offset (generate_prach_control_parameters ctx c ru_prbs fft) = 12 * int K * (2 * int rb - int ru_prbs)"
proof -
  let ?r = "int (ra_scs_to_Hz (c3_prach_scs ctx))"
  have r: "0 < ?r" "2 * (ra_scs_to_Hz (c3_prach_scs ctx) div 2) = ra_scs_to_Hz (c3_prach_scs ctx)"
    by (cases "c3_prach_scs ctx"; simp add: ra_scs_to_Hz_def)+
  have "- (int (1000 * scs_to_khz (c3_scs ctx) * ru_prbs * 12) - 2 * int (rb * K * 12 * ra_scs_to_Hz (c3_prach_scs ctx))) =
      (12 * int K * (2 * int rb - int ru_prbs)) * ?r"
    unfolding assms(1) by (simp add: algebra_simps)
  then show ?thesis
    using sdiv_mult_self(1) [OF r(1)]
    by (simp add: generate_prach_control_parameters_def assms(2) Let_def r(2) NOF_SUBCARRIERS_PER_RB_def)
qed

lemma calculate_prach_rb_offset_eq:
  assumes "fst (prach_frequency_mapping_get scs pusch) \<noteq> 0" "rb + fst (prach_frequency_mapping_get scs pusch) \<le> ru_prbs"
    and "1000 * scs_to_khz pusch = K * ra_scs_to_Hz scs"
  shows "calculate_prach_rb_offset (12 * int K * (2 * int rb - int ru_prbs)) scs pusch ru_prbs = Some rb"
proof -
  let ?r = "int (ra_scs_to_Hz scs)" and ?q = "int (scs_to_khz pusch) * 1000"
  have q: "?q = int K * ?r" using arg_cong [OF assms(3), of int] by simp
  have pos: "0 < scs_to_khz pusch" by (cases pusch) (simp_all add: scs_to_khz_def)
  have off: "?q * int NOF_SUBCARRIERS_PER_RB * int ru_prbs +
      12 * int K * (2 * int rb - int ru_prbs) * ?r = int rb * (2 * (?q * int NOF_SUBCARRIERS_PER_RB))"
    unfolding q by (simp add: NOF_SUBCARRIERS_PER_RB_def algebra_simps)
  have bw: "0 < 2 * (?q * int NOF_SUBCARRIERS_PER_RB)" using pos by (simp add: NOF_SUBCARRIERS_PER_RB_def)
  have nn: "0 \<le> int rb * (2 * (?q * int NOF_SUBCARRIERS_PER_RB))" using bw by simp
  have md: "int rb * (2 * (?q * int NOF_SUBCARRIERS_PER_RB)) smod (2 * (?q * int NOF_SUBCARRIERS_PER_RB)) = 0"
    "int rb * (2 * (?q * int NOF_SUBCARRIERS_PER_RB)) sdiv (2 * (?q * int NOF_SUBCARRIERS_PER_RB)) = int rb"
    by (rule sdiv_mult_self(2) [OF bw], rule sdiv_mult_self(1) [OF bw])
  show ?thesis
    unfolding calculate_prach_rb_offset_def Let_def off using nn md assms(1,2) by (simp add: not_less)
qed

text \<open>
  The PRACH frequency position survives the fronthaul.  For every PRACH subcarrier spacing that divides
  the PUSCH one and every allocation inside the bandwidth, the O-RU recovers from the frequency offset that
  the O-DU computes exactly the resource block offset of the allocation.
\<close>

theorem prach_rb_offset_recovered:
  assumes "fst (prach_frequency_mapping_get scs pusch) \<noteq> 0" "rb + fst (prach_frequency_mapping_get scs pusch) \<le> ru_prbs"
    and "1000 * scs_to_khz pusch = K * ra_scs_to_Hz scs"
    and "c3_prach_scs ctx = scs" "c3_scs ctx = pusch" "c3_prach_start_re ctx = rb * K * NOF_SUBCARRIERS_PER_RB"
  shows "calculate_prach_rb_offset (t3_frequency_offset (generate_prach_control_parameters ctx c ru_prbs fft))
    scs pusch ru_prbs = Some rb"
  using prach_frequency_offset_eq [of ctx K rb c ru_prbs fft] calculate_prach_rb_offset_eq [OF assms(1-3)] assms(3-6) by simp

theorem prach_rb_offset_recovered_witness:
  "\<exists>ctx. calculate_prach_rb_offset (t3_frequency_offset (generate_prach_control_parameters ctx
      \<lparr>compr_type = BFP, data_width = 9\<rparr> 273 0)) ra_kHz1_25 scs_kHz30 273 = Some 6"
proof -
  let ?ctx = "\<lparr>c3_slot = slot_point_sfn 1 3 5, c3_eaxc = 4, c3_start_symbol = 0, c3_prach_scs = ra_kHz1_25, c3_scs = scs_kHz30,
    c3_prach_nof_rb = 72, c3_nof_repetitions = 1, c3_time_offset = 0, c3_prach_start_re = 6 * 24 * NOF_SUBCARRIERS_PER_RB,
    c3_filter_type = ul_prach_preamble_1p25khz\<rparr>"
  have "calculate_prach_rb_offset (t3_frequency_offset (generate_prach_control_parameters ?ctx
      \<lparr>compr_type = BFP, data_width = 9\<rparr> 273 0)) ra_kHz1_25 scs_kHz30 273 = Some 6"
    by (rule prach_rb_offset_recovered [where K = 24]) (simp_all add: scs_to_khz_def ra_scs_to_Hz_def)
  then show ?thesis by blast
qed

end
