(* ===== verification/Rx_Grid_Repository.thy ===== *)
theory Rx_Grid_Repository
  imports Uplane_Message Repositories
begin

text \<open>
  Assembly of received resource grids: the contexts and the repository of received grids
  (lib/ofh/support/rx_grid_context_repository.h), the writer that copies the decoded sections of a
  User-Plane message into them (lib/ofh/receiver/ofh_uplane_rx_symbol_data_flow_writer.cpp) and the
  notifier of complete symbols (ofh_uplane_rx_symbol_data_flow_notifier.cpp).

  Resource grids are shared objects: one grid is referenced by the contexts of all the symbols of a
  slot.  They live in a store, a list, and a shared grid is the index of a grid of the store or None,
  the invalid grid.  Every operation of the repository takes the mutex for its whole duration, so an
  operation is one step.  None as the result of an operation is an assertion or an access out of bounds.
\<close>

section \<open>Resource grids\<close>

text \<open>The samples of a grid, by port, symbol and subcarrier.\<close>

record 'iq resource_grid =
  rg_nof_subc :: nat
  rg_ports :: "'iq list list list"

type_synonym 'iq grid_store = "'iq resource_grid list"
type_synonym shared_resource_grid = "nat option"

definition grid_wf :: "'iq resource_grid \<Rightarrow> bool" where
  "grid_wf g \<longleftrightarrow> (\<forall>p \<in> set (rg_ports g). length p = 14 \<and> (\<forall>row \<in> set p. length row = rg_nof_subc g))"

definition grid_row :: "'iq resource_grid \<Rightarrow> nat \<Rightarrow> nat \<Rightarrow> 'iq list" where
  "grid_row g port symbol = rg_ports g ! port ! symbol"

definition set_grid_row :: "nat \<Rightarrow> nat \<Rightarrow> 'iq list \<Rightarrow> 'iq resource_grid \<Rightarrow> 'iq resource_grid" where
  "set_grid_row port symbol row g = g\<lparr>rg_ports := (rg_ports g)[port := (rg_ports g ! port)[symbol := row]]\<rparr>"

text \<open>Copying a list into a view of another one.\<close>

definition write_at :: "nat \<Rightarrow> 'a list \<Rightarrow> 'a list \<Rightarrow> 'a list" where
  "write_at start xs row = take start row @ xs @ drop (start + length xs) row"

section \<open>Contexts\<close>

record resource_grid_context =
  gc_slot :: slot_point
  gc_sector :: nat

record rx_grid_context =
  rgc_symbol :: nat
  rgc_context :: resource_grid_context
  rgc_grid :: shared_resource_grid
  rgc_re_written :: "bool list list"

definition empty_context :: rx_grid_context where
  "empty_context = \<lparr>rgc_symbol = 0, rgc_context = \<lparr>gc_slot = invalid_slot_point, gc_sector = 0\<rparr>, rgc_grid = None,
     rgc_re_written = []\<rparr>"

definition context_copy :: "rx_grid_context \<Rightarrow> rx_grid_context" where
  "context_copy c = \<lparr>rgc_symbol = rgc_symbol c, rgc_context = rgc_context c, rgc_grid = rgc_grid c,
     rgc_re_written = rgc_re_written c\<rparr>"

text \<open>The constructor dereferences the grid.\<close>

definition new_context ::
  "nat \<Rightarrow> resource_grid_context \<Rightarrow> shared_resource_grid \<Rightarrow> 'iq grid_store \<Rightarrow> rx_grid_context option" where
  "new_context symbol ctx grid store =
     (case grid of
        None \<Rightarrow> None
      | Some g \<Rightarrow> Some \<lparr>rgc_symbol = symbol, rgc_context = ctx, rgc_grid = grid,
          rgc_re_written = replicate (length (rg_ports (store ! g))) (replicate (rg_nof_subc (store ! g)) False)\<rparr>)"

definition context_empty :: "rx_grid_context \<Rightarrow> bool" where
  "context_empty c \<longleftrightarrow> rgc_grid c = None"

definition get_grid_nof_prbs :: "'iq grid_store \<Rightarrow> rx_grid_context \<Rightarrow> nat" where
  "get_grid_nof_prbs store c =
     (case rgc_grid c of Some g \<Rightarrow> rg_nof_subc (store ! g) div NOF_SUBCARRIERS_PER_RB | None \<Rightarrow> 0)"

definition context_write_grid ::
  "nat \<Rightarrow> nat \<Rightarrow> 'iq list \<Rightarrow> rx_grid_context \<Rightarrow> 'iq grid_store \<Rightarrow> (rx_grid_context \<times> 'iq grid_store) option" where
  "context_write_grid port start_re re_iq_buffer c store =
     (case rgc_grid c of
        None \<Rightarrow> Some (c, store)
      | Some g \<Rightarrow>
          if port \<ge> length (rg_ports (store ! g)) then Some (c, store)
          else let row = grid_row (store ! g) port (rgc_symbol c)
               in if start_re + length re_iq_buffer > length row then None
                  else Some (c\<lparr>rgc_re_written := (rgc_re_written c)[port :=
                               write_at start_re (replicate (length re_iq_buffer) True) (rgc_re_written c ! port)]\<rparr>,
                             store[g := set_grid_row port (rgc_symbol c) (write_at start_re re_iq_buffer row) (store ! g)]))"

definition have_all_prbs_been_written :: "rx_grid_context \<Rightarrow> bool" where
  "have_all_prbs_been_written c \<longleftrightarrow> list_all (\<lambda>port_re_written. list_all id port_re_written) (rgc_re_written c)"

definition try_getting_complete_resource_grid :: "rx_grid_context \<Rightarrow> (resource_grid_context \<times> shared_resource_grid) option" where
  "try_getting_complete_resource_grid c =
     (if rgc_grid c = None then None
      else if \<not> have_all_prbs_been_written c then None
      else Some (rgc_context c, rgc_grid c))"

text \<open>Moving the grid out leaves an invalid grid behind; the context and the bitmaps stay.\<close>

definition pop_rx_grid_context_resource_grid_info ::
  "rx_grid_context \<Rightarrow> (resource_grid_context \<times> shared_resource_grid) \<times> rx_grid_context" where
  "pop_rx_grid_context_resource_grid_info c = ((rgc_context c, rgc_grid c), c\<lparr>rgc_grid := None\<rparr>)"

section \<open>Repository\<close>

record add_task =
  task_context :: resource_grid_context
  task_grid :: shared_resource_grid
  task_start :: nat
  task_stop :: nat

record rx_grid_context_repository =
  rx_capacity :: nat
  rx_pending :: "add_task list"
  rx_buffer :: "rx_grid_context list list"

definition rx_grid_repo_init :: "nat \<Rightarrow> rx_grid_context_repository" where
  "rx_grid_repo_init n =
     \<lparr>rx_capacity = n, rx_pending = [], rx_buffer = replicate n (replicate MAX_NSYMB_PER_SLOT empty_context)\<rparr>"

text \<open>The entry of a slot and symbol: None is the assertion on the symbol.\<close>

definition rx_entry :: "slot_point \<Rightarrow> nat \<Rightarrow> rx_grid_context_repository \<Rightarrow> rx_grid_context option" where
  "rx_entry s symbol repo =
     (if \<not> symbol < MAX_NSYMB_PER_SLOT then None
      else Some (rx_buffer repo ! calculate_repository_index s (length (rx_buffer repo)) ! symbol))"

definition rx_store_entry ::
  "slot_point \<Rightarrow> nat \<Rightarrow> rx_grid_context \<Rightarrow> rx_grid_context_repository \<Rightarrow> rx_grid_context_repository" where
  "rx_store_entry s symbol c repo =
     (let i = calculate_repository_index s (length (rx_buffer repo))
      in repo\<lparr>rx_buffer := (rx_buffer repo)[i := (rx_buffer repo ! i)[symbol := c]]\<rparr>)"

definition registered_for :: "slot_point \<Rightarrow> rx_grid_context \<Rightarrow> bool" where
  "registered_for s c \<longleftrightarrow> \<not> context_empty c \<and> gc_slot (rgc_context c) = s"

definition rx_add ::
  "resource_grid_context \<Rightarrow> shared_resource_grid \<Rightarrow> nat \<Rightarrow> nat \<Rightarrow> rx_grid_context_repository \<Rightarrow> rx_grid_context_repository" where
  "rx_add ctx grid start stop repo =
     (if length (rx_pending repo) < rx_capacity repo
      then repo\<lparr>rx_pending := rx_pending repo @ [\<lparr>task_context = ctx, task_grid = grid, task_start = start, task_stop = stop\<rparr>]\<rparr>
      else repo)"

text \<open>The search for the grid of a slot, a loop over the symbols of its entry that is used twice.\<close>

definition rx_find_registered :: "slot_point \<Rightarrow> rx_grid_context_repository \<Rightarrow> rx_grid_context option" where
  "rx_find_registered s repo =
     find (registered_for s) (map (\<lambda>symbol. the (rx_entry s symbol repo)) [0..<MAX_NSYMB_PER_SLOT])"

fun register_symbols ::
  "resource_grid_context \<Rightarrow> shared_resource_grid \<Rightarrow> 'iq grid_store \<Rightarrow> nat list \<Rightarrow> rx_grid_context_repository \<Rightarrow>
   rx_grid_context_repository option" where
  "register_symbols ctx rg store [] repo = Some repo"
| "register_symbols ctx rg store (symbol_id # r) repo = do {
     current \<leftarrow> rx_entry (gc_slot ctx) symbol_id repo;
     if registered_for (gc_slot ctx) current then register_symbols ctx rg store r repo
     else do {
       c \<leftarrow> new_context symbol_id ctx rg store;
       register_symbols ctx rg store r (rx_store_entry (gc_slot ctx) symbol_id c repo)
     }
   }"

definition run_add_task :: "'iq grid_store \<Rightarrow> add_task \<Rightarrow> rx_grid_context_repository \<Rightarrow> rx_grid_context_repository option" where
  "run_add_task store t repo =
     (let rg = (case rx_find_registered (gc_slot (task_context t)) repo of
                  Some current \<Rightarrow> rgc_grid current | None \<Rightarrow> task_grid t)
      in register_symbols (task_context t) rg store [task_start t..<task_stop t] repo)"

fun run_add_tasks :: "'iq grid_store \<Rightarrow> add_task list \<Rightarrow> rx_grid_context_repository \<Rightarrow> rx_grid_context_repository option" where
  "run_add_tasks store [] repo = Some repo"
| "run_add_tasks store (t # ts) repo = Option.bind (run_add_task store t repo) (run_add_tasks store ts)"

definition process_pending_contexts ::
  "'iq grid_store \<Rightarrow> rx_grid_context_repository \<Rightarrow> rx_grid_context_repository option" where
  "process_pending_contexts store repo = run_add_tasks store (rx_pending repo) (repo\<lparr>rx_pending := []\<rparr>)"

definition find_grid :: "slot_point \<Rightarrow> rx_grid_context_repository \<Rightarrow> shared_resource_grid" where
  "find_grid s repo = (case rx_find_registered s repo of Some current \<Rightarrow> rgc_grid current | None \<Rightarrow> None)"

definition rx_write_grid ::
  "slot_point \<Rightarrow> nat \<Rightarrow> nat \<Rightarrow> nat \<Rightarrow> 'iq list \<Rightarrow> rx_grid_context_repository \<Rightarrow> 'iq grid_store \<Rightarrow>
   (rx_grid_context_repository \<times> 'iq grid_store) option" where
  "rx_write_grid s port symbol start_re re_iq_buffer repo store = do {
     c \<leftarrow> rx_entry s symbol repo;
     (c, store) \<leftarrow> context_write_grid port start_re re_iq_buffer c store;
     Some (rx_store_entry s symbol c repo, store)
   }"

definition rx_get :: "slot_point \<Rightarrow> nat \<Rightarrow> rx_grid_context_repository \<Rightarrow> rx_grid_context option" where
  "rx_get s symbol repo = map_option context_copy (rx_entry s symbol repo)"

text \<open>Both pop operations return the grid information, if any, and the updated repository.\<close>

definition try_popping_complete_resource_grid_symbol ::
  "slot_point \<Rightarrow> nat \<Rightarrow> rx_grid_context_repository \<Rightarrow>
   ((resource_grid_context \<times> shared_resource_grid) option \<times> rx_grid_context_repository) option" where
  "try_popping_complete_resource_grid_symbol s symbol repo = do {
     c \<leftarrow> rx_entry s symbol repo;
     let result = try_getting_complete_resource_grid c;
     Some (result, if result \<noteq> None then rx_store_entry s symbol empty_context repo else repo)
   }"

definition pop_resource_grid_symbol ::
  "slot_point \<Rightarrow> nat \<Rightarrow> rx_grid_context_repository \<Rightarrow>
   ((resource_grid_context \<times> shared_resource_grid) option \<times> rx_grid_context_repository) option" where
  "pop_resource_grid_symbol s symbol repo = do {
     c \<leftarrow> rx_entry s symbol repo;
     if context_empty c then Some (None, repo)
     else let (info, c) = pop_rx_grid_context_resource_grid_info c
          in Some (Some info, rx_store_entry s symbol c repo)
   }"

definition rx_clear :: "slot_point \<Rightarrow> nat \<Rightarrow> rx_grid_context_repository \<Rightarrow> rx_grid_context_repository option" where
  "rx_clear s symbol repo = do {
     _ \<leftarrow> rx_entry s symbol repo;
     Some (rx_store_entry s symbol empty_context repo)
   }"

definition rx_clear_all :: "rx_grid_context_repository \<Rightarrow> rx_grid_context_repository" where
  "rx_clear_all repo = repo\<lparr>rx_buffer := map (map (\<lambda>_. empty_context)) (rx_buffer repo)\<rparr>"

section \<open>Symbol writer\<close>

fun index_of :: "'a \<Rightarrow> 'a list \<Rightarrow> nat" where
  "index_of x [] = 0"
| "index_of x (y # ys) = (if x = y then 0 else Suc (index_of x ys))"

text \<open>The loop over the sections; a view of more samples than the section holds is out of bounds.\<close>

fun write_sections ::
  "slot_point \<Rightarrow> nat \<Rightarrow> nat \<Rightarrow> nat \<Rightarrow> 'iq uplane_section_params list \<Rightarrow> rx_grid_context_repository \<Rightarrow> 'iq grid_store \<Rightarrow>
   (rx_grid_context_repository \<times> 'iq grid_store) option" where
  "write_sections s rg_port symbol du_nof_prbs [] repo store = Some (repo, store)"
| "write_sections s rg_port symbol du_nof_prbs (sec # secs) repo store =
     (if sec_start_prb sec \<ge> du_nof_prbs then write_sections s rg_port symbol du_nof_prbs secs repo store
      else let n = (if sec_start_prb sec + sec_nof_prbs sec < du_nof_prbs then sec_nof_prbs sec
                    else du_nof_prbs - sec_start_prb sec)
           in if length (iq_samples sec) < n * NOF_SUBCARRIERS_PER_RB then None
              else do {
                (repo, store) \<leftarrow> rx_write_grid s rg_port symbol (sec_start_prb sec * NOF_SUBCARRIERS_PER_RB)
                                  (take (n * NOF_SUBCARRIERS_PER_RB) (iq_samples sec)) repo store;
                write_sections s rg_port symbol du_nof_prbs secs repo store
              })"

definition write_to_resource_grid ::
  "nat list \<Rightarrow> nat \<Rightarrow> 'iq uplane_message_decoder_results \<Rightarrow> rx_grid_context_repository \<Rightarrow> 'iq grid_store \<Rightarrow>
   (bool \<times> rx_grid_context_repository \<times> 'iq grid_store) option" where
  "write_to_resource_grid ul_eaxc eaxc results repo store = do {
     let s = up_slot (params results);
     let symbol = up_symbol_id (params results);
     ul_context \<leftarrow> rx_get s symbol repo;
     if context_empty ul_context then Some (False, repo, store)
     else do {
       let rg_port = index_of eaxc ul_eaxc;
       if \<not> rg_port < length ul_eaxc then None
       else do {
         (repo, store) \<leftarrow> write_sections s rg_port symbol (get_grid_nof_prbs store ul_context) (sections results) repo store;
         Some (True, repo, store)
       }
     }
   }"

section \<open>Notifier of complete symbols\<close>

record uplane_rx_symbol_context =
  rxs_slot :: slot_point
  rxs_symbol :: nat
  rxs_sector :: nat

definition notify_received_symbol ::
  "slot_point \<Rightarrow> nat \<Rightarrow> rx_grid_context_repository \<Rightarrow>
   ((uplane_rx_symbol_context \<times> shared_resource_grid \<times> bool) option \<times> rx_grid_context_repository) option" where
  "notify_received_symbol s symbol repo = do {
     (result, repo) \<leftarrow> try_popping_complete_resource_grid_symbol s symbol repo;
     Some (map_option (\<lambda>(ctx, grid). (\<lparr>rxs_slot = gc_slot ctx, rxs_symbol = symbol, rxs_sector = gc_sector ctx\<rparr>, grid, True))
             result, repo)
   }"

section \<open>Repository laws\<close>

definition rx_shape_wf :: "rx_grid_context_repository \<Rightarrow> bool" where
  "rx_shape_wf repo \<longleftrightarrow> rx_buffer repo \<noteq> [] \<and> (\<forall>row \<in> set (rx_buffer repo). length row = MAX_NSYMB_PER_SLOT)"

abbreviation rx_key :: "slot_point \<Rightarrow> rx_grid_context_repository \<Rightarrow> nat" where
  "rx_key s repo \<equiv> calculate_repository_index s (length (rx_buffer repo))"

abbreviation rx_look :: "slot_point \<Rightarrow> nat \<Rightarrow> rx_grid_context_repository \<Rightarrow> rx_grid_context" where
  "rx_look s symbol repo \<equiv> the (rx_entry s symbol repo)"

interpretation rx_grids: slot_repository rx_shape_wf rx_key rx_store_entry rx_look MAX_NSYMB_PER_SLOT
proof unfold_locales
  fix r s e v assume "rx_shape_wf r"
  then show "rx_shape_wf (rx_store_entry s e v r)"
    using row_update_wf [of "rx_buffer r" MAX_NSYMB_PER_SLOT] by (simp add: rx_shape_wf_def rx_store_entry_def Let_def)
  show "rx_key t (rx_store_entry s e v r) = rx_key t r" for t
    by (simp add: rx_store_entry_def Let_def)
qed (auto simp: rx_shape_wf_def rx_store_entry_def rx_entry_def Let_def nth_list_update)

lemma rx_entry_Some: "symbol < MAX_NSYMB_PER_SLOT \<Longrightarrow> rx_entry s symbol repo = Some (rx_look s symbol repo)"
  by (simp add: rx_entry_def)

lemma rx_store_entry_fields [simp]:
  "rx_pending (rx_store_entry s k c repo) = rx_pending repo" "rx_capacity (rx_store_entry s k c repo) = rx_capacity repo"
  "length (rx_buffer (rx_store_entry s k c repo)) = length (rx_buffer repo)"
  by (simp_all add: rx_store_entry_def Let_def)

lemma rx_entry_store_same:
  assumes "rx_shape_wf repo" "k < MAX_NSYMB_PER_SLOT"
  shows "rx_entry s k (rx_store_entry s k c repo) = Some c"
  using rx_grids.look_put_same [OF assms, of s s c] assms(2) by (simp add: rx_entry_def)

text \<open>The lookup after a store, as one equation.\<close>

lemma rx_look_store [repo_simps]:
  assumes "rx_shape_wf repo" "symbol < MAX_NSYMB_PER_SLOT"
  shows "rx_look t k (rx_store_entry s symbol c repo) = (if rx_key t repo = rx_key s repo \<and> k = symbol then c else rx_look t k repo)"
  using rx_grids.look_put_same [OF assms, of t s c] rx_grids.look_put_other [OF assms(1), of t s k symbol c] by auto

lemma register_symbols_step:
  assumes "k < MAX_NSYMB_PER_SLOT"
  shows "register_symbols ctx (Some g) store (k # ks) repo =
    (if registered_for (gc_slot ctx) (rx_look (gc_slot ctx) k repo) then register_symbols ctx (Some g) store ks repo
     else register_symbols ctx (Some g) store ks
       (rx_store_entry (gc_slot ctx) k (the (new_context k ctx (Some g) store)) repo))"
  using assms by (simp add: rx_entry_def new_context_def)

text \<open>
  The entries after the registration of a list of symbols: an entry of the slot that is in the list and
  not yet registered gets a fresh context, every other entry is kept.
\<close>

lemma register_symbols_spec:
  assumes "rx_shape_wf repo" "\<forall>k \<in> set ks. k < MAX_NSYMB_PER_SLOT"
  shows "\<exists>repo'. register_symbols ctx (Some g) store ks repo = Some repo' \<and> rx_shape_wf repo' \<and>
    rx_pending repo' = rx_pending repo \<and> rx_capacity repo' = rx_capacity repo \<and>
    length (rx_buffer repo') = length (rx_buffer repo) \<and>
    (\<forall>t k. rx_look t k repo' =
      (if rx_key t repo = rx_key (gc_slot ctx) repo \<and> k \<in> set ks \<and> \<not> registered_for (gc_slot ctx) (rx_look t k repo)
       then the (new_context k ctx (Some g) store) else rx_look t k repo))"
  using assms
proof (induction ks arbitrary: repo)
  case (Cons k ks)
  let ?s = "gc_slot ctx" and ?c = "the (new_context k ctx (Some g) store)"
  have k: "k < MAX_NSYMB_PER_SLOT" using Cons.prems by simp
  have same: "rx_look t k repo = rx_look ?s k repo" if "rx_key t repo = rx_key ?s repo" for t
    using that k by (simp add: rx_entry_def)
  show ?case
  proof (cases "registered_for ?s (rx_look ?s k repo)")
    case True
    have "rx_key t repo = rx_key ?s repo \<and> j \<in> set (k # ks) \<and> \<not> registered_for ?s (rx_look t j repo) \<longleftrightarrow>
        rx_key t repo = rx_key ?s repo \<and> j \<in> set ks \<and> \<not> registered_for ?s (rx_look t j repo)" for t j
      using True same [of t] by (cases "j = k") (simp_all, metis)
    then show ?thesis
      using Cons.IH [OF Cons.prems(1)] Cons.prems(2) True by (simp only: register_symbols_step [OF k] if_True) simp
  next
    case False
    let ?repo = "rx_store_entry ?s k ?c repo"
    have reg: "registered_for ?s ?c" by (simp add: registered_for_def context_empty_def new_context_def)
    obtain repo' where repo': "register_symbols ctx (Some g) store ks ?repo = Some repo'" "rx_shape_wf repo'"
      "rx_pending repo' = rx_pending repo" "rx_capacity repo' = rx_capacity repo"
      "length (rx_buffer repo') = length (rx_buffer repo)"
      "\<forall>t j. rx_look t j repo' = (if rx_key t repo = rx_key ?s repo \<and> j \<in> set ks \<and> \<not> registered_for ?s (rx_look t j ?repo)
         then the (new_context j ctx (Some g) store) else rx_look t j ?repo)"
      using Cons.IH [OF rx_grids.inv_put [OF Cons.prems(1)], of ?s k ?c] Cons.prems(2) by auto
    have "register_symbols ctx (Some g) store (k # ks) repo = Some repo'"
      using False repo'(1) by (simp only: register_symbols_step [OF k] if_False)
    moreover have "rx_look t j repo' = (if rx_key t repo = rx_key ?s repo \<and> j \<in> set (k # ks) \<and>
        \<not> registered_for ?s (rx_look t j repo) then the (new_context j ctx (Some g) store) else rx_look t j repo)" for t j
    proof (cases "rx_key t repo = rx_key ?s repo \<and> j = k")
      case True
      then show ?thesis
        using reg False same [of t] by (simp only: repo'(6) rx_look_store [OF Cons.prems(1) k]) simp
    next
      case ne: False
      then have "rx_look t j ?repo = rx_look t j repo" by (subst rx_look_store [OF Cons.prems(1) k]) (simp only: if_False)
      then show ?thesis using ne by (simp only: repo'(6)) auto
    qed
    ultimately show ?thesis using repo' by blast
  qed
qed simp

text \<open>A symbol outside of the slot in the range of a task is an access out of the array of the entry.\<close>

lemma register_symbols_out_of_range:
  assumes "\<exists>k \<in> set ks. \<not> k < MAX_NSYMB_PER_SLOT"
  shows "register_symbols ctx rg store ks repo = None"
  using assms by (induction ks arbitrary: repo) (auto simp: rx_entry_def split: Option.bind_splits)

lemma rx_find_registered_Some:
  assumes "rx_find_registered s repo = Some c"
  shows "\<exists>k < MAX_NSYMB_PER_SLOT. c = rx_look s k repo \<and> registered_for s c"
  using assms by (auto simp: rx_find_registered_def find_Some_iff)

lemma rx_find_registered_None:
  "rx_find_registered s repo = None \<longleftrightarrow> (\<forall>k < MAX_NSYMB_PER_SLOT. \<not> registered_for s (rx_look s k repo))"
  by (auto simp: rx_find_registered_def find_None_iff)

section \<open>Invariant\<close>

text \<open>
  A context refers to a grid of the store, stands at the index of its slot and at its symbol, and its
  bitmaps have the shape of the grid; the registered symbols of one slot share one grid.
\<close>

definition context_wf :: "'iq grid_store \<Rightarrow> nat \<Rightarrow> nat \<Rightarrow> nat \<Rightarrow> rx_grid_context \<Rightarrow> bool" where
  "context_wf store n i k c \<longleftrightarrow>
     (\<forall>g. rgc_grid c = Some g \<longrightarrow>
        g < length store \<and> rgc_symbol c = k \<and> calculate_repository_index (gc_slot (rgc_context c)) n = i \<and>
        length (rgc_re_written c) = length (rg_ports (store ! g)) \<and>
        (\<forall>m \<in> set (rgc_re_written c). length m = rg_nof_subc (store ! g)))"

definition grids_shared :: "rx_grid_context_repository \<Rightarrow> bool" where
  "grids_shared repo \<longleftrightarrow>
     (\<forall>s j k. j < MAX_NSYMB_PER_SLOT \<longrightarrow> k < MAX_NSYMB_PER_SLOT \<longrightarrow>
        registered_for s (rx_look s j repo) \<longrightarrow> registered_for s (rx_look s k repo) \<longrightarrow>
        rgc_grid (rx_look s j repo) = rgc_grid (rx_look s k repo))"

definition contexts_wf :: "'iq grid_store \<Rightarrow> rx_grid_context_repository \<Rightarrow> bool" where
  "contexts_wf store repo \<longleftrightarrow>
     (\<forall>s k. k < MAX_NSYMB_PER_SLOT \<longrightarrow> context_wf store (length (rx_buffer repo)) (rx_key s repo) k (rx_look s k repo))"

definition rx_repo_wf :: "'iq grid_store \<Rightarrow> rx_grid_context_repository \<Rightarrow> bool" where
  "rx_repo_wf store repo \<longleftrightarrow>
     rx_shape_wf repo \<and> contexts_wf store repo \<and> grids_shared repo \<and>
     (\<forall>t \<in> set (rx_pending repo). \<exists>g < length store. task_grid t = Some g)"

definition store_wf :: "'iq grid_store \<Rightarrow> bool" where
  "store_wf store \<longleftrightarrow> (\<forall>g \<in> set store. grid_wf g)"

definition same_shape :: "'iq grid_store \<Rightarrow> 'iq grid_store \<Rightarrow> bool" where
  "same_shape store store' \<longleftrightarrow> length store' = length store \<and>
     (\<forall>g < length store. length (rg_ports (store' ! g)) = length (rg_ports (store ! g)) \<and>
        rg_nof_subc (store' ! g) = rg_nof_subc (store ! g))"

lemma rx_repo_wfD:
  assumes "rx_repo_wf store repo" "k < MAX_NSYMB_PER_SLOT"
  shows "rx_shape_wf repo" "context_wf store (length (rx_buffer repo)) (rx_key s repo) k (rx_look s k repo)"
  using assms by (auto simp: rx_repo_wf_def contexts_wf_def)

lemma rx_repo_wf_shared:
  assumes "rx_repo_wf store repo" "j < MAX_NSYMB_PER_SLOT" "k < MAX_NSYMB_PER_SLOT"
    and "registered_for s (rx_look s j repo)" "registered_for s (rx_look s k repo)"
  shows "rgc_grid (rx_look s j repo) = rgc_grid (rx_look s k repo)"
  using assms unfolding rx_repo_wf_def grids_shared_def by blast

lemma registered_key:
  assumes "rx_repo_wf store repo" "k < MAX_NSYMB_PER_SLOT" "registered_for t (rx_look s k repo)"
  shows "rx_key t repo = rx_key s repo"
  using rx_repo_wfD(2) [OF assms(1,2), of s] assms(3)
  by (auto simp: context_wf_def registered_for_def context_empty_def)

lemma rx_look_cong: "rx_key t repo = rx_key s repo \<Longrightarrow> rx_look t k repo = rx_look s k repo"
  by (simp add: rx_entry_def)

text \<open>
  Storing a context keeps the invariant when the context has the shape of its place and is either empty
  or refers to the grid of the entry it replaces.
\<close>

lemma rx_store_entry_wf [wf_intros]:
  assumes wf: "rx_repo_wf store repo" and k: "k < MAX_NSYMB_PER_SLOT"
    and c: "context_wf store (length (rx_buffer repo)) (rx_key s repo) k c"
    and sharing: "rgc_grid c = None \<or> rgc_grid c = rgc_grid (rx_look s k repo) \<and> rgc_context c = rgc_context (rx_look s k repo)"
  shows "rx_repo_wf store (rx_store_entry s k c repo)"
proof -
  let ?repo = "rx_store_entry s k c repo"
  note shape = rx_repo_wfD(1) [OF wf k]
  have look: "rx_look t j ?repo = (if rx_key t repo = rx_key s repo \<and> j = k then c else rx_look t j repo)" for t j
    by (rule rx_look_store [OF shape k])
  have grids: "registered_for t (rx_look t j ?repo) \<Longrightarrow>
      registered_for t (rx_look t j repo) \<and> rgc_grid (rx_look t j ?repo) = rgc_grid (rx_look t j repo)" for t j
    using sharing rx_look_cong [of t repo s k] by (auto simp: look registered_for_def context_empty_def)
  have "context_wf store (length (rx_buffer repo)) (rx_key t repo) j (rx_look t j ?repo)" if "j < MAX_NSYMB_PER_SLOT" for t j
    using c rx_repo_wfD(2) [OF wf that, of t] by (simp add: look)
  then have "contexts_wf store ?repo" by (simp add: contexts_wf_def)
  moreover have "rgc_grid (rx_look t i ?repo) = rgc_grid (rx_look t j ?repo)"
    if "i < MAX_NSYMB_PER_SLOT" "j < MAX_NSYMB_PER_SLOT" "registered_for t (rx_look t i ?repo)"
      "registered_for t (rx_look t j ?repo)" for t i j
    using rx_repo_wf_shared [OF wf that(1,2), of t] grids [OF that(3)] grids [OF that(4)] by simp
  then have "grids_shared ?repo" unfolding grids_shared_def by blast
  ultimately show ?thesis
    using wf rx_grids.inv_put [OF shape] by (simp add: rx_repo_wf_def)
qed

lemma context_empty_wf [simp]: "rgc_grid c = None \<Longrightarrow> context_wf store n i k c"
  by (simp add: context_wf_def)

lemma same_shape_wf [wf_intros]: "same_shape store store' \<Longrightarrow> rx_repo_wf store repo \<Longrightarrow> rx_repo_wf store' repo"
  by (auto simp: same_shape_def rx_repo_wf_def contexts_wf_def context_wf_def)

lemma new_context_wf:
  assumes "g < length store"
  shows "context_wf store (length (rx_buffer repo)) (rx_key (gc_slot ctx) repo) k (the (new_context k ctx (Some g) store))"
  using assms by (simp add: context_wf_def new_context_def)

text \<open>A registration with the grid of the slot keeps the invariant.\<close>

lemma register_symbols_wf:
  assumes wf: "rx_repo_wf store repo" and ks: "\<forall>k \<in> set ks. k < MAX_NSYMB_PER_SLOT" and g: "g < length store"
    and reuse: "\<And>k. k < MAX_NSYMB_PER_SLOT \<Longrightarrow> registered_for (gc_slot ctx) (rx_look (gc_slot ctx) k repo) \<Longrightarrow>
      rgc_grid (rx_look (gc_slot ctx) k repo) = Some g"
  shows "\<exists>repo'. register_symbols ctx (Some g) store ks repo = Some repo' \<and> rx_repo_wf store repo' \<and>
    length (rx_buffer repo') = length (rx_buffer repo) \<and>
    rx_pending repo' = rx_pending repo \<and> rx_capacity repo' = rx_capacity repo \<and>
    (\<forall>k \<in> set ks. registered_for (gc_slot ctx) (rx_look (gc_slot ctx) k repo') \<and>
       rgc_grid (rx_look (gc_slot ctx) k repo') = Some g) \<and>
    (\<forall>t k. registered_for t (rx_look t k repo) \<longrightarrow> rx_key t repo \<noteq> rx_key (gc_slot ctx) repo \<or> t = gc_slot ctx \<longrightarrow>
       rx_look t k repo' = rx_look t k repo)"
proof -
  let ?s = "gc_slot ctx" and ?new = "\<lambda>k. the (new_context k ctx (Some g) store)"
  have zero: "0 < MAX_NSYMB_PER_SLOT" by (simp add: MAX_NSYMB_PER_SLOT_def)
  obtain repo' where repo': "register_symbols ctx (Some g) store ks repo = Some repo'" "rx_shape_wf repo'"
    "rx_pending repo' = rx_pending repo" "rx_capacity repo' = rx_capacity repo"
    "length (rx_buffer repo') = length (rx_buffer repo)"
    and look: "\<And>t k. rx_look t k repo' = (if rx_key t repo = rx_key ?s repo \<and> k \<in> set ks \<and>
      \<not> registered_for ?s (rx_look t k repo) then ?new k else rx_look t k repo)"
    using register_symbols_spec [OF rx_repo_wfD(1) [OF wf zero] ks, of ctx g store] by blast
  have new: "registered_for t (?new k) \<longleftrightarrow> t = ?s" "rgc_grid (?new k) = Some g" for t k
    by (auto simp: registered_for_def context_empty_def new_context_def)
  have grid: "rgc_grid (rx_look ?s k repo') = Some g" if "k < MAX_NSYMB_PER_SLOT" "registered_for ?s (rx_look ?s k repo')" for k
    using that reuse [of k] new(2) by (auto simp: look split: if_splits)
  have other: "rx_look t k repo' = rx_look t k repo" if "registered_for t (rx_look t k repo')" "t \<noteq> ?s" for t k
    using that new(1) by (auto simp: look split: if_splits)
  have ctx: "context_wf store (length (rx_buffer repo')) (rx_key t repo') k (rx_look t k repo')"
    if "k < MAX_NSYMB_PER_SLOT" for t k
    using new_context_wf [OF g, of repo ctx k] rx_repo_wfD(2) [OF wf that, of t] by (simp add: look repo'(5))
  have share: "rgc_grid (rx_look t j repo') = rgc_grid (rx_look t k repo')"
    if "j < MAX_NSYMB_PER_SLOT" "k < MAX_NSYMB_PER_SLOT" "registered_for t (rx_look t j repo')" "registered_for t (rx_look t k repo')"
    for t j k
  proof (cases "t = ?s")
    case True
    then show ?thesis using grid [OF that(1)] grid [OF that(2)] that(3,4) by simp
  next
    case False
    then show ?thesis
      using rx_repo_wf_shared [OF wf that(1,2), of t] other [OF that(3)] other [OF that(4)] that(3,4) by simp
  qed
  have "contexts_wf store repo'" using ctx unfolding contexts_wf_def by blast
  moreover have "grids_shared repo'" using share unfolding grids_shared_def by blast
  ultimately have wf': "rx_repo_wf store repo'" using repo'(2,3) wf by (simp add: rx_repo_wf_def)
  have reg: "registered_for ?s (rx_look ?s k repo')" if "k \<in> set ks" for k
    using that new(1) by (simp add: look)
  have keep: "rx_look t k repo' = rx_look t k repo"
    if "registered_for t (rx_look t k repo)" "rx_key t repo \<noteq> rx_key ?s repo \<or> t = ?s" for t k
    using that by (auto simp: look)
  show ?thesis using repo' wf' reg keep grid ks by (intro exI [of _ repo']) auto
qed

text \<open>The grid that a registration uses: the one of the slot if there is one.\<close>

lemma registration_grid:
  assumes wf: "rx_repo_wf store repo" and t: "task_grid t = Some g0" "g0 < length store"
  shows "\<exists>g. (case rx_find_registered (gc_slot (task_context t)) repo of Some current \<Rightarrow> rgc_grid current | None \<Rightarrow> task_grid t) = Some g \<and>
    g < length store \<and> (\<forall>k < MAX_NSYMB_PER_SLOT. registered_for (gc_slot (task_context t)) (rx_look (gc_slot (task_context t)) k repo) \<longrightarrow>
      rgc_grid (rx_look (gc_slot (task_context t)) k repo) = Some g)"
proof -
  let ?s = "gc_slot (task_context t)"
  show ?thesis
  proof (cases "rx_find_registered ?s repo")
    case None
    then show ?thesis using t None [unfolded rx_find_registered_None] by auto
  next
    case (Some c)
    from rx_find_registered_Some [OF this] obtain k where
      k: "k < MAX_NSYMB_PER_SLOT" "c = rx_look ?s k repo" "registered_for ?s c" by blast
    then obtain g where g: "rgc_grid c = Some g" by (auto simp: registered_for_def context_empty_def)
    have "rgc_grid (rx_look ?s j repo) = Some g" if "j < MAX_NSYMB_PER_SLOT" "registered_for ?s (rx_look ?s j repo)" for j
      using rx_repo_wf_shared [OF wf that(1) k(1), of ?s] that(2) k(2,3) g by simp
    moreover have "g < length store" using rx_repo_wfD(2) [OF wf k(1), of ?s] k(2) g by (auto simp: context_wf_def)
    ultimately show ?thesis using Some g by auto
  qed
qed

lemma run_add_task_wf:
  assumes wf: "rx_repo_wf store repo" and t: "task_grid t = Some g0" "g0 < length store"
    and r: "run_add_task store t repo = Some repo'"
  shows "rx_repo_wf store repo' \<and> rx_pending repo' = rx_pending repo"
proof -
  let ?s = "gc_slot (task_context t)"
  have ks: "\<forall>k \<in> set [task_start t..<task_stop t]. k < MAX_NSYMB_PER_SLOT"
    using r register_symbols_out_of_range [of "[task_start t..<task_stop t]"] unfolding run_add_task_def Let_def
    by (metis option.distinct(1))
  obtain g where g: "(case rx_find_registered ?s repo of Some current \<Rightarrow> rgc_grid current | None \<Rightarrow> task_grid t) = Some g"
    "g < length store" "\<And>k. k < MAX_NSYMB_PER_SLOT \<Longrightarrow> registered_for ?s (rx_look ?s k repo) \<Longrightarrow>
      rgc_grid (rx_look ?s k repo) = Some g"
    using registration_grid [OF wf t] by metis
  from register_symbols_wf [OF wf ks g(2,3)] r g(1)
  show ?thesis by (auto simp: run_add_task_def)
qed

lemma run_add_tasks_wf:
  assumes "rx_repo_wf store repo" "\<forall>t \<in> set ts. \<exists>g < length store. task_grid t = Some g"
    and "run_add_tasks store ts repo = Some repo'"
  shows "rx_repo_wf store repo' \<and> rx_pending repo' = rx_pending repo"
  using assms
proof (induction ts arbitrary: repo)
  case (Cons t ts)
  obtain repo1 where r: "run_add_task store t repo = Some repo1" "run_add_tasks store ts repo1 = Some repo'"
    using Cons.prems(3) by (auto split: Option.bind_splits)
  have "rx_repo_wf store repo1 \<and> rx_pending repo1 = rx_pending repo"
    using run_add_task_wf [OF Cons.prems(1) _ _ r(1)] Cons.prems(2) by auto
  with Cons.IH [of repo1] r(2) Cons.prems(2) show ?case by simp
qed simp

lemma pending_irrelevant [simp]:
  "rx_entry s k (repo\<lparr>rx_pending := ts\<rparr>) = rx_entry s k repo"
  "rx_shape_wf (repo\<lparr>rx_pending := ts\<rparr>) = rx_shape_wf repo"
  "contexts_wf store (repo\<lparr>rx_pending := ts\<rparr>) = contexts_wf store repo"
  "grids_shared (repo\<lparr>rx_pending := ts\<rparr>) = grids_shared repo"
  by (simp_all add: rx_shape_wf_def contexts_wf_def grids_shared_def rx_entry_def)

lemma drop_pending_wf: "rx_repo_wf store repo \<Longrightarrow> rx_repo_wf store (repo\<lparr>rx_pending := []\<rparr>)"
  by (simp add: rx_repo_wf_def)

lemma process_pending_wf [wf_intros]:
  assumes "rx_repo_wf store repo" "process_pending_contexts store repo = Some repo'"
  shows "rx_repo_wf store repo'" "rx_pending repo' = []"
  using run_add_tasks_wf [OF drop_pending_wf [OF assms(1)], of "rx_pending repo" repo'] assms
  by (auto simp: process_pending_contexts_def rx_repo_wf_def)

lemma rx_add_wf [wf_intros]:
  assumes "rx_repo_wf store repo" "g < length store"
  shows "rx_repo_wf store (rx_add ctx (Some g) start stop repo)"
  using assms by (auto simp: rx_add_def rx_repo_wf_def)

text \<open>Writing into a view.\<close>

lemma length_write_at [simp]: "start + length xs \<le> length row \<Longrightarrow> length (write_at start xs row) = length row"
  by (simp add: write_at_def)

lemma nth_write_at:
  assumes "start + length xs \<le> length row" "i < length row"
  shows "write_at start xs row ! i = (if start \<le> i \<and> i < start + length xs then xs ! (i - start) else row ! i)"
  using assms by (auto simp: write_at_def nth_append)

lemma grid_row_length:
  assumes "grid_wf g" "port < length (rg_ports g)" "symbol < 14"
  shows "length (grid_row g port symbol) = rg_nof_subc g"
proof -
  have p: "rg_ports g ! port \<in> set (rg_ports g)" using assms(2) by simp
  then have "rg_ports g ! port ! symbol \<in> set (rg_ports g ! port)" using assms by (auto simp: grid_wf_def)
  then show ?thesis using assms(1) p by (auto simp: grid_wf_def grid_row_def)
qed

lemma set_grid_row_wf [wf_intros]:
  assumes "grid_wf g" "length row = rg_nof_subc g" "port < length (rg_ports g)"
  shows "grid_wf (set_grid_row port symbol row g)"
  using assms by (auto simp: grid_wf_def set_grid_row_def dest!: set_update_subset_insert [THEN subsetD])

lemma grid_row_set:
  assumes "grid_wf g" "port < length (rg_ports g)" "symbol < 14"
  shows "grid_row (set_grid_row port symbol row g) port' symbol' =
    (if port' = port \<and> symbol' = symbol then row else grid_row g port' symbol')"
  using assms by (auto simp: grid_wf_def grid_row_def set_grid_row_def nth_list_update)

lemma set_grid_row_shape [simp]:
  "length (rg_ports (set_grid_row port symbol row g)) = length (rg_ports g)"
  "rg_nof_subc (set_grid_row port symbol row g) = rg_nof_subc g"
  by (simp_all add: set_grid_row_def)

text \<open>A write inside of the grid succeeds and changes the view and its bitmap.\<close>

lemma rx_write_grid_eq:
  assumes "rx_entry s symbol repo = Some c" "rgc_grid c = Some g" "port < length (rg_ports (store ! g))"
    and "start_re + length iq \<le> length (grid_row (store ! g) port (rgc_symbol c))"
  shows "rx_write_grid s port symbol start_re iq repo store =
    Some (rx_store_entry s symbol (c\<lparr>rgc_re_written := (rgc_re_written c)[port :=
            write_at start_re (replicate (length iq) True) (rgc_re_written c ! port)]\<rparr>) repo,
          store[g := set_grid_row port (rgc_symbol c) (write_at start_re iq (grid_row (store ! g) port (rgc_symbol c))) (store ! g)])"
  using assms by (simp add: rx_write_grid_def context_write_grid_def Let_def)

lemma rx_write_grid_wf [wf_intros]:
  assumes wf: "rx_repo_wf store repo" "store_wf store"
    and w: "rx_write_grid s port symbol start_re iq repo store = Some (repo', store')"
  shows "rx_repo_wf store' repo'" "store_wf store'" "same_shape store store'"
proof -
  obtain c c' where c: "rx_entry s symbol repo = Some c" "context_write_grid port start_re iq c store = Some (c', store')"
    "repo' = rx_store_entry s symbol c' repo"
    using w by (auto simp: rx_write_grid_def split: Option.bind_splits)
  have k: "symbol < MAX_NSYMB_PER_SLOT" using c(1) by (auto simp: rx_entry_def split: if_splits)
  have cw: "context_wf store (length (rx_buffer repo)) (rx_key s repo) symbol c"
    using rx_repo_wfD(2) [OF wf(1) k, of s] c(1) by simp
  have "same_shape store store' \<and> store_wf store' \<and> context_wf store (length (rx_buffer repo)) (rx_key s repo) symbol c' \<and>
      rgc_grid c' = rgc_grid c \<and> rgc_context c' = rgc_context c"
  proof (cases "\<exists>g. rgc_grid c = Some g \<and> port < length (rg_ports (store ! g))")
    case True
    then obtain g where g: "rgc_grid c = Some g" "port < length (rg_ports (store ! g))" by blast
    have gl: "g < length store" "rgc_symbol c = symbol" "length (rgc_re_written c) = length (rg_ports (store ! g))"
      "\<forall>m \<in> set (rgc_re_written c). length m = rg_nof_subc (store ! g)"
      using cw g(1) by (auto simp: context_wf_def)
    then have gw: "grid_wf (store ! g)" using wf(2) by (simp add: store_wf_def)
    let ?row = "grid_row (store ! g) port symbol" and ?m = "rgc_re_written c ! port"
    have row: "length ?row = rg_nof_subc (store ! g)"
      using grid_row_length [OF gw g(2), of symbol] k by (simp add: MAX_NSYMB_PER_SLOT_def)
    have m: "length ?m = rg_nof_subc (store ! g)" using gl(3,4) g(2) by simp
    have fit: "start_re + length iq \<le> length ?row"
      and c': "c' = c\<lparr>rgc_re_written := (rgc_re_written c)[port := write_at start_re (replicate (length iq) True) ?m]\<rparr>"
      and store': "store' = store[g := set_grid_row port symbol (write_at start_re iq ?row) (store ! g)]"
      using c(2) g gl(2) by (auto simp: context_write_grid_def Let_def split: if_splits)
    have wm: "length (write_at start_re (replicate (length iq) True) ?m) = rg_nof_subc (store ! g)"
      using fit row m by simp
    have "grid_wf (set_grid_row port symbol (write_at start_re iq ?row) (store ! g))"
      using fit row by (intro set_grid_row_wf gw g(2)) simp
    then have "store_wf store'"
      using wf(2) by (auto simp: store' store_wf_def dest!: set_update_subset_insert [THEN subsetD])
    moreover have "same_shape store store'" unfolding same_shape_def store' by (simp add: nth_list_update gl(1))
    moreover have "context_wf store (length (rx_buffer repo)) (rx_key s repo) symbol c'"
      using cw gl(4) wm g(1) by (auto simp: context_wf_def c' dest!: set_update_subset_insert [THEN subsetD])
    ultimately show ?thesis by (simp add: c')
  next
    case False
    then show ?thesis
      using c(2) cw wf(2) by (auto simp: context_write_grid_def same_shape_def split: option.splits if_splits)
  qed
  then show "rx_repo_wf store' repo'" "store_wf store'" "same_shape store store'"
    using rx_store_entry_wf [OF wf(1) k, of s c'] c(1,3) same_shape_wf by auto
qed

section \<open>Interleavings\<close>

text \<open>
  The operations that the receiver threads, the Control-Plane handler and the symbol boundary handlers
  run on the repository, in any order and with any arguments.
\<close>

inductive rx_step :: "'iq grid_store \<times> rx_grid_context_repository \<Rightarrow> 'iq grid_store \<times> rx_grid_context_repository \<Rightarrow> bool" where
  step_add: "g < length store \<Longrightarrow> rx_step (store, repo) (store, rx_add ctx (Some g) start stop repo)"
| step_process: "process_pending_contexts store repo = Some repo' \<Longrightarrow> rx_step (store, repo) (store, repo')"
| step_write: "rx_write_grid s port symbol start_re iq repo store = Some (repo', store') \<Longrightarrow>
    rx_step (store, repo) (store', repo')"
| step_complete: "try_popping_complete_resource_grid_symbol s symbol repo = Some (r, repo') \<Longrightarrow>
    rx_step (store, repo) (store, repo')"
| step_pop: "pop_resource_grid_symbol s symbol repo = Some (r, repo') \<Longrightarrow> rx_step (store, repo) (store, repo')"
| step_clear: "rx_clear s symbol repo = Some repo' \<Longrightarrow> rx_step (store, repo) (store, repo')"
| step_clear_all: "rx_step (store, repo) (store, rx_clear_all repo)"

lemma rx_entry_bound: "rx_entry s symbol repo = Some c \<Longrightarrow> symbol < MAX_NSYMB_PER_SLOT"
  by (auto simp: rx_entry_def split: if_splits)

lemma rx_clear_all_wf [wf_intros]: "rx_repo_wf store repo \<Longrightarrow> rx_repo_wf store (rx_clear_all repo)"
proof -
  assume wf: "rx_repo_wf store repo"
  then have shape: "rx_shape_wf repo" by (simp add: rx_repo_wf_def)
  have empty: "rx_look s k (rx_clear_all repo) = empty_context" if "k < MAX_NSYMB_PER_SLOT" for s k
    using shape that by (simp add: rx_clear_all_def rx_entry_def rx_shape_wf_def nth_mem repository_index_less)
  have "\<not> registered_for s (rx_look s k (rx_clear_all repo))" if "k < MAX_NSYMB_PER_SLOT" for s k
    using empty [OF that, of s] by (simp add: registered_for_def context_empty_def empty_context_def)
  then have "grids_shared (rx_clear_all repo)" by (simp add: grids_shared_def)
  moreover have "contexts_wf store (rx_clear_all repo)"
    using empty by (simp add: contexts_wf_def context_wf_def empty_context_def)
  ultimately show ?thesis
    using wf by (auto simp: rx_repo_wf_def rx_shape_wf_def rx_clear_all_def)
qed

lemma store_empty_wf:
  assumes "rx_repo_wf store repo" "rx_entry s symbol repo = Some c" "rgc_grid d = None"
  shows "rx_repo_wf store (rx_store_entry s symbol d repo)"
  using assms by (intro rx_store_entry_wf rx_entry_bound) auto

lemma rx_step_wf:
  assumes "rx_step (store, repo) (store', repo')" "rx_repo_wf store repo" "store_wf store"
  shows "rx_repo_wf store' repo' \<and> store_wf store'"
  using assms(1)
proof (cases rule: rx_step.cases)
  case (step_complete s symbol)
  then show ?thesis
    using assms(2,3) store_empty_wf [OF assms(2), of s symbol _ empty_context]
    by (auto simp: try_popping_complete_resource_grid_symbol_def Let_def empty_context_def split: Option.bind_splits if_splits)
next
  case (step_pop s symbol)
  then show ?thesis
    using assms(2,3) store_empty_wf [OF assms(2)]
    by (auto simp: pop_resource_grid_symbol_def pop_rx_grid_context_resource_grid_info_def split: Option.bind_splits if_splits)
next
  case (step_clear s symbol)
  then show ?thesis
    using assms(2,3) store_empty_wf [OF assms(2), of s symbol _ empty_context]
    by (auto simp: rx_clear_def empty_context_def split: Option.bind_splits)
qed (use assms in \<open>auto intro: wf_intros\<close>)

lemma rx_reachable_wf:
  assumes "rx_step\<^sup>*\<^sup>* (store0, repo0) (store, repo)" "rx_repo_wf store0 repo0" "store_wf store0"
  shows "rx_repo_wf store repo \<and> store_wf store"
  using assms(1)
proof (induction "(store, repo)" arbitrary: store repo rule: rtranclp_induct)
  case (step y)
  then show ?case using rx_step_wf by (metis surj_pair)
qed (use assms in simp)

lemma rx_init_wf: "0 < n \<Longrightarrow> rx_repo_wf store (rx_grid_repo_init n)"
proof -
  assume n: "0 < n"
  have empty: "rx_look s k (rx_grid_repo_init n) = empty_context" if "k < MAX_NSYMB_PER_SLOT" for s k
    using that n by (simp add: rx_grid_repo_init_def rx_entry_def repository_index_less)
  have "\<not> registered_for s (rx_look s k (rx_grid_repo_init n))" if "k < MAX_NSYMB_PER_SLOT" for s k
    using empty [OF that, of s] by (simp add: registered_for_def context_empty_def empty_context_def)
  then have "grids_shared (rx_grid_repo_init n)" by (simp add: grids_shared_def)
  moreover have "contexts_wf store (rx_grid_repo_init n)"
    using empty by (simp add: contexts_wf_def context_wf_def empty_context_def)
  ultimately show ?thesis using n by (simp add: rx_repo_wf_def rx_shape_wf_def rx_grid_repo_init_def)
qed

lemma find_grid_registered:
  assumes "rx_repo_wf store repo" "k < MAX_NSYMB_PER_SLOT" "registered_for s (rx_look s k repo)"
  shows "find_grid s repo = rgc_grid (rx_look s k repo)"
proof -
  obtain c where c: "rx_find_registered s repo = Some c" using assms(2,3) rx_find_registered_None [of s repo] by fastforce
  from rx_find_registered_Some [OF c] obtain j where
    "j < MAX_NSYMB_PER_SLOT" "c = rx_look s j repo" "registered_for s c" by blast
  with rx_repo_wf_shared [OF assms(1) _ assms(2), of j s] assms(3) show ?thesis by (simp add: find_grid_def c)
qed

section \<open>Assembly of a symbol\<close>

text \<open>Consecutive blocks of resource blocks: every block is a slice of their concatenation.\<close>

definition slice_prbs :: "'a list \<Rightarrow> nat \<times> nat \<Rightarrow> 'a list" where
  "slice_prbs xs r = take (snd r * 12) (drop (fst r * 12) xs)"

lemma partition_slices:
  assumes "concat (map (\<lambda>(s, n). [s..<s + n]) rs) = [a..<b]" "\<forall>r \<in> set rs. 0 < snd r"
    and "\<forall>r \<in> set rs. length (h r) = snd r * 12" "a \<le> b"
  shows "length (concat (map h rs)) = (b - a) * 12 \<and>
    (\<forall>r \<in> set rs. a \<le> fst r \<and> fst r + snd r \<le> b \<and> take (snd r * 12) (drop ((fst r - a) * 12) (concat (map h rs))) = h r)"
  using assms
proof (induction rs arbitrary: a)
  case (Cons r rs)
  obtain s n where r: "r = (s, n)" by (cases r)
  have n: "0 < n" using Cons.prems(2) r by simp
  have eq: "[s..<s + n] @ concat (map (\<lambda>(s, n). [s..<s + n]) rs) = [a..<b]" using Cons.prems(1) by (simp add: r)
  have "a < b" using eq n by (cases "a < b") auto
  then have s: "s = a" using arg_cong [OF eq, of hd] n by (simp add: hd_append)
  have le: "a + n \<le> b" using arg_cong [OF eq, of length] \<open>a < b\<close> by simp
  then have rest: "concat (map (\<lambda>(s, n). [s..<s + n]) rs) = [a + n..<b]"
    using eq upt_add_eq_append [of a "a + n" "b - (a + n)"] by (simp add: s)
  have hr: "length (h r) = n * 12" using Cons.prems(3) r by auto
  have IH: "length (concat (map h rs)) = (b - (a + n)) * 12 \<and> (\<forall>r \<in> set rs. a + n \<le> fst r \<and> fst r + snd r \<le> b \<and>
      take (snd r * 12) (drop ((fst r - (a + n)) * 12) (concat (map h rs))) = h r)"
    using Cons.prems le by (intro Cons.IH [OF rest]) auto
  have "take (snd q * 12) (drop ((fst q - a) * 12) (h r @ concat (map h rs))) = h q" if "q \<in> set rs" for q
  proof -
    have "a + n \<le> fst q" using IH that by auto
    then have "(fst q - a) * 12 - length (h r) = (fst q - (a + n)) * 12" "length (h r) \<le> (fst q - a) * 12"
      by (simp_all add: hr algebra_simps)
    then show ?thesis using IH that by simp
  qed
  moreover have "(b - a) * 12 = n * 12 + (b - (a + n)) * 12" using le by (simp add: algebra_simps)
  moreover have "fst r = a" "snd r = n" by (simp_all add: r s)
  moreover have "\<forall>q \<in> set rs. a \<le> fst q" using IH by fastforce
  ultimately show ?case
    using IH le hr by (simp add: ball_Un)
qed (auto simp: upt_eq_Nil_conv dest: sym)

text \<open>
  Writing the blocks of a partition into a row of the same length, in any order and any number of
  times, leaves the concatenation of the blocks.
\<close>

lemma fold_write_slices:
  assumes "\<forall>r \<in> set ms. fst r * 12 + length (h r) \<le> length out \<and> length (h r) = snd r * 12 \<and> h r = slice_prbs out r"
    and "length row = length out"
  shows "length (fold (\<lambda>r. write_at (fst r * 12) (h r)) ms row) = length out \<and>
    (\<forall>i < length out. fold (\<lambda>r. write_at (fst r * 12) (h r)) ms row ! i =
       (if \<exists>r \<in> set ms. fst r * 12 \<le> i \<and> i < (fst r + snd r) * 12 then out ! i else row ! i))"
  using assms
proof (induction ms arbitrary: row)
  case (Cons r ms)
  let ?row = "write_at (fst r * 12) (h r) row"
  have r: "fst r * 12 + length (h r) \<le> length row" "length (h r) = snd r * 12" "h r = slice_prbs out r"
    using Cons.prems by auto
  have row: "length ?row = length out" using r(1) Cons.prems(2) by simp
  have w: "?row ! i = (if fst r * 12 \<le> i \<and> i < (fst r + snd r) * 12 then out ! i else row ! i)" if "i < length out" for i
  proof -
    have "h r ! (i - fst r * 12) = out ! i" if "fst r * 12 \<le> i" "i < fst r * 12 + snd r * 12"
    proof -
      have "slice_prbs out r ! (i - fst r * 12) = out ! i" using that \<open>i < length out\<close> by (simp add: slice_prbs_def)
      then show ?thesis by (simp only: r(3) [symmetric])
    qed
    then show ?thesis
      using that Cons.prems(2) r(1,2) by (subst nth_write_at) (simp_all add: algebra_simps)
  qed
  have IH: "length (fold (\<lambda>r. write_at (fst r * 12) (h r)) ms ?row) = length out \<and>
    (\<forall>i < length out. fold (\<lambda>r. write_at (fst r * 12) (h r)) ms ?row ! i =
       (if \<exists>r \<in> set ms. fst r * 12 \<le> i \<and> i < (fst r + snd r) * 12 then out ! i else ?row ! i))"
    by (rule Cons.IH) (use Cons.prems(1) row in auto)
  then show ?case using w by auto
qed simp

lemma fold_write_partition:
  assumes p: "concat (map (\<lambda>(s, n). [s..<s + n]) rs) = [0..<N]" "\<forall>r \<in> set rs. 0 < snd r"
    and h: "\<forall>r \<in> set rs. length (h r) = snd r * 12" and ms: "set ms = set rs" and row: "length row = N * 12"
  shows "fold (\<lambda>r. write_at (fst r * 12) (h r)) ms row = concat (map h rs)"
proof -
  let ?out = "concat (map h rs)"
  from partition_slices [OF p h] have out: "length ?out = N * 12"
    and sl: "\<And>r. r \<in> set rs \<Longrightarrow> fst r + snd r \<le> N \<and> slice_prbs ?out r = h r"
    by (auto simp: slice_prbs_def)
  have fit: "fst r * 12 + length (h r) \<le> length ?out" if "r \<in> set ms" for r
    using sl [of r] h that out ms by (simp add: algebra_simps)
  have cover: "\<exists>r \<in> set ms. fst r * 12 \<le> i \<and> i < (fst r + snd r) * 12" if "i < length ?out" for i
  proof -
    have "i div 12 < N" using that out by (simp add: less_mult_imp_div_less)
    then have "i div 12 \<in> set (concat (map (\<lambda>(s, n). [s..<s + n]) rs))" by (simp add: p(1))
    then obtain s n where "(s, n) \<in> set rs" "s \<le> i div 12" "i div 12 < s + n" by auto
    then show ?thesis using ms by (intro bexI [of _ "(s, n)"]) (auto simp: less_eq_div_iff_mult_less_eq div_less_iff_less_mult)
  qed
  have pre: "\<forall>r \<in> set ms. fst r * 12 + length (h r) \<le> length ?out \<and> length (h r) = snd r * 12 \<and> h r = slice_prbs ?out r"
    using fit sl h ms by auto
  from fold_write_slices [OF pre, of row] row out cover show ?thesis
    by (intro nth_equalityI) auto
qed

lemma index_of_less: "x \<in> set xs \<Longrightarrow> index_of x xs < length xs"
  by (induction xs) auto

text \<open>One message with a section inside of the grid.\<close>

lemma write_to_resource_grid_single:
  assumes wf: "rx_repo_wf store repo" "store_wf store" and res: "sections res = [sec]"
    and c: "rx_entry (up_slot (params res)) (up_symbol_id (params res)) repo = Some c" "rgc_grid c = Some g"
    and port: "index_of eaxc eaxcs < length eaxcs" "index_of eaxc eaxcs < length (rg_ports (store ! g))"
    and sec: "sec_start_prb sec + sec_nof_prbs sec \<le> N" "0 < sec_nof_prbs sec" "rg_nof_subc (store ! g) = N * 12"
      "length (iq_samples sec) = sec_nof_prbs sec * 12"
  shows "write_to_resource_grid eaxcs eaxc res repo store =
    Some (True, rx_store_entry (up_slot (params res)) (up_symbol_id (params res)) (c\<lparr>rgc_re_written := (rgc_re_written c)[index_of eaxc eaxcs :=
            write_at (sec_start_prb sec * 12) (replicate (sec_nof_prbs sec * 12) True) (rgc_re_written c ! index_of eaxc eaxcs)]\<rparr>) repo,
          store[g := set_grid_row (index_of eaxc eaxcs) (up_symbol_id (params res)) (write_at (sec_start_prb sec * 12) (iq_samples sec)
            (grid_row (store ! g) (index_of eaxc eaxcs) (up_symbol_id (params res)))) (store ! g)])"
proof -
  let ?s = "up_slot (params res)" and ?k = "up_symbol_id (params res)" and ?p = "index_of eaxc eaxcs"
  have k: "?k < MAX_NSYMB_PER_SLOT" by (rule rx_entry_bound [OF c(1)])
  have cw: "g < length store" "rgc_symbol c = ?k" using rx_repo_wfD(2) [OF wf(1) k, of ?s] c by (auto simp: context_wf_def)
  then have gw: "grid_wf (store ! g)" using wf(2) by (simp add: store_wf_def)
  have row: "length (grid_row (store ! g) ?p ?k) = N * 12"
    using grid_row_length [OF gw port(2), of ?k] k sec(3) by (simp add: MAX_NSYMB_PER_SLOT_def)
  have n: "(if sec_start_prb sec + sec_nof_prbs sec < N then sec_nof_prbs sec else N - sec_start_prb sec) = sec_nof_prbs sec"
    "\<not> N \<le> sec_start_prb sec"
    using sec(1,2) by auto
  have "sec_start_prb sec * 12 + sec_nof_prbs sec * 12 \<le> N * 12" using mult_le_mono1 [OF sec(1), of 12] by (simp only: add_mult_distrib)
  then have w: "sec_start_prb sec * 12 + length (iq_samples sec) \<le> length (grid_row (store ! g) ?p (rgc_symbol c))"
    by (simp add: sec(4) cw(2) row)
  have "get_grid_nof_prbs store (context_copy c) = N" "context_copy c = c"
    using c(2) sec(3) by (simp_all add: get_grid_nof_prbs_def context_copy_def NOF_SUBCARRIERS_PER_RB_def)
  then show ?thesis
    using port(1) rx_write_grid_eq [OF c port(2) w] sec(4)
    by (simp add: write_to_resource_grid_def rx_get_def c context_empty_def res Let_def n cw(2) NOF_SUBCARRIERS_PER_RB_def)
qed

lemma rx_store_entry_twice:
  "rx_store_entry s k d (rx_store_entry s k c repo) = rx_store_entry s k d repo"
proof -
  let ?b = "rx_buffer repo" and ?i = "rx_key s repo"
  have "?b[?i := (?b ! ?i)[k := c], ?i := (?b[?i := (?b ! ?i)[k := c]] ! ?i)[k := d]] = ?b[?i := (?b ! ?i)[k := d]]"
    by (cases "?i < length ?b") (simp_all add: not_less list_update_beyond)
  then show ?thesis by (simp add: rx_store_entry_def Let_def)
qed

lemma rx_store_entry_same: "rx_entry s k repo = Some c \<Longrightarrow> rx_store_entry s k c repo = repo"
  by (auto simp: rx_store_entry_def rx_entry_def Let_def split: if_splits)

lemma set_grid_row_twice:
  "port < length (rg_ports g) \<Longrightarrow> set_grid_row port k x (set_grid_row port k y g) = set_grid_row port k x g"
  by (simp add: set_grid_row_def)

lemma set_grid_row_same: "set_grid_row port k (grid_row g port k) g = g"
  by (simp add: set_grid_row_def grid_row_def)

text \<open>Messages of one symbol and eAxC, received one after the other.\<close>

fun write_messages ::
  "nat list \<Rightarrow> nat \<Rightarrow> 'iq uplane_message_decoder_results list \<Rightarrow> rx_grid_context_repository \<Rightarrow> 'iq grid_store \<Rightarrow>
   (rx_grid_context_repository \<times> 'iq grid_store) option" where
  "write_messages eaxcs eaxc [] repo store = Some (repo, store)"
| "write_messages eaxcs eaxc (m # ms) repo store = do {
     (_, repo, store) \<leftarrow> write_to_resource_grid eaxcs eaxc m repo store;
     write_messages eaxcs eaxc ms repo store
   }"

lemma write_sections_wf:
  assumes "rx_repo_wf store repo" "store_wf store" "write_sections s port symbol n secs repo store = Some (repo', store')"
  shows "rx_repo_wf store' repo' \<and> store_wf store'"
  using assms
proof (induction secs arbitrary: repo store)
  case (Cons sec secs)
  then show ?case
    by (auto simp: Let_def dest: rx_write_grid_wf split: if_splits Option.bind_splits)
qed simp

lemma write_messages_wf:
  assumes "rx_repo_wf store repo" "store_wf store" "write_messages eaxcs eaxc ms repo store = Some (repo', store')"
  shows "rx_repo_wf store' repo' \<and> store_wf store'"
  using assms
proof (induction ms arbitrary: repo store)
  case (Cons m ms)
  then obtain ok repo1 store1 where "write_to_resource_grid eaxcs eaxc m repo store = Some (ok, repo1, store1)"
    and 2: "write_messages eaxcs eaxc ms repo1 store1 = Some (repo', store')"
    by (auto split: Option.bind_splits)
  then have "rx_repo_wf store1 repo1 \<and> store_wf store1"
    using Cons.prems(1,2)
    by (auto simp: write_to_resource_grid_def Let_def dest: write_sections_wf split: if_splits Option.bind_splits)
  then show ?case using Cons.IH 2 by blast
qed simp

definition is_block_message :: "slot_point \<Rightarrow> nat \<Rightarrow> 'iq list \<Rightarrow> nat \<times> nat \<Rightarrow> 'iq uplane_message_decoder_results \<Rightarrow> bool" where
  "is_block_message s symbol iq r m \<longleftrightarrow>
     up_slot (params m) = s \<and> up_symbol_id (params m) = symbol \<and>
     (\<exists>sec. sections m = [sec] \<and> sec_start_prb sec = fst r \<and> sec_nof_prbs sec = snd r \<and> iq_samples sec = iq)"

lemma write_messages_blocks:
  assumes "rx_repo_wf store repo" "store_wf store" "rx_entry s symbol repo = Some c" "rgc_grid c = Some g"
    and port: "index_of eaxc eaxcs < length eaxcs" and "index_of eaxc eaxcs < length (rg_ports (store ! g))"
      "rg_nof_subc (store ! g) = N * 12"
    and ms: "list_all2 (\<lambda>r m. is_block_message s symbol (h r) r m) bs ms"
      "\<forall>r \<in> set bs. fst r + snd r \<le> N \<and> 0 < snd r \<and> length (h r) = snd r * 12"
  shows "write_messages eaxcs eaxc ms repo store =
    Some (rx_store_entry s symbol (c\<lparr>rgc_re_written := (rgc_re_written c)[index_of eaxc eaxcs :=
            fold (\<lambda>r. write_at (fst r * 12) (replicate (snd r * 12) True)) bs (rgc_re_written c ! index_of eaxc eaxcs)]\<rparr>) repo,
          store[g := set_grid_row (index_of eaxc eaxcs) symbol (fold (\<lambda>r. write_at (fst r * 12) (h r)) bs
            (grid_row (store ! g) (index_of eaxc eaxcs) symbol)) (store ! g)])"
  using ms(1) assms(1-4,6,7) ms(2)
proof (induction arbitrary: repo store c rule: list_all2_induct)
  case Nil
  then show ?case by (simp add: rx_store_entry_same set_grid_row_same)
next
  case (Cons r bs m ms)
  let ?p = "index_of eaxc eaxcs"
  have r: "is_block_message s symbol (h r) r m" "fst r + snd r \<le> N" "0 < snd r" "length (h r) = snd r * 12"
    using Cons.hyps(1) Cons.prems(7) by auto
  from r(1) obtain sec where m: "up_slot (params m) = s" "up_symbol_id (params m) = symbol" "sections m = [sec]"
    "sec_start_prb sec = fst r" "sec_nof_prbs sec = snd r" "iq_samples sec = h r" by (auto simp: is_block_message_def)
  define c1 where "c1 = c\<lparr>rgc_re_written := (rgc_re_written c)[?p :=
      write_at (fst r * 12) (replicate (snd r * 12) True) (rgc_re_written c ! ?p)]\<rparr>"
  define row1 where "row1 = write_at (fst r * 12) (h r) (grid_row (store ! g) ?p symbol)"
  define repo1 where "repo1 = rx_store_entry s symbol c1 repo"
  define store1 where "store1 = store[g := set_grid_row ?p symbol row1 (store ! g)]"
  have w: "write_to_resource_grid eaxcs eaxc m repo store = Some (True, repo1, store1)"
    using write_to_resource_grid_single [OF Cons.prems(1,2) m(3) _ Cons.prems(4) port Cons.prems(5), of N] Cons.prems(3,6) m r
    by (simp add: c1_def repo1_def store1_def row1_def)
  have k: "symbol < MAX_NSYMB_PER_SLOT" by (rule rx_entry_bound [OF Cons.prems(3)])
  have cw: "g < length store" "rgc_symbol c = symbol" "length (rgc_re_written c) = length (rg_ports (store ! g))"
    using rx_repo_wfD(2) [OF Cons.prems(1) k, of s] Cons.prems(3,4) by (auto simp: context_wf_def)
  have gw: "grid_wf (store ! g)" using cw(1) Cons.prems(2) by (simp add: store_wf_def)
  have "rx_write_grid s ?p symbol (fst r * 12) (h r) repo store = Some (repo1, store1)"
  proof -
    have "fst r * 12 + snd r * 12 \<le> N * 12" using mult_le_mono1 [OF r(2), of 12] by (simp only: add_mult_distrib)
    then have "fst r * 12 + length (h r) \<le> length (grid_row (store ! g) ?p (rgc_symbol c))"
      using grid_row_length [OF gw Cons.prems(5), of symbol] k Cons.prems(6) r(4) by (simp add: cw(2) MAX_NSYMB_PER_SLOT_def)
    from rx_write_grid_eq [OF Cons.prems(3,4,5) this] show ?thesis
      by (simp add: repo1_def store1_def c1_def row1_def cw(2) r(4))
  qed
  note wf1 = rx_write_grid_wf [OF Cons.prems(1,2) this]
  have e1: "rx_entry s symbol repo1 = Some c1"
    unfolding repo1_def by (rule rx_entry_store_same [OF rx_repo_wfD(1) [OF Cons.prems(1) k] k])
  have g1: "store1 ! g = set_grid_row ?p symbol row1 (store ! g)" using cw(1) by (simp add: store1_def)
  have row: "grid_row (store1 ! g) ?p symbol = row1"
    using grid_row_set [OF gw Cons.prems(5)] k by (simp add: g1 MAX_NSYMB_PER_SLOT_def)
  have m1: "rgc_re_written c1 ! ?p = write_at (fst r * 12) (replicate (snd r * 12) True) (rgc_re_written c ! ?p)"
    using cw(3) Cons.prems(5) by (simp add: c1_def)
  have IH: "write_messages eaxcs eaxc ms repo1 store1 =
    Some (rx_store_entry s symbol (c1\<lparr>rgc_re_written := (rgc_re_written c1)[?p :=
            fold (\<lambda>r. write_at (fst r * 12) (replicate (snd r * 12) True)) bs (rgc_re_written c1 ! ?p)]\<rparr>) repo1,
          store1[g := set_grid_row ?p symbol (fold (\<lambda>r. write_at (fst r * 12) (h r)) bs (grid_row (store1 ! g) ?p symbol)) (store1 ! g)])"
    using wf1 e1 Cons.prems by (intro Cons.IH) (auto simp: c1_def g1)
  show ?case
    unfolding write_messages.simps w
    using IH unfolding row m1 by (simp add: c1_def repo1_def rx_store_entry_twice g1 set_grid_row_twice [OF Cons.prems(5)] store1_def row1_def
        cw(1))
qed

section \<open>Properties\<close>


definition sample_grid :: "nat resource_grid" where
  "sample_grid = \<lparr>rg_nof_subc = 24, rg_ports = replicate 2 (replicate 14 (replicate 24 0))\<rparr>"

definition sample_slot :: slot_point where
  "sample_slot = \<lparr>numerology_val = 1, count_val = 7\<rparr>"

definition sample_rx_repo :: rx_grid_context_repository where
  "sample_rx_repo = the (process_pending_contexts [sample_grid]
     (rx_add \<lparr>gc_slot = sample_slot, gc_sector = 0\<rparr> (Some 0) 3 5 (rx_grid_repo_init 4)))"

lemma sample_rx_repo_reachable: "rx_step\<^sup>*\<^sup>* ([sample_grid], rx_grid_repo_init 4) ([sample_grid], sample_rx_repo)"
proof -
  let ?add = "rx_add \<lparr>gc_slot = sample_slot, gc_sector = 0\<rparr> (Some 0) 3 5 (rx_grid_repo_init 4)"
  have "process_pending_contexts [sample_grid] ?add \<noteq> None" by code_simp
  then have "process_pending_contexts [sample_grid] ?add = Some sample_rx_repo" by (simp add: sample_rx_repo_def)
  then have "rx_step ([sample_grid], ?add) ([sample_grid], sample_rx_repo)" by (rule step_process)
  moreover have "rx_step ([sample_grid], rx_grid_repo_init 4) ([sample_grid], ?add)" by (rule step_add) simp
  ultimately show ?thesis by (meson converse_rtranclp_into_rtranclp r_into_rtranclp)
qed

lemma sample_store_wf: "store_wf [sample_grid]"
  by (auto simp: store_wf_def grid_wf_def sample_grid_def)

definition sample_context :: rx_grid_context where
  "sample_context = \<lparr>rgc_symbol = 4, rgc_context = \<lparr>gc_slot = sample_slot, gc_sector = 0\<rparr>, rgc_grid = Some 0,
     rgc_re_written = replicate 2 (replicate 24 False)\<rparr>"

lemma sample_rx_repo_get: "rx_get sample_slot 4 sample_rx_repo = Some sample_context"
  by code_simp


text \<open>The blocks of a symbol, received in any order.\<close>

lemma symbol_assembled:
  assumes wf: "rx_repo_wf store repo" "store_wf store"
    and c: "rx_get s symbol repo = Some c" "rgc_grid c = Some g"
    and port: "index_of eaxc eaxcs < length eaxcs" "index_of eaxc eaxcs < length (rg_ports (store ! g))"
    and N: "rg_nof_subc (store ! g) = N * 12"
    and rs: "concat (map (\<lambda>(a, n). [a..<a + n]) rs) = [0..<N]" "\<forall>r \<in> set rs. 0 < snd r"
    and ms: "set bs = set rs" "list_all2 (\<lambda>r m. is_block_message s symbol (h r) r m) bs ms" "\<forall>r \<in> set rs. length (h r) = snd r * 12"
  shows "\<exists>repo' store' c'. write_messages eaxcs eaxc ms repo store = Some (repo', store') \<and>
    grid_row (store' ! g) (index_of eaxc eaxcs) symbol = concat (map h rs) \<and>
    (\<forall>p k. (p, k) \<noteq> (index_of eaxc eaxcs, symbol) \<longrightarrow> grid_row (store' ! g) p k = grid_row (store ! g) p k) \<and>
    (\<forall>g'. g' \<noteq> g \<longrightarrow> store' ! g' = store ! g') \<and>
    rx_get s symbol repo' = Some c' \<and> rgc_re_written c' ! index_of eaxc eaxcs = replicate (N * 12) True \<and>
    (\<forall>p. p \<noteq> index_of eaxc eaxcs \<longrightarrow> rgc_re_written c' ! p = rgc_re_written c ! p) \<and>
    rgc_context c' = rgc_context c \<and> rgc_grid c' = Some g \<and> rx_pending repo' = rx_pending repo \<and>
    length (rx_buffer repo') = length (rx_buffer repo)"
proof -
  let ?p = "index_of eaxc eaxcs" and ?row = "grid_row (store ! g) (index_of eaxc eaxcs) symbol"
  have e: "rx_entry s symbol repo = Some c" using c(1) by (auto simp: rx_get_def context_copy_def)
  note k = rx_entry_bound [OF e]
  have cw: "g < length store" "rgc_symbol c = symbol" "length (rgc_re_written c) = length (rg_ports (store ! g))"
    "\<forall>m \<in> set (rgc_re_written c). length m = N * 12"
    using rx_repo_wfD(2) [OF wf(1) k, of s] e c(2) N by (auto simp: context_wf_def)
  have gw: "grid_wf (store ! g)" using cw(1) wf(2) by (simp add: store_wf_def)
  have k14: "symbol < 14" using k by (simp add: MAX_NSYMB_PER_SLOT_def)
  have row: "length ?row = N * 12" using grid_row_length [OF gw port(2) k14] N by simp
  have m: "length (rgc_re_written c ! ?p) = N * 12" using cw(3,4) port(2) by simp
  let ?h = "\<lambda>r :: nat \<times> nat. replicate (snd r * 12) True"
  have bounds: "\<forall>r \<in> set rs. fst r + snd r \<le> N" "length (concat (map ?h rs)) = N * 12"
    using partition_slices [OF rs, of ?h] by auto
  have all: "concat (map ?h rs) = replicate (N * 12) True"
    by (rule replicate_eqI) (use bounds(2) in auto)
  note w = write_messages_blocks [OF wf e c(2) port N ms(2)]
  have rowe: "fold (\<lambda>r. write_at (fst r * 12) (h r)) bs ?row = concat (map h rs)"
    using ms by (intro fold_write_partition [OF rs _ ms(1) row]) auto
  have maske: "fold (\<lambda>r. write_at (fst r * 12) (?h r)) bs (rgc_re_written c ! ?p) = replicate (N * 12) True"
    using fold_write_partition [OF rs _ ms(1) m, of ?h] all by simp
  let ?c = "c\<lparr>rgc_re_written := (rgc_re_written c)[?p := replicate (N * 12) True]\<rparr>"
  have "write_messages eaxcs eaxc ms repo store =
      Some (rx_store_entry s symbol ?c repo, store[g := set_grid_row ?p symbol (concat (map h rs)) (store ! g)])"
    using w ms(1,3) bounds(1) rs(2) by (simp add: rowe maske)
  moreover have "rx_get s symbol (rx_store_entry s symbol ?c repo) = Some ?c"
    using rx_entry_store_same [OF rx_repo_wfD(1) [OF wf(1) k] k] by (simp add: rx_get_def context_copy_def)
  ultimately show ?thesis
    using cw(1,3) port(2) c(2) grid_row_set [OF gw port(2) k14] by auto
qed

text \<open>
  The messages that carry the blocks of a symbol for one eAxC, received in any order and possibly more
  than once, leave exactly the concatenation of their samples in the view of the port and symbol and mark
  every subcarrier as received; no other view and no other grid is touched.
\<close>

theorem symbol_assembled_any_order:
  assumes wf: "rx_repo_wf store repo" "store_wf store"
    and c: "rx_get s symbol repo = Some c" "rgc_grid c = Some g"
    and port: "index_of eaxc eaxcs < length eaxcs" "index_of eaxc eaxcs < length (rg_ports (store ! g))"
    and N: "rg_nof_subc (store ! g) = N * 12"
    and rs: "concat (map (\<lambda>(a, n). [a..<a + n]) rs) = [0..<N]" "\<forall>r \<in> set rs. 0 < snd r"
    and ms: "set bs = set rs" "list_all2 (\<lambda>r m. is_block_message s symbol (h r) r m) bs ms" "\<forall>r \<in> set rs. length (h r) = snd r * 12"
  shows "\<exists>repo' store' c'. write_messages eaxcs eaxc ms repo store = Some (repo', store') \<and>
    grid_row (store' ! g) (index_of eaxc eaxcs) symbol = concat (map h rs) \<and>
    (\<forall>p k. (p, k) \<noteq> (index_of eaxc eaxcs, symbol) \<longrightarrow> grid_row (store' ! g) p k = grid_row (store ! g) p k) \<and>
    (\<forall>g'. g' \<noteq> g \<longrightarrow> store' ! g' = store ! g') \<and>
    rx_get s symbol repo' = Some c' \<and> rgc_re_written c' ! index_of eaxc eaxcs = replicate (N * 12) True \<and>
    (\<forall>p. p \<noteq> index_of eaxc eaxcs \<longrightarrow> rgc_re_written c' ! p = rgc_re_written c ! p)"
  using symbol_assembled [OF assms] by blast

definition sample_block :: "nat \<times> nat \<Rightarrow> nat list" where
  "sample_block r = replicate (snd r * 12) (fst r + 1)"

definition sample_block_message :: "nat \<times> nat \<Rightarrow> nat uplane_message_decoder_results" where
  "sample_block_message r =
     \<lparr>params = sample_up_params\<lparr>up_slot := sample_slot, up_symbol_id := 4\<rparr>,
      sections = [decoder_uplane_section_params.extend
        (blank_section\<lparr>sec_start_prb := fst r, sec_nof_prbs := snd r\<rparr>) \<lparr>iq_samples = sample_block r\<rparr>]\<rparr>"

lemma sample_block_message: "is_block_message sample_slot 4 (sample_block r) r (sample_block_message r)"
  by (simp add: is_block_message_def sample_block_message_def sample_up_params_def decoder_uplane_section_params.defs
      blank_section_def)

lemma sample_rx_repo_wf: "rx_repo_wf [sample_grid] sample_rx_repo"
  using rx_reachable_wf [OF sample_rx_repo_reachable rx_init_wf sample_store_wf] by simp

theorem symbol_assembled_any_order_witness:
  "\<exists>repo' store'. write_messages [4, 7] 7 (map sample_block_message [(1, 1), (0, 1), (1, 1)]) sample_rx_repo [sample_grid] =
      Some (repo', store') \<and> grid_row (store' ! 0) 1 4 = replicate 12 1 @ replicate 12 2"
proof -
  let ?rs = "[(0, 1), (1, 1)] :: (nat \<times> nat) list" and ?ms = "[(1, 1), (0, 1), (1, 1)] :: (nat \<times> nat) list"
  have g: "rgc_grid sample_context = Some 0" by (simp add: sample_context_def)
  have p: "index_of 7 [4, 7 :: nat] < length [4, 7 :: nat]"
    "index_of 7 [4, 7 :: nat] < length (rg_ports ([sample_grid] ! 0))" "rg_nof_subc ([sample_grid] ! 0) = 2 * 12"
    by (simp_all add: sample_grid_def)
  have rs: "concat (map (\<lambda>(a, n). [a..<a + n]) ?rs) = [0..<2]" by code_simp
  have h: "list_all2 (\<lambda>r m. is_block_message sample_slot 4 (sample_block r) r m) ?ms (map sample_block_message ?ms)"
    "\<forall>r \<in> set ?rs. length (sample_block r) = snd r * 12"
    by (simp add: sample_block_message) (simp add: sample_block_def)
  have "concat (map sample_block ?rs) = replicate 12 1 @ replicate 12 2" by code_simp
  moreover have "index_of 7 [4, 7 :: nat] = 1" by simp
  moreover have "\<forall>r \<in> set ?rs. 0 < snd r" "set ?ms = set ?rs" by auto
  note symbol_assembled_any_order [OF sample_rx_repo_wf sample_store_wf sample_rx_repo_get g p rs this h]
  ultimately show ?thesis by auto
qed

text \<open>
  C33: The writer does not compare the slot of a message with the slot of the context it finds: a message of
  another slot with the same repository index is written into the grid of the registered slot.
\<close>

theorem stale_message_written:
  assumes wf: "rx_repo_wf store repo" "store_wf store"
    and c: "rx_get t symbol repo = Some c" "rgc_grid c = Some g" "gc_slot (rgc_context c) = t"
    and s: "s \<noteq> t" "calculate_repository_index s (length (rx_buffer repo)) = calculate_repository_index t (length (rx_buffer repo))"
    and port: "index_of eaxc eaxcs < length eaxcs" "index_of eaxc eaxcs < length (rg_ports (store ! g))"
    and m: "is_block_message s symbol iq (0, N) m" "0 < N" "rg_nof_subc (store ! g) = N * 12" "length iq = N * 12"
  shows "\<exists>repo' store'. write_to_resource_grid eaxcs eaxc m repo store = Some (True, repo', store') \<and>
    grid_row (store' ! g) (index_of eaxc eaxcs) symbol = iq"
proof -
  let ?p = "index_of eaxc eaxcs"
  obtain sec where sec: "up_slot (params m) = s" "up_symbol_id (params m) = symbol" "sections m = [sec]"
    "sec_start_prb sec = 0" "sec_nof_prbs sec = N" "iq_samples sec = iq" using m(1) by (auto simp: is_block_message_def)
  have "rx_entry s symbol repo = rx_entry t symbol repo" using s(2) by (simp add: rx_entry_def)
  then have e: "rx_entry s symbol repo = Some c" using c(1) by (auto simp: rx_get_def context_copy_def)
  have k: "symbol < MAX_NSYMB_PER_SLOT" by (rule rx_entry_bound [OF e])
  have g: "g < length store" using rx_repo_wfD(2) [OF wf(1) k, of s] e c(2) by (auto simp: context_wf_def)
  have gw: "grid_wf (store ! g)" using g wf(2) by (simp add: store_wf_def)
  have k14: "symbol < 14" using k by (simp add: MAX_NSYMB_PER_SLOT_def)
  have row: "length (grid_row (store ! g) ?p symbol) = N * 12" using grid_row_length [OF gw port(2) k14] m(3) by simp
  then have "write_at 0 iq (grid_row (store ! g) ?p symbol) = iq" using m(4) by (simp add: write_at_def)
  then show ?thesis
    using write_to_resource_grid_single [OF wf sec(3), of c g eaxc eaxcs N] e c(2) port m(2-4) sec g
      grid_row_set [OF gw port(2) k14]
    by simp
qed

theorem stale_message_written_witness:
  "\<exists>repo' store'. write_to_resource_grid [4, 7] 7
     (sample_block_message (0, 2) \<lparr>params := (params (sample_block_message (0, 2)))\<lparr>up_slot := \<lparr>numerology_val = 1, count_val = 11\<rparr>\<rparr>\<rparr>)
     sample_rx_repo [sample_grid] = Some (True, repo', store') \<and> grid_row (store' ! 0) 1 4 = replicate 24 1"
proof -
  let ?s = "\<lparr>numerology_val = 1, count_val = 11\<rparr> :: slot_point"
  let ?m = "sample_block_message (0, 2) \<lparr>params := (params (sample_block_message (0, 2)))\<lparr>up_slot := ?s\<rparr>\<rparr>"
  have "is_block_message ?s 4 (sample_block (0, 2)) (0, 2) ?m"
    by (simp add: is_block_message_def sample_block_message_def sample_up_params_def decoder_uplane_section_params.defs
        blank_section_def)
  moreover have "calculate_repository_index ?s (length (rx_buffer sample_rx_repo)) =
      calculate_repository_index sample_slot (length (rx_buffer sample_rx_repo))" by code_simp
  moreover have "rgc_grid sample_context = Some 0" "gc_slot (rgc_context sample_context) = sample_slot"
    by (simp_all add: sample_context_def)
  moreover have "?s \<noteq> sample_slot" "index_of 7 [4, 7 :: nat] < length [4, 7 :: nat]"
    "index_of 7 [4, 7 :: nat] < length (rg_ports ([sample_grid] ! 0))" "0 < (2 :: nat)" "rg_nof_subc ([sample_grid] ! 0) = 2 * 12"
    "length (sample_block (0, 2)) = 2 * 12" "sample_block (0, 2) = replicate 24 1" "index_of 7 [4, 7 :: nat] = 1"
    by (simp_all add: sample_slot_def sample_grid_def sample_block_def)
  ultimately show ?thesis
    using stale_message_written [OF sample_rx_repo_wf sample_store_wf sample_rx_repo_get, of 0 ?s 7 "[4, 7]" "sample_block (0, 2)" 2 ?m]
    by metis
qed

end
