(* ===== verification/Ru_Receiver.thy ===== *)
theory Ru_Receiver
  imports Ru_Requests Rx_Grid_Repository
begin

text \<open>
  The sector of the O-RU (lib/ofh/ru): the message receiver, from an Ethernet frame to the User-Plane or
  Control-Plane data flow (ofh_ru_message_receiver.cpp, ../receiver/ofh_ru_rx_uplane_data_flow.cpp,
  ../receiver/ofh_ru_rx_cplane_data_flow.cpp), the scheduling handler (ofh_ru_cplane_scheduling_handler.cpp),
  the downlink reception window handler (ofh_ru_downlink_rx_window_handler.cpp) and the message
  transmitter (ofh_ru_message_transmitter.cpp), connected the way \<open>create_ru_sector\<close> connects them.

  The upper PHY is an interface of the application; its functions are fields of the configuration.  None
  is an assertion, an access out of bounds or another undefined behaviour.
\<close>

section \<open>State\<close>

record 'iq ru_upper_phy =
  phy_get_downlink_rx_grid :: "slot_point \<Rightarrow> 'iq grid_store \<Rightarrow> shared_resource_grid \<times> 'iq grid_store"
  phy_get_uplink_tx_grid :: "slot_point \<Rightarrow> shared_resource_grid"

record 'iq ru_sector_config =
  ru_sector_id :: nat
  ru_numerology :: nat
  ru_nof_symbols :: nat
  ru_vlan_params :: vlan_frame_params
  ru_dispatcher :: ru_dispatcher_config
  ru_store_and_respond :: bool
  ru_uplane_decoder :: uplane_decoder_config
  ru_decode_header :: "decoder_uplane_section_params \<Rightarrow> bytes \<Rightarrow> section_step"
  ru_decompress :: "nat \<Rightarrow> bytes \<Rightarrow> ru_compression_params \<Rightarrow> 'iq list"
  ru_phy :: "'iq ru_upper_phy"
  ru_finalize_offset :: int

text \<open>
  The state of a sector.  The last two fields hold the contexts that the immediate mode hands to the
  uplink and PRACH data flows, in order.
\<close>

record 'iq ru_sector =
  ru_grids :: "'iq grid_store"
  ru_grid_repo :: rx_grid_context_repository
  ru_recorder :: ru_recorder
  ru_uplane_seq :: sequence_id_checker
  ru_cplane_dl_seq :: sequence_id_checker
  ru_cplane_ul_seq :: sequence_id_checker
  ru_window :: rx_window_checker
  ru_ul_contexts :: "uplane_grid_context list"
  ru_prach_contexts :: "uplane_prach_context list"

section \<open>Scheduling handler\<close>

definition handle_downlink_scheduling ::
  "'iq ru_sector_config \<Rightarrow> nat \<Rightarrow> cplane_message_decoder_results \<Rightarrow> 'iq ru_sector \<Rightarrow> 'iq ru_sector option" where
  "handle_downlink_scheduling cfg eaxc res st = do {
     let s = slot (radio_hdr res);
     let start = start_symbol (radio_hdr res);
     let stop = start_symbol (radio_hdr res) + nof_symbols (section res);
     repo \<leftarrow> process_pending_contexts (ru_grids st) (ru_grid_repo st);
     let (grid, grids) = (case find_grid s repo of
                            Some g \<Rightarrow> (Some g, ru_grids st)
                          | None \<Rightarrow> phy_get_downlink_rx_grid (ru_phy cfg) s (ru_grids st));
     let st = st\<lparr>ru_grids := grids, ru_grid_repo := repo\<rparr>;
     if grid = None then Some st
     else Some (st\<lparr>ru_grid_repo := rx_add \<lparr>gc_slot = s, gc_sector = ru_sector_id cfg\<rparr> grid start stop repo\<rparr>)
   }"

definition handle_uplink_scheduling ::
  "'iq ru_sector_config \<Rightarrow> nat \<Rightarrow> cplane_message_decoder_results \<Rightarrow> 'iq ru_sector \<Rightarrow> 'iq ru_sector option" where
  "handle_uplink_scheduling cfg eaxc res st =
     (let s = slot (radio_hdr res)
      in if phy_get_uplink_tx_grid (ru_phy cfg) s = None then Some st
         else Some (st\<lparr>ru_ul_contexts := ru_ul_contexts st @
                [\<lparr>ug_slot = s, ug_port = 0, ug_eaxc = eaxc, ug_start_symbol = start_symbol (radio_hdr res),
                  ug_stop_symbol = start_symbol (radio_hdr res) + nof_symbols (section res),
                  ug_section_id = section_id (section res)\<rparr>]\<rparr>))"

definition handle_prach_scheduling ::
  "'iq ru_sector_config \<Rightarrow> nat \<Rightarrow> cplane_message_decoder_results \<Rightarrow> 'iq ru_sector \<Rightarrow> 'iq ru_sector option" where
  "handle_prach_scheduling cfg eaxc res st =
     (let prach_scs = to_prach_subcarrier_spacing (frame_structure_scs res)
      in if \<not> is_prach_filter_compatible (filter_index (radio_hdr res)) prach_scs then Some st
         else Some (st\<lparr>ru_prach_contexts := ru_prach_contexts st @
                [\<lparr>pr_slot = slot (radio_hdr res), pr_port = 0, pr_eaxc = eaxc, pr_prb_start = prb_start (section res),
                  pr_nof_prb = nof_prb (section res), pr_start_symbol = start_symbol (radio_hdr res),
                  pr_nof_symbols = nof_symbols (section res), pr_filter_index = filter_index (radio_hdr res),
                  pr_prach_scs = prach_scs, pr_section_id = section_id (section res)\<rparr>]\<rparr>))"

text \<open>
  The wiring of the sector: downlink goes to the scheduling handler, uplink and PRACH to the recorder in
  store-and-respond mode and to the scheduling handler otherwise.
\<close>

definition ru_handlers :: "'iq ru_sector_config \<Rightarrow> 'iq ru_sector option scheduling_handlers" where
  "ru_handlers cfg =
     \<lparr>h_downlink = (\<lambda>eaxc res st. Option.bind st (handle_downlink_scheduling cfg eaxc res)),
      h_uplink = (\<lambda>eaxc res st.
        if ru_store_and_respond cfg
        then map_option (\<lambda>st. st\<lparr>ru_recorder := recorder_handle_uplink_scheduling eaxc res (ru_recorder st)\<rparr>) st
        else Option.bind st (handle_uplink_scheduling cfg eaxc res)),
      h_prach = (\<lambda>eaxc res st.
        if ru_store_and_respond cfg
        then map_option (\<lambda>st. st\<lparr>ru_recorder := recorder_handle_prach_scheduling eaxc res (ru_recorder st)\<rparr>) st
        else Option.bind st (handle_prach_scheduling cfg eaxc res))\<rparr>"

section \<open>Message receiver\<close>

definition fresh_up_results :: "'iq uplane_message_decoder_results" where
  "fresh_up_results =
     \<lparr>params = \<lparr>up_direction = uplink, up_slot = invalid_slot_point, up_filter_index = standard_channel_filter,
        up_start_prb = 0, up_nof_prb = 0, up_symbol_id = 0, up_sect_type = type_1,
        up_compression_params = \<lparr>compr_type = compr_none, data_width = 0\<rparr>, up_section_id = 0\<rparr>, sections = []\<rparr>"

definition rx_uplane_decode_message ::
  "'iq ru_sector_config \<Rightarrow> nat \<Rightarrow> bytes \<Rightarrow> 'iq ru_sector \<Rightarrow> 'iq ru_sector option" where
  "rx_uplane_decode_message cfg eaxc message st = do {
     (ok, results) \<leftarrow> uplane_decode (ru_uplane_decoder cfg) (ru_decode_header cfg) (ru_decompress cfg) fresh_up_results message;
     if \<not> ok then Some st
     else do {
       (_, repo, grids) \<leftarrow> write_to_resource_grid (disp_dl_eaxc (ru_dispatcher cfg)) eaxc results (ru_grid_repo st) (ru_grids st);
       Some (st\<lparr>ru_grid_repo := repo, ru_grids := grids\<rparr>)
     }
   }"

definition rx_cplane_decode_message ::
  "'iq ru_sector_config \<Rightarrow> nat \<Rightarrow> bytes \<Rightarrow> 'iq ru_sector \<Rightarrow> 'iq ru_sector option" where
  "rx_cplane_decode_message cfg eaxc message st = do {
     (ok, results) \<leftarrow> cplane_decode (ru_numerology cfg) message;
     if \<not> ok then Some st
     else on_cplane_message_received (ru_dispatcher cfg) (ru_handlers cfg) eaxc results (Some st)
   }"

definition should_ethernet_frame_be_filtered :: "vlan_frame_params \<Rightarrow> vlan_frame_params \<Rightarrow> bool" where
  "should_ethernet_frame_be_filtered vlan_params eth_params =
     (if mac_src_address eth_params \<noteq> mac_src_address vlan_params then True
      else if mac_dst_address eth_params \<noteq> mac_dst_address vlan_params then True
      else if (case (vlan_config eth_params, vlan_config vlan_params) of
                 (Some v, Some w) \<Rightarrow> tci_vid v \<noteq> tci_vid w | _ \<Rightarrow> False) then True
      else if eth_type eth_params \<noteq> eth_type vlan_params then True
      else False)"

definition pad_frame :: "bytes \<Rightarrow> bytes" where
  "pad_frame payload =
     (if length payload < MIN_ETH_LEN then payload @ replicate (MIN_ETH_LEN - length payload) 0 else payload)"

definition empty_eth_params :: vlan_frame_params where
  "empty_eth_params = \<lparr>mac_dst_address = [], mac_src_address = [], vlan_config = None, eth_type = 0\<rparr>"

definition empty_packet_parameters :: packet_parameters where
  "empty_packet_parameters =
     \<lparr>header = \<lparr>revision = 0, is_last_packet = False, msg_type = 0, payload_size = 0\<rparr>, type_params = iq_data_parameters 0 0\<rparr>"

definition check_rx_window :: "'iq ru_sector_config \<Rightarrow> bytes \<Rightarrow> 'iq ru_sector \<Rightarrow> 'iq ru_sector" where
  "check_rx_window cfg ofh_pdu st =
     (case peek_slot_symbol_point ofh_pdu (ru_nof_symbols cfg) (ru_numerology cfg) of
        Some sp \<Rightarrow> st\<lparr>ru_window := update_rx_window_statistics sp (ru_window st)\<rparr>
      | None \<Rightarrow> st)"

definition process_iq_data ::
  "'iq ru_sector_config \<Rightarrow> u16 \<Rightarrow> u16 \<Rightarrow> bytes \<Rightarrow> 'iq ru_sector \<Rightarrow> 'iq ru_sector option" where
  "process_iq_data cfg pc seq ofh_pdu st =
     (let eaxc = unat pc
      in if eaxc \<notin> set (disp_dl_eaxc (ru_dispatcher cfg)) then Some st
         else do {
           let seq_id = ucast (drop_bit 8 seq);
           (_, chk) \<leftarrow> update_and_compare_seq_id eaxc seq_id (ru_uplane_seq st);
           rx_uplane_decode_message cfg eaxc ofh_pdu (st\<lparr>ru_uplane_seq := chk\<rparr>)
         })"

definition process_rt_control_data ::
  "'iq ru_sector_config \<Rightarrow> u16 \<Rightarrow> u16 \<Rightarrow> bytes \<Rightarrow> 'iq ru_sector \<Rightarrow> 'iq ru_sector option" where
  "process_rt_control_data cfg rtc seq ofh_pdu st = do {
     (b, _) \<leftarrow> read_u8 ofh_pdu;
     let is_downlink = (unat b AND 0x80 \<noteq> 0);
     let eaxc = unat rtc;
     let seq_id = ucast (drop_bit 8 seq);
     st \<leftarrow> (if is_downlink
           then map_option (\<lambda>(_, chk). st\<lparr>ru_cplane_dl_seq := chk\<rparr>) (update_and_compare_seq_id eaxc seq_id (ru_cplane_dl_seq st))
           else map_option (\<lambda>(_, chk). st\<lparr>ru_cplane_ul_seq := chk\<rparr>) (update_and_compare_seq_id eaxc seq_id (ru_cplane_ul_seq st)));
     rx_cplane_decode_message cfg eaxc ofh_pdu st
   }"

text \<open>The variant access of a packet of the other kind throws, here None.\<close>

definition process_frame :: "'iq ru_sector_config \<Rightarrow> bytes \<Rightarrow> 'iq ru_sector \<Rightarrow> 'iq ru_sector option" where
  "process_frame cfg payload st = do {
     (eth_params, ecpri_pdu) \<leftarrow> eth_decode empty_eth_params (pad_frame payload);
     if ecpri_pdu = [] \<or> should_ethernet_frame_be_filtered (ru_vlan_params cfg) eth_params then Some st
     else do {
       (ecpri_params, ofh_pdu) \<leftarrow> ecpri_decode decode_payload_use_size empty_packet_parameters ecpri_pdu;
       if ofh_pdu = [] then Some st
       else do {
         let st = check_rx_window cfg ofh_pdu st;
         if msg_type (header ecpri_params) = iq_data then
           (case type_params ecpri_params of
              iq_data_parameters pc seq \<Rightarrow> process_iq_data cfg pc seq ofh_pdu st
            | _ \<Rightarrow> None)
         else if msg_type (header ecpri_params) = rt_control_data then
           (case type_params ecpri_params of
              realtime_control_parameters rtc seq \<Rightarrow> process_rt_control_data cfg rtc seq ofh_pdu st
            | _ \<Rightarrow> None)
         else Some st
       }
     }
   }"

fun process_frames :: "'iq ru_sector_config \<Rightarrow> bytes list \<Rightarrow> 'iq ru_sector \<Rightarrow> 'iq ru_sector option" where
  "process_frames cfg [] st = Some st"
| "process_frames cfg (f # fs) st = Option.bind (process_frame cfg f st) (process_frames cfg fs)"

section \<open>Downlink reception window\<close>

text \<open>The result: the slot and grid handed to the upper PHY, if any.\<close>

definition downlink_on_new_symbol ::
  "'iq ru_sector_config \<Rightarrow> slot_symbol_point \<Rightarrow> 'iq ru_sector \<Rightarrow>
   ((slot_point \<times> shared_resource_grid) option \<times> 'iq ru_sector) option" where
  "downlink_on_new_symbol cfg symbol_point st = do {
     repo \<leftarrow> process_pending_contexts (ru_grids st) (ru_grid_repo st);
     let closing = ssp_minus symbol_point (ru_finalize_offset cfg);
     (info, repo) \<leftarrow> pop_resource_grid_symbol (get_slot closing) (get_symbol_index closing) repo;
     Some (map_option (\<lambda>(ctx, grid). (gc_slot ctx, grid)) info, st\<lparr>ru_grid_repo := repo\<rparr>)
   }"

section \<open>Message transmitter\<close>

text \<open>
  The burst holds the buffers of the uplink pool followed by those of the PRACH pool.  After the send
  the scoped buffers are destroyed, which returns them to their pools.
\<close>

definition frame_data :: "eth_frame_pool \<Rightarrow> nat \<times> nat \<Rightarrow> bytes" where
  "frame_data pool b = buf_data (pool_entries (pool ! fst b) ! snd b)"

fun release_buffers :: "(nat \<times> nat) list \<Rightarrow> eth_frame_pool \<Rightarrow> eth_frame_pool option" where
  "release_buffers [] pool = Some pool"
| "release_buffers ((e, i) # r) pool = do {
     p \<leftarrow> update_state i (pool ! e);
     release_buffers r (pool[e := p])
   }"

definition ru_transmitter_on_new_symbol ::
  "int \<Rightarrow> int \<Rightarrow> slot_symbol_point \<Rightarrow> eth_frame_pool \<Rightarrow> eth_frame_pool \<Rightarrow>
   (bytes list \<times> eth_frame_pool \<times> eth_frame_pool) option" where
  "ru_transmitter_on_new_symbol tx_window_start tx_window_end symbol_point uplink_pool prach_pool = do {
     let start = ssp_minus symbol_point tx_window_start;
     let stop = ssp_minus symbol_point tx_window_end;
     (ul_burst, uplink_pool) \<leftarrow> enqueue_pending_into_burst start stop [] uplink_pool;
     (burst, prach_pool) \<leftarrow> enqueue_pending_into_burst start stop ul_burst prach_pool;
     let prach_burst = drop (length ul_burst) burst;
     let frames = map (frame_data uplink_pool) ul_burst @ map (frame_data prach_pool) prach_burst;
     uplink_pool \<leftarrow> release_buffers ul_burst uplink_pool;
     prach_pool \<leftarrow> release_buffers prach_burst prach_pool;
     Some (frames, uplink_pool, prach_pool)
   }"

section \<open>Frames on the wire\<close>

interpretation ofh_stack: frame_stack "\<lambda>p x. eth_params_wf p" eth_frame "eth_decode p0" "\<lambda>pad. pad" MIN_ETH_LEN
  "\<lambda>p x. length x + 4 < 65536 \<and>
    header p = \<lparr>revision = 1, is_last_packet = True, msg_type = type_of_params (type_params p), payload_size = length x + 4\<rparr>"
  "\<lambda>p. ecpri_packet (type_params p)" "ecpri_decode decode_payload_use_size q0" "\<lambda>pad. []"
  for p0 q0
  by (intro frame_stack.intro eth.frame_layer_axioms ecpri.frame_layer_axioms)

lemma pad_frame_extends: "\<exists>pad. pad_frame f = f @ pad \<and> MIN_ETH_LEN \<le> length (f @ pad)"
  by (cases "length f < MIN_ETH_LEN") (simp_all add: pad_frame_def)

text \<open>A frame built for the parameters the receiver expects: both protocol layers give back what was sent.\<close>

lemma pad_frame_decoded:
  assumes v: "eth_params_wf v" and msg: "msg \<noteq> []" "length msg + 4 < 65536"
  shows "\<exists>y. eth_decode empty_eth_params (pad_frame (eth_frame v (ecpri_packet tp msg))) = Some (v, y) \<and> y \<noteq> [] \<and>
      ecpri_decode decode_payload_use_size empty_packet_parameters y =
        Some (\<lparr>header = \<lparr>revision = 1, is_last_packet = True, msg_type = type_of_params tp, payload_size = length msg + 4\<rparr>,
               type_params = tp\<rparr>, msg)"
proof -
  let ?f = "eth_frame v (ecpri_packet tp msg)"
  define q where "q = \<lparr>header = \<lparr>revision = 1, is_last_packet = True, msg_type = type_of_params tp, payload_size = length msg + 4\<rparr>,
    type_params = tp\<rparr>"
  obtain pad where pad: "pad_frame ?f = ?f @ pad" "length (?f @ pad) \<ge> MIN_ETH_LEN"
    using pad_frame_extends by blast
  have "ofh_stack.stack_dec empty_eth_params empty_packet_parameters (?f @ pad) = Some ((v, q), msg)"
    using ofh_stack.stack_dec_enc [OF v, where ?q = q and ?x = msg and ?pad = pad and ?p0.0 = empty_eth_params
        and ?q0.0 = empty_packet_parameters] msg(2) pad(2)
    by (simp add: q_def ofh_stack.stack_enc_def)
  then obtain y where y: "eth_decode empty_eth_params (?f @ pad) = Some (v, y)"
    "ecpri_decode decode_payload_use_size empty_packet_parameters y = Some (q, msg)"
    by (auto simp: ofh_stack.stack_dec_def split: Option.bind_splits)
  have "y \<noteq> []" using y(2) msg(1) by (auto simp: ecpri_decode_def decode_header_def ECPRI_COMMON_HEADER_SIZE_def)
  then show ?thesis using y pad(1) by (simp add: q_def)
qed

lemma expected_frame_kept [simp]: "\<not> should_ethernet_frame_be_filtered v v"
  by (auto simp: should_ethernet_frame_be_filtered_def split: option.split)

lemma process_frame_packet:
  assumes v: "eth_params_wf (ru_vlan_params cfg)" and msg: "msg \<noteq> []" "length msg + 4 < 65536"
  shows "process_frame cfg (eth_frame (ru_vlan_params cfg) (ecpri_packet tp msg)) st =
    (case tp of
       iq_data_parameters pc sq \<Rightarrow> process_iq_data cfg pc sq msg (check_rx_window cfg msg st)
     | realtime_control_parameters rtc sq \<Rightarrow> process_rt_control_data cfg rtc sq msg (check_rx_window cfg msg st))"
  using pad_frame_decoded [OF v msg, of tp] msg(1)
  by (cases tp) (auto simp: process_frame_def Let_def type_of_params_def iq_data_def rt_control_data_def)

text \<open>A frame that carries an accepted User-Plane message of an eAxC.\<close>

definition uplane_frame :: "'iq ru_sector_config \<Rightarrow> nat \<Rightarrow> bytes \<Rightarrow> 'iq uplane_message_decoder_results \<Rightarrow> bool" where
  "uplane_frame cfg eaxc f res \<longleftrightarrow>
     (\<exists>sq msg. f = eth_frame (ru_vlan_params cfg) (ecpri_packet (iq_data_parameters (of_nat eaxc) sq) msg) \<and>
        msg \<noteq> [] \<and> length msg + 4 < 65536 \<and>
        uplane_decode (ru_uplane_decoder cfg) (ru_decode_header cfg) (ru_decompress cfg) fresh_up_results msg = Some (True, res))"

lemma check_rx_window_fields [simp]:
  "ru_grid_repo (check_rx_window cfg pdu st) = ru_grid_repo st" "ru_grids (check_rx_window cfg pdu st) = ru_grids st"
  "ru_recorder (check_rx_window cfg pdu st) = ru_recorder st" "ru_uplane_seq (check_rx_window cfg pdu st) = ru_uplane_seq st"
  "ru_cplane_dl_seq (check_rx_window cfg pdu st) = ru_cplane_dl_seq st"
  "ru_cplane_ul_seq (check_rx_window cfg pdu st) = ru_cplane_ul_seq st"
  by (simp_all add: check_rx_window_def split: option.split)

lemma process_uplane_frame:
  assumes v: "eth_params_wf (ru_vlan_params cfg)" and e: "eaxc \<in> set (disp_dl_eaxc (ru_dispatcher cfg))" "eaxc < MAX_SUPPORTED_EAXC_ID_VALUE"
    and f: "uplane_frame cfg eaxc f res"
    and w: "write_to_resource_grid (disp_dl_eaxc (ru_dispatcher cfg)) eaxc res (ru_grid_repo st) (ru_grids st) = Some (ok, repo', grids')"
  shows "\<exists>st'. process_frame cfg f st = Some st' \<and> ru_grid_repo st' = repo' \<and> ru_grids st' = grids' \<and>
    ru_recorder st' = ru_recorder st"
proof -
  from f obtain sq msg where m: "f = eth_frame (ru_vlan_params cfg) (ecpri_packet (iq_data_parameters (of_nat eaxc) sq) msg)"
    "msg \<noteq> []" "length msg + 4 < 65536"
    "uplane_decode (ru_uplane_decoder cfg) (ru_decode_header cfg) (ru_decompress cfg) fresh_up_results msg = Some (True, res)"
    by (auto simp: uplane_frame_def)
  have u: "unat (of_nat eaxc :: u16) = eaxc" using e(2) by (simp add: unat_u16 MAX_SUPPORTED_EAXC_ID_VALUE_def)
  obtain r chk where "update_and_compare_seq_id eaxc (ucast (drop_bit 8 sq)) (ru_uplane_seq st) = Some (r, chk)"
    using update_and_compare_total [OF e(2)] by blast
  then show ?thesis
    using e(1) w unfolding m(1) process_frame_packet [OF v m(2,3)]
    by (simp add: process_iq_data_def u Let_def rx_uplane_decode_message_def m(4))
qed

lemma process_uplane_frames:
  assumes v: "eth_params_wf (ru_vlan_params cfg)" and e: "eaxc \<in> set (disp_dl_eaxc (ru_dispatcher cfg))" "eaxc < MAX_SUPPORTED_EAXC_ID_VALUE"
    and f: "\<forall>k \<in> set ks. uplane_frame cfg eaxc (f k) (res k)"
    and w: "write_messages (disp_dl_eaxc (ru_dispatcher cfg)) eaxc (map res ks) (ru_grid_repo st) (ru_grids st) = Some (repo', grids')"
  shows "\<exists>st'. process_frames cfg (map f ks) st = Some st' \<and> ru_grid_repo st' = repo' \<and> ru_grids st' = grids' \<and>
    ru_recorder st' = ru_recorder st"
  using f w
proof (induction ks arbitrary: st)
  case (Cons k ks)
  obtain ok repo1 grids1 where
    1: "write_to_resource_grid (disp_dl_eaxc (ru_dispatcher cfg)) eaxc (res k) (ru_grid_repo st) (ru_grids st) = Some (ok, repo1, grids1)"
    and 2: "write_messages (disp_dl_eaxc (ru_dispatcher cfg)) eaxc (map res ks) repo1 grids1 = Some (repo', grids')"
    using Cons.prems(2) by (auto split: Option.bind_splits)
  obtain st1 where st1: "process_frame cfg (f k) st = Some st1" "ru_grid_repo st1 = repo1" "ru_grids st1 = grids1"
    "ru_recorder st1 = ru_recorder st"
    using process_uplane_frame [OF v e _ 1] Cons.prems(1) by auto
  with Cons.IH [of st1] Cons.prems(1) 2 show ?case by auto
qed simp

section \<open>Well-formed sectors\<close>

text \<open>
  What the factories establish: supported eAxCs and bandwidth, one of the two header decoders, a
  decompressor that fills its output, and an upper PHY that hands out grids of the store.
\<close>

definition ru_config_wf :: "'iq ru_sector_config \<Rightarrow> bool" where
  "ru_config_wf cfg \<longleftrightarrow>
     (\<forall>e \<in> set (disp_dl_eaxc (ru_dispatcher cfg)). e < MAX_SUPPORTED_EAXC_ID_VALUE) \<and>
     dec_numerology (ru_uplane_decoder cfg) < NOF_NUMEROLOGIES \<and> ru_nof_prbs (ru_uplane_decoder cfg) \<le> MAX_NOF_PRBS \<and>
     dec_nof_symbols (ru_uplane_decoder cfg) \<le> MAX_NSYMB_PER_SLOT \<and>
     (ru_decode_header cfg = up_decode_compression_header_dynamic \<or>
      (\<exists>c. ru_decode_header cfg = up_decode_compression_header_static c)) \<and>
     (\<forall>n bs c. length (ru_decompress cfg n bs c) = n) \<and>
     (\<forall>s store g store'. phy_get_downlink_rx_grid (ru_phy cfg) s store = (g, store') \<longrightarrow> store_wf store \<longrightarrow>
        store_wf store' \<and> same_shape store store' \<and> (\<forall>i. g = Some i \<longrightarrow> i < length store'))"

definition ru_sector_wf :: "'iq ru_sector \<Rightarrow> bool" where
  "ru_sector_wf st \<longleftrightarrow> rx_repo_wf (ru_grids st) (ru_grid_repo st) \<and> store_wf (ru_grids st)"

text \<open>The registrations that can be applied: their symbols lie in the slot.\<close>

definition task_in_slot :: "add_task \<Rightarrow> bool" where
  "task_in_slot t \<longleftrightarrow> task_stop t \<le> task_start t \<or> task_stop t \<le> MAX_NSYMB_PER_SLOT"

lemma run_add_task_Some:
  assumes wf: "rx_repo_wf store repo" and t: "task_grid t = Some g0" "task_in_slot t"
  shows "\<exists>repo'. run_add_task store t repo = Some repo'"
proof -
  have ks: "\<forall>k \<in> set [task_start t..<task_stop t]. k < MAX_NSYMB_PER_SLOT" using t(2) by (auto simp: task_in_slot_def)
  obtain g where "(case rx_find_registered (gc_slot (task_context t)) repo of Some c \<Rightarrow> rgc_grid c | None \<Rightarrow> task_grid t) = Some g"
    using rx_find_registered_Some [of "gc_slot (task_context t)" repo] t(1)
    by (cases "rx_find_registered (gc_slot (task_context t)) repo") (auto simp: registered_for_def context_empty_def)
  then show ?thesis
    using register_symbols_spec [OF _ ks, of repo "task_context t" g store] wf by (auto simp: run_add_task_def rx_repo_wf_def)
qed

lemma run_add_tasks_Some:
  assumes "rx_repo_wf store repo" "\<forall>t \<in> set ts. task_in_slot t \<and> (\<exists>g < length store. task_grid t = Some g)"
  shows "\<exists>repo'. run_add_tasks store ts repo = Some repo'"
  using assms
proof (induction ts arbitrary: repo)
  case (Cons t ts)
  then obtain g repo1 where g: "task_grid t = Some g" "g < length store" and 1: "run_add_task store t repo = Some repo1"
    using run_add_task_Some [OF Cons.prems(1), of t] by auto
  have "rx_repo_wf store repo1" using run_add_task_wf [OF Cons.prems(1) g 1] by simp
  with Cons.IH [of repo1] Cons.prems(2) 1 show ?case by auto
qed simp

lemma process_pending_Some:
  assumes "rx_repo_wf store repo" "\<forall>t \<in> set (rx_pending repo). task_in_slot t"
  shows "\<exists>repo'. process_pending_contexts store repo = Some repo'"
  using run_add_tasks_Some [OF drop_pending_wf [OF assms(1)], of "rx_pending repo"] assms
  by (auto simp: process_pending_contexts_def rx_repo_wf_def)

lemma run_add_tasks_None:
  "\<exists>t \<in> set ts. \<not> task_in_slot t \<Longrightarrow> run_add_tasks store ts repo = None"
proof (induction ts arbitrary: repo)
  case (Cons t ts)
  show ?case
  proof (cases "task_in_slot t")
    case True
    then show ?thesis using Cons by (auto split: Option.bind_splits)
  next
    case False
    then have "\<exists>k \<in> set [task_start t..<task_stop t]. \<not> k < MAX_NSYMB_PER_SLOT"
      by (intro bexI [of _ "task_stop t - 1"]) (auto simp: task_in_slot_def)
    then have "run_add_task store t repo = None"
      unfolding run_add_task_def Let_def by (rule register_symbols_out_of_range)
    then show ?thesis by simp
  qed
qed simp

lemma handle_downlink_scheduling_wf:
  assumes cfg: "ru_config_wf cfg" and wf: "ru_sector_wf st"
    and h: "handle_downlink_scheduling cfg eaxc res st = Some st'"
  shows "ru_sector_wf st'"
proof -
  let ?s = "slot (radio_hdr res)"
  obtain repo where repo: "process_pending_contexts (ru_grids st) (ru_grid_repo st) = Some repo"
    using h by (auto simp: handle_downlink_scheduling_def Let_def split: Option.bind_splits)
  have r: "rx_repo_wf (ru_grids st) repo" using process_pending_wf [OF _ repo] wf by (simp add: ru_sector_wf_def)
  have sw: "store_wf (ru_grids st)" using wf by (simp add: ru_sector_wf_def)
  obtain grid grids where g: "(case find_grid ?s repo of Some g \<Rightarrow> (Some g, ru_grids st)
      | None \<Rightarrow> phy_get_downlink_rx_grid (ru_phy cfg) ?s (ru_grids st)) = (grid, grids)" by fastforce
  have "store_wf grids \<and> same_shape (ru_grids st) grids \<and> (\<forall>i. grid = Some i \<longrightarrow> i < length grids)"
  proof (cases "find_grid ?s repo")
    case None
    then show ?thesis using g cfg sw by (simp add: ru_config_wf_def)
  next
    case (Some i)
    then obtain c where c: "rx_find_registered ?s repo = Some c" "rgc_grid c = Some i"
      by (auto simp: find_grid_def split: option.splits)
    from rx_find_registered_Some [OF c(1)] obtain k where "k < MAX_NSYMB_PER_SLOT" "c = rx_look ?s k repo" by blast
    with rx_repo_wfD(2) [OF r, of k ?s] c(2) have "i < length (ru_grids st)" by (auto simp: context_wf_def)
    then show ?thesis using g Some sw by (auto simp: same_shape_def)
  qed
  then show ?thesis
    using h r same_shape_wf [of "ru_grids st" grids repo] rx_add_wf [of grids repo]
    by (auto simp: handle_downlink_scheduling_def repo g Let_def ru_sector_wf_def split: if_splits)
qed

text \<open>Writing a decoded message never leaves the grid, whatever its PRB range is.\<close>

lemma rx_write_grid_Some:
  assumes wf: "rx_repo_wf store repo" "store_wf store" and c: "rx_entry s symbol repo = Some c"
    and fit: "\<And>g. rgc_grid c = Some g \<Longrightarrow> start_re + length iq \<le> rg_nof_subc (store ! g)"
  shows "\<exists>repo' store'. rx_write_grid s port symbol start_re iq repo store = Some (repo', store')"
proof (cases "\<exists>g. rgc_grid c = Some g \<and> port < length (rg_ports (store ! g))")
  case True
  then obtain g where g: "rgc_grid c = Some g" "port < length (rg_ports (store ! g))" by blast
  note k = rx_entry_bound [OF c]
  have "g < length store" "rgc_symbol c = symbol" using rx_repo_wfD(2) [OF wf(1) k, of s] c g(1) by (auto simp: context_wf_def)
  then have "length (grid_row (store ! g) port (rgc_symbol c)) = rg_nof_subc (store ! g)"
    using wf(2) g(2) k by (intro grid_row_length) (simp_all add: store_wf_def MAX_NSYMB_PER_SLOT_def)
  then show ?thesis using rx_write_grid_eq [OF c g] fit [OF g(1)] by simp
next
  case False
  then show ?thesis
    by (cases "rgc_grid c") (auto simp: rx_write_grid_def c context_write_grid_def)
qed

lemma write_to_resource_grid_safe:
  assumes wf: "rx_repo_wf store repo" "store_wf store" and e: "eaxc \<in> set eaxcs"
    and res: "up_symbol_id (params res) < MAX_NSYMB_PER_SLOT" "sections res = [sec]" "length (iq_samples sec) = sec_nof_prbs sec * 12"
  shows "\<exists>ok repo' store'. write_to_resource_grid eaxcs eaxc res repo store = Some (ok, repo', store') \<and>
    rx_repo_wf store' repo' \<and> store_wf store'"
proof -
  let ?s = "up_slot (params res)" and ?k = "up_symbol_id (params res)" and ?p = "index_of eaxc eaxcs"
  have p: "?p < length eaxcs" by (rule index_of_less [OF e])
  obtain c where c: "rx_entry ?s ?k repo = Some c" using res(1) by (simp add: rx_entry_def)
  have copy: "context_copy c = c" by (simp add: context_copy_def)
  let ?N = "get_grid_nof_prbs store c"
  define n where "n = (if sec_start_prb sec + sec_nof_prbs sec < ?N then sec_nof_prbs sec else ?N - sec_start_prb sec)"
  have n: "n \<le> sec_nof_prbs sec" "sec_start_prb sec < ?N \<Longrightarrow> sec_start_prb sec + n \<le> ?N" by (auto simp: n_def)
  then have enough: "n * 12 \<le> length (iq_samples sec)" by (simp add: res(3))
  show ?thesis
  proof (cases "context_empty c \<or> ?N \<le> sec_start_prb sec")
    case True
    then show ?thesis
      using wf p by (auto simp: write_to_resource_grid_def rx_get_def c copy Let_def res(2))
  next
    case False
    have "sec_start_prb sec * 12 + length (take (n * 12) (iq_samples sec)) \<le> rg_nof_subc (store ! g)" if "rgc_grid c = Some g" for g
    proof -
      have N: "?N = rg_nof_subc (store ! g) div 12" using that by (simp add: get_grid_nof_prbs_def NOF_SUBCARRIERS_PER_RB_def)
      have "(sec_start_prb sec + n) * 12 \<le> ?N * 12" using n(2) False by simp
      also have "\<dots> \<le> rg_nof_subc (store ! g)" unfolding N by (rule div_times_less_eq_dividend)
      finally show ?thesis using enough by simp
    qed
    from rx_write_grid_Some [OF wf c this] obtain repo' store' where
      w: "rx_write_grid ?s ?p ?k (sec_start_prb sec * 12) (take (n * 12) (iq_samples sec)) repo store = Some (repo', store')"
      by blast
    show ?thesis
      using False p enough w rx_write_grid_wf [OF wf w]
      by (intro exI [of _ True] exI [of _ repo'] exI [of _ store'])
        (simp add: write_to_resource_grid_def rx_get_def c copy Let_def res(2) n_def NOF_SUBCARRIERS_PER_RB_def not_less)
  qed
qed

lemma rx_uplane_decode_message_safe:
  assumes cfg: "ru_config_wf cfg" and wf: "ru_sector_wf st" and e: "eaxc \<in> set (disp_dl_eaxc (ru_dispatcher cfg))"
  shows "\<exists>st'. rx_uplane_decode_message cfg eaxc msg st = Some st' \<and> ru_sector_wf st'"
proof -
  let ?dec = "uplane_decode (ru_uplane_decoder cfg) (ru_decode_header cfg) (ru_decompress cfg) fresh_up_results msg"
  have fresh: "sections (fresh_up_results :: 'a uplane_message_decoder_results) = []" by (simp add: fresh_up_results_def)
  obtain c where c: "ru_decode_header cfg = up_decode_compression_header_dynamic \<or>
      ru_decode_header cfg = up_decode_compression_header_static c"
    using cfg by (auto simp: ru_config_wf_def)
  have d: "dec_numerology (ru_uplane_decoder cfg) < NOF_NUMEROLOGIES" "ru_nof_prbs (ru_uplane_decoder cfg) \<le> MAX_NOF_PRBS"
    using cfg by (auto simp: ru_config_wf_def)
  obtain ok res where r: "?dec = Some (ok, res)"
    "ok \<longrightarrow> length (sections res) = 1 \<and> up_symbol_id (params res) < dec_nof_symbols (ru_uplane_decoder cfg)"
    using uplane_decode_total [OF d fresh c, of "ru_decompress cfg" msg] by auto
  show ?thesis
  proof (cases ok)
    case False
    then show ?thesis using wf by (simp add: rx_uplane_decode_message_def r(1))
  next
    case True
    then obtain sec where sec: "sections res = [sec]" using r(2) by (auto simp: length_Suc_conv)
    have "sections_sized res" using uplane_decode_sized [OF r(1) fresh] cfg by (auto simp: ru_config_wf_def)
    then have "length (iq_samples sec) = sec_nof_prbs sec * 12" by (simp add: sections_sized_def sec)
    moreover have "up_symbol_id (params res) < MAX_NSYMB_PER_SLOT" using True r(2) cfg by (auto simp: ru_config_wf_def)
    ultimately show ?thesis
      using write_to_resource_grid_safe [OF _ _ e _ sec, of "ru_grids st" "ru_grid_repo st"] wf True
      by (auto simp: rx_uplane_decode_message_def r(1) ru_sector_wf_def)
  qed
qed

lemma on_cplane_message_safe:
  assumes cfg: "ru_config_wf cfg" and wf: "ru_sector_wf st" and p: "\<forall>t \<in> set (rx_pending (ru_grid_repo st)). task_in_slot t"
  shows "\<exists>st'. on_cplane_message_received (ru_dispatcher cfg) (ru_handlers cfg) eaxc res (Some st) = Some st' \<and> ru_sector_wf st'"
proof -
  obtain repo where "process_pending_contexts (ru_grids st) (ru_grid_repo st) = Some repo"
    using process_pending_Some [OF _ p] wf by (auto simp: ru_sector_wf_def)
  then have "handle_downlink_scheduling cfg eaxc res st \<noteq> None"
    by (auto simp: handle_downlink_scheduling_def Let_def split: prod.split)
  then obtain st1 where st1: "handle_downlink_scheduling cfg eaxc res st = Some st1" by auto
  from handle_downlink_scheduling_wf [OF cfg wf this] have "ru_sector_wf st1" .
  then show ?thesis
    using wf st1 by (auto simp: on_cplane_message_received_def ru_handlers_def handle_uplink_scheduling_def
        handle_prach_scheduling_def Let_def ru_sector_wf_def)
qed

text \<open>The Control-Plane frames the receiver cannot process.\<close>

definition bad_control_frame :: "bytes \<Rightarrow> 'iq ru_sector \<Rightarrow> bool" where
  "bad_control_frame payload st \<longleftrightarrow>
     (\<exists>ep pdu q msg. eth_decode empty_eth_params (pad_frame payload) = Some (ep, pdu) \<and>
        ecpri_decode decode_payload_use_size empty_packet_parameters pdu = Some (q, msg) \<and>
        msg_type (header q) = rt_control_data \<and>
        (unat (ident_of_params (type_params q)) \<ge> MAX_SUPPORTED_EAXC_ID_VALUE \<or>
         (\<exists>t \<in> set (rx_pending (ru_grid_repo st)). \<not> task_in_slot t)))"

lemma ecpri_decode_type:
  assumes "ecpri_decode decode_payload_use_size p pdu = Some (q, msg)" "msg \<noteq> []"
  shows "msg_type (header q) = iq_data \<and> (\<exists>pc sq. type_params q = iq_data_parameters pc sq) \<or>
    msg_type (header q) = rt_control_data \<and> (\<exists>rtc sq. type_params q = realtime_control_parameters rtc sq)"
  using assms
  by (auto simp: ecpri_decode_def decode_payload_use_size_def Let_def deserialize_iq_data_parameters_def
      deserialize_rt_control_parameters_def split: Option.bind_splits if_splits)

lemma read_first_byte: "msg \<noteq> [] \<Longrightarrow> \<exists>b r. read_u8 msg = Some (b, r)"
  by (cases msg) (auto simp: read_u8_def)

lemma process_rt_control_safe:
  assumes cfg: "ru_config_wf cfg" and wf: "ru_sector_wf st" and p: "\<forall>t \<in> set (rx_pending (ru_grid_repo st)). task_in_slot t"
    and e: "unat rtc < MAX_SUPPORTED_EAXC_ID_VALUE" and msg: "msg \<noteq> []"
  shows "\<exists>st'. process_rt_control_data cfg rtc sq msg st = Some st' \<and> ru_sector_wf st'"
proof -
  obtain b r where b: "read_u8 msg = Some (b, r)" using read_first_byte [OF msg] by blast
  have seq: "\<exists>x chk'. update_and_compare_seq_id (unat rtc) (ucast (drop_bit 8 sq)) chk = Some (x, chk')" for chk
    using update_and_compare_total [OF e] by blast
  obtain x y where x: "update_and_compare_seq_id (unat rtc) (ucast (drop_bit 8 sq)) (ru_cplane_dl_seq st) = Some x"
    "update_and_compare_seq_id (unat rtc) (ucast (drop_bit 8 sq)) (ru_cplane_ul_seq st) = Some y"
    using seq by blast
  have dl: "\<exists>st'. rx_cplane_decode_message cfg (unat rtc) msg st1 = Some st' \<and> ru_sector_wf st'"
    if "ru_sector_wf st1" "rx_pending (ru_grid_repo st1) = rx_pending (ru_grid_repo st)" for st1
  proof -
    obtain ok res where "cplane_decode (ru_numerology cfg) msg = Some (ok, res)" using cplane_decode_bounds by blast
    then show ?thesis
      using on_cplane_message_safe [OF cfg that(1)] that p by (auto simp: rx_cplane_decode_message_def)
  qed
  show ?thesis
    using wf by (auto simp: process_rt_control_data_def b x Let_def ru_sector_wf_def case_prod_unfold
        intro!: dl [unfolded ru_sector_wf_def])
qed

lemma process_frame_safe:
  assumes cfg: "ru_config_wf cfg" and wf: "ru_sector_wf st" and good: "\<not> bad_control_frame payload st"
  shows "\<exists>st'. process_frame cfg payload st = Some st' \<and> ru_sector_wf st'"
proof -
  obtain ep pdu where e: "eth_decode empty_eth_params (pad_frame payload) = Some (ep, pdu)" using eth_decode_safe by blast
  obtain q msg where q: "ecpri_decode decode_payload_use_size empty_packet_parameters pdu = Some (q, msg)"
    using ecpri_decode_safe by blast
  show ?thesis
  proof (cases "pdu = [] \<or> should_ethernet_frame_be_filtered (ru_vlan_params cfg) ep \<or> msg = []")
    case True
    then show ?thesis using wf by (auto simp: process_frame_def e q)
  next
    case False
    let ?st = "check_rx_window cfg msg st"
    have wf': "ru_sector_wf ?st" using wf by (simp add: ru_sector_wf_def)
    from ecpri_decode_type [OF q] False consider
      (iq) pc sq where "msg_type (header q) = iq_data" "type_params q = iq_data_parameters pc sq"
      | (rt) rtc sq where "msg_type (header q) = rt_control_data" "type_params q = realtime_control_parameters rtc sq" by blast
    then show ?thesis
    proof cases
      case iq
      have "\<exists>st'. process_iq_data cfg pc sq msg ?st = Some st' \<and> ru_sector_wf st'"
      proof (cases "unat pc \<in> set (disp_dl_eaxc (ru_dispatcher cfg))")
        case True
        then have "unat pc < MAX_SUPPORTED_EAXC_ID_VALUE" using cfg by (simp add: ru_config_wf_def)
        then obtain r chk where "update_and_compare_seq_id (unat pc) (ucast (drop_bit 8 sq)) (ru_uplane_seq st) = Some (r, chk)"
          using update_and_compare_total by blast
        then show ?thesis
          using rx_uplane_decode_message_safe [OF cfg _ True, of "?st\<lparr>ru_uplane_seq := chk\<rparr>" msg] wf True
          by (simp add: process_iq_data_def Let_def ru_sector_wf_def)
      qed (use wf' in \<open>simp add: process_iq_data_def\<close>)
      then show ?thesis using iq False by (simp add: process_frame_def e q Let_def)
    next
      case rt
      then have "unat rtc < MAX_SUPPORTED_EAXC_ID_VALUE" "\<forall>t \<in> set (rx_pending (ru_grid_repo ?st)). task_in_slot t"
        using good e q unfolding bad_control_frame_def by (fastforce simp: ident_of_params_def not_le)+
      then show ?thesis
        using process_rt_control_safe [OF cfg wf', of rtc msg sq] rt False
        by (simp add: process_frame_def e q Let_def iq_data_def rt_control_data_def)
    qed
  qed
qed

text \<open>A Control-Plane frame of a supported eAxC reaches the dispatcher.\<close>

lemma process_control_frame:
  assumes v: "eth_params_wf (ru_vlan_params cfg)" and msg: "msg \<noteq> []" "length msg + 4 < 65536"
    and e: "eaxc < MAX_SUPPORTED_EAXC_ID_VALUE" and d: "cplane_decode (ru_numerology cfg) msg = Some (True, res)"
  shows "\<exists>st1. process_frame cfg (eth_frame (ru_vlan_params cfg) (ecpri_packet (realtime_control_parameters (of_nat eaxc) sq) msg)) st =
      on_cplane_message_received (ru_dispatcher cfg) (ru_handlers cfg) eaxc res (Some st1) \<and>
    ru_grids st1 = ru_grids st \<and> ru_grid_repo st1 = ru_grid_repo st \<and> ru_recorder st1 = ru_recorder st"
proof -
  let ?st = "check_rx_window cfg msg st"
  obtain b r where b: "read_u8 msg = Some (b, r)" using read_first_byte [OF msg(1)] by blast
  have u: "unat (of_nat eaxc :: u16) = eaxc" using e by (simp add: unat_u16 MAX_SUPPORTED_EAXC_ID_VALUE_def)
  obtain x y where x: "update_and_compare_seq_id eaxc (ucast (drop_bit 8 sq)) (ru_cplane_dl_seq st) = Some x"
    "update_and_compare_seq_id eaxc (ucast (drop_bit 8 sq)) (ru_cplane_ul_seq st) = Some y"
    using update_and_compare_total [OF e] by blast
  let ?st1 = "if unat b AND 0x80 \<noteq> 0 then ?st\<lparr>ru_cplane_dl_seq := snd x\<rparr> else ?st\<lparr>ru_cplane_ul_seq := snd y\<rparr>"
  have "process_rt_control_data cfg (of_nat eaxc) sq msg ?st =
      on_cplane_message_received (ru_dispatcher cfg) (ru_handlers cfg) eaxc res (Some ?st1)"
    by (simp add: process_rt_control_data_def b u x Let_def rx_cplane_decode_message_def d case_prod_unfold)
  then show ?thesis
    unfolding process_frame_packet [OF v msg] by (intro exI [of _ ?st1]) simp
qed

lemma register_symbols_capacity:
  "register_symbols ctx rg store ks repo = Some repo' \<Longrightarrow> rx_capacity repo' = rx_capacity repo"
  by (induction ks arbitrary: repo) (auto split: Option.bind_splits if_splits)

lemma process_pending_capacity:
  assumes "process_pending_contexts store repo = Some repo'"
  shows "rx_capacity repo' = rx_capacity repo"
proof -
  have "rx_capacity q = rx_capacity p" if "run_add_tasks store ts p = Some q" for ts p q
    using that
  proof (induction ts arbitrary: p)
    case (Cons t ts)
    then show ?case using register_symbols_capacity by (fastforce simp: run_add_task_def Let_def split: Option.bind_splits)
  qed simp
  from this [of "rx_pending repo" "repo\<lparr>rx_pending := []\<rparr>" repo'] assms show ?thesis
    by (simp add: process_pending_contexts_def)
qed

lemma handle_downlink_scheduling_eq:
  assumes "process_pending_contexts (ru_grids st) (ru_grid_repo st) = Some repo"
    and "(case find_grid (slot (radio_hdr res)) repo of Some g \<Rightarrow> (Some g, ru_grids st)
      | None \<Rightarrow> phy_get_downlink_rx_grid (ru_phy cfg) (slot (radio_hdr res)) (ru_grids st)) = (Some g, grids)"
  shows "handle_downlink_scheduling cfg eaxc res st = Some (st\<lparr>ru_grids := grids,
    ru_grid_repo := rx_add \<lparr>gc_slot = slot (radio_hdr res), gc_sector = ru_sector_id cfg\<rparr> (Some g)
      (start_symbol (radio_hdr res)) (start_symbol (radio_hdr res) + nof_symbols (section res)) repo\<rparr>)"
  using assms by (simp add: handle_downlink_scheduling_def Let_def)

lemma process_pending_None:
  "\<exists>t \<in> set (rx_pending repo). \<not> task_in_slot t \<Longrightarrow> process_pending_contexts store repo = None"
  by (simp add: process_pending_contexts_def run_add_tasks_None)

section \<open>Properties\<close>


definition sample_ru_config :: "nat ru_sector_config" where
  "sample_ru_config =
     \<lparr>ru_sector_id = 0, ru_numerology = 1, ru_nof_symbols = 14,
      ru_vlan_params = \<lparr>mac_dst_address = replicate 6 1, mac_src_address = replicate 6 2, vlan_config = None, eth_type = ECPRI_ETH_TYPE\<rparr>,
      ru_dispatcher = \<lparr>disp_dl_eaxc = [4, 7], disp_ul_eaxc = [4, 7], disp_prach_eaxc = [8]\<rparr>, ru_store_and_respond = True,
      ru_uplane_decoder = sample_decoder, ru_decode_header = up_decode_compression_header_dynamic,
      ru_decompress = (\<lambda>n bs c. replicate n 0),
      ru_phy = \<lparr>phy_get_downlink_rx_grid = (\<lambda>s store. (if store = [] then None else Some 0, store)),
               phy_get_uplink_tx_grid = (\<lambda>s. None)\<rparr>,
      ru_finalize_offset = 14\<rparr>"

definition sample_ru_sector :: "nat ru_sector" where
  "sample_ru_sector =
     \<lparr>ru_grids = [sample_grid], ru_grid_repo = rx_grid_repo_init 40,
      ru_recorder = \<lparr>rec_scs = scs_kHz30, rec_ru_nof_prbs = 273, rec_ul_repo = request_repo_init 40,
                    rec_prach_repo = request_repo_init 40\<rparr>,
      ru_uplane_seq = seq_checker_init, ru_cplane_dl_seq = seq_checker_init, ru_cplane_ul_seq = seq_checker_init,
      ru_window = \<lparr>sym_start = 1, sym_end = 5, is_disabled = False,
                   statistics = \<lparr>latest_packet_in_symbols = 0, earliest_packet_in_symbols = 0, on_time_counter = 0,
                     early_counter = 0, late_counter = 0, last_on_time_value_printed = 0, last_early_value_printed = 0,
                     last_late_value_printed = 0\<rparr>, slot_raw_value = 0\<rparr>,
      ru_ul_contexts = [], ru_prach_contexts = []\<rparr>"

lemma sample_ru_config_wf: "ru_config_wf sample_ru_config" "eth_params_wf (ru_vlan_params sample_ru_config)"
  by (auto simp: ru_config_wf_def sample_ru_config_def sample_decoder_def MAX_SUPPORTED_EAXC_ID_VALUE_def NOF_NUMEROLOGIES_def
      MAX_NOF_PRBS_def MAX_NSYMB_PER_SLOT_def same_shape_def eth_params_wf_def ECPRI_ETH_TYPE_def VLAN_TPID_def)

lemma sample_ru_sector_wf: "ru_sector_wf sample_ru_sector"
  using rx_init_wf [of 40 "[sample_grid]"] sample_store_wf by (simp add: ru_sector_wf_def sample_ru_sector_def)


text \<open>
  C34: A Control-Plane packet for an eAxC of 32 or more breaks the receiver: its sequence identifier is
  checked, in a table of 32 eAxCs, before the eAxC is compared with the configured ones.
\<close>

theorem control_eaxc_unchecked:
  assumes "eth_params_wf (ru_vlan_params cfg)" "msg \<noteq> []" "length msg + 4 < 65536"
    and "MAX_SUPPORTED_EAXC_ID_VALUE \<le> eaxc" "eaxc < 65536"
  shows "process_frame cfg (eth_frame (ru_vlan_params cfg) (ecpri_packet (realtime_control_parameters (of_nat eaxc) sq) msg)) st = None"
proof -
  obtain b r where b: "read_u8 msg = Some (b, r)" using read_first_byte [OF assms(2)] by blast
  have u: "unat (of_nat eaxc :: u16) = eaxc" using assms(5) by (simp add: unat_u16)
  show ?thesis
    unfolding process_frame_packet [OF assms(1-3)]
    using assms(4) by (simp add: process_rt_control_data_def b u Let_def update_and_compare_seq_id_def)
qed

theorem control_eaxc_unchecked_witness:
  "process_frame sample_ru_config (eth_frame (ru_vlan_params sample_ru_config)
     (ecpri_packet (realtime_control_parameters (of_nat 32) 0) [0x90])) sample_ru_sector = None"
  by (rule control_eaxc_unchecked) (simp_all add: sample_ru_config_wf(2) MAX_SUPPORTED_EAXC_ID_VALUE_def)

text \<open>
  C35: A downlink section type 1 message whose symbols run past the slot is accepted and registered, and the
  next symbol boundary then accesses the repository out of bounds: neither the decoder nor the handler
  checks the start symbol and the number of symbols of the message.
\<close>

theorem downlink_symbols_unchecked:
  assumes "eth_params_wf (ru_vlan_params cfg)" "ru_config_wf cfg" "ru_sector_wf st" "rx_pending (ru_grid_repo st) = []"
    and "0 < rx_capacity (ru_grid_repo st)" "eaxc \<in> set (disp_dl_eaxc (ru_dispatcher cfg))"
    and "radio_hdr_wf (ru_numerology cfg) (t1_radio_hdr p)" "section_wf (t1_section p)" "compr_wf (t1_compr p)"
    and "direction (t1_radio_hdr p) = downlink" "0 < nof_symbols (t1_section p)"
    and "MAX_NSYMB_PER_SLOT < start_symbol (t1_radio_hdr p) + nof_symbols (t1_section p)"
    and "fst (phy_get_downlink_rx_grid (ru_phy cfg) (wire_slot (slot (t1_radio_hdr p))) (ru_grids st)) \<noteq> None"
  shows "\<exists>st'. process_frame cfg (eth_frame (ru_vlan_params cfg) (ecpri_packet (realtime_control_parameters (of_nat eaxc) sq)
      (build_dl_ul_radio_channel_message serialize_compression_header_dynamic p))) st = Some st' \<and>
    (\<forall>sp. downlink_on_new_symbol cfg sp st' = None)"
proof -
  let ?msg = "build_dl_ul_radio_channel_message serialize_compression_header_dynamic p"
  let ?s = "wire_slot (slot (t1_radio_hdr p))"
  have e: "eaxc < MAX_SUPPORTED_EAXC_ID_VALUE" using assms(2,6) by (simp add: ru_config_wf_def)
  obtain res where d: "cplane_decode (ru_numerology cfg) ?msg = Some (True, res)" "section_type res = 1"
    "radio_hdr res = (t1_radio_hdr p)\<lparr>slot := ?s\<rparr>" "section res = wire_section (t1_section p)"
    using dynamic_header.type_1_round_trip [OF assms(7-9), of "[]"] by simp
  have len: "?msg \<noteq> []" "length ?msg + 4 < 65536"
    using dynamic_header.length_ser
    by (simp_all add: build_dl_ul_radio_channel_message_def serialize_section_1_def serialize_section1_extensions_def
        build_radio_hdr_def)
  obtain st1 where st1: "process_frame cfg (eth_frame (ru_vlan_params cfg) (ecpri_packet (realtime_control_parameters (of_nat eaxc) sq) ?msg)) st =
      on_cplane_message_received (ru_dispatcher cfg) (ru_handlers cfg) eaxc res (Some st1)"
    "ru_grids st1 = ru_grids st" "ru_grid_repo st1 = ru_grid_repo st"
    using process_control_frame [OF assms(1) len e d(1)] by blast
  have sl: "slot (radio_hdr res) = ?s" by (simp add: d)
  have pend: "process_pending_contexts (ru_grids st1) (ru_grid_repo st1) = Some (ru_grid_repo st)"
    using assms(4) by (simp add: process_pending_contexts_def st1)
  obtain g grids where g: "(case find_grid ?s (ru_grid_repo st) of Some g \<Rightarrow> (Some g, ru_grids st1)
      | None \<Rightarrow> phy_get_downlink_rx_grid (ru_phy cfg) ?s (ru_grids st1)) = (Some g, grids)"
    using assms(13) st1(2) by (cases "find_grid ?s (ru_grid_repo st)") (auto, metis prod.collapse)
  let ?t = "\<lparr>task_context = \<lparr>gc_slot = ?s, gc_sector = ru_sector_id cfg\<rparr>, task_grid = Some g, task_start = start_symbol (t1_radio_hdr p),
      task_stop = start_symbol (t1_radio_hdr p) + nof_symbols (t1_section p)\<rparr>"
  let ?st = "st1\<lparr>ru_grids := grids, ru_grid_repo := (ru_grid_repo st)\<lparr>rx_pending := [?t]\<rparr>\<rparr>"
  have "handle_downlink_scheduling cfg eaxc res st1 = Some ?st"
    using handle_downlink_scheduling_eq [OF pend, of cfg res, unfolded sl, OF g, of eaxc] assms(4,5)
    by (simp add: d wire_section_def rx_add_def)
  moreover have "\<not> task_in_slot ?t" using assms(11,12) by (simp add: task_in_slot_def)
  then have "process_pending_contexts (ru_grids ?st) (ru_grid_repo ?st) = None"
    by (intro process_pending_None bexI [of _ ?t]) simp_all
  ultimately show ?thesis
    using assms(6,10)
    by (simp add: st1 on_cplane_message_received_def CPLANE_SECTION_TYPE_PRACH_def d ru_handlers_def is_eaxc_configured_def
        downlink_on_new_symbol_def)
qed

theorem downlink_symbols_unchecked_witness:
  "\<exists>p st'. process_frame sample_ru_config (eth_frame (ru_vlan_params sample_ru_config)
      (ecpri_packet (realtime_control_parameters (of_nat 4) 0)
        (build_dl_ul_radio_channel_message serialize_compression_header_dynamic p))) sample_ru_sector = Some st' \<and>
    downlink_on_new_symbol sample_ru_config \<lparr>ssp_nof_symbols = 14, ssp_numerology = 1, ssp_count = 3\<rparr> st' = None"
proof -
  let ?p = "\<lparr>t1_radio_hdr = sample_radio_hdr\<lparr>direction := downlink, start_symbol := 60\<rparr>, t1_section = sample_section,
    t1_compr = \<lparr>compr_type = BFP, data_width = 9\<rparr>\<rparr>"
  have "radio_hdr_wf (ru_numerology sample_ru_config) (t1_radio_hdr ?p)"
    using sample_wf(1) by (simp add: radio_hdr_wf_def sample_ru_config_def)
  from downlink_symbols_unchecked [OF sample_ru_config_wf(2,1) sample_ru_sector_wf _ _ _ this, of 4 0] sample_wf(2) show ?thesis
    by (auto simp: sample_ru_sector_def rx_grid_repo_init_def sample_ru_config_def compr_wf_def sample_section_def
        MAX_NSYMB_PER_SLOT_def)
qed

end
