(* ===== verification/Fronthaul_Link.thy ===== *)
theory Fronthaul_Link
  imports Ru_Receiver
begin

text \<open>
  The fronthaul link: the frames that the transmitters of the O-DU build, received by the O-RU.  The lemmas
  connect the transmitter side (theories Cplane_Scheduling and Uplane_Transmitter) to the receiver side
  (theory Ru_Receiver) over the protocol layers; the root theory states the properties.
\<close>

section \<open>Control-Plane requests from the O-DU to the O-RU\<close>

text \<open>What the O-RU decodes of a section type 1 message, with either compression header.\<close>

lemma cplane_type_1_decoded:
  assumes "ser = serialize_compression_header_dynamic \<and> compr_wf (t1_compr p) \<or> ser = serialize_compression_header_static"
    and "radio_hdr_wf \<mu> (t1_radio_hdr p)" "section_wf (t1_section p)"
  shows "\<exists>res. cplane_decode \<mu> (build_dl_ul_radio_channel_message ser p) = Some (True, res) \<and> section_type res = 1 \<and>
      radio_hdr res = (t1_radio_hdr p)\<lparr>slot := wire_slot (slot (t1_radio_hdr p))\<rparr> \<and>
      section res = wire_section (t1_section p)"
    and "length (build_dl_ul_radio_channel_message ser p) = 16"
proof -
  show "\<exists>res. cplane_decode \<mu> (build_dl_ul_radio_channel_message ser p) = Some (True, res) \<and> section_type res = 1 \<and>
      radio_hdr res = (t1_radio_hdr p)\<lparr>slot := wire_slot (slot (t1_radio_hdr p))\<rparr> \<and>
      section res = wire_section (t1_section p)"
    using assms dynamic_header.type_1_round_trip [of \<mu> p "[]"] static_header.type_1_round_trip [of \<mu> p "[]"] by fastforce
  show "length (build_dl_ul_radio_channel_message ser p) = 16"
    using assms(1) dynamic_header.length_ser static_header.length_ser
    by (auto simp: build_dl_ul_radio_channel_message_def serialize_section_1_def serialize_section1_extensions_def)
qed

definition control_header_ok :: "cplane_tx_config \<Rightarrow> bool" where
  "control_header_ok cfg \<longleftrightarrow>
     ctx_serialize_header cfg = serialize_compression_header_dynamic \<and> compr_wf (ctx_dl_compr cfg) \<and> compr_wf (ctx_ul_compr cfg) \<and>
       compr_wf (ctx_prach_compr cfg) \<or>
     ctx_serialize_header cfg = serialize_compression_header_static"

text \<open>A section type 1 command of the O-DU reaches the dispatcher of the O-RU with its slot and symbols.\<close>

lemma type_1_command_received:
  assumes vlan: "eth_params_wf (ru_vlan_params cfg)" "ctx_vlan tx = ru_vlan_params cfg" and hdr: "control_header_ok tx"
    and buf: "eth_builder_header_size (ctx_vlan tx) + 24 \<le> length buffer"
    and ctx: "sp_wf (c1_slot ctx)" "numerology_val (c1_slot ctx) = ru_numerology cfg" "c1_eaxc ctx < MAX_SUPPORTED_EAXC_ID_VALUE"
      "c1_start_symbol ctx < c1_stop_symbol ctx" "c1_stop_symbol ctx \<le> 14"
  shows "\<exists>frame tst' st1 res. cplane_enqueue_section_type_1_message tx ctx (Some buffer) tst = Some (Some frame, tst') \<and>
    process_frame cfg frame st =
      on_cplane_message_received (ru_dispatcher cfg) (ru_handlers cfg) (c1_eaxc ctx) res (Some st1) \<and>
    ru_grids st1 = ru_grids st \<and> ru_grid_repo st1 = ru_grid_repo st \<and> ru_recorder st1 = ru_recorder st \<and>
    section_type res = 1 \<and> radio_hdr res = \<lparr>direction = c1_direction ctx, filter_index = c1_filter_type ctx,
      start_symbol = c1_start_symbol ctx, slot = wire_slot (c1_slot ctx)\<rparr> \<and>
    nof_symbols (section res) = c1_stop_symbol ctx - c1_start_symbol ctx \<and> section_id (section res) = 0"
proof -
  let ?p = "generate_section1_control_parameters ctx (ctx_ru_nof_prbs tx)
    (if c1_direction ctx = downlink then ctx_dl_compr tx else ctx_ul_compr tx)"
  let ?msg = "build_dl_ul_radio_channel_message (ctx_serialize_header tx) ?p"
  have p: "t1_radio_hdr ?p = \<lparr>direction = c1_direction ctx, filter_index = c1_filter_type ctx,
      start_symbol = c1_start_symbol ctx, slot = c1_slot ctx\<rparr>"
    "nof_symbols (t1_section ?p) = c1_stop_symbol ctx - c1_start_symbol ctx" "section_id (t1_section ?p) = 0"
    by (simp_all add: generate_section1_control_parameters_def init_radio_app_header_parameters_def
        init_common_section_0_1_3_5_fields_def)
  have wf: "radio_hdr_wf (ru_numerology cfg) (t1_radio_hdr ?p)" "section_wf (t1_section ?p)"
    using ctx by (simp_all add: radio_hdr_wf_def section_wf_def generate_section1_control_parameters_def
        init_radio_app_header_parameters_def init_common_section_0_1_3_5_fields_def)
  have ser: "ctx_serialize_header tx = serialize_compression_header_dynamic \<and> compr_wf (t1_compr ?p) \<or>
      ctx_serialize_header tx = serialize_compression_header_static"
    using hdr by (auto simp: control_header_ok_def generate_section1_control_parameters_def)
  obtain res where res: "cplane_decode (ru_numerology cfg) ?msg = Some (True, res)" "section_type res = 1"
    "radio_hdr res = (t1_radio_hdr ?p)\<lparr>slot := wire_slot (slot (t1_radio_hdr ?p))\<rparr>" "section res = wire_section (t1_section ?p)"
    using cplane_type_1_decoded(1) [OF ser wf] by blast
  have len: "length ?msg = 16" by (rule cplane_type_1_decoded(2) [OF ser wf])
  then have msg: "?msg \<noteq> []" "length ?msg + 4 < 65536" by auto
  obtain tst' sid where enq: "cplane_enqueue_section_type_1_message tx ctx (Some buffer) tst = Some (Some (eth_frame (ctx_vlan tx)
      (ecpri_packet (generate_ecpri_control_parameters sid (of_nat (c1_eaxc ctx))) ?msg)), tst')"
    using build_control_frame_eq [of "ctx_vlan tx" _ _ _ ?msg buffer] vlan buf len ctx(3)
    by (cases "c1_direction ctx"; simp add: cplane_enqueue_section_type_1_message_def Let_def seq_generate_def generate_ecpri_control_parameters_def)
  obtain sq where sq: "generate_ecpri_control_parameters sid (of_nat (c1_eaxc ctx)) =
      realtime_control_parameters (of_nat (c1_eaxc ctx)) sq" by (simp add: generate_ecpri_control_parameters_def)
  from process_control_frame [OF vlan(1) msg ctx(3) res(1), of sq st] enq res p show ?thesis
    unfolding sq vlan(2) by (fastforce simp: wire_section_def)
qed

section \<open>PRACH requests\<close>

lemma prach_scs_round_trip: "scs \<noteq> ra_invalid \<Longrightarrow> to_prach_subcarrier_spacing (cplane_convert_scs scs) = scs"
  by (cases scs) (simp_all add: to_prach_subcarrier_spacing_def cplane_convert_scs_def cplane_kHz15_def cplane_kHz30_def
      cplane_kHz60_def cplane_kHz120_def cplane_kHz1_25_def cplane_kHz5_def)

lemma cplane_convert_scs_less: "cplane_convert_scs scs < 16"
  by (cases scs) (simp_all add: cplane_convert_scs_def cplane_kHz1_25_def cplane_kHz5_def)

lemma spacing_ratio_le:
  assumes "1000 * scs_to_khz pusch = K * ra_scs_to_Hz scs"
  shows "K \<le> 384"
proof -
  have "1250 \<le> ra_scs_to_Hz scs" by (cases scs) (simp_all add: ra_scs_to_Hz_def)
  then have "K * 1250 \<le> 1000 * scs_to_khz pusch" unfolding assms by simp
  also have "\<dots> \<le> 480000" by (cases pusch) (simp_all add: scs_to_khz_def)
  finally show ?thesis by simp
qed

lemma prach_frequency_offset_bounds:
  assumes "K \<le> 384" "rb \<le> ru_prbs" "ru_prbs \<le> MAX_NOF_PRBS"
  shows "- (2 ^ 23) \<le> 12 * int K * (2 * int rb - int ru_prbs)" "12 * int K * (2 * int rb - int ru_prbs) < 2 ^ 23"
proof -
  have "\<bar>2 * int rb - int ru_prbs\<bar> \<le> 275" using assms by (simp add: MAX_NOF_PRBS_def)
  then have "\<bar>12 * int K * (2 * int rb - int ru_prbs)\<bar> \<le> 12 * 384 * 275"
    unfolding abs_mult using assms(1) by (intro mult_mono) auto
  then show "- (2 ^ 23) \<le> 12 * int K * (2 * int rb - int ru_prbs)" "12 * int K * (2 * int rb - int ru_prbs) < 2 ^ 23" by simp_all
qed

lemma cplane_type_3_decoded:
  assumes "ser = serialize_compression_header_dynamic \<and> compr_wf (t3_compr p) \<or> ser = serialize_compression_header_static"
    and "radio_hdr_wf \<mu> (t3_radio_hdr p)" "section_wf (t3_section p)" "t3_scs p < 16" "t3_fft_size p < 16" "t3_cpLength p < 65536"
    and "- (2 ^ 23) \<le> t3_frequency_offset p" "t3_frequency_offset p < 2 ^ 23"
  shows "\<exists>res. cplane_decode \<mu> (build_prach_mixed_numerology_message ser p) = Some (True, res) \<and> section_type res = 3 \<and>
      radio_hdr res = (t3_radio_hdr p)\<lparr>slot := wire_slot (slot (t3_radio_hdr p))\<rparr> \<and>
      section res = wire_section (t3_section p) \<and> frame_structure_scs res = t3_scs p \<and> frequency_offset res = t3_frequency_offset p"
    and "length (build_prach_mixed_numerology_message ser p) = 24"
proof -
  show "\<exists>res. cplane_decode \<mu> (build_prach_mixed_numerology_message ser p) = Some (True, res) \<and> section_type res = 3 \<and>
      radio_hdr res = (t3_radio_hdr p)\<lparr>slot := wire_slot (slot (t3_radio_hdr p))\<rparr> \<and>
      section res = wire_section (t3_section p) \<and> frame_structure_scs res = t3_scs p \<and> frequency_offset res = t3_frequency_offset p"
    using assms dynamic_header.type_3_round_trip [of \<mu> p "[]"] static_header.type_3_round_trip [of \<mu> p "[]"] by fastforce
  show "length (build_prach_mixed_numerology_message ser p) = 24"
    using assms(1) dynamic_header.length_ser static_header.length_ser
    by (auto simp: build_prach_mixed_numerology_message_def serialize_section_3_def)
qed

lemma prach_command_received:
  assumes vlan: "eth_params_wf (ru_vlan_params cfg)" "ctx_vlan tx = ru_vlan_params cfg" and hdr: "control_header_ok tx"
    and buf: "eth_builder_header_size (ctx_vlan tx) + 32 \<le> length buffer" and fft: "ctx_fft_size tx < 16"
    and ctx: "sp_wf (c3_slot ctx)" "numerology_val (c3_slot ctx) = ru_numerology cfg" "c3_eaxc ctx < MAX_SUPPORTED_EAXC_ID_VALUE"
      "c3_start_symbol ctx < 64" "c3_nof_repetitions ctx < 16"
    and freq: "1000 * scs_to_khz (c3_scs ctx) = K * ra_scs_to_Hz (c3_prach_scs ctx)"
      "c3_prach_start_re ctx = rb * K * NOF_SUBCARRIERS_PER_RB" "rb \<le> ctx_ru_nof_prbs tx" "ctx_ru_nof_prbs tx \<le> MAX_NOF_PRBS"
  shows "\<exists>frame tst' st1 res. cplane_enqueue_section_type_3_prach_message tx ctx (Some buffer) tst = Some (Some frame, tst') \<and>
    process_frame cfg frame st =
      on_cplane_message_received (ru_dispatcher cfg) (ru_handlers cfg) (c3_eaxc ctx) res (Some st1) \<and>
    ru_recorder st1 = ru_recorder st \<and>
    section_type res = 3 \<and> radio_hdr res = \<lparr>direction = uplink, filter_index = c3_filter_type ctx,
      start_symbol = c3_start_symbol ctx, slot = wire_slot (c3_slot ctx)\<rparr> \<and>
    nof_symbols (section res) = c3_nof_repetitions ctx \<and> frame_structure_scs res = cplane_convert_scs (c3_prach_scs ctx) \<and>
    frequency_offset res = 12 * int K * (2 * int rb - int (ctx_ru_nof_prbs tx))"
proof -
  let ?p = "generate_prach_control_parameters ctx (ctx_prach_compr tx) (ctx_ru_nof_prbs tx) (ctx_fft_size tx)"
  let ?msg = "build_prach_mixed_numerology_message (ctx_serialize_header tx) ?p"
  have p: "t3_radio_hdr ?p = \<lparr>direction = uplink, filter_index = c3_filter_type ctx,
      start_symbol = c3_start_symbol ctx, slot = c3_slot ctx\<rparr>" "nof_symbols (t3_section ?p) = c3_nof_repetitions ctx"
    "t3_scs ?p = cplane_convert_scs (c3_prach_scs ctx)" "t3_fft_size ?p = ctx_fft_size tx" "t3_cpLength ?p = 0"
    by (simp_all add: generate_prach_control_parameters_def init_radio_app_header_parameters_def
        init_common_section_0_1_3_5_fields_def Let_def)
  have f: "t3_frequency_offset ?p = 12 * int K * (2 * int rb - int (ctx_ru_nof_prbs tx))"
    by (rule prach_frequency_offset_eq [OF freq(1,2)])
  note b = prach_frequency_offset_bounds [OF spacing_ratio_le [OF freq(1)] freq(3,4), folded f]
  have wf: "radio_hdr_wf (ru_numerology cfg) (t3_radio_hdr ?p)" "section_wf (t3_section ?p)"
    using ctx by (simp_all add: radio_hdr_wf_def section_wf_def generate_prach_control_parameters_def Let_def
        init_radio_app_header_parameters_def init_common_section_0_1_3_5_fields_def)
  have ser: "ctx_serialize_header tx = serialize_compression_header_dynamic \<and> compr_wf (t3_compr ?p) \<or>
      ctx_serialize_header tx = serialize_compression_header_static"
    using hdr by (auto simp: control_header_ok_def generate_prach_control_parameters_def Let_def)
  have fields: "t3_scs ?p < 16" "t3_fft_size ?p < 16" "t3_cpLength ?p < 65536"
    using fft cplane_convert_scs_less by (simp_all add: p)
  obtain res where res: "cplane_decode (ru_numerology cfg) ?msg = Some (True, res)" "section_type res = 3"
    "radio_hdr res = (t3_radio_hdr ?p)\<lparr>slot := wire_slot (slot (t3_radio_hdr ?p))\<rparr>" "section res = wire_section (t3_section ?p)"
    "frame_structure_scs res = t3_scs ?p" "frequency_offset res = t3_frequency_offset ?p"
    using cplane_type_3_decoded(1) [OF ser wf fields b] by blast
  have len: "length ?msg = 24" by (rule cplane_type_3_decoded(2) [OF ser wf fields b])
  then have msg: "?msg \<noteq> []" "length ?msg + 4 < 65536" by auto
  obtain tst' sid where enq: "cplane_enqueue_section_type_3_prach_message tx ctx (Some buffer) tst = Some (Some (eth_frame (ctx_vlan tx)
      (ecpri_packet (generate_ecpri_control_parameters sid (of_nat (c3_eaxc ctx))) ?msg)), tst')"
    using build_control_frame_eq [of "ctx_vlan tx" _ _ _ ?msg buffer] vlan buf len ctx(3)
    by (simp add: cplane_enqueue_section_type_3_prach_message_def Let_def seq_generate_def generate_ecpri_control_parameters_def)
  obtain sq where sq: "generate_ecpri_control_parameters sid (of_nat (c3_eaxc ctx)) =
      realtime_control_parameters (of_nat (c3_eaxc ctx)) sq" by (simp add: generate_ecpri_control_parameters_def)
  from process_control_frame [OF vlan(1) msg ctx(3) res(1), of sq st] enq res p f show ?thesis
    unfolding sq vlan(2) by (fastforce simp: wire_section_def)
qed

section \<open>User-Plane symbols\<close>

text \<open>
  The two ends of a User-Plane link agree: same Ethernet parameters and compression header variant, and a
  compressor and decompressor whose outputs have the size the code computes with.
\<close>

definition up_link_wf ::
  "'iq uplane_tx_config \<Rightarrow> vlan_frame_params \<Rightarrow> uplane_decoder_config \<Rightarrow> (decoder_uplane_section_params \<Rightarrow> bytes \<Rightarrow> section_step) \<Rightarrow> bool" where
  "up_link_wf tx vlan dec decode_hdr \<longleftrightarrow>
     utx_wf tx \<and> utx_vlan tx = vlan \<and> utx_ru_nof_prbs tx = ru_nof_prbs dec \<and> utx_direction tx = expected_direction dec \<and>
     compr_type (utx_compr_params tx) \<in> {compr_none, BFP, block_scaling, mu_law, modulation} \<and>
     (utx_serialize_header tx = up_serialize_compression_header_dynamic \<and> decode_hdr = up_decode_compression_header_dynamic \<or>
      utx_serialize_header tx = up_serialize_compression_header_static \<and>
        decode_hdr = up_decode_compression_header_static (utx_compr_params tx)) \<and>
     (\<forall>iq. length (utx_compress tx iq (utx_compr_params tx)) =
        length iq div NOF_SUBCARRIERS_PER_RB * get_compressed_prb_size (utx_compr_params tx))"

definition uplane_link_wf :: "'iq uplane_tx_config \<Rightarrow> 'iq ru_sector_config \<Rightarrow> bool" where
  "uplane_link_wf tx cfg \<longleftrightarrow> up_link_wf tx (ru_vlan_params cfg) (ru_uplane_decoder cfg) (ru_decode_header cfg)"

text \<open>The samples that arrive for a block: compressed and decompressed by the two ends.\<close>

definition transported_by ::
  "'iq uplane_tx_config \<Rightarrow> (nat \<Rightarrow> bytes \<Rightarrow> ru_compression_params \<Rightarrow> 'iq list) \<Rightarrow> 'iq list \<Rightarrow> nat \<times> nat \<Rightarrow> 'iq list" where
  "transported_by tx decompress iq r =
     decompress (snd r * 12) (utx_compress tx (slice_prbs iq r) (utx_compr_params tx)) (utx_compr_params tx)"

definition transported :: "'iq uplane_tx_config \<Rightarrow> 'iq ru_sector_config \<Rightarrow> 'iq list \<Rightarrow> nat \<times> nat \<Rightarrow> 'iq list" where
  "transported tx cfg = transported_by tx (ru_decompress cfg)"

lemma fragment_iq_slice: "fragment_iq iq r = slice_prbs iq r"
  by (simp add: fragment_iq_def slice_prbs_def NOF_SUBCARRIERS_PER_RB_def)

text \<open>The message of a fragment, decoded by a receiver of the other end of the link.\<close>

lemma fragment_message_decoded:
  fixes buffer :: bytes
  assumes link: "up_link_wf tx vlan cfg decode_hdr" and eaxc: "ug_eaxc ctx < MAX_SUPPORTED_EAXC_ID_VALUE"
    and p: "uplane_params_wf cfg (fragment_params tx ctx symbol_id r)"
    and sz: "get_prb_data_size (utx_compr_params tx) = Some sz"
    and iq: "(fst r + snd r) * NOF_SUBCARRIERS_PER_RB \<le> length iq"
    and room: "uplane_headers_size tx + snd r * sz \<le> length buffer" "length buffer \<le> MAX_ETH_FRAME_LENGTH"
  shows "\<exists>res sec. uplane_decode cfg decode_hdr decompress fresh_up_results (fragment_message tx ctx symbol_id iq r) = Some (True, res) \<and>
      up_slot (params res) = wire_slot (ug_slot ctx) \<and> up_symbol_id (params res) = symbol_id \<and>
      up_filter_index (params res) = standard_channel_filter \<and> sections res = [sec] \<and> sec_start_prb sec = fst r \<and>
      sec_nof_prbs sec = snd r \<and> is_every_rb_used sec \<and> use_current_symbol_number sec \<and>
      iq_samples sec = transported_by tx decompress iq r"
    and "fragment_message tx ctx symbol_id iq r \<noteq> []" "length (fragment_message tx ctx symbol_id iq r) + 4 < 65536"
proof -
  let ?p = "fragment_params tx ctx symbol_id r" and ?c = "utx_compr_params tx"
  let ?msg = "fragment_message tx ctx symbol_id iq r"
  have tx: "utx_wf tx" using link by (simp add: up_link_wf_def)
  note m = fragment_message_enqueued(2-4) [OF tx eaxc sz iq room(1)]
  have pf: "up_compression_params ?p = ?c" "up_nof_prb ?p = snd r" "up_start_prb ?p = fst r" "up_symbol_id ?p = symbol_id"
    "up_slot ?p = ug_slot ctx" "up_filter_index ?p = standard_channel_filter"
    by (simp_all add: fragment_params_def generate_ofh_user_parameters_def)
  have len: "length (utx_compress tx (fragment_iq iq r) (up_compression_params ?p)) =
      up_nof_prb ?p * get_compressed_prb_size (up_compression_params ?p)"
    using link m(3) by (simp add: up_link_wf_def pf NOF_SUBCARRIERS_PER_RB_def)
  have iql: "length (fragment_iq iq r) = up_nof_prb ?p * NOF_SUBCARRIERS_PER_RB" using m(3) by (simp add: pf)
  have plain: "compr_type (up_compression_params ?p) \<in> {compr_none, BFP, block_scaling, mu_law, modulation}"
    using link by (simp add: up_link_wf_def pf)
  have fresh: "sections (fresh_up_results :: 'a uplane_message_decoder_results) = []" by (simp add: fresh_up_results_def)
  have dyn: "compr_wf (up_compression_params ?p) \<and> compr_type (up_compression_params ?p) \<noteq> compr_reserved"
    using tx plain by (auto simp: utx_wf_def pf)
  let ?res = "\<lparr>params = (params (fresh_up_results :: 'a uplane_message_decoder_results))\<lparr>up_direction := up_direction ?p,
      up_filter_index := up_filter_index ?p, up_symbol_id := up_symbol_id ?p, up_slot := wire_slot (up_slot ?p)\<rparr>,
    sections = [decoder_uplane_section_params.extend ((wire_up_section ?p)\<lparr>ud_comp_hdr := up_compression_params ?p\<rparr>)
      \<lparr>iq_samples = decompress (up_nof_prb ?p * 12) (utx_compress tx (fragment_iq iq r) (up_compression_params ?p))
         (up_compression_params ?p)\<rparr>]\<rparr>"
  have "uplane_decode cfg decode_hdr decompress fresh_up_results ?msg = Some (True, ?res)"
    using link m(1) up_dynamic.round_trip [OF p dyn plain, where compress = "utx_compress tx" and iq = "fragment_iq iq r" and
        dec = decompress and res = fresh_up_results, OF len iql fresh]
      up_static.round_trip [OF p _ plain, where compress = "utx_compress tx" and iq = "fragment_iq iq r" and
        dec = decompress and res = fresh_up_results, OF _ len iql fresh, of ?c]
    by (auto simp: up_link_wf_def pf(1))
  then show "\<exists>res sec. uplane_decode cfg decode_hdr decompress fresh_up_results ?msg = Some (True, res) \<and>
      up_slot (params res) = wire_slot (ug_slot ctx) \<and> up_symbol_id (params res) = symbol_id \<and>
      up_filter_index (params res) = standard_channel_filter \<and> sections res = [sec] \<and> sec_start_prb sec = fst r \<and>
      sec_nof_prbs sec = snd r \<and> is_every_rb_used sec \<and> use_current_symbol_number sec \<and>
      iq_samples sec = transported_by tx decompress iq r"
    by (intro exI [of _ ?res])
      (simp add: pf wire_up_section_def decoder_uplane_section_params.defs transported_by_def fragment_iq_slice)
  show "?msg \<noteq> []" using m(1) [of symbol_id] by (auto simp: build_message_def build_radio_app_header_def split: if_splits)
  show "length ?msg + 4 < 65536" using m(2) [of symbol_id] room(2) by (simp add: MAX_ETH_FRAME_LENGTH_def)
qed

lemma fragment_frame_received:
  fixes buffer :: bytes
  assumes link: "uplane_link_wf tx cfg" and eaxc: "ug_eaxc ctx < MAX_SUPPORTED_EAXC_ID_VALUE"
    and p: "uplane_params_wf (ru_uplane_decoder cfg) (fragment_params tx ctx symbol_id r)"
    and sz: "get_prb_data_size (utx_compr_params tx) = Some sz"
    and iq: "(fst r + snd r) * NOF_SUBCARRIERS_PER_RB \<le> length iq"
    and room: "uplane_headers_size tx + snd r * sz \<le> length buffer" "length buffer \<le> MAX_ETH_FRAME_LENGTH"
  shows "\<exists>res. uplane_frame cfg (ug_eaxc ctx) (fragment_frame tx ctx symbol_id iq sid r) res \<and>
    is_block_message (wire_slot (ug_slot ctx)) symbol_id (transported tx cfg iq r) r res"
proof -
  note m = fragment_message_decoded(1) [OF link [unfolded uplane_link_wf_def] eaxc p sz iq room, where decompress = "ru_decompress cfg"]
    fragment_message_decoded(2,3) [OF link [unfolded uplane_link_wf_def] eaxc p sz iq room]
  obtain sq where "generate_ecpri_data_parameters (ucast sid) (of_nat (ug_eaxc ctx)) =
      iq_data_parameters (of_nat (ug_eaxc ctx)) sq" by (simp add: generate_ecpri_data_parameters_def)
  then show ?thesis
    using m link unfolding uplane_frame_def fragment_frame_def is_block_message_def transported_def uplane_link_wf_def up_link_wf_def
    by metis
qed

text \<open>
  Buffers of one size whose room is at most 255 PRBs or at least the whole symbol: no fragment is one of
  the sizes that the number of PRBs of a section cannot express.
\<close>

lemma fragment_sizes:
  assumes f: "fc_wf f" "fc_next_prb f = fc_start_prb f" and rooms: "\<forall>x \<in> set rooms. x = room"
    and fit: "room div fc_prb_size f \<le> 255 \<or> fc_nof_prbs f \<le> room div fc_prb_size f"
    and rs: "fragment_ranges f rooms = (rs, complete)"
  shows "\<forall>r \<in> set rs. snd r \<le> 255 \<or> r = (fc_start_prb f, fc_nof_prbs f)"
proof (cases "room div fc_prb_size f \<le> 255")
  case True
  have "snd r * fc_prb_size f \<le> room" if "r \<in> set rs" for r
    using fragment_ranges_partition [OF f(1) rs] that rooms by (cases r) fastforce
  then have "snd r \<le> room div fc_prb_size f" if "r \<in> set rs" for r
    using that f(1) by (simp add: less_eq_div_iff_mult_less_eq fc_wf_def)
  then show ?thesis using True by fastforce
next
  case False
  then have "fc_nof_prbs f \<le> room div fc_prb_size f" "\<not> room < fc_prb_size f" using fit by (auto simp: div_eq_0_iff)
  then show ?thesis
    using rs rooms f(2) by (cases rooms) (auto simp: calculate_fragment_size_def Let_def split: if_splits)
qed

text \<open>The loop over the buffers of one size: its frames carry the blocks of a partition of the symbol.\<close>

lemma symbol_fragments:
  assumes tx: "utx_wf tx" and e: "ug_eaxc ctx < MAX_SUPPORTED_EAXC_ID_VALUE" "length gen = MAX_SUPPORTED_EAXC_ID_VALUE"
    and f: "fragment_calculator_init 0 (utx_ru_nof_prbs tx) (utx_compr_params tx) = Some f"
    and iq: "length iq = utx_ru_nof_prbs tx * NOF_SUBCARRIERS_PER_RB"
    and bufs: "\<forall>b \<in> set buffers. length b = L" "uplane_headers_size tx \<le> L" "L \<le> MAX_ETH_FRAME_LENGTH"
    and fit: "(L - uplane_headers_size tx) div fc_prb_size f \<le> 255 \<or>
      utx_ru_nof_prbs tx \<le> (L - uplane_headers_size tx) div fc_prb_size f"
    and enq: "enqueue_fragments tx ctx symbol_id iq f buffers gen = Some (frames, gen', True)"
  shows "\<exists>rs. concat (map (\<lambda>(s, n). [s..<s + n]) rs) = [0..<utx_ru_nof_prbs tx] \<and>
    frames = map (\<lambda>k. fragment_frame tx ctx symbol_id iq (gen ! ug_eaxc ctx + of_nat k) (rs ! k)) [0..<length rs] \<and>
    (\<forall>r \<in> set rs. 0 < snd r \<and> fst r + snd r \<le> utx_ru_nof_prbs tx \<and> (snd r \<le> 255 \<or> r = (0, utx_ru_nof_prbs tx)) \<and>
       uplane_headers_size tx + snd r * fc_prb_size f \<le> L)"
proof -
  let ?N = "utx_ru_nof_prbs tx" and ?H = "uplane_headers_size tx"
  obtain sz where sz: "get_prb_data_size (utx_compr_params tx) = Some sz" "0 < sz"
    using tx prb_data_size_eq [of "utx_compr_params tx"] by (auto simp: utx_wf_def compr_wf_def)
  have f': "f = \<lparr>fc_start_prb = 0, fc_nof_prbs = ?N, fc_prb_size = sz, fc_next_prb = 0\<rparr>"
    using f(1) sz(1) by (simp add: fragment_calculator_init_def)
  have fw: "fc_wf f" "fc_end f = ?N" using sz(2) by (simp_all add: f' fc_wf_def fc_end_def)
  have room: "\<forall>b \<in> set buffers. frame_room tx b = L - ?H"
    using bufs frame_room_eq [of tx] by (simp add: MAX_ETH_FRAME_LENGTH_def)
  have big: "\<forall>b \<in> set buffers. ?H \<le> length b \<and> length b < 2 ^ 32" using bufs by (auto simp: MAX_ETH_FRAME_LENGTH_def)
  obtain rs complete where rs: "fragment_ranges f (map (frame_room tx) buffers) = (rs, complete)" by fastforce
  from enqueue_fragments_frames [OF tx e _ fw(1) _ big rs, of iq symbol_id] enq sz(1) iq fw(2) f'
  have frames: "frames = map (\<lambda>k. fragment_frame tx ctx symbol_id iq (gen ! ug_eaxc ctx + of_nat k) (rs ! k)) [0..<length rs]"
    and compl: "complete" by auto
  have part: "concat (map (\<lambda>(s, n). [s..<s + n]) rs) = [0..<?N]"
    and rng: "\<forall>(s, n) \<in> set rs. 0 < n \<and> s + n \<le> ?N \<and> (\<exists>x \<in> set (map (frame_room tx) buffers). n * sz \<le> x)"
    using fragment_ranges_partition [OF fw(1) rs] compl fw(2) by (auto simp: f')
  have fits: "0 < snd r \<and> fst r + snd r \<le> ?N \<and> ?H + snd r * fc_prb_size f \<le> L" if "r \<in> set rs" for r
    using rng that room bufs(2) by (cases r) (fastforce simp: f')
  have sizes: "\<forall>r \<in> set rs. snd r \<le> 255 \<or> r = (0, ?N)"
    using fragment_sizes [OF fw(1) _ _ _ rs, of "L - ?H"] room fit by (auto simp: f')
  show ?thesis using part frames fits sizes by blast
qed

text \<open>The fragments of one symbol, in the order in which they arrive, each of them at least once.\<close>

lemma symbol_delivered:
  assumes link: "uplane_link_wf tx cfg" and cfg: "ru_config_wf cfg" "eth_params_wf (ru_vlan_params cfg)"
    and st: "ru_sector_wf st"
    and ctx: "sp_wf (ug_slot ctx)" "numerology_val (ug_slot ctx) = dec_numerology (ru_uplane_decoder cfg)" "ug_section_id ctx < 4096"
      "symbol_id < dec_nof_symbols (ru_uplane_decoder cfg)"
    and eaxc: "ug_eaxc ctx \<in> set (disp_dl_eaxc (ru_dispatcher cfg))" "length gen = MAX_SUPPORTED_EAXC_ID_VALUE"
    and f: "fragment_calculator_init 0 (utx_ru_nof_prbs tx) (utx_compr_params tx) = Some f"
    and iq: "length iq = utx_ru_nof_prbs tx * NOF_SUBCARRIERS_PER_RB"
    and bufs: "\<forall>b \<in> set buffers. length b = L" "uplane_headers_size tx \<le> L" "L \<le> MAX_ETH_FRAME_LENGTH"
    and fit: "(L - uplane_headers_size tx) div fc_prb_size f \<le> 255 \<or>
      utx_ru_nof_prbs tx \<le> (L - uplane_headers_size tx) div fc_prb_size f"
    and enq: "enqueue_fragments tx ctx symbol_id iq f buffers gen = Some (frames, gen', True)"
    and c: "rx_get (wire_slot (ug_slot ctx)) symbol_id (ru_grid_repo st) = Some c" "rgc_grid c = Some g"
    and port: "index_of (ug_eaxc ctx) (disp_dl_eaxc (ru_dispatcher cfg)) = port" "port < length (rg_ports (ru_grids st ! g))"
    and bw: "rg_nof_subc (ru_grids st ! g) = utx_ru_nof_prbs tx * 12"
    and ks: "set ks = {..<length frames}"
  shows "\<exists>rs st' c'. concat (map (\<lambda>(s, n). [s..<s + n]) rs) = [0..<utx_ru_nof_prbs tx] \<and>
    process_frames cfg (map ((!) frames) ks) st = Some st' \<and> ru_sector_wf st' \<and>
    grid_row (ru_grids st' ! g) port symbol_id = concat (map (transported tx cfg iq) rs) \<and>
    (\<forall>p k. (p, k) \<noteq> (port, symbol_id) \<longrightarrow> grid_row (ru_grids st' ! g) p k = grid_row (ru_grids st ! g) p k) \<and>
    rx_get (wire_slot (ug_slot ctx)) symbol_id (ru_grid_repo st') = Some c' \<and>
    rgc_re_written c' ! port = replicate (utx_ru_nof_prbs tx * 12) True \<and>
    rgc_context c' = rgc_context c \<and> rgc_grid c' = Some g \<and>
    rx_pending (ru_grid_repo st') = rx_pending (ru_grid_repo st) \<and>
    length (rx_buffer (ru_grid_repo st')) = length (rx_buffer (ru_grid_repo st))"
proof -
  let ?N = "utx_ru_nof_prbs tx" and ?e = "ug_eaxc ctx" and ?s = "wire_slot (ug_slot ctx)"
  have tx: "utx_wf tx" using link by (simp add: uplane_link_wf_def up_link_wf_def)
  have e: "?e < MAX_SUPPORTED_EAXC_ID_VALUE" using cfg(1) eaxc(1) by (simp add: ru_config_wf_def)
  have sz: "get_prb_data_size (utx_compr_params tx) = Some (fc_prb_size f)" using f by (auto simp: fragment_calculator_init_def)
  define fr where "fr = (\<lambda>rs k. fragment_frame tx ctx symbol_id iq (gen ! ?e + of_nat k) (rs ! k))"
  obtain rs where part: "concat (map (\<lambda>(s, n). [s..<s + n]) rs) = [0..<?N]" and frames: "frames = map (fr rs) [0..<length rs]"
    and rng: "\<And>r. r \<in> set rs \<Longrightarrow> 0 < snd r \<and> fst r + snd r \<le> ?N \<and> (snd r \<le> 255 \<or> r = (0, ?N)) \<and>
      uplane_headers_size tx + snd r * fc_prb_size f \<le> L"
    using symbol_fragments [OF tx e eaxc(2) f iq bufs fit enq] unfolding fr_def by blast
  have N: "?N \<le> 275" "?N = ru_nof_prbs (ru_uplane_decoder cfg)"
    using cfg(1) link by (auto simp: ru_config_wf_def uplane_link_wf_def up_link_wf_def MAX_NOF_PRBS_def)
  have pw: "uplane_params_wf (ru_uplane_decoder cfg) (fragment_params tx ctx symbol_id r)" if "r \<in> set rs" for r
    using rng [OF that] ctx N link cfg(1)
    by (auto simp: uplane_params_wf_def fragment_params_def generate_ofh_user_parameters_def uplane_link_wf_def up_link_wf_def MAX_NOF_PRBS_def
        ru_config_wf_def MAX_NSYMB_PER_SLOT_def)
  have "\<exists>res. uplane_frame cfg ?e (fr rs k) res \<and> is_block_message ?s symbol_id (transported tx cfg iq (rs ! k)) (rs ! k) res"
    if "k < length rs" for k
    using fragment_frame_received [OF link e pw [OF nth_mem [OF that]] sz, of iq "replicate L 0"] rng [OF nth_mem [OF that]] iq bufs(3)
    by (simp add: fr_def)
  then obtain res where res: "\<And>k. k < length rs \<Longrightarrow> uplane_frame cfg ?e (fr rs k) (res k) \<and>
      is_block_message ?s symbol_id (transported tx cfg iq (rs ! k)) (rs ! k) (res k)" by metis
  have flen: "length frames = length rs" by (simp add: frames)
  have kb: "\<forall>k \<in> set ks. k < length rs" using ks flen by auto
  have fks: "map ((!) frames) ks = map (fr rs) ks" using kb by (auto simp: frames)
  have wf: "rx_repo_wf (ru_grids st) (ru_grid_repo st)" "store_wf (ru_grids st)" using st by (simp_all add: ru_sector_wf_def)
  have "set (map ((!) rs) ks) = set rs"
    using ks flen nth_image [of "length rs" rs] by (simp add: lessThan_atLeast0)
  moreover have "list_all2 (\<lambda>r m. is_block_message ?s symbol_id (transported tx cfg iq r) r m) (map ((!) rs) ks) (map res ks)"
    using res kb by (auto simp: list_all2_map1 list_all2_map2 list_all2_same)
  moreover have "\<forall>r \<in> set rs. length (transported tx cfg iq r) = snd r * 12" "\<forall>r \<in> set rs. 0 < snd r"
    using cfg(1) rng by (auto simp: ru_config_wf_def transported_def transported_by_def)
  ultimately obtain repo' grids' c' where w: "write_messages (disp_dl_eaxc (ru_dispatcher cfg)) ?e (map res ks)
      (ru_grid_repo st) (ru_grids st) = Some (repo', grids')"
    "grid_row (grids' ! g) port symbol_id = concat (map (transported tx cfg iq) rs)"
    "\<forall>p k. (p, k) \<noteq> (port, symbol_id) \<longrightarrow> grid_row (grids' ! g) p k = grid_row (ru_grids st ! g) p k"
    "rx_get ?s symbol_id repo' = Some c'" "rgc_re_written c' ! port = replicate (?N * 12) True"
    "rgc_context c' = rgc_context c" "rgc_grid c' = Some g" "rx_pending repo' = rx_pending (ru_grid_repo st)"
    "length (rx_buffer repo') = length (rx_buffer (ru_grid_repo st))"
    using symbol_assembled [OF wf c, of ?e "disp_dl_eaxc (ru_dispatcher cfg)" ?N rs "map ((!) rs) ks" "transported tx cfg iq" "map res ks"]
      port index_of_less [OF eaxc(1)] bw part by auto
  obtain st' where st': "process_frames cfg (map (fr rs) ks) st = Some st'" "ru_grid_repo st' = repo'" "ru_grids st' = grids'"
    using process_uplane_frames [OF cfg(2) eaxc(1) e _ w(1)] res kb by blast
  have "ru_sector_wf st'" using write_messages_wf [OF wf w(1)] st' by (simp add: ru_sector_wf_def)
  then show ?thesis unfolding fks using part st' w(2-) by blast
qed

section \<open>Downlink registration\<close>

text \<open>Applying a single registration: its symbols are registered with one grid of the store.\<close>

lemma process_single_registration:
  assumes wf: "rx_repo_wf store repo" and t: "rx_pending repo = [t]" "task_grid t = Some g0" "task_stop t \<le> MAX_NSYMB_PER_SLOT"
  shows "\<exists>repo' g. process_pending_contexts store repo = Some repo' \<and> rx_repo_wf store repo' \<and> g < length store \<and>
    length (rx_buffer repo') = length (rx_buffer repo) \<and> rx_pending repo' = [] \<and>
    (\<forall>k \<in> {task_start t..<task_stop t}. registered_for (gc_slot (task_context t)) (rx_look (gc_slot (task_context t)) k repo') \<and>
       rgc_grid (rx_look (gc_slot (task_context t)) k repo') = Some g)"
proof -
  let ?s = "gc_slot (task_context t)" and ?repo = "repo\<lparr>rx_pending := []\<rparr>"
  have wf0: "rx_repo_wf store ?repo" by (rule drop_pending_wf [OF wf])
  have g0: "g0 < length store" using wf t(1,2) by (auto simp: rx_repo_wf_def)
  have ks: "\<forall>k \<in> set [task_start t..<task_stop t]. k < MAX_NSYMB_PER_SLOT" using t(3) by auto
  obtain g where g: "(case rx_find_registered ?s ?repo of Some c \<Rightarrow> rgc_grid c | None \<Rightarrow> task_grid t) = Some g" "g < length store"
    "\<And>k. k < MAX_NSYMB_PER_SLOT \<Longrightarrow> registered_for ?s (rx_look ?s k ?repo) \<Longrightarrow> rgc_grid (rx_look ?s k ?repo) = Some g"
    using registration_grid [OF wf0 t(2) g0] by metis
  have shape: "rx_shape_wf ?repo" using wf0 by (simp add: rx_repo_wf_def)
  from register_symbols_wf [OF wf0 ks g(2,3)] register_symbols_spec [OF shape ks, of "task_context t" g store] obtain repo' where
    "register_symbols (task_context t) (Some g) store [task_start t..<task_stop t] ?repo = Some repo'" "rx_repo_wf store repo'"
    "length (rx_buffer repo') = length (rx_buffer repo)" "rx_pending repo' = []"
    "\<forall>k \<in> set [task_start t..<task_stop t]. registered_for ?s (rx_look ?s k repo') \<and> rgc_grid (rx_look ?s k repo') = Some g"
    by auto
  then show ?thesis using g(1,2) by (auto simp: process_pending_contexts_def t(1) run_add_task_def)
qed

text \<open>A slot and the slot that arrives at the other end, whose SFN has eight bits, share their repository index.\<close>

lemma wire_slot_count:
  assumes "sp_wf s"
  shows "count_val (wire_slot s) mod (slots_per_frame (numerology_val s) * 256) = count_val s mod (slots_per_frame (numerology_val s) * 256)"
    and "numerology_val (wire_slot s) = numerology_val s"
proof -
  let ?p = "slots_per_subframe (numerology_val s)" and ?low = "subframe_slot_index s + subframe_index s * slots_per_subframe (numerology_val s)"
  have c: "count_val (slot_point_subframe (numerology_val s) n (subframe_index s) (subframe_slot_index s)) = ?low + n * (10 * ?p)" for n
    by (simp add: slot_point_subframe_def slots_per_frame_eq)
  have s: "count_val s = ?low + sfn s * (10 * ?p)" using c [of "sfn s"] sp_recompose [OF assms] by simp
  have "(?low + sfn s mod 256 * (10 * ?p)) mod (10 * ?p * 256) = (?low + sfn s * (10 * ?p)) mod (10 * ?p * 256)"
    using mod_mult_mult2 [of "sfn s mod 256" "10 * ?p" 256] mod_mult_mult2 [of "sfn s" "10 * ?p" 256]
    by (intro mod_add_cong refl) (simp only: mult.commute [of _ 256] mod_mod_trivial)
  then show "count_val (wire_slot s) mod (slots_per_frame (numerology_val s) * 256) = count_val s mod (slots_per_frame (numerology_val s) * 256)"
    by (simp only: wire_slot_def c s slots_per_frame_eq)
  show "numerology_val (wire_slot s) = numerology_val s" by (simp add: wire_slot_def slot_point_subframe_def)
qed

lemma wire_slot_index [simp]:
  assumes "sp_wf s"
  shows "calculate_repository_index (wire_slot s) n = calculate_repository_index s n"
  using wire_slot_count [OF assms] by (simp add: repository_index_eq)

text \<open>The window handler at a symbol boundary that closes the symbol of another entry: that symbol is handed over, this entry is kept.\<close>

lemma downlink_tick_other:
  assumes wf: "rx_repo_wf store repo" and p: "process_pending_contexts (ru_grids st) (ru_grid_repo st) = Some repo"
    and closing: "ssp_minus tick (ru_finalize_offset cfg) = closing" "get_symbol_index closing < MAX_NSYMB_PER_SLOT"
    and other: "rx_key (get_slot closing) repo \<noteq> rx_key s repo"
  shows "\<exists>out repo'. downlink_on_new_symbol cfg tick st = Some (out, st\<lparr>ru_grid_repo := repo'\<rparr>) \<and> rx_repo_wf store repo' \<and>
    rx_pending repo' = rx_pending repo \<and> length (rx_buffer repo') = length (rx_buffer repo) \<and> (\<forall>k. rx_look s k repo' = rx_look s k repo)"
proof -
  obtain c where e: "rx_entry (get_slot closing) (get_symbol_index closing) repo = Some c"
    using rx_entry_Some [OF closing(2)] by blast
  let ?repo = "rx_store_entry (get_slot closing) (get_symbol_index closing) (c\<lparr>rgc_grid := None\<rparr>) repo"
  have shape: "rx_shape_wf repo" using wf by (simp add: rx_repo_wf_def)
  have "rx_repo_wf store ?repo" by (rule rx_store_entry_wf [OF wf closing(2)]) (simp_all add: context_wf_def)
  moreover have "rx_look s k ?repo = rx_look s k repo" for k
    using rx_look_store [OF shape closing(2), of s k] other by auto
  ultimately show ?thesis
    using wf by (cases "context_empty c")
      (auto simp: downlink_on_new_symbol_def p closing(1) pop_resource_grid_symbol_def e pop_rx_grid_context_resource_grid_info_def)
qed

text \<open>The window handler at the symbol boundary that closes a registered symbol: it is handed over with its slot and its grid.\<close>

lemma downlink_tick_closing:
  assumes p: "rx_pending (ru_grid_repo st) = []" and closing: "ssp_minus tick (ru_finalize_offset cfg) = closing"
    and c: "rx_entry (get_slot closing) (get_symbol_index closing) (ru_grid_repo st) = Some c" "rgc_grid c = Some g"
  shows "\<exists>repo'. downlink_on_new_symbol cfg tick st = Some (Some (gc_slot (rgc_context c), Some g), st\<lparr>ru_grid_repo := repo'\<rparr>)"
  using p c
  by (auto simp: downlink_on_new_symbol_def process_pending_contexts_def closing pop_resource_grid_symbol_def context_empty_def
      pop_rx_grid_context_resource_grid_info_def)

text \<open>
  A downlink command of the O-DU, then a symbol boundary: the symbols of the command are registered with
  one grid of the store.
\<close>

lemma downlink_command_registered:
  assumes vlan: "eth_params_wf (ru_vlan_params cfg)" "ctx_vlan tx = ru_vlan_params cfg" and hdr: "control_header_ok tx"
    and buf: "eth_builder_header_size (ctx_vlan tx) + 24 \<le> length buffer"
    and ctx: "sp_wf (c1_slot ctx)" "numerology_val (c1_slot ctx) = ru_numerology cfg" "c1_direction ctx = downlink"
      "c1_eaxc ctx \<in> set (disp_dl_eaxc (ru_dispatcher cfg))" "c1_start_symbol ctx < c1_stop_symbol ctx" "c1_stop_symbol ctx \<le> 14"
    and cfg: "ru_config_wf cfg" and st: "ru_sector_wf st" "rx_pending (ru_grid_repo st) = []" "0 < rx_capacity (ru_grid_repo st)"
    and phy: "fst (phy_get_downlink_rx_grid (ru_phy cfg) (wire_slot (c1_slot ctx)) (ru_grids st)) \<noteq> None"
    and closing: "ssp_minus tick (ru_finalize_offset cfg) = closing" "get_symbol_index closing < MAX_NSYMB_PER_SLOT"
      "rx_key (get_slot closing) (ru_grid_repo st) \<noteq> rx_key (c1_slot ctx) (ru_grid_repo st)"
  shows "\<exists>frame tst' st1 out st2 g. cplane_enqueue_section_type_1_message tx ctx (Some buffer) tst = Some (Some frame, tst') \<and>
    process_frame cfg frame st = Some st1 \<and> downlink_on_new_symbol cfg tick st1 = Some (out, st2) \<and>
    ru_sector_wf st2 \<and> same_shape (ru_grids st) (ru_grids st2) \<and> rx_pending (ru_grid_repo st2) = [] \<and>
    length (rx_buffer (ru_grid_repo st2)) = length (rx_buffer (ru_grid_repo st)) \<and> g < length (ru_grids st2) \<and>
    (\<forall>k \<in> {c1_start_symbol ctx..<c1_stop_symbol ctx}.
       registered_for (wire_slot (c1_slot ctx)) (rx_look (wire_slot (c1_slot ctx)) k (ru_grid_repo st2)) \<and>
       rgc_grid (rx_look (wire_slot (c1_slot ctx)) k (ru_grid_repo st2)) = Some g)"
proof -
  let ?s = "wire_slot (c1_slot ctx)"
  have e: "c1_eaxc ctx < MAX_SUPPORTED_EAXC_ID_VALUE" using cfg ctx(4) by (simp add: ru_config_wf_def)
  from type_1_command_received [OF vlan hdr buf ctx(1,2) e ctx(5,6), of tst st] obtain frame tst' st0 res where
    enq: "cplane_enqueue_section_type_1_message tx ctx (Some buffer) tst = Some (Some frame, tst')" and
    proc: "process_frame cfg frame st = on_cplane_message_received (ru_dispatcher cfg) (ru_handlers cfg) (c1_eaxc ctx) res (Some st0)"
    and same: "ru_grids st0 = ru_grids st" "ru_grid_repo st0 = ru_grid_repo st" and
    res: "section_type res = 1" "radio_hdr res = \<lparr>direction = c1_direction ctx, filter_index = c1_filter_type ctx,
      start_symbol = c1_start_symbol ctx, slot = ?s\<rparr>"
      "nof_symbols (section res) = c1_stop_symbol ctx - c1_start_symbol ctx" by blast
  have sl: "slot (radio_hdr res) = ?s" by (simp add: res)
  have wf: "rx_repo_wf (ru_grids st) (ru_grid_repo st)" "store_wf (ru_grids st)" using st(1) by (simp_all add: ru_sector_wf_def)
  have pend: "process_pending_contexts (ru_grids st0) (ru_grid_repo st0) = Some (ru_grid_repo st)"
    using st(2) by (simp add: process_pending_contexts_def same)
  obtain g0 grids where g0: "(case find_grid ?s (ru_grid_repo st) of Some g \<Rightarrow> (Some g, ru_grids st0)
      | None \<Rightarrow> phy_get_downlink_rx_grid (ru_phy cfg) ?s (ru_grids st0)) = (Some g0, grids)"
    using phy by (cases "find_grid ?s (ru_grid_repo st)"; cases "phy_get_downlink_rx_grid (ru_phy cfg) ?s (ru_grids st)") (auto simp: same)
  let ?t = "\<lparr>task_context = \<lparr>gc_slot = ?s, gc_sector = ru_sector_id cfg\<rparr>, task_grid = Some g0, task_start = c1_start_symbol ctx,
    task_stop = c1_stop_symbol ctx\<rparr>"
  let ?st1 = "st0\<lparr>ru_grids := grids, ru_grid_repo := (ru_grid_repo st)\<lparr>rx_pending := [?t]\<rparr>\<rparr>"
  have h: "handle_downlink_scheduling cfg (c1_eaxc ctx) res st0 = Some ?st1"
    using handle_downlink_scheduling_eq [OF pend, of cfg res, unfolded sl, OF g0] st(2,3) ctx(5)
    by (simp add: res rx_add_def)
  have shape: "same_shape (ru_grids st) grids"
    using g0 cfg wf(2) by (auto simp: ru_config_wf_def same_shape_def same split: option.splits)
  have wf0: "ru_sector_wf st0" using st(1) by (simp add: ru_sector_wf_def same)
  have wf1: "rx_repo_wf grids (ru_grid_repo ?st1)" "store_wf grids"
    using handle_downlink_scheduling_wf [OF cfg wf0 h] by (simp_all add: ru_sector_wf_def)
  from process_single_registration [OF wf1(1), of ?t g0] ctx(6) obtain repo g where
    repo: "process_pending_contexts grids (ru_grid_repo ?st1) = Some repo" "rx_repo_wf grids repo" "g < length grids"
      "length (rx_buffer repo) = length (rx_buffer (ru_grid_repo st))" "rx_pending repo = []"
      "\<forall>k \<in> {c1_start_symbol ctx..<c1_stop_symbol ctx}. registered_for ?s (rx_look ?s k repo) \<and> rgc_grid (rx_look ?s k repo) = Some g"
    by (auto simp: MAX_NSYMB_PER_SLOT_def)
  have other: "rx_key (get_slot closing) repo \<noteq> rx_key ?s repo" using closing(3) ctx(1) by (simp add: repo(4))
  from downlink_tick_other [OF repo(2) _ closing(1,2) other, of ?st1] repo(1) obtain out repo' where
    tick: "downlink_on_new_symbol cfg tick ?st1 = Some (out, ?st1\<lparr>ru_grid_repo := repo'\<rparr>)" "rx_repo_wf grids repo'"
      "rx_pending repo' = rx_pending repo" "length (rx_buffer repo') = length (rx_buffer repo)" "\<forall>k. rx_look ?s k repo' = rx_look ?s k repo"
    by auto
  have "process_frame cfg frame st = Some ?st1"
    using ctx(3,4) h by (simp add: proc on_cplane_message_received_def CPLANE_SECTION_TYPE_PRACH_def res ru_handlers_def
        is_eaxc_configured_def)
  moreover have "ru_sector_wf (?st1\<lparr>ru_grid_repo := repo'\<rparr>)" using tick(2) wf1(2) by (simp add: ru_sector_wf_def)
  ultimately show ?thesis
    using enq tick(1) shape repo(3-6) tick(3-5)
    by (intro exI [of _ frame] exI [of _ tst'] exI [of _ ?st1] exI [of _ out] exI [of _ "?st1\<lparr>ru_grid_repo := repo'\<rparr>"] exI [of _ g]) simp
qed

end
