(* ===== verification/Bit_Buffer.thy ===== *)
theory Bit_Buffer
  imports Prelude
begin

text \<open>
  Bit packing (include/ocudu/adt/bit_buffer.h, include/ocudu/support/math/bit_ops.h and
  lib/ofh/compression/packing_utils_generic.cpp): insertion and extraction of up to eight bits at any bit
  position of a byte buffer, and the packing of signed samples of a given width.  None is a violated
  assertion or an access out of the buffer.
\<close>

type_synonym i16 = "16 word"

section \<open>Masks\<close>

definition mask_msb_zeros :: "nat \<Rightarrow> 'a::len word" where
  "mask_msb_zeros n = (if n = 0 then - 1 else if n = LENGTH('a) then 0 else drop_bit n (- 1))"

definition mask_lsb_ones :: "nat \<Rightarrow> 'a::len word" where
  "mask_lsb_ones n = mask_msb_zeros (LENGTH('a) - n)"

definition mask_msb_ones :: "nat \<Rightarrow> 'a::len word" where
  "mask_msb_ones n = NOT (mask_msb_zeros n)"

section \<open>Bit buffer\<close>

definition bits_per_word :: nat where "bits_per_word = 8"

definition bit_buffer_extract :: "nat \<Rightarrow> nat \<Rightarrow> bytes \<Rightarrow> byte option" where
  "bit_buffer_extract startpos count buffer =
     (if \<not> count \<le> bits_per_word then None
      else if \<not> startpos + count \<le> length buffer * bits_per_word then None
      else let start_word = startpos div bits_per_word;
               start_mod = startpos mod bits_per_word
           in if \<not> start_word < length buffer then None
              else if start_mod = 0 then Some (drop_bit (bits_per_word - count) (buffer ! start_word))
              else if start_mod + count \<le> bits_per_word
              then Some (drop_bit (bits_per_word - start_mod - count) (buffer ! start_word) AND mask_lsb_ones count)
              else let w = push_bit bits_per_word (ucast (buffer ! start_word) :: 32 word);
                       w = w OR ucast (buffer ! (start_word + 1));
                       w = drop_bit (2 * bits_per_word - start_mod - count) w;
                       w = w AND mask_lsb_ones count
                   in Some (ucast w))"

definition bit_buffer_insert :: "byte \<Rightarrow> nat \<Rightarrow> nat \<Rightarrow> bytes \<Rightarrow> bytes option" where
  "bit_buffer_insert val startpos count buffer =
     (if \<not> count \<le> bits_per_word then None
      else if \<not> unat val < 2 ^ count then None
      else if \<not> startpos + count \<le> length buffer * bits_per_word then None
      else let start_word = startpos div bits_per_word;
               start_mod = startpos mod bits_per_word
           in if \<not> start_word < length buffer then None
              else if start_mod = 0
              then Some (buffer[start_word := (buffer ! start_word AND mask_msb_zeros count) OR push_bit (bits_per_word - count) val])
              else if start_mod + count \<le> bits_per_word
              then let w = buffer ! start_word;
                       w = w AND (mask_msb_ones start_mod OR mask_lsb_ones (bits_per_word - start_mod - count));
                       w = w OR push_bit (bits_per_word - start_mod - count) val
                   in Some (buffer[start_word := w])
              else let buffer = buffer[start_word :=
                         (buffer ! start_word AND mask_msb_ones start_mod) OR drop_bit (start_mod + count - bits_per_word) val]
                   in Some (buffer[start_word + 1 :=
                         (buffer ! (start_word + 1) AND mask_msb_zeros (start_mod + count - bits_per_word)) OR
                         push_bit (2 * bits_per_word - start_mod - count) val]))"

section \<open>Packing\<close>

text \<open>The inner loop of the packer: the bits of one sample, the most significant first, up to eight at a time.\<close>

function pack_sample :: "i16 \<Rightarrow> nat \<Rightarrow> nat \<Rightarrow> bytes \<Rightarrow> (nat \<times> bytes) option" where
  "pack_sample sample left_to_pack start_pos buffer =
     (if left_to_pack = 0 then Some (start_pos, buffer)
      else do {
        let nbits = min bits_per_word left_to_pack;
        let masked = (ucast (sample AND 0x00ff) :: byte);
        let (masked, sample) =
          (if left_to_pack > bits_per_word
           then (ucast (signed_drop_bit (left_to_pack - bits_per_word) sample),
                 sample AND mask_lsb_ones (left_to_pack - bits_per_word))
           else (masked, sample));
        buffer \<leftarrow> bit_buffer_insert masked start_pos nbits buffer;
        pack_sample sample (left_to_pack - nbits) (start_pos + nbits) buffer
      })"
  by pat_completeness auto
termination
  by (relation "measure (\<lambda>(s, left, p, b). left)") (auto simp: bits_per_word_def)

declare pack_sample.simps [simp del]

fun pack_samples :: "i16 list \<Rightarrow> nat \<Rightarrow> nat \<Rightarrow> bytes \<Rightarrow> (nat \<times> bytes) option" where
  "pack_samples [] iq_width start_pos buffer = Some (start_pos, buffer)"
| "pack_samples (sample # samples) iq_width start_pos buffer = do {
     (start_pos, buffer) \<leftarrow> pack_sample sample iq_width start_pos buffer;
     pack_samples samples iq_width start_pos buffer
   }"

definition pack_bytes :: "bytes \<Rightarrow> i16 list \<Rightarrow> nat \<Rightarrow> bytes option" where
  "pack_bytes buffer compressed_iq iq_width = do {
     (start_pos, buffer) \<leftarrow> pack_samples compressed_iq iq_width 0 buffer;
     if start_pos mod bits_per_word \<noteq> 0
     then bit_buffer_insert 0 start_pos (bits_per_word - start_pos mod bits_per_word) buffer
     else Some buffer
   }"

function unpack_loop :: "bytes \<Rightarrow> nat \<Rightarrow> nat \<Rightarrow> i16 \<Rightarrow> i16 option" where
  "unpack_loop buffer offset bits_left_to_read val =
     (if bits_left_to_read = 0 then Some val
      else if bits_left_to_read > bits_per_word then do {
        b \<leftarrow> bit_buffer_extract offset bits_per_word buffer;
        unpack_loop buffer (offset + bits_per_word) (bits_left_to_read - bits_per_word)
          (push_bit (bits_left_to_read - bits_per_word) (ucast b))
      }
      else do {
        b \<leftarrow> bit_buffer_extract offset bits_left_to_read buffer;
        Some (val OR ucast b)
      })"
  by pat_completeness auto
termination
  by (relation "measure (\<lambda>(b, p, left, v). left)") (auto simp: bits_per_word_def)

declare unpack_loop.simps [simp del]

definition unpack_bits :: "bytes \<Rightarrow> nat \<Rightarrow> nat \<Rightarrow> i16 option" where
  "unpack_bits buffer offset len = unpack_loop buffer offset len 0"

section \<open>Buffers as bit strings\<close>

text \<open>Bit \<open>i\<close> of a buffer, counted from the most significant bit of the first byte.\<close>

definition buffer_bit :: "bytes \<Rightarrow> nat \<Rightarrow> bool" where
  "buffer_bit bs i = bit (bs ! (i div 8)) (7 - i mod 8)"

lemma bit_mask_msb_zeros [simp]:
  "bit (mask_msb_zeros n :: 'a::len word) k \<longleftrightarrow> k + n < LENGTH('a)"
  by (auto simp: mask_msb_zeros_def bit_simps)

lemma bit_mask_lsb_ones [simp]:
  "n \<le> LENGTH('a) \<Longrightarrow> bit (mask_lsb_ones n :: 'a::len word) k \<longleftrightarrow> k < n"
  by (auto simp: mask_lsb_ones_def)

lemma bit_mask_msb_ones [simp]:
  "bit (mask_msb_ones n :: 'a::len word) k \<longleftrightarrow> k < LENGTH('a) \<and> LENGTH('a) \<le> k + n"
  by (auto simp: mask_msb_ones_def bit_simps)

lemma bit_less_exp: "unat (v :: 'a::len word) < 2 ^ c \<Longrightarrow> bit v k \<Longrightarrow> k < c"
proof -
  assume v: "unat v < 2 ^ c" and b: "bit v k"
  from b have "bit (unat v) k" by (simp add: bit_unsigned_iff)
  moreover have "take_bit c (unat v) = unat v" using v by (simp add: take_bit_nat_eq_self)
  ultimately show "k < c" by (metis bit_take_bit_iff)
qed

lemma position_split:
  obtains q r :: nat where "i = 8 * q + r" "r < 8" "i div 8 = q" "i mod 8 = r"
  using mult_div_mod_eq [of 8 i] by (metis mod_less_divisor zero_less_numeral)

lemma position_parts:
  fixes r q :: nat
  assumes "r < 8"
  shows "(r + 8 * q) div 8 = q" "(r + 8 * q) mod 8 = r"
  using assms by simp_all

text \<open>Extraction reads the bits of the range, the first one as the most significant.\<close>

lemma bit_buffer_extract_spec:
  assumes c: "0 < count" "count \<le> 8" and p: "p + count \<le> length buffer * 8"
  shows "\<exists>b. bit_buffer_extract p count buffer = Some b \<and>
    (\<forall>k. bit b k \<longleftrightarrow> k < count \<and> buffer_bit buffer (p + count - 1 - k))"
proof -
  obtain q r where qr: "p = 8 * q + r" "r < 8" "p div 8 = q" "p mod 8 = r" by (rule position_split)
  have q: "q < length buffer" using p c(1) qr(1) by linarith
  have pos: "buffer_bit buffer (p + count - 1 - k) =
      (if r + count - 1 - k < 8 then bit (buffer ! q) (8 + k - r - count) else bit (buffer ! (q + 1)) (16 + k - r - count))"
    if "k < count" for k
  proof (cases "r + count - 1 - k < 8")
    case True
    have i: "p + count - 1 - k = (r + count - 1 - k) + 8 * q" using that qr(1) by simp
    have "(p + count - 1 - k) div 8 = q" "(p + count - 1 - k) mod 8 = r + count - 1 - k"
      unfolding i by (rule position_parts [OF True])+
    moreover have "7 - (r + count - 1 - k) = 8 + k - r - count" using True that by simp
    ultimately show ?thesis using True by (simp add: buffer_bit_def)
  next
    case False
    have i: "p + count - 1 - k = (r + count - 1 - k - 8) + 8 * (q + 1)" using that qr(1) False by simp
    have less: "r + count - 1 - k - 8 < 8" using qr(2) c(2) by simp
    have "(p + count - 1 - k) div 8 = q + 1" "(p + count - 1 - k) mod 8 = r + count - 1 - k - 8"
      unfolding i by (rule position_parts [OF less])+
    moreover have "7 - (r + count - 1 - k - 8) = 16 + k - r - count" using False that c(2) qr(2) by simp
    ultimately show ?thesis using False by (simp add: buffer_bit_def)
  qed
  consider "r = 0" | "r \<noteq> 0" "r + count \<le> 8" | "r \<noteq> 0" "8 < r + count" by linarith
  then show ?thesis
  proof cases
    case 1
    have "bit (drop_bit (8 - count) (buffer ! q)) k \<longleftrightarrow> k < count \<and> buffer_bit buffer (p + count - 1 - k)" for k
      using 1 c(2) pos [of k] bit_imp_le_length [of "buffer ! q" "8 - count + k"] by (auto simp: bit_simps split: if_splits)
    then show ?thesis using 1 c p q qr by (auto simp: bit_buffer_extract_def bits_per_word_def)
  next
    case 2
    have "bit (drop_bit (8 - r - count) (buffer ! q) AND mask_lsb_ones count) k \<longleftrightarrow>
        k < count \<and> buffer_bit buffer (p + count - 1 - k)" for k
      using 2 c(2) pos [of k] by (auto simp: bit_simps split: if_splits)
    then show ?thesis using 2 c p q qr by (auto simp: bit_buffer_extract_def bits_per_word_def)
  next
    case 3
    let ?w = "drop_bit (16 - r - count) (push_bit 8 (ucast (buffer ! q) :: 32 word) OR ucast (buffer ! (q + 1))) AND mask_lsb_ones count"
    have "bit (ucast ?w :: byte) k \<longleftrightarrow> k < count \<and> buffer_bit buffer (p + count - 1 - k)" for k
      using 3 c qr(2) pos [of k] bit_imp_le_length [of "buffer ! (q + 1)" "16 - r - count + k"]
      by (auto simp: bit_simps split: if_splits)
    then show ?thesis
      using 3 c p q qr by (auto simp: bit_buffer_extract_def bits_per_word_def Let_def)
  qed
qed

text \<open>Insertion writes the bits of the range, the most significant first, and keeps every other bit.\<close>

lemma bit_buffer_insert_spec:
  assumes c: "0 < count" "count \<le> 8" and v: "unat val < 2 ^ count" and p: "p + count \<le> length buffer * 8"
  shows "\<exists>buffer'. bit_buffer_insert val p count buffer = Some buffer' \<and> length buffer' = length buffer \<and>
    (\<forall>i < length buffer * 8. buffer_bit buffer' i =
       (if p \<le> i \<and> i < p + count then bit val (p + count - 1 - i) else buffer_bit buffer i))"
proof -
  obtain q r where qr: "p = 8 * q + r" "r < 8" "p div 8 = q" "p mod 8 = r" by (rule position_split)
  have q: "q < length buffer" using p c(1) qr(1) by linarith
  have vb: "bit val k \<Longrightarrow> k < count" for k by (rule bit_less_exp [OF v])
  consider "r + count \<le> 8" | "8 < r + count" by linarith
  then show ?thesis
  proof cases
    case 1
    define w where "w = (if r = 0 then (buffer ! q AND mask_msb_zeros count) OR push_bit (8 - count) val
      else (buffer ! q AND (mask_msb_ones r OR mask_lsb_ones (8 - r - count))) OR push_bit (8 - r - count) val)"
    have w: "bit w (7 - b) = (if r \<le> b \<and> b < r + count then bit val (r + count - 1 - b) else bit (buffer ! q) (7 - b))"
      if "b < 8" for b
      using 1 c(2) that vb [of "7 - b - (8 - r - count)"] by (auto simp: w_def bit_simps Suc_diff_le)
    have "bit_buffer_insert val p count buffer = Some (buffer[q := w])"
      using 1 c v p q qr by (auto simp: bit_buffer_insert_def bits_per_word_def w_def)
    moreover have "buffer_bit (buffer[q := w]) i =
        (if p \<le> i \<and> i < p + count then bit val (p + count - 1 - i) else buffer_bit buffer i)" if "i < length buffer * 8" for i
    proof -
      obtain a b where ab: "i = 8 * a + b" "b < 8" "i div 8 = a" "i mod 8 = b" by (rule position_split)
      show ?thesis
      proof (cases "a = q")
        case True
        then show ?thesis using w [OF ab(2)] q qr(1) ab by (auto simp: buffer_bit_def)
      next
        case False
        then have "\<not> (p \<le> i \<and> i < p + count)" using 1 qr(1) ab(1,2) by linarith
        then show ?thesis using False ab by (auto simp: buffer_bit_def)
      qed
    qed
    ultimately show ?thesis by auto
  next
    case 2
    then have r: "r \<noteq> 0" "q + 1 < length buffer" using c(2) p qr(1) by linarith+
    define w1 w2 where "w1 = (buffer ! q AND mask_msb_ones r) OR drop_bit (r + count - 8) val"
      and "w2 = (buffer ! (q + 1) AND mask_msb_zeros (r + count - 8)) OR push_bit (16 - r - count) val"
    have w1: "bit w1 (7 - b) = (if r \<le> b then bit val (r + count - 1 - b) else bit (buffer ! q) (7 - b))" if "b < 8" for b
      using 2 c(2) qr(2) that vb [of "7 - b + (r + count - 8)"] by (auto simp: w1_def bit_simps)
    have w2: "bit w2 (7 - b) = (if b < r + count - 8 then bit val (r + count - 9 - b) else bit (buffer ! (q + 1)) (7 - b))" if "b < 8" for b
      using 2 c(2) qr(2) that by (auto simp: w2_def bit_simps)
    have "bit_buffer_insert val p count buffer = Some (buffer[q := w1, q + 1 := w2])"
      using 2 c v p q qr r by (auto simp: bit_buffer_insert_def bits_per_word_def w1_def w2_def Let_def)
    moreover have "buffer_bit (buffer[q := w1, q + 1 := w2]) i =
        (if p \<le> i \<and> i < p + count then bit val (p + count - 1 - i) else buffer_bit buffer i)" if "i < length buffer * 8" for i
    proof -
      obtain a b where ab: "i = 8 * a + b" "b < 8" "i div 8 = a" "i mod 8 = b" by (rule position_split)
      consider "a = q" | "a = q + 1" | "a < q" | "q + 1 < a" by linarith
      then show ?thesis
      proof cases
        case 1
        then show ?thesis using w1 [OF ab(2)] q r qr(1) ab 2 by (auto simp: buffer_bit_def)
      next
        case 2
        then show ?thesis using w2 [OF ab(2)] q r qr(1,2) ab by (auto simp: buffer_bit_def)
      next
        case 3
        then have "\<not> (p \<le> i \<and> i < p + count)" using qr(1) ab(1,2) by linarith
        then show ?thesis using 3 ab by (auto simp: buffer_bit_def)
      next
        case 4
        then have "\<not> (p \<le> i \<and> i < p + count)" using qr(1,2) ab(1,2) c(2) by linarith
        then show ?thesis using 4 ab by (auto simp: buffer_bit_def)
      qed
    qed
    ultimately show ?thesis by auto
  qed
qed

section \<open>Packing and unpacking\<close>

text \<open>The first \<open>n\<close> bits after position \<open>p\<close> hold the low \<open>n\<close> bits of a word; the rest of the buffer is kept.\<close>

definition holds_bits :: "bytes \<Rightarrow> nat \<Rightarrow> nat \<Rightarrow> i16 \<Rightarrow> bool" where
  "holds_bits buffer p n s \<longleftrightarrow> (\<forall>k < n. buffer_bit buffer (p + k) = bit s (n - 1 - k))"

definition same_outside :: "nat \<Rightarrow> nat \<Rightarrow> bytes \<Rightarrow> bytes \<Rightarrow> bool" where
  "same_outside p n buffer buffer' \<longleftrightarrow> length buffer' = length buffer \<and>
     (\<forall>i < length buffer * 8. i < p \<or> p + n \<le> i \<longrightarrow> buffer_bit buffer' i = buffer_bit buffer i)"

lemma unat_less_exp: "(\<And>k. bit (v :: 'a::len word) k \<Longrightarrow> k < c) \<Longrightarrow> unat v < 2 ^ c"
proof -
  assume b: "\<And>k. bit v k \<Longrightarrow> k < c"
  have "take_bit c v = v" by (rule bit_eqI) (auto simp: bit_simps dest: b)
  then have "unat v = take_bit c (unat v)" by (metis unsigned_take_bit_eq)
  then show "unat v < 2 ^ c" by (metis take_bit_nat_less_exp)
qed

lemma low_byte: "bit (ucast (s AND (0xff :: i16)) :: byte) k \<longleftrightarrow> k < 8 \<and> bit s k"
proof -
  have m: "(0xff :: i16) = mask 8" by (simp add: mask_eq_exp_minus_1)
  show ?thesis unfolding m by (auto simp: bit_simps)
qed

lemma pack_sample_0: "pack_sample s 0 p buffer = Some (p, buffer)"
  by (subst pack_sample.simps) simp

lemma pack_sample_short:
  assumes "0 < w" "w \<le> 8"
  shows "pack_sample s w p buffer = map_option (Pair (p + w)) (bit_buffer_insert (ucast (s AND 0xff)) p w buffer)"
  using assms by (subst pack_sample.simps) (simp add: bits_per_word_def pack_sample_0 min_absorb2 map_option_case split: option.splits)

lemma pack_sample_long:
  assumes "8 < w"
  shows "pack_sample s w p buffer = Option.bind (bit_buffer_insert (ucast (signed_drop_bit (w - 8) s)) p 8 buffer)
    (pack_sample (s AND mask_lsb_ones (w - 8)) (w - 8) (p + 8))"
  using assms by (subst pack_sample.simps) (simp add: bits_per_word_def min_absorb1)

lemma pack_sample_spec:
  assumes w: "8 \<le> w" "w \<le> 16" and p: "p + w \<le> length buffer * 8"
  shows "\<exists>buffer'. pack_sample s w p buffer = Some (p + w, buffer') \<and> holds_bits buffer' p w s \<and> same_outside p w buffer buffer'"
proof (cases "w = 8")
  case True
  let ?v = "ucast (s AND 0xff) :: byte"
  have bv: "bit ?v k \<longleftrightarrow> k < 8 \<and> bit s k" for k by (rule low_byte)
  have "unat ?v < 2 ^ 8" by (rule unat_less_exp) (simp add: bv)
  from bit_buffer_insert_spec [OF _ _ this, of p buffer] p True obtain b where
    b: "bit_buffer_insert ?v p 8 buffer = Some b" "length b = length buffer"
      "\<forall>i < length buffer * 8. buffer_bit b i = (if p \<le> i \<and> i < p + 8 then bit ?v (p + 8 - 1 - i) else buffer_bit buffer i)"
    by auto
  have "pack_sample s w p buffer = Some (p + w, b)"
    using b(1) True by (simp add: pack_sample_short)
  moreover have "holds_bits b p w s" using b(3) p True by (auto simp: holds_bits_def bv)
  moreover have "same_outside p w buffer b" using b(2,3) True by (auto simp: same_outside_def)
  ultimately show ?thesis by blast
next
  case False
  then have w8: "8 < w" using w(1) by simp
  let ?v1 = "ucast (signed_drop_bit (w - 8) s) :: byte" and ?s = "s AND mask_lsb_ones (w - 8)"
  let ?v2 = "ucast (?s AND 0xff) :: byte"
  have bv1: "bit ?v1 k \<longleftrightarrow> k < 8 \<and> bit s (w - 8 + k)" for k using w by (auto simp: bit_simps min_def)
  have bv2: "bit ?v2 k \<longleftrightarrow> k < w - 8 \<and> bit s k" for k unfolding low_byte using w(2) by (auto simp: bit_simps)
  have "unat ?v1 < 2 ^ 8" by (rule unat_less_exp) (simp add: bv1)
  from bit_buffer_insert_spec [OF _ _ this, of p buffer] p w8 obtain b where
    b: "bit_buffer_insert ?v1 p 8 buffer = Some b" "length b = length buffer"
      "\<forall>i < length buffer * 8. buffer_bit b i = (if p \<le> i \<and> i < p + 8 then bit ?v1 (p + 8 - 1 - i) else buffer_bit buffer i)"
    by auto
  have "unat ?v2 < 2 ^ (w - 8)" by (rule unat_less_exp) (simp add: bv2)
  moreover have "0 < w - 8" "w - 8 \<le> 8" "p + 8 + (w - 8) \<le> length b * 8" using w w8 p b(2) by linarith+
  ultimately obtain b' where
    b': "bit_buffer_insert ?v2 (p + 8) (w - 8) b = Some b'" "length b' = length buffer"
      "\<forall>i < length buffer * 8. buffer_bit b' i =
         (if p + 8 \<le> i \<and> i < p + 8 + (w - 8) then bit ?v2 (p + 8 + (w - 8) - 1 - i) else buffer_bit b i)"
    using bit_buffer_insert_spec [of "w - 8" ?v2 "p + 8" b] b(2) by auto
  have "pack_sample s w p buffer = Some (p + w, b')"
    using b(1) b'(1) w w8 by (simp add: pack_sample_long pack_sample_short)
  moreover have "holds_bits b' p w s"
    unfolding holds_bits_def using b(3) b'(3) p w w8 by (auto simp: bv1 bv2 Suc_diff_Suc)
  moreover have "same_outside p w buffer b'" using b(3) b'(2,3) w8 by (auto simp: same_outside_def)
  ultimately show ?thesis by blast
qed

lemma unpack_bits_spec:
  assumes w: "0 < w" "w \<le> 16" and p: "p + w \<le> length buffer * 8"
  shows "\<exists>v. unpack_bits buffer p w = Some v \<and> (\<forall>k. bit v k \<longleftrightarrow> k < w \<and> buffer_bit buffer (p + w - 1 - k))"
proof (cases "w \<le> 8")
  case True
  from bit_buffer_extract_spec [OF w(1) True p] True w(1) show ?thesis
    by (auto simp: unpack_bits_def unpack_loop.simps [of _ _ w] bits_per_word_def bit_simps)
next
  case False
  from bit_buffer_extract_spec [of 8 p buffer] False p obtain b1 where
    b1: "bit_buffer_extract p 8 buffer = Some b1" "\<forall>k. bit b1 k \<longleftrightarrow> k < 8 \<and> buffer_bit buffer (p + 8 - 1 - k)" by auto
  have short: "0 < w - 8" "w - 8 \<le> 8" "p + 8 + (w - 8) \<le> length buffer * 8" using False w(2) p by linarith+
  from bit_buffer_extract_spec [OF short] obtain b2 where
    b2: "bit_buffer_extract (p + 8) (w - 8) buffer = Some b2"
      "\<forall>k. bit b2 k \<longleftrightarrow> k < w - 8 \<and> buffer_bit buffer (p + 8 + (w - 8) - 1 - k)" by auto
  let ?v = "push_bit (w - 8) (ucast b1) OR ucast b2 :: i16"
  have "unpack_bits buffer p w = Some ?v"
    using b1(1) b2(1) False short
    by (subst unpack_bits_def, subst unpack_loop.simps) (simp add: unpack_loop.simps [of _ _ "w - 8"] bits_per_word_def)
  moreover have "bit ?v k \<longleftrightarrow> k < w \<and> buffer_bit buffer (p + w - 1 - k)" for k
    using False w(2) by (auto simp: bit_simps b1(2) b2(2))
  ultimately show ?thesis by blast
qed

lemma holds_bits_outside:
  assumes "holds_bits buffer p n s" "same_outside q m buffer buffer'" "p + n \<le> q \<or> q + m \<le> p" "p + n \<le> length buffer * 8"
  shows "holds_bits buffer' p n s"
  using assms by (auto simp: holds_bits_def same_outside_def)

lemma same_outside_trans:
  "same_outside p n b b' \<Longrightarrow> same_outside (p + n) m b' b'' \<Longrightarrow> same_outside p (n + m) b b''"
  by (auto simp: same_outside_def)

lemma pack_samples_spec:
  assumes w: "8 \<le> w" "w \<le> 16" and p: "p + length samples * w \<le> length buffer * 8"
  shows "\<exists>buffer'. pack_samples samples w p buffer = Some (p + length samples * w, buffer') \<and>
    same_outside p (length samples * w) buffer buffer' \<and>
    (\<forall>i < length samples. holds_bits buffer' (p + i * w) w (samples ! i))"
  using p
proof (induction samples arbitrary: p buffer)
  case Nil
  then show ?case by (simp add: same_outside_def)
next
  case (Cons s samples)
  obtain b1 where b1: "pack_sample s w p buffer = Some (p + w, b1)" "holds_bits b1 p w s" "same_outside p w buffer b1"
    using pack_sample_spec [OF w, of p buffer s] Cons.prems by auto
  have l1: "length b1 = length buffer" using b1(3) by (simp add: same_outside_def)
  obtain b2 where b2: "pack_samples samples w (p + w) b1 = Some (p + w + length samples * w, b2)"
    "same_outside (p + w) (length samples * w) b1 b2" "\<forall>i < length samples. holds_bits b2 (p + w + i * w) w (samples ! i)"
    using Cons.IH [of "p + w" b1] Cons.prems l1 by auto
  have "holds_bits b2 p w s" using holds_bits_outside [OF b1(2) b2(2)] Cons.prems l1 by simp
  then have "\<forall>i < Suc (length samples). holds_bits b2 (p + i * w) w ((s # samples) ! i)"
    using b2(3) by (auto simp: less_Suc_eq_0_disj add.assoc)
  then show ?case using b1(1) b2(1) same_outside_trans [OF b1(3) b2(2)] by (simp add: add.assoc)
qed

text \<open>Unpacking the place of a packed sample gives its low bits.\<close>

lemma unpack_held:
  assumes "0 < w" "w \<le> 16" "p + w \<le> length buffer * 8" "holds_bits buffer p w s"
  shows "unpack_bits buffer p w = Some (take_bit w s)"
proof -
  obtain v where v: "unpack_bits buffer p w = Some v" "\<forall>k. bit v k \<longleftrightarrow> k < w \<and> buffer_bit buffer (p + w - 1 - k)"
    using unpack_bits_spec [OF assms(1-3)] by blast
  have "buffer_bit buffer (p + w - 1 - k) = bit s k" if "k < w" for k
  proof -
    have i: "p + w - 1 - k = p + (w - 1 - k)" using that by simp
    have "buffer_bit buffer (p + (w - 1 - k)) = bit s (w - 1 - (w - 1 - k))"
      using assms(1,4) by (simp add: holds_bits_def)
    then show ?thesis unfolding i using that by simp
  qed
  then have "v = take_bit w s" by (intro bit_eqI) (auto simp: bit_simps v(2))
  then show ?thesis using v(1) by simp
qed

lemma pack_bytes_spec:
  assumes w: "8 \<le> w" "w \<le> 16" and n: "length samples * w = length buffer * 8"
  shows "\<exists>buffer'. pack_bytes buffer samples w = Some buffer' \<and> length buffer' = length buffer \<and>
    (\<forall>i < length samples. unpack_bits buffer' (i * w) w = Some (take_bit w (samples ! i)))"
proof -
  obtain b where b: "pack_samples samples w 0 buffer = Some (length samples * w, b)"
    "same_outside 0 (length samples * w) buffer b" "\<forall>i < length samples. holds_bits b (i * w) w (samples ! i)"
    using pack_samples_spec [OF w, of 0 samples buffer] n by auto
  have "i * w + w \<le> length b * 8" if "i < length samples" for i
    using mult_le_mono1 [of "Suc i" "length samples" w] that n b(2) by (simp add: same_outside_def)
  then show ?thesis
    using b n w unpack_held [of w "i * w" b for i] by (auto simp: pack_bytes_def bits_per_word_def same_outside_def)
qed

end
