(* ===== verification/Iq_Compression.thy ===== *)
theory Iq_Compression
  imports Bit_Buffer Uplane_Message
begin

text \<open>
  IQ compression (lib/ofh/compression): the generic implementations of block floating point compression
  (iq_compression_bfp_impl.cpp) and of the transport without compression (iq_compression_none_impl.cpp),
  the sign extension of the quantizer (quantizer.h) and the selection by compression type.

  The conversions between the samples of the grid and 16-bit fixed point are floating point code; they are
  the parameters \<open>quantize\<close> (a bit width and a sample, to its real and imaginary parts) and \<open>of_fixed\<close> (a
  bit width and the two parts, to a sample).  None is a violated assertion, an access out of bounds, a
  shift that is undefined or a fatal error.
\<close>

section \<open>Quantizer\<close>

definition quantizer_ok :: "nat \<Rightarrow> bool" where
  "quantizer_ok bit_width \<longleftrightarrow> 1 \<le> bit_width \<and> bit_width \<le> 16"

definition sign_extend :: "nat \<Rightarrow> i16 \<Rightarrow> i16" where
  "sign_extend bit_width val = signed_drop_bit (16 - bit_width) (push_bit (16 - bit_width) val)"

section \<open>Block floating point\<close>

definition Q_BIT_WIDTH :: nat where "Q_BIT_WIDTH = MAX_IQ_WIDTH"

definition NOF_SAMPLES_PER_PRB :: nat where "NOF_SAMPLES_PER_PRB = 2 * NOF_SUBCARRIERS_PER_RB"

fun bit_length :: "nat \<Rightarrow> nat" where
  "bit_length n = (if n = 0 then 0 else Suc (bit_length (n div 2)))"

declare bit_length.simps [simp del]

text \<open>\<open>__builtin_clz\<close> on 32 bits, for a number other than zero.\<close>

definition builtin_clz :: "nat \<Rightarrow> nat" where
  "builtin_clz x = 32 - bit_length x"

definition determine_exponent :: "nat \<Rightarrow> nat \<Rightarrow> nat option" where
  "determine_exponent x width =
     (if width = 0 then None
      else if \<not> width \<le> MAX_IQ_WIDTH then None
      else let max_shift = MAX_IQ_WIDTH - width;
               lz_without_sign = (if x > 0 \<and> max_shift > 0 then nat ((int (builtin_clz x) - 16 - 1) mod 2 ^ 32) else max_shift);
               raw_exp = min max_shift lz_without_sign
           in Some (nat (max 0 (int (MAX_IQ_WIDTH - width) - int raw_exp))))"

definition max_element :: "int list \<Rightarrow> int" where
  "max_element xs = fold max (tl xs) (hd xs)"

definition min_element :: "int list \<Rightarrow> int" where
  "min_element xs = fold min (tl xs) (hd xs)"

definition block_max_abs :: "i16 list \<Rightarrow> nat" where
  "block_max_abs xs = nat (max \<bar>max_element (map sint xs)\<bar> (\<bar>min_element (map sint xs)\<bar> - 1))"

definition compress_prb_generic :: "bytes \<Rightarrow> i16 list \<Rightarrow> nat \<Rightarrow> bytes option" where
  "compress_prb_generic comp_prb_buffer input_quantized width =
     (if length input_quantized < NOF_SAMPLES_PER_PRB then None
      else do {
        let samples = take NOF_SAMPLES_PER_PRB input_quantized;
        let max_abs = block_max_abs samples;
        exponent \<leftarrow> determine_exponent (max_abs mod 2 ^ 16) width;
        let compressed_samples = map (signed_drop_bit exponent) samples;
        if comp_prb_buffer = [] then None
        else do {
          packed \<leftarrow> pack_bytes (tl comp_prb_buffer) compressed_samples width;
          Some (of_nat exponent # packed)
        }
      })"

text \<open>The view of one compressed resource block in a buffer.\<close>

definition prb_view :: "nat \<Rightarrow> nat \<Rightarrow> bytes \<Rightarrow> bytes" where
  "prb_view prb_size i buffer = take prb_size (drop (i * prb_size) buffer)"

definition write_prb_view :: "nat \<Rightarrow> nat \<Rightarrow> bytes \<Rightarrow> bytes \<Rightarrow> bytes" where
  "write_prb_view prb_size i prb buffer = take (i * prb_size) buffer @ prb @ drop (i * prb_size + prb_size) buffer"

text \<open>The loop over the resource blocks, with the code that compresses block \<open>i\<close> into its view.\<close>

fun compress_loop :: "(bytes \<Rightarrow> nat \<Rightarrow> bytes option) \<Rightarrow> nat \<Rightarrow> nat list \<Rightarrow> bytes \<Rightarrow> bytes option" where
  "compress_loop f prb_size [] buffer = Some buffer"
| "compress_loop f prb_size (i # r) buffer = do {
     prb \<leftarrow> f (prb_view prb_size i buffer) i;
     compress_loop f prb_size r (write_prb_view prb_size i prb buffer)
   }"

definition quantize_input :: "(nat \<Rightarrow> 'iq \<Rightarrow> i16 \<times> i16) \<Rightarrow> nat \<Rightarrow> 'iq list \<Rightarrow> i16 list" where
  "quantize_input quantize bit_width iq = concat (map (\<lambda>x. [fst (quantize bit_width x), snd (quantize bit_width x)]) iq)"

definition bfp_compress ::
  "(nat \<Rightarrow> 'iq \<Rightarrow> i16 \<times> i16) \<Rightarrow> bytes \<Rightarrow> 'iq list \<Rightarrow> ru_compression_params \<Rightarrow> bytes option" where
  "bfp_compress quantize buffer iq_data c =
     (let nof_prbs = length iq_data div NOF_SUBCARRIERS_PER_RB;
          prb_size = get_compressed_prb_size c
      in if \<not> prb_size * nof_prbs \<le> length buffer then None
         else if 2 * length iq_data > NOF_SAMPLES_PER_PRB * MAX_NOF_PRBS then None
         else let input_quantized = quantize_input quantize Q_BIT_WIDTH iq_data
              in compress_loop (\<lambda>out i. compress_prb_generic out
                     (take NOF_SAMPLES_PER_PRB (drop (NOF_SAMPLES_PER_PRB * i) input_quantized)) (data_width c))
                   prb_size [0..<nof_prbs] buffer)"

text \<open>The loop over the subcarriers of a block; \<open>g\<close> is what is done with the two integers of a subcarrier.\<close>

fun unpack_subcarriers :: "(i16 \<Rightarrow> i16 \<Rightarrow> 'iq) \<Rightarrow> bytes \<Rightarrow> nat \<Rightarrow> nat list \<Rightarrow> 'iq list option" where
  "unpack_subcarriers g bits width [] = Some []"
| "unpack_subcarriers g bits width (i # r) = do {
     let read_pos = i * (width * 2);
     re \<leftarrow> unpack_bits bits read_pos width;
     im \<leftarrow> unpack_bits bits (read_pos + width) width;
     xs \<leftarrow> unpack_subcarriers g bits width r;
     Some (g (sign_extend width re) (sign_extend width im) # xs)
   }"

text \<open>The scaling factor is converted to 16 bits; a shift by 32 or more is undefined.\<close>

definition decompress_prb_generic :: "(nat \<Rightarrow> int \<Rightarrow> int \<Rightarrow> 'iq) \<Rightarrow> bytes \<Rightarrow> nat \<Rightarrow> 'iq list option" where
  "decompress_prb_generic of_fixed comp_prb width =
     (case comp_prb of
        [] \<Rightarrow> None
      | exponent # packed \<Rightarrow>
          if unat exponent \<ge> 32 then None
          else let scaler = sint (word_of_int (2 ^ unat exponent) :: i16)
               in unpack_subcarriers (\<lambda>re im. of_fixed Q_BIT_WIDTH (sint re * scaler) (sint im * scaler)) packed width
                    [0..<NOF_SUBCARRIERS_PER_RB])"

fun decompress_loop :: "(bytes \<Rightarrow> 'iq list option) \<Rightarrow> nat \<Rightarrow> bytes \<Rightarrow> nat list \<Rightarrow> 'iq list option" where
  "decompress_loop f prb_size compressed_data [] = Some []"
| "decompress_loop f prb_size compressed_data (i # r) = do {
     out \<leftarrow> f (prb_view prb_size i compressed_data);
     rest \<leftarrow> decompress_loop f prb_size compressed_data r;
     Some (out @ rest)
   }"

definition bfp_decompress ::
  "(nat \<Rightarrow> int \<Rightarrow> int \<Rightarrow> 'iq) \<Rightarrow> nat \<Rightarrow> bytes \<Rightarrow> ru_compression_params \<Rightarrow> 'iq list option" where
  "bfp_decompress of_fixed iq_size compressed_data c =
     (let nof_prbs = iq_size div NOF_SUBCARRIERS_PER_RB;
          prb_size = get_compressed_prb_size c
      in if \<not> quantizer_ok (data_width c) then None
         else if \<not> nof_prbs * prb_size \<le> length compressed_data then None
         else decompress_loop (\<lambda>comp_prb. decompress_prb_generic of_fixed comp_prb (data_width c)) prb_size compressed_data
                [0..<nof_prbs])"

section \<open>No compression\<close>

definition none_compress ::
  "(nat \<Rightarrow> 'iq \<Rightarrow> i16 \<times> i16) \<Rightarrow> bytes \<Rightarrow> 'iq list \<Rightarrow> ru_compression_params \<Rightarrow> bytes option" where
  "none_compress quantize buffer iq_data c =
     (let nof_prbs = length iq_data div NOF_SUBCARRIERS_PER_RB;
          prb_size = get_compressed_prb_size c
      in if \<not> quantizer_ok (data_width c) then None
         else if \<not> prb_size * nof_prbs \<le> length buffer then None
         else compress_loop (\<lambda>out rb. pack_bytes out (quantize_input quantize (data_width c)
                  (take NOF_SUBCARRIERS_PER_RB (drop (rb * NOF_SUBCARRIERS_PER_RB) iq_data))) (data_width c))
                prb_size [0..<nof_prbs] buffer)"

definition none_decompress ::
  "(nat \<Rightarrow> int \<Rightarrow> int \<Rightarrow> 'iq) \<Rightarrow> nat \<Rightarrow> bytes \<Rightarrow> ru_compression_params \<Rightarrow> 'iq list option" where
  "none_decompress of_fixed output_size input c =
     (let nof_prbs = output_size div NOF_SUBCARRIERS_PER_RB;
          prb_size = get_compressed_prb_size c
      in if \<not> quantizer_ok (data_width c) then None
         else if \<not> nof_prbs * prb_size \<le> length input then None
         else decompress_loop (\<lambda>c_prb. unpack_subcarriers (\<lambda>re im. of_fixed (data_width c) (sint re) (sint im)) c_prb (data_width c)
                  [0..<NOF_SUBCARRIERS_PER_RB]) prb_size input [0..<nof_prbs])"

section \<open>Selection\<close>

text \<open>The compression types that are not implemented end the program.\<close>

definition iq_compress ::
  "(nat \<Rightarrow> 'iq \<Rightarrow> i16 \<times> i16) \<Rightarrow> bytes \<Rightarrow> 'iq list \<Rightarrow> ru_compression_params \<Rightarrow> bytes option" where
  "iq_compress quantize buffer iq_data c =
     (case compr_type c of
        compr_none \<Rightarrow> none_compress quantize buffer iq_data c
      | BFP \<Rightarrow> bfp_compress quantize buffer iq_data c
      | _ \<Rightarrow> None)"

definition iq_decompress ::
  "(nat \<Rightarrow> int \<Rightarrow> int \<Rightarrow> 'iq) \<Rightarrow> nat \<Rightarrow> bytes \<Rightarrow> ru_compression_params \<Rightarrow> 'iq list option" where
  "iq_decompress of_fixed iq_size compressed_data c =
     (case compr_type c of
        compr_none \<Rightarrow> none_decompress of_fixed iq_size compressed_data c
      | BFP \<Rightarrow> bfp_decompress of_fixed iq_size compressed_data c
      | _ \<Rightarrow> None)"

section \<open>Exponent\<close>

lemma bit_length_bounds: "n < 2 ^ bit_length n \<and> (0 < n \<longrightarrow> 2 ^ (bit_length n - 1) \<le> n)"
proof (induction n rule: bit_length.induct)
  case (1 n)
  show ?case
  proof (cases "n = 0")
    case False
    then have IH: "n div 2 < 2 ^ bit_length (n div 2)" "0 < n div 2 \<longrightarrow> 2 ^ (bit_length (n div 2) - 1) \<le> n div 2"
      using 1 by simp_all
    have bl: "bit_length n = Suc (bit_length (n div 2))" using False by (simp add: bit_length.simps [of n])
    have "2 ^ bit_length (n div 2) \<le> n"
    proof (cases "n div 2 = 0")
      case True
      then show ?thesis using False by (simp add: bit_length.simps [of 0])
    next
      case nz: False
      then have "bit_length (n div 2) \<noteq> 0" by (simp add: bit_length.simps [of "n div 2"])
      then have "(2::nat) ^ bit_length (n div 2) = 2 * 2 ^ (bit_length (n div 2) - 1)" by (cases "bit_length (n div 2)") simp_all
      also have "\<dots> \<le> 2 * (n div 2)" using IH(2) nz by simp
      finally show ?thesis by linarith
    qed
    then show ?thesis using IH(1) by (simp add: bl)
  qed (simp add: bit_length.simps)
qed

lemma bit_length_le: "n < 2 ^ k \<Longrightarrow> bit_length n \<le> k"
proof (rule ccontr)
  assume n: "n < 2 ^ k" and c: "\<not> bit_length n \<le> k"
  have "n \<noteq> 0" using c by (intro notI) (simp add: bit_length.simps)
  then have "(2::nat) ^ (bit_length n - 1) \<le> n" using bit_length_bounds by simp
  moreover have "(2::nat) ^ k \<le> 2 ^ (bit_length n - 1)" using c by (intro power_increasing) auto
  ultimately show False using n by linarith
qed

text \<open>Below \<open>2 ^ 15\<close> the exponent is the number of bits that do not fit the mantissa.\<close>

lemma determine_exponent_eq:
  assumes "x < 2 ^ 15" "1 \<le> w" "w \<le> 16"
  shows "determine_exponent x w = Some (bit_length x - (w - 1))"
proof -
  have bl: "bit_length x \<le> 15" by (rule bit_length_le [OF assms(1)])
  have "(int (builtin_clz x) - 16 - 1) mod 2 ^ 32 = int (15 - bit_length x)"
    using bl by (simp add: builtin_clz_def of_nat_diff)
  then have lz: "nat ((int (builtin_clz x) - 16 - 1) mod 2 ^ 32) = 15 - bit_length x" by simp
  show ?thesis
    unfolding determine_exponent_def lz
    using assms(2,3) bl by (auto simp: MAX_IQ_WIDTH_def Let_def min_def bit_length.simps [of 0])
qed

text \<open>The value \<open>2 ^ 15\<close>, the absolute value of the smallest sample, wraps around to the exponent zero.\<close>

lemma determine_exponent_minimum:
  assumes "1 \<le> w" "w \<le> 16"
  shows "determine_exponent (2 ^ 15) w = Some 0"
proof -
  have "bit_length (2 ^ 15) = 16" by (simp add: bit_length.simps)
  then show ?thesis using assms by (auto simp: determine_exponent_def MAX_IQ_WIDTH_def builtin_clz_def Let_def min_def)
qed

lemma determine_exponent_le:
  assumes "x \<le> 2 ^ 15" "1 \<le> w" "w \<le> 16"
  shows "\<exists>e \<le> 16 - w. determine_exponent x w = Some e"
proof (cases "x = 2 ^ 15")
  case False
  then have x: "x < 2 ^ 15" using assms(1) by simp
  then show ?thesis using determine_exponent_eq [OF x assms(2,3)] bit_length_le [OF x] by auto
qed (use determine_exponent_minimum [OF assms(2,3)] in auto)

section \<open>Block maximum\<close>

lemma max_element_ge: "x \<in> set xs \<Longrightarrow> x \<le> max_element xs"
  by (cases xs) (simp_all add: max_element_def Max.set_eq_fold [symmetric])

lemma max_element_mem: "xs \<noteq> [] \<Longrightarrow> max_element xs \<in> set xs"
  by (cases xs) (simp_all add: max_element_def Max.set_eq_fold [symmetric] del: set_simps)

lemma min_element_le: "x \<in> set xs \<Longrightarrow> min_element xs \<le> x"
  by (cases xs) (simp_all add: min_element_def Min.set_eq_fold [symmetric])

lemma min_element_mem: "xs \<noteq> [] \<Longrightarrow> min_element xs \<in> set xs"
  by (cases xs) (simp_all add: min_element_def Min.set_eq_fold [symmetric] del: set_simps)

lemma sint_i16: "- 32768 \<le> sint (s :: i16) \<and> sint s < 32768"
  using sint_ge [of s] sint_less [of s] by simp

lemma block_max_abs_ge:
  assumes "s \<in> set xs"
  shows "sint s \<le> int (block_max_abs xs)" "- sint s - 1 \<le> int (block_max_abs xs)"
  using max_element_ge [of "sint s" "map sint xs"] min_element_le [of "sint s" "map sint xs"] assms
  by (auto simp: block_max_abs_def)

lemma block_max_abs_mem:
  assumes "xs \<noteq> []"
  shows "\<exists>s \<in> set xs. int (block_max_abs xs) \<le> \<bar>sint s\<bar>"
proof -
  have "max_element (map sint xs) \<in> sint ` set xs" "min_element (map sint xs) \<in> sint ` set xs"
    using max_element_mem [of "map sint xs"] min_element_mem [of "map sint xs"] assms by simp_all
  then obtain a b where "a \<in> set xs" "max_element (map sint xs) = sint a" "b \<in> set xs" "min_element (map sint xs) = sint b"
    by auto
  then show ?thesis
    by (cases "\<bar>sint a\<bar> \<le> \<bar>sint b\<bar> - 1") (auto simp: block_max_abs_def intro: bexI [of _ a] bexI [of _ b])
qed

lemma block_max_abs_le: "xs \<noteq> [] \<Longrightarrow> block_max_abs xs \<le> 2 ^ 15"
proof -
  assume "xs \<noteq> []"
  from block_max_abs_mem [OF this] obtain s :: i16 where "int (block_max_abs xs) \<le> \<bar>sint s\<bar>" by blast
  then have "int (block_max_abs xs) \<le> 32768" using sint_i16 [of s] by linarith
  then show "block_max_abs xs \<le> 2 ^ 15" by simp
qed

text \<open>Only a block all of whose samples are the smallest value of a range reaches the bound of the range.\<close>

lemma block_max_abs_reaches:
  assumes ne: "xs \<noteq> []" and r: "\<forall>s \<in> set xs. - P \<le> sint s \<and> sint s < P" and m: "P \<le> int (block_max_abs xs)"
  shows "\<forall>s \<in> set xs. sint s = - P" "int (block_max_abs xs) = P"
proof -
  let ?mx = "max_element (map sint xs)" and ?mn = "min_element (map sint xs)"
  have "?mx \<in> sint ` set xs" "?mn \<in> sint ` set xs"
    using max_element_mem [of "map sint xs"] min_element_mem [of "map sint xs"] ne by simp_all
  then have b: "- P \<le> ?mx" "?mx < P" "- P \<le> ?mn" "?mn < P" using r by auto
  have m': "int (block_max_abs xs) = max \<bar>?mx\<bar> (\<bar>?mn\<bar> - 1)" by (simp add: block_max_abs_def le_max_iff_disj)
  then have mx: "?mx = - P" using b m by linarith
  then show "int (block_max_abs xs) = P" using b m' by linarith
  show "\<forall>s \<in> set xs. sint s = - P"
  proof
    fix s assume "s \<in> set xs"
    then show "sint s = - P" using max_element_ge [of "sint s" "map sint xs"] mx r by fastforce
  qed
qed

lemma block_max_abs_minimum:
  assumes "xs \<noteq> []"
  shows "block_max_abs xs = 2 ^ 15 \<longleftrightarrow> (\<forall>s \<in> set xs. sint s = - (2 ^ 15))"
proof
  assume "block_max_abs xs = 2 ^ 15"
  then show "\<forall>s \<in> set xs. sint s = - (2 ^ 15)" using block_max_abs_reaches(1) [OF assms, of 32768] sint_i16 by simp
next
  assume all: "\<forall>s \<in> set xs. sint s = - (2 ^ 15)"
  then have "max_element (map sint xs) = - (2 ^ 15)" "min_element (map sint xs) = - (2 ^ 15)"
    using max_element_mem [of "map sint xs"] min_element_mem [of "map sint xs"] assms by auto
  then show "block_max_abs xs = 2 ^ 15" by (simp add: block_max_abs_def)
qed

section \<open>Mantissas\<close>

lemma div_bounds:
  fixes a b c :: int
  assumes "0 < b"
  shows "a < c * b \<Longrightarrow> a div b < c" "- (c * b) \<le> a \<Longrightarrow> - c \<le> a div b"
proof -
  have m: "a div b * b + a mod b = a" "0 \<le> a mod b" using assms by simp_all
  show "a div b < c" if "a < c * b"
  proof (rule ccontr)
    assume "\<not> a div b < c"
    then have "c * b \<le> a div b * b" using assms by (intro mult_right_mono) auto
    then show False using m that by linarith
  qed
  show "- c \<le> a div b" if "- (c * b) \<le> a"
    using zdiv_mono1 [OF that assms] assms by (simp flip: mult_minus_left)
qed

lemma mantissa_range:
  assumes x: "sint (s :: i16) \<le> int x" "- sint s - 1 \<le> int x" and w: "1 \<le> w"
  shows "- (2 ^ (w - 1)) \<le> sint s div 2 ^ (bit_length x - (w - 1))" "sint s div 2 ^ (bit_length x - (w - 1)) < 2 ^ (w - 1)"
proof -
  let ?e = "bit_length x - (w - 1)"
  have "x < 2 ^ bit_length x" using bit_length_bounds by blast
  also have "(2::nat) ^ bit_length x \<le> 2 ^ (w - 1 + ?e)" by (rule power_increasing) auto
  finally have "int x < int (2 ^ (w - 1 + ?e))" by (simp only: of_nat_less_iff)
  then have "int x < 2 ^ (w - 1) * 2 ^ ?e" by (simp add: power_add)
  then have "sint s < 2 ^ (w - 1) * 2 ^ ?e" "- (2 ^ (w - 1) * 2 ^ ?e) \<le> sint s" using x by linarith+
  then show "- (2 ^ (w - 1)) \<le> sint s div 2 ^ ?e" "sint s div 2 ^ ?e < 2 ^ (w - 1)" by (intro div_bounds; simp)+
qed

lemma sign_extend_take_bit:
  fixes v :: i16
  assumes "1 \<le> w" "w \<le> 16" "- (2 ^ (w - 1)) \<le> sint v" "sint v < 2 ^ (w - 1)"
  shows "sign_extend w (take_bit w v) = v"
proof (rule bit_eqI)
  fix k assume "possible_bit TYPE(i16) k"
  then have k: "k < 16" by simp
  have "signed_take_bit (w - 1) (sint v) = sint v" using assms(3,4) by (intro signed_take_bit_int_eq_self) auto
  then have "bit (sint v) k = bit (signed_take_bit (w - 1) (sint v)) k" by simp
  also have "\<dots> = bit (sint v) (min k (w - 1))" by (simp add: bit_signed_take_bit_iff min.commute)
  finally have "bit (sint v) k = bit (sint v) (min k (w - 1))" .
  moreover have "bit (sint v) j = bit v j" if "j < 16" for j using that by (simp add: bit_sint_iff)
  ultimately have same: "bit v (min k (w - 1)) = bit v k" using k by simp
  have "bit (sign_extend w (take_bit w v)) k = bit v (min k (w - 1))"
    using k assms(1,2) by (auto simp: sign_extend_def bit_simps min_def)
  then show "bit (sign_extend w (take_bit w v)) k = bit v k" by (simp only: same)
qed

section \<open>One resource block\<close>

definition bfp_value :: "nat \<Rightarrow> nat \<Rightarrow> i16 \<Rightarrow> int" where
  "bfp_value w e s = sint (sign_extend w (take_bit w (signed_drop_bit e s))) * 2 ^ e"

lemma unpack_subcarriers_eq:
  assumes "\<forall>i \<in> set is. unpack_bits bits (2 * i * w) w = Some (re i) \<and> unpack_bits bits ((2 * i + 1) * w) w = Some (im i)"
  shows "unpack_subcarriers g bits w is = Some (map (\<lambda>i. g (sign_extend w (re i)) (sign_extend w (im i))) is)"
  using assms by (induction "is") (auto simp: Let_def algebra_simps)

lemma unpack_packed:
  assumes w: "8 \<le> w" "w \<le> 16" and xs: "length xs = 24" and buf: "length buffer = 3 * w"
  shows "\<exists>packed. pack_bytes buffer xs w = Some packed \<and> length packed = 3 * w \<and>
    (\<forall>g. unpack_subcarriers g packed w [0..<12] =
       Some (map (\<lambda>i. g (sign_extend w (take_bit w (xs ! (2 * i)))) (sign_extend w (take_bit w (xs ! (2 * i + 1))))) [0..<12]))"
proof -
  obtain packed where p: "pack_bytes buffer xs w = Some packed" "length packed = length buffer"
    "\<forall>i < 24. unpack_bits packed (i * w) w = Some (take_bit w (xs ! i))"
    using pack_bytes_spec [OF w, of xs buffer] xs buf by auto
  have "unpack_subcarriers g packed w [0..<12] =
       Some (map (\<lambda>i. g (sign_extend w (take_bit w (xs ! (2 * i)))) (sign_extend w (take_bit w (xs ! (2 * i + 1))))) [0..<12])" for g
  proof (intro unpack_subcarriers_eq ballI conjI)
    fix i assume "i \<in> set [0..<12 :: nat]"
    then show "unpack_bits packed (2 * i * w) w = Some (take_bit w (xs ! (2 * i)))"
      "unpack_bits packed ((2 * i + 1) * w) w = Some (take_bit w (xs ! (2 * i + 1)))"
      using p(3) [rule_format, of "2 * i"] p(3) [rule_format, of "2 * i + 1"] by simp_all
  qed
  then show ?thesis using p(1,2) buf by auto
qed

lemma block_exponent:
  assumes "xs \<noteq> []" "1 \<le> w" "w \<le> 16"
  shows "\<exists>e \<le> 16 - w. determine_exponent (block_max_abs xs) w = Some e"
  by (rule determine_exponent_le [OF block_max_abs_le [OF assms(1)] assms(2,3)])

lemma compress_decompress_prb:
  fixes of_fixed :: "nat \<Rightarrow> int \<Rightarrow> int \<Rightarrow> 'iq"
  assumes w: "8 \<le> w" "w \<le> 16" and xs: "length xs = 24" and buf: "length buffer = 3 * w + 1"
    and e: "determine_exponent (block_max_abs xs) w = Some e" "e \<le> 16 - w"
  shows "\<exists>out. compress_prb_generic buffer xs w = Some out \<and> length out = length buffer \<and>
    decompress_prb_generic of_fixed out w =
      Some (map (\<lambda>i. of_fixed 16 (bfp_value w e (xs ! (2 * i))) (bfp_value w e (xs ! (2 * i + 1)))) [0..<12])"
proof -
  obtain b0 rest where b: "buffer = b0 # rest" "length rest = 3 * w" using buf by (cases buffer) auto
  let ?ys = "map (signed_drop_bit e) xs"
  have "length ?ys = 24" using xs by simp
  from unpack_packed [OF w this b(2)] obtain packed where p: "pack_bytes rest ?ys w = Some packed" "length packed = 3 * w"
    "\<And>g :: i16 \<Rightarrow> i16 \<Rightarrow> 'iq. unpack_subcarriers g packed w [0..<12] =
       Some (map (\<lambda>i. g (sign_extend w (take_bit w (?ys ! (2 * i)))) (sign_extend w (take_bit w (?ys ! (2 * i + 1))))) [0..<12])"
    by blast
  have "xs \<noteq> []" using xs by auto
  then have m: "block_max_abs xs mod 65536 = block_max_abs xs" using block_max_abs_le [of xs] by simp
  have e8: "e \<le> 8" using e(2) w(1) by simp
  then have u: "unat (of_nat e :: byte) = e" by (simp add: unat_of_nat)
  have "(2::int) ^ e \<le> 2 ^ 8" using e8 by (intro power_increasing) auto
  moreover have "- 32768 \<le> (2::int) ^ e" by (rule order_trans [of _ 0]) simp_all
  ultimately have "sint (word_of_int (2 ^ e) :: i16) = 2 ^ e" by (subst sint_sbintrunc') (intro signed_take_bit_int_eq_self, auto)
  then have sc: "sint ((2 :: i16) ^ e) = 2 ^ e" by simp
  have "compress_prb_generic buffer xs w = Some (of_nat e # packed)"
    using p(1) e(1) xs b(1) m by (simp add: compress_prb_generic_def NOF_SAMPLES_PER_PRB_def NOF_SUBCARRIERS_PER_RB_def)
  moreover have "decompress_prb_generic of_fixed (of_nat e # packed) w =
      Some (map (\<lambda>i. of_fixed 16 (bfp_value w e (xs ! (2 * i))) (bfp_value w e (xs ! (2 * i + 1)))) [0..<12])"
    using e8 xs by (simp add: decompress_prb_generic_def Let_def u sc p(3) bfp_value_def Q_BIT_WIDTH_def MAX_IQ_WIDTH_def
        NOF_SUBCARRIERS_PER_RB_def)
  ultimately show ?thesis using p(2) buf by auto
qed

text \<open>The mantissas keep the samples up to the bits below the exponent.\<close>

lemma bfp_value_eq:
  assumes w: "1 \<le> w" "w \<le> 16" and s: "s \<in> set xs" and m: "block_max_abs xs < 2 ^ 15"
    and e: "determine_exponent (block_max_abs xs) w = Some e"
  shows "bfp_value w e s = sint s div 2 ^ e * 2 ^ e"
proof -
  let ?v = "signed_drop_bit e s"
  have e': "e = bit_length (block_max_abs xs) - (w - 1)" using determine_exponent_eq [OF m w] e by simp
  have v: "sint ?v = sint s div 2 ^ e" by (simp add: sint_signed_drop_bit_eq drop_bit_eq_div)
  have "sign_extend w (take_bit w ?v) = ?v"
    using mantissa_range [OF block_max_abs_ge [OF s] w(1), folded e'] by (intro sign_extend_take_bit [OF w]) (simp_all only: v)
  then show ?thesis by (simp add: bfp_value_def v)
qed

lemma bfp_value_bound:
  assumes w: "2 \<le> w" "w \<le> 16" and s: "s \<in> set xs" and m: "block_max_abs xs < 2 ^ 15"
    and e: "determine_exponent (block_max_abs xs) w = Some e"
  shows "bfp_value w e s \<le> sint s"
    and "bfp_value w e s = sint s \<or> (\<exists>t \<in> set xs. (sint s - bfp_value w e s) * 2 ^ (w - 2) < \<bar>sint t\<bar>)"
proof -
  let ?m = "block_max_abs xs" and ?q = "sint s div 2 ^ e * 2 ^ e"
  have w1: "1 \<le> w" using w(1) by simp
  have v: "bfp_value w e s = ?q" by (rule bfp_value_eq [OF w1 w(2) s m e])
  have r: "?q + sint s mod 2 ^ e = sint s" "0 \<le> sint s mod 2 ^ e" "sint s mod 2 ^ e < 2 ^ e" by (rule div_mult_mod_eq) simp_all
  then show "bfp_value w e s \<le> sint s" unfolding v by linarith
  show "bfp_value w e s = sint s \<or> (\<exists>t \<in> set xs. (sint s - bfp_value w e s) * 2 ^ (w - 2) < \<bar>sint t\<bar>)"
  proof (cases "e = 0")
    case False
    have bl: "e = bit_length ?m - (w - 1)" using determine_exponent_eq [OF m w1 w(2)] e by simp
    then have "?m \<noteq> 0" using False by (intro notI) (simp add: bit_length.simps)
    moreover have "bit_length ?m - 1 = e + (w - 2)" using bl False w(1) by simp
    ultimately have "(2::nat) ^ (e + (w - 2)) \<le> ?m" using bit_length_bounds [of ?m] by simp
    then have "int (2 ^ (e + (w - 2))) \<le> int ?m" by (simp only: of_nat_le_iff)
    then have big: "(2::int) ^ e * 2 ^ (w - 2) \<le> int ?m" by (simp add: power_add)
    have "sint s - ?q < 2 ^ e" using r by linarith
    then have "(sint s - ?q) * 2 ^ (w - 2) < 2 ^ e * 2 ^ (w - 2)" by (intro mult_strict_right_mono) auto
    moreover have "xs \<noteq> []" using s by auto
    ultimately show ?thesis using block_max_abs_mem [of xs] big unfolding v by (meson order_less_le_trans)
  next
    case True
    then show ?thesis using v by simp
  qed
qed

text \<open>Samples that fit the mantissa are kept exactly.\<close>

lemma bfp_value_exact:
  assumes w: "2 \<le> w" "w \<le> 16" and s: "s \<in> set xs" and e: "determine_exponent (block_max_abs xs) w = Some e"
    and fit: "\<forall>t \<in> set xs. - (2 ^ (w - 1)) \<le> sint t \<and> sint t < 2 ^ (w - 1)"
  shows "bfp_value w e s = sint s"
proof -
  have w1: "1 \<le> w" using w(1) by simp
  have ne: "xs \<noteq> []" using s by auto
  have zero: "bfp_value w 0 s = sint s" using sign_extend_take_bit [OF w1 w(2), of s] fit s by (simp add: bfp_value_def)
  show ?thesis
  proof (cases "block_max_abs xs = 2 ^ 15")
    case True
    then show ?thesis using determine_exponent_minimum [OF w1 w(2)] e zero by simp
  next
    case False
    then have m: "block_max_abs xs < 2 ^ 15" using block_max_abs_le [OF ne] by simp
    have v: "bfp_value w e s = sint s div 2 ^ e * 2 ^ e" by (rule bfp_value_eq [OF w1 w(2) s m e])
    have e': "e = bit_length (block_max_abs xs) - (w - 1)" using determine_exponent_eq [OF m w1 w(2)] e by simp
    show ?thesis
    proof (cases "block_max_abs xs < 2 ^ (w - 1)")
      case True
      then have "e = 0" using bit_length_le e' by simp
      then show ?thesis using v by simp
    next
      case big: False
      then have P: "int (block_max_abs xs) = 2 ^ (w - 1)" "sint s = - (2 ^ (w - 1))"
        using block_max_abs_reaches [OF ne fit] s by (simp_all add: not_less flip: of_nat_le_iff)
      then have bm: "block_max_abs xs = 2 ^ (w - 1)" by (simp flip: of_nat_eq_iff)
      have "bit_length (2 ^ (w - 1)) \<le> w" using w(1) by (intro bit_length_le power_strict_increasing) auto
      then have "e \<le> 1" using e' bm w(1) by simp
      moreover have "even (sint s)" using P(2) w(1) by simp
      ultimately show ?thesis using v by (cases e) auto
    qed
  qed
qed

section \<open>Loops over the resource blocks\<close>

lemma length_write_prb_view:
  assumes "length prb = p" "(k + 1) * p \<le> length buffer"
  shows "length (write_prb_view p k prb buffer) = length buffer"
  using assms by (simp add: write_prb_view_def)

lemma prb_view_write:
  assumes "length prb = p" "(k + 1) * p \<le> length buffer"
  shows "prb_view p k (write_prb_view p k prb buffer) = prb"
    and "i < k \<Longrightarrow> prb_view p i (write_prb_view p k prb buffer) = prb_view p i buffer"
proof -
  have k: "k * p \<le> length buffer" using assms(2) by simp
  then show "prb_view p k (write_prb_view p k prb buffer) = prb"
    using assms(1) by (simp add: prb_view_def write_prb_view_def)
  assume "i < k"
  then have "(i + 1) * p \<le> k * p" by (intro mult_le_mono1) simp
  then have "p \<le> k * p - i * p" by simp
  moreover have "i * p \<le> k * p" using \<open>i < k\<close> by (intro mult_le_mono1) simp
  ultimately show "prb_view p i (write_prb_view p k prb buffer) = prb_view p i buffer"
    using k by (simp add: prb_view_def write_prb_view_def drop_take)
qed

lemma compress_loop_append:
  "compress_loop f p (is @ js) buffer = Option.bind (compress_loop f p is buffer) (compress_loop f p js)"
  by (induction "is" arbitrary: buffer) (auto split: Option.bind_splits)

lemma decompress_loop_eq:
  "\<forall>i \<in> set is. g (prb_view p i bs) = Some (r i) \<Longrightarrow> decompress_loop g p bs is = Some (concat (map r is))"
  by (induction "is") auto

text \<open>
  A pair of routines for one block that fit together, on a view of any content, fit together for all the
  blocks of a buffer.
\<close>

lemma compress_decompress_loop:
  assumes f: "\<And>out i. i < n \<Longrightarrow> length out = p \<Longrightarrow> \<exists>prb. f out i = Some prb \<and> length prb = p \<and> g prb = Some (r i)"
    and len: "n * p \<le> length buffer"
  shows "\<exists>out. compress_loop f p [0..<n] buffer = Some out \<and> length out = length buffer \<and>
    decompress_loop g p out [0..<n] = Some (concat (map r [0..<n]))"
proof -
  have "\<exists>out. compress_loop f p [0..<k] buffer = Some out \<and> length out = length buffer \<and>
      (\<forall>i < k. g (prb_view p i out) = Some (r i))" if "k \<le> n" for k
    using that
  proof (induction k)
    case (Suc k)
    then obtain out where out: "compress_loop f p [0..<k] buffer = Some out" "length out = length buffer"
      "\<forall>i < k. g (prb_view p i out) = Some (r i)" by auto
    have "(k + 1) * p \<le> n * p" using Suc.prems by (intro mult_le_mono1) simp
    then have kp: "(k + 1) * p \<le> length out" using len out(2) by simp
    then have "length (prb_view p k out) = p" by (simp add: prb_view_def)
    with f [of k] Suc.prems obtain prb where prb: "f (prb_view p k out) k = Some prb" "length prb = p" "g prb = Some (r k)" by auto
    let ?out = "write_prb_view p k prb out"
    have "compress_loop f p [0..<Suc k] buffer = Some ?out" by (simp add: compress_loop_append out(1) prb(1))
    moreover have "length ?out = length buffer" using length_write_prb_view [OF prb(2) kp] out(2) by simp
    moreover have "\<forall>i < Suc k. g (prb_view p i ?out) = Some (r i)"
      using prb_view_write [OF prb(2) kp] out(3) prb(3) by (auto simp: less_Suc_eq)
    ultimately show ?case by blast
  qed simp
  then obtain out where "compress_loop f p [0..<n] buffer = Some out" "length out = length buffer"
    "\<forall>i < n. g (prb_view p i out) = Some (r i)" by blast
  then show ?thesis using decompress_loop_eq [of "[0..<n]" g p out r] by auto
qed

text \<open>The quantized samples of a block.\<close>

definition prb_samples :: "(nat \<Rightarrow> 'iq \<Rightarrow> i16 \<times> i16) \<Rightarrow> nat \<Rightarrow> 'iq list \<Rightarrow> nat \<Rightarrow> i16 list" where
  "prb_samples quantize w iq k = quantize_input quantize w (take 12 (drop (12 * k) iq))"

lemma length_quantize_input [simp]: "length (quantize_input quantize w iq) = 2 * length iq"
  by (induction iq) (simp_all add: quantize_input_def)

lemma quantize_input_slice:
  "take (2 * n) (drop (2 * k) (quantize_input quantize w iq)) = quantize_input quantize w (take n (drop k iq))"
proof -
  have d: "drop (2 * k) (quantize_input quantize w iq) = quantize_input quantize w (drop k iq)" for k iq
    by (induction iq arbitrary: k) (auto simp: quantize_input_def drop_Cons split: nat.split)
  have t: "take (2 * n) (quantize_input quantize w iq) = quantize_input quantize w (take n iq)" for n iq
    by (induction iq arbitrary: n) (auto simp: quantize_input_def take_Cons split: nat.split)
  show ?thesis by (simp add: d t)
qed

lemma nth_quantize_input:
  "i < length iq \<Longrightarrow> quantize_input quantize w iq ! (2 * i) = fst (quantize w (iq ! i)) \<and>
     quantize_input quantize w iq ! (2 * i + 1) = snd (quantize w (iq ! i))"
  by (induction iq arbitrary: i) (auto simp: quantize_input_def nth_Cons split: nat.split)

lemma length_prb_samples:
  assumes "length iq = n * 12" "k < n"
  shows "length (prb_samples quantize w iq k) = 24"
proof -
  have "(k + 1) * 12 \<le> n * 12" using assms(2) by (intro mult_le_mono1) simp
  then show ?thesis using assms(1) by (simp add: prb_samples_def)
qed

lemma concat_blocks:
  "concat (map (\<lambda>k. map (f k) [0..<m]) [0..<n]) = map (\<lambda>j. f (j div m) (j mod m)) [0..<n * m]"
proof (induction n)
  case (Suc n)
  have "map (f n) [0..<m] = map (\<lambda>j. f (j div m) (j mod m)) (map (\<lambda>i. n * m + i) [0..<m])" by simp
  also have "map (\<lambda>i. n * m + i) [0..<m] = [n * m..<n * m + m]" by (simp only: add.commute [of "n * m"] map_add_upt)
  finally have "map (f n) [0..<m] = map (\<lambda>j. f (j div m) (j mod m)) [n * m..<n * m + m]" .
  moreover have "[0..<Suc n * m] = [0..<n * m] @ [n * m..<n * m + m]"
    using upt_add_eq_append [of 0 "n * m" m] by (simp add: add.commute)
  ultimately show ?case using Suc.IH by simp
qed simp

lemma block_samples:
  assumes "length iq = n * 12" "j < n * 12"
  shows "prb_samples quantize w iq (j div 12) ! (2 * (j mod 12)) = fst (quantize w (iq ! j))"
    and "prb_samples quantize w iq (j div 12) ! (2 * (j mod 12) + 1) = snd (quantize w (iq ! j))"
    and "fst (quantize w (iq ! j)) \<in> set (prb_samples quantize w iq (j div 12))"
    and "snd (quantize w (iq ! j)) \<in> set (prb_samples quantize w iq (j div 12))"
proof -
  have k: "j div 12 < n" using assms(2) by (simp add: less_mult_imp_div_less)
  then have "(j div 12 + 1) * 12 \<le> n * 12" by (intro mult_le_mono1) simp
  then have l: "length (take 12 (drop (12 * (j div 12)) iq)) = 12" using assms(1) by simp
  have m: "j mod 12 < 12" by simp
  have "take 12 (drop (12 * (j div 12)) iq) ! (j mod 12) = iq ! j" using m assms k by simp
  then show 1: "prb_samples quantize w iq (j div 12) ! (2 * (j mod 12)) = fst (quantize w (iq ! j))"
    and 2: "prb_samples quantize w iq (j div 12) ! (2 * (j mod 12) + 1) = snd (quantize w (iq ! j))"
    unfolding prb_samples_def using nth_quantize_input [of "j mod 12" "take 12 (drop (12 * (j div 12)) iq)" quantize w] l by simp_all
  have "length (prb_samples quantize w iq (j div 12)) = 24" by (rule length_prb_samples [OF assms(1) k])
  then show "fst (quantize w (iq ! j)) \<in> set (prb_samples quantize w iq (j div 12))"
    and "snd (quantize w (iq ! j)) \<in> set (prb_samples quantize w iq (j div 12))"
    unfolding 1 [symmetric] 2 [symmetric] by (intro nth_mem; simp)+
qed

text \<open>The exponent of a block and the round trip through the block floating point codec.\<close>

definition block_exponent_of :: "nat \<Rightarrow> i16 list \<Rightarrow> nat" where
  "block_exponent_of w xs = the (determine_exponent (block_max_abs xs) w)"

lemma block_exponent_of:
  assumes "xs \<noteq> []" "1 \<le> w" "w \<le> 16"
  shows "determine_exponent (block_max_abs xs) w = Some (block_exponent_of w xs)" "block_exponent_of w xs \<le> 16 - w"
  using block_exponent [OF assms] by (auto simp: block_exponent_of_def)

lemma bfp_codec:
  fixes of_fixed :: "nat \<Rightarrow> int \<Rightarrow> int \<Rightarrow> 'iq"
  assumes c: "compr_type c = BFP" "data_width c = w" "8 \<le> w" "w \<le> 16"
    and n: "length iq = n * 12" "n \<le> MAX_NOF_PRBS" "n * get_compressed_prb_size c \<le> length buffer"
  shows "\<exists>out. bfp_compress quantize buffer iq c = Some out \<and> length out = length buffer \<and>
    bfp_decompress of_fixed (length iq) out c = Some (map (\<lambda>j.
      let xs = prb_samples quantize 16 iq (j div 12); e = block_exponent_of w xs
      in of_fixed 16 (bfp_value w e (fst (quantize 16 (iq ! j)))) (bfp_value w e (snd (quantize 16 (iq ! j))))) [0..<n * 12])"
proof -
  let ?xs = "prb_samples quantize 16 iq" and ?p = "get_compressed_prb_size c"
  let ?e = "\<lambda>k. block_exponent_of w (?xs k)"
  let ?r = "\<lambda>k. map (\<lambda>i. of_fixed 16 (bfp_value w (?e k) (?xs k ! (2 * i))) (bfp_value w (?e k) (?xs k ! (2 * i + 1)))) [0..<12]"
  have p: "?p = 3 * w + 1" using c by (simp add: prb_size_eq is_compression_param_present_def)
  have f: "\<exists>prb. compress_prb_generic out (take 24 (drop (24 * k) (quantize_input quantize 16 iq))) w = Some prb \<and>
      length prb = ?p \<and> decompress_prb_generic of_fixed prb w = Some (?r k)" if "k < n" "length out = ?p" for out k
  proof -
    have xs: "length (?xs k) = 24" by (rule length_prb_samples [OF n(1) that(1)])
    then have "?xs k \<noteq> []" by auto
    then have e: "determine_exponent (block_max_abs (?xs k)) w = Some (?e k)" "?e k \<le> 16 - w" using block_exponent_of c(3,4) by simp_all
    have "take 24 (drop (24 * k) (quantize_input quantize 16 iq)) = ?xs k"
      using quantize_input_slice [of 12 "12 * k" quantize 16 iq] by (simp add: prb_samples_def)
    then show ?thesis using compress_decompress_prb [OF c(3,4) xs _ e, of out of_fixed] that(2) p by simp
  qed
  let ?f = "\<lambda>out k. compress_prb_generic out (take 24 (drop (24 * k) (quantize_input quantize 16 iq))) w"
  obtain out where out: "compress_loop ?f
      ?p [0..<n] buffer = Some out" "length out = length buffer"
    "decompress_loop (\<lambda>prb. decompress_prb_generic of_fixed prb w) ?p out [0..<n] = Some (concat (map ?r [0..<n]))"
    using compress_decompress_loop [where f = ?f and r = ?r, OF f n(3)] by blast
  have "concat (map ?r [0..<n]) = map (\<lambda>j. of_fixed 16 (bfp_value w (?e (j div 12)) (?xs (j div 12) ! (2 * (j mod 12))))
      (bfp_value w (?e (j div 12)) (?xs (j div 12) ! (2 * (j mod 12) + 1)))) [0..<n * 12]"
    by (rule concat_blocks)
  also have "\<dots> = map (\<lambda>j. of_fixed 16 (bfp_value w (?e (j div 12)) (fst (quantize 16 (iq ! j))))
      (bfp_value w (?e (j div 12)) (snd (quantize 16 (iq ! j))))) [0..<n * 12]"
    by (rule map_cong [OF refl]) (simp only: set_upt atLeastLessThan_iff block_samples [OF n(1)])
  finally have r: "concat (map ?r [0..<n]) = \<dots>" .
  show ?thesis
    using out(1,2) out(3) [unfolded r] n c
    by (simp add: bfp_compress_def bfp_decompress_def NOF_SUBCARRIERS_PER_RB_def NOF_SAMPLES_PER_PRB_def Let_def
        Q_BIT_WIDTH_def MAX_IQ_WIDTH_def quantizer_ok_def mult.commute [of ?p n])
qed

lemma none_codec:
  fixes of_fixed :: "nat \<Rightarrow> int \<Rightarrow> int \<Rightarrow> 'iq"
  assumes c: "compr_type c = compr_none" "data_width c = w" "8 \<le> w" "w \<le> 16"
    and n: "length iq = n * 12" "n * get_compressed_prb_size c \<le> length buffer"
  shows "\<exists>out. none_compress quantize buffer iq c = Some out \<and> length out = length buffer \<and>
    none_decompress of_fixed (length iq) out c = Some (map (\<lambda>j. of_fixed w (bfp_value w 0 (fst (quantize w (iq ! j))))
      (bfp_value w 0 (snd (quantize w (iq ! j))))) [0..<n * 12])"
proof -
  let ?xs = "prb_samples quantize w iq" and ?p = "get_compressed_prb_size c"
  let ?g = "\<lambda>prb. unpack_subcarriers (\<lambda>re im. of_fixed w (sint re) (sint im)) prb w [0..<12]"
  let ?r = "\<lambda>k. map (\<lambda>i. of_fixed w (bfp_value w 0 (?xs k ! (2 * i))) (bfp_value w 0 (?xs k ! (2 * i + 1)))) [0..<12]"
  let ?f = "\<lambda>out k. pack_bytes out (quantize_input quantize w (take 12 (drop (k * 12) iq))) w"
  have p: "?p = 3 * w" using c by (simp add: prb_size_eq is_compression_param_present_def)
  have f: "\<exists>prb. ?f out k = Some prb \<and> length prb = ?p \<and> ?g prb = Some (?r k)" if "k < n" "length out = ?p" for out k
    using unpack_packed [OF c(3,4) length_prb_samples [OF n(1) that(1)], of out quantize w] that(2) p
    by (fastforce simp: prb_samples_def bfp_value_def mult.commute)
  obtain out where out: "compress_loop ?f ?p [0..<n] buffer = Some out" "length out = length buffer"
    "decompress_loop ?g ?p out [0..<n] = Some (concat (map ?r [0..<n]))"
    using compress_decompress_loop [where f = ?f and g = ?g and r = ?r, OF f n(2)] by blast
  have "concat (map ?r [0..<n]) = map (\<lambda>j. of_fixed w (bfp_value w 0 (?xs (j div 12) ! (2 * (j mod 12))))
      (bfp_value w 0 (?xs (j div 12) ! (2 * (j mod 12) + 1)))) [0..<n * 12]"
    by (rule concat_blocks)
  also have "\<dots> = map (\<lambda>j. of_fixed w (bfp_value w 0 (fst (quantize w (iq ! j)))) (bfp_value w 0 (snd (quantize w (iq ! j))))) [0..<n * 12]"
    by (rule map_cong [OF refl]) (simp only: set_upt atLeastLessThan_iff block_samples [OF n(1)])
  finally have r: "concat (map ?r [0..<n]) = \<dots>" .
  show ?thesis
    using out(1,2) out(3) [unfolded r] n c
    by (simp add: none_compress_def none_decompress_def NOF_SUBCARRIERS_PER_RB_def Let_def quantizer_ok_def mult.commute [of ?p n])
qed

section \<open>Definedness of the decompression\<close>

lemma unpack_subcarriers_total:
  assumes "1 \<le> w" "w \<le> 16" "length bits = 3 * w" "\<forall>i \<in> set is. i < 12"
  shows "\<exists>xs. unpack_subcarriers g bits w is = Some xs \<and> length xs = length is"
  using assms(4)
proof (induction "is")
  case (Cons i "is")
  then have "(i + 1) * (w * 2) \<le> 12 * (w * 2)" by (intro mult_le_mono1) simp
  then have "i * (w * 2) + w \<le> length bits * 8" "i * (w * 2) + w + w \<le> length bits * 8" using assms(3) by auto
  then show ?case
    using unpack_bits_spec [of w "i * (w * 2)" bits] unpack_bits_spec [of w "i * (w * 2) + w" bits] assms(1,2) Cons by auto
qed simp

lemma decompress_prb_defined:
  assumes "1 \<le> w" "w \<le> 16" "length prb = 3 * w + 1"
  shows "decompress_prb_generic of_fixed prb w = None \<longleftrightarrow> 32 \<le> unat (hd prb)"
    and "decompress_prb_generic of_fixed prb w = Some xs \<Longrightarrow> length xs = 12"
proof -
  obtain e bits where prb: "prb = e # bits" "length bits = 3 * w" using assms(3) by (cases prb) auto
  obtain ys where "unpack_subcarriers (\<lambda>re im. of_fixed Q_BIT_WIDTH (sint re * sint (word_of_int (2 ^ unat e) :: i16))
      (sint im * sint (word_of_int (2 ^ unat e) :: i16))) bits w [0..<12] = Some ys" "length ys = 12"
    using unpack_subcarriers_total [OF assms(1,2) prb(2), of "[0..<12]"] by fastforce
  then show "decompress_prb_generic of_fixed prb w = None \<longleftrightarrow> 32 \<le> unat (hd prb)"
    "decompress_prb_generic of_fixed prb w = Some xs \<Longrightarrow> length xs = 12"
    by (auto simp: decompress_prb_generic_def prb(1) NOF_SUBCARRIERS_PER_RB_def Let_def split: if_splits)
qed

lemma decompress_loop_defined:
  "decompress_loop g p bs is = None \<longleftrightarrow> (\<exists>i \<in> set is. g (prb_view p i bs) = None)"
  by (induction "is") (auto split: Option.bind_splits)

lemma length_decompress_loop:
  "decompress_loop g p bs is = Some xs \<Longrightarrow> \<forall>i \<in> set is. \<forall>ys. g (prb_view p i bs) = Some ys \<longrightarrow> length ys = m \<Longrightarrow>
    length xs = m * length is"
  by (induction "is" arbitrary: xs) (auto split: Option.bind_splits)

lemma length_prb_view: "i < n \<Longrightarrow> n * p \<le> length bs \<Longrightarrow> length (prb_view p i bs) = p"
proof -
  assume "i < n" "n * p \<le> length bs"
  moreover have "(i + 1) * p \<le> n * p" using \<open>i < n\<close> by (intro mult_le_mono1) simp
  ultimately show "length (prb_view p i bs) = p" by (simp add: prb_view_def)
qed

lemma hd_prb_view: "i < n \<Longrightarrow> n * p \<le> length bs \<Longrightarrow> 0 < p \<Longrightarrow> hd (prb_view p i bs) = bs ! (i * p)"
proof -
  assume a: "i < n" "n * p \<le> length bs" "0 < p"
  then have "(i + 1) * p \<le> n * p" by (intro mult_le_mono1) simp
  then show "hd (prb_view p i bs) = bs ! (i * p)" using a by (simp add: prb_view_def hd_drop_conv_nth hd_take)
qed

section \<open>Properties\<close>

text \<open>A decompressed value lies below the sample by less than the largest sample of the block over \<open>2 ^ (w - 2)\<close>.\<close>

definition within_block_error :: "nat \<Rightarrow> i16 list \<Rightarrow> i16 \<Rightarrow> int \<Rightarrow> bool" where
  "within_block_error w xs s v \<longleftrightarrow>
     v \<le> sint s \<and> (v = sint s \<or> (\<exists>t \<in> set xs. (sint s - v) * 2 ^ (w - 2) < \<bar>sint t\<bar>))"

text \<open>
  C14: Block floating point compression loses little.  For mantissas of 8 to 16 bits, any number of resource
  blocks up to the maximum and an output buffer of any content, compression succeeds, and decompression
  of its output gives for every sample a value that is not above the quantized sample and is either equal
  to it or below it by less than the largest magnitude in its resource block divided by \<open>2 ^ (w - 2)\<close>,
  provided no resource block consists of the smallest 16-bit value only.
\<close>

theorem bfp_error_bounded:
  assumes c: "compr_type c = BFP" "data_width c = w" "8 \<le> w" "w \<le> 16"
    and n: "length iq = n * 12" "n \<le> MAX_NOF_PRBS" "n * get_compressed_prb_size c \<le> length buffer"
    and ok: "\<forall>k < n. \<exists>s \<in> set (prb_samples quantize 16 iq k). sint s \<noteq> - (2 ^ 15)"
  shows "\<exists>out re im. iq_compress quantize buffer iq c = Some out \<and>
    iq_decompress of_fixed (length iq) out c = Some (map (\<lambda>j. of_fixed 16 (re j) (im j)) [0..<length iq]) \<and>
    (\<forall>j < length iq. within_block_error w (prb_samples quantize 16 iq (j div 12)) (fst (quantize 16 (iq ! j))) (re j) \<and>
                     within_block_error w (prb_samples quantize 16 iq (j div 12)) (snd (quantize 16 (iq ! j))) (im j))"
proof -
  let ?xs = "\<lambda>j. prb_samples quantize 16 iq (j div 12)"
  let ?v = "\<lambda>j. bfp_value w (block_exponent_of w (?xs j))"
  obtain out where out: "bfp_compress quantize buffer iq c = Some out"
    "bfp_decompress of_fixed (length iq) out c =
       Some (map (\<lambda>j. of_fixed 16 (?v j (fst (quantize 16 (iq ! j)))) (?v j (snd (quantize 16 (iq ! j))))) [0..<n * 12])"
    using bfp_codec [OF c n, of quantize of_fixed] by (auto simp: Let_def)
  have err: "within_block_error w (?xs j) s (?v j s)" if j: "j < n * 12" and s: "s \<in> set (?xs j)" for j s
  proof -
    have w: "2 \<le> w" "1 \<le> w" using c(3) by simp_all
    have ne: "?xs j \<noteq> []" using s by auto
    have "j div 12 < n" using j by (simp add: less_mult_imp_div_less)
    then have "block_max_abs (?xs j) \<noteq> 2 ^ 15" using ok block_max_abs_minimum [OF ne] by blast
    then have "block_max_abs (?xs j) < 2 ^ 15" using block_max_abs_le [OF ne] by simp
    from bfp_value_bound [OF w(1) c(4) s this block_exponent_of(1) [OF ne w(2) c(4)]]
    show ?thesis by (simp add: within_block_error_def)
  qed
  then show ?thesis
    using out c(1) n(1) block_samples(3,4) [OF n(1), of _ quantize 16]
    by (intro exI [of _ out] exI [of _ "\<lambda>j. ?v j (fst (quantize 16 (iq ! j)))"] exI [of _ "\<lambda>j. ?v j (snd (quantize 16 (iq ! j)))"])
      (simp add: iq_compress_def iq_decompress_def)
qed

text \<open>A codec on pairs of fixed point numbers, with conversions that change nothing.\<close>

definition sample_bfp :: ru_compression_params where "sample_bfp = \<lparr>compr_type = BFP, data_width = 9\<rparr>"

definition sample_quantize :: "nat \<Rightarrow> i16 \<times> i16 \<Rightarrow> i16 \<times> i16" where "sample_quantize w x = x"

definition sample_iq :: "(i16 \<times> i16) list" where "sample_iq = (300, 0) # replicate 11 (5, 0)"

lemma sample_prb_samples: "prb_samples sample_quantize 16 sample_iq 0 = quantize_input sample_quantize 16 sample_iq"
  by (simp add: prb_samples_def sample_iq_def)

lemma sample_bfp_size: "get_compressed_prb_size sample_bfp = 28"
  by (simp add: sample_bfp_def prb_size_eq is_compression_param_present_def)

theorem bfp_error_bounded_witness:
  "\<exists>out re im. iq_compress sample_quantize (replicate 28 0) sample_iq sample_bfp = Some out \<and>
    iq_decompress (\<lambda>_. Pair) (length sample_iq) out sample_bfp = Some (map (\<lambda>j. (re j, im j)) [0..<length sample_iq]) \<and>
    within_block_error 9 (prb_samples sample_quantize 16 sample_iq 0) 300 (re 0)"
proof -
  have "\<forall>k < 1. \<exists>s \<in> set (prb_samples sample_quantize 16 sample_iq k). sint s \<noteq> - (2 ^ 15)"
    by (simp add: sample_prb_samples) (simp add: quantize_input_def sample_quantize_def sample_iq_def)
  from bfp_error_bounded [of sample_bfp 9 sample_iq 1 "replicate 28 0" sample_quantize "\<lambda>_. Pair", OF _ _ _ _ _ _ _ this] sample_bfp_size
  show ?thesis
    by (fastforce simp: sample_bfp_def sample_iq_def sample_quantize_def MAX_NOF_PRBS_def)
qed

text \<open>
  C26: Samples that fit the mantissa survive exactly.  When the quantized samples of every resource block fit
  \<open>w\<close> bits, both codecs (block floating point with any output buffer, and the transport without compression)
  return exactly the quantized samples.
\<close>

theorem codec_lossless:
  assumes c: "compr_type c = BFP \<and> q = 16 \<or> compr_type c = compr_none \<and> q = w" "data_width c = w" "8 \<le> w" "w \<le> 16"
    and n: "length iq = n * 12" "n \<le> MAX_NOF_PRBS" "n * get_compressed_prb_size c \<le> length buffer"
    and fit: "\<forall>x \<in> set iq. \<forall>s \<in> {fst (quantize q x), snd (quantize q x)}. - (2 ^ (w - 1)) \<le> sint s \<and> sint s < 2 ^ (w - 1)"
  shows "\<exists>out. iq_compress quantize buffer iq c = Some out \<and>
    iq_decompress of_fixed (length iq) out c =
      Some (map (\<lambda>x. of_fixed q (sint (fst (quantize q x))) (sint (snd (quantize q x)))) iq)"
proof -
  have m: "map (\<lambda>j. f (iq ! j)) [0..<n * 12] = map f iq" for f :: "'a \<Rightarrow> 'c"
    unfolding n(1) [symmetric] by (rule nth_equalityI) simp_all
  have w: "2 \<le> w" "1 \<le> w" using c(3) by simp_all
  from c(1) show ?thesis
  proof (elim disjE conjE)
    assume b: "compr_type c = BFP" "q = 16"
    let ?xs = "\<lambda>j. prb_samples quantize 16 iq (j div 12)"
    have e: "bfp_value w (block_exponent_of w (?xs j)) s = sint s" if s: "s \<in> set (?xs j)" for j s
    proof -
      have ne: "?xs j \<noteq> []" using s by auto
      have "- (2 ^ (w - 1)) \<le> sint t \<and> sint t < 2 ^ (w - 1)" if "t \<in> set (?xs j)" for t
        using that fit b(2) by (auto simp: prb_samples_def quantize_input_def dest!: in_set_takeD in_set_dropD)
      then show ?thesis by (intro bfp_value_exact [OF w(1) c(4) s block_exponent_of(1) [OF ne w(2) c(4)]]) blast
    qed
    have "map (\<lambda>j. let xs = ?xs j; e = block_exponent_of w xs in
        of_fixed 16 (bfp_value w e (fst (quantize 16 (iq ! j)))) (bfp_value w e (snd (quantize 16 (iq ! j))))) [0..<n * 12] =
      map (\<lambda>j. of_fixed 16 (sint (fst (quantize 16 (iq ! j)))) (sint (snd (quantize 16 (iq ! j))))) [0..<n * 12]"
      using block_samples(3,4) [OF n(1), of _ quantize 16] by (intro map_cong refl) (simp add: e Let_def)
    also have "\<dots> = map (\<lambda>x. of_fixed 16 (sint (fst (quantize 16 x))) (sint (snd (quantize 16 x)))) iq" by (rule m)
    finally show ?thesis
      using bfp_codec [OF b(1) c(2-4) n, of quantize of_fixed] b by (simp only: iq_compress_def iq_decompress_def) auto
  next
    assume b: "compr_type c = compr_none" "q = w"
    have e: "bfp_value w 0 s = sint s" if "x \<in> set iq" "s \<in> {fst (quantize w x), snd (quantize w x)}" for x s
      using sign_extend_take_bit [OF w(2) c(4), of s] fit b(2) that by (auto simp: bfp_value_def)
    have "map (\<lambda>j. of_fixed w (bfp_value w 0 (fst (quantize w (iq ! j)))) (bfp_value w 0 (snd (quantize w (iq ! j))))) [0..<n * 12] =
      map (\<lambda>j. of_fixed w (sint (fst (quantize w (iq ! j)))) (sint (snd (quantize w (iq ! j))))) [0..<n * 12]"
      using n(1) by (intro map_cong refl) (simp add: e [OF nth_mem])
    also have "\<dots> = map (\<lambda>x. of_fixed w (sint (fst (quantize w x))) (sint (snd (quantize w x)))) iq" by (rule m)
    finally show ?thesis
      using none_codec [OF b(1) c(2-4) n(1,3), of quantize of_fixed] b by (simp only: iq_compress_def iq_decompress_def) auto
  qed
qed

theorem codec_lossless_witness:
  "\<exists>out. iq_compress sample_quantize (replicate 28 0) (replicate 12 (-256, 255)) sample_bfp = Some out \<and>
    iq_decompress (\<lambda>_. Pair) 12 out sample_bfp = Some (replicate 12 (-256, 255))"
  using codec_lossless [of sample_bfp 16 9 "replicate 12 (-256, 255)" 1 "replicate 28 0" sample_quantize "\<lambda>_. Pair"] sample_bfp_size
  by (simp add: sample_bfp_def sample_quantize_def MAX_NOF_PRBS_def)

text \<open>
  C36: A resource block at the negative limit is lost.  When every quantized sample is the smallest 16-bit
  value, the exponent computation wraps around to zero, the mantissas keep only zero bits, and the block is
  decompressed to zeros instead of the largest negative values.
\<close>

theorem bfp_minimum_block_lost:
  assumes c: "compr_type c = BFP" "data_width c = w" "8 \<le> w" "w < 16"
    and n: "length iq = n * 12" "n \<le> MAX_NOF_PRBS" "n * get_compressed_prb_size c \<le> length buffer"
    and minimum: "\<forall>x \<in> set iq. sint (fst (quantize 16 x)) = - (2 ^ 15) \<and> sint (snd (quantize 16 x)) = - (2 ^ 15)"
  shows "\<exists>out. iq_compress quantize buffer iq c = Some out \<and>
    iq_decompress of_fixed (length iq) out c = Some (replicate (length iq) (of_fixed 16 0 0))"
proof -
  have w: "1 \<le> w" "w \<le> 16" using c by simp_all
  have zero: "bfp_value w 0 s = 0" if s: "sint s = - (2 ^ 15)" for s
  proof -
    have "s = word_of_int (sint s)" by simp
    then have "s = word_of_int (- (2 ^ 15))" by (simp only: s)
    moreover have "(2::int) ^ w dvd 2 ^ 15" using c(4) by (intro le_imp_power_dvd) simp
    then have "take_bit w (- (2 ^ 15) :: int) = 0" unfolding take_bit_eq_0_iff dvd_minus_iff .
    ultimately have "take_bit w s = 0" by (simp only: take_bit_of_int of_int_0)
    then show ?thesis by (simp add: bfp_value_def sign_extend_def)
  qed
  let ?xs = "\<lambda>j. prb_samples quantize 16 iq (j div 12)"
  have all: "sint s = - (2 ^ 15)" if "s \<in> set (?xs j)" for j s
    using that minimum by (auto simp: prb_samples_def quantize_input_def dest!: in_set_takeD in_set_dropD)
  have e: "bfp_value w (block_exponent_of w (?xs j)) s = 0" if "s \<in> set (?xs j)" for j s
  proof -
    have "?xs j \<noteq> []" using that by auto
    then have "block_max_abs (?xs j) = 2 ^ 15" using block_max_abs_minimum [THEN iffD2] all by blast
    then have "block_exponent_of w (?xs j) = 0" using determine_exponent_minimum [OF w] by (simp add: block_exponent_of_def)
    then show ?thesis using zero [OF all [OF that]] by simp
  qed
  have "map (\<lambda>j. let xs = ?xs j; e = block_exponent_of w xs in
      of_fixed 16 (bfp_value w e (fst (quantize 16 (iq ! j)))) (bfp_value w e (snd (quantize 16 (iq ! j))))) [0..<n * 12] =
    map (\<lambda>j. of_fixed 16 0 0) [0..<n * 12]"
    using block_samples(3,4) [OF n(1), of _ quantize 16] by (intro map_cong refl) (simp add: e Let_def)
  also have "\<dots> = replicate (length iq) (of_fixed 16 0 0)" by (simp add: map_replicate_const n(1))
  finally show ?thesis
    using bfp_codec [OF c(1-3) w(2) n, of quantize of_fixed] c(1) by (simp only: iq_compress_def iq_decompress_def) auto
qed

theorem bfp_minimum_block_lost_witness:
  "\<exists>out. iq_compress sample_quantize (replicate 28 0) (replicate 12 (0x8000, 0x8000)) sample_bfp = Some out \<and>
    iq_decompress (\<lambda>_. Pair) 12 out sample_bfp = Some (replicate 12 (0, 0))"
  using bfp_minimum_block_lost [of sample_bfp 9 "replicate 12 (0x8000, 0x8000)" 1 "replicate 28 0" sample_quantize "\<lambda>_. Pair"] sample_bfp_size
  by (simp add: sample_bfp_def sample_quantize_def MAX_NOF_PRBS_def)

text \<open>The decompression of a buffer that is long enough, and the number of samples it returns.\<close>

lemma iq_decompress_length:
  assumes w: "1 \<le> data_width c" "data_width c \<le> 16" and bs: "n * get_compressed_prb_size c \<le> length bs"
    and r: "iq_decompress of_fixed (n * 12) bs c = Some xs"
  shows "length xs = n * 12"
proof -
  let ?p = "get_compressed_prb_size c"
  have view: "length (prb_view ?p i bs) = ?p" if "i < n" for i by (rule length_prb_view [OF that bs])
  show ?thesis
  proof (cases "compr_type c")
    case BFP
    then have p: "?p = 3 * data_width c + 1" by (simp add: prb_size_eq is_compression_param_present_def)
    from r BFP have "decompress_loop (\<lambda>prb. decompress_prb_generic of_fixed prb (data_width c)) ?p bs [0..<n] = Some xs"
      by (simp add: iq_decompress_def bfp_decompress_def NOF_SUBCARRIERS_PER_RB_def Let_def split: if_splits)
    from length_decompress_loop [OF this, of 12] decompress_prb_defined(2) [OF w] view p show ?thesis by fastforce
  next
    case compr_none
    then have p: "?p = 3 * data_width c" by (simp add: prb_size_eq is_compression_param_present_def)
    from r compr_none have "decompress_loop (\<lambda>prb. unpack_subcarriers (\<lambda>re im. of_fixed (data_width c) (sint re) (sint im)) prb
        (data_width c) [0..<12]) ?p bs [0..<n] = Some xs"
      by (simp add: iq_decompress_def none_decompress_def NOF_SUBCARRIERS_PER_RB_def Let_def split: if_splits)
    moreover have "length ys = 12" if "i < n" "unpack_subcarriers g (prb_view ?p i bs) (data_width c) [0..<12] = Some ys"
      for i ys and g :: "i16 \<Rightarrow> i16 \<Rightarrow> 'a"
      using unpack_subcarriers_total [OF w, of "prb_view ?p i bs" "[0..<12]" g] view that p by auto
    ultimately show ?thesis using length_decompress_loop [of _ ?p bs "[0..<n]" xs 12] by fastforce
  qed (use r in \<open>simp_all add: iq_decompress_def\<close>)
qed

text \<open>
  C37: When the decompressor fails.  On a buffer that holds all the resource blocks, the decompressor fails
  exactly in two cases, both chosen by the sender: for a compression type other than none and block floating
  point the program exits, and for a block floating point exponent byte of 32 or more the scaling factor is
  an undefined shift.
\<close>

theorem iq_decompress_fails_iff:
  assumes w: "1 \<le> data_width c" "data_width c \<le> 16" and bs: "n * get_compressed_prb_size c \<le> length bs"
  shows "iq_decompress of_fixed (n * 12) bs c = None \<longleftrightarrow>
    compr_type c \<notin> {compr_none, BFP} \<or>
    compr_type c = BFP \<and> (\<exists>k < n. 32 \<le> unat (bs ! (k * get_compressed_prb_size c)))"
proof -
  let ?p = "get_compressed_prb_size c"
  have view: "length (prb_view ?p i bs) = ?p" if "i < n" for i by (rule length_prb_view [OF that bs])
  show ?thesis
  proof (cases "compr_type c")
    case BFP
    then have p: "?p = 3 * data_width c + 1" by (simp add: prb_size_eq is_compression_param_present_def)
    then have "decompress_prb_generic of_fixed (prb_view ?p i bs) (data_width c) = None \<longleftrightarrow> 32 \<le> unat (bs ! (i * ?p))" if "i < n" for i
      using decompress_prb_defined(1) [OF w, of "prb_view ?p i bs" of_fixed] view [OF that] hd_prb_view [OF that bs] by simp
    then show ?thesis
      using BFP w bs by (auto simp: iq_decompress_def bfp_decompress_def NOF_SUBCARRIERS_PER_RB_def Let_def quantizer_ok_def decompress_loop_defined)
  next
    case compr_none
    then have p: "?p = 3 * data_width c" by (simp add: prb_size_eq is_compression_param_present_def)
    have "unpack_subcarriers g (prb_view ?p i bs) (data_width c) [0..<12] \<noteq> None" if "i < n" for i and g :: "i16 \<Rightarrow> i16 \<Rightarrow> 'a"
      using unpack_subcarriers_total [OF w, of "prb_view ?p i bs" "[0..<12]" g] view [OF that] p by auto
    then show ?thesis
      using compr_none w bs
      by (auto simp: iq_decompress_def none_decompress_def NOF_SUBCARRIERS_PER_RB_def Let_def quantizer_ok_def decompress_loop_defined)
  qed (simp_all add: iq_decompress_def)
qed

theorem iq_decompress_fails_iff_witness:
  "iq_decompress (\<lambda>_. Pair) 12 (0x20 # replicate 27 0) sample_bfp = None \<and>
   iq_decompress (\<lambda>_. Pair) 12 (0x1f # replicate 27 0) sample_bfp \<noteq> None \<and>
   iq_decompress (\<lambda>_. Pair) 12 (replicate 28 0) \<lparr>compr_type = mu_law, data_width = 9\<rparr> = None"
  using iq_decompress_fails_iff [of sample_bfp 1 "0x20 # replicate 27 0" "\<lambda>_. Pair"]
    iq_decompress_fails_iff [of sample_bfp 1 "0x1f # replicate 27 0" "\<lambda>_. Pair"]
    iq_decompress_fails_iff [of "\<lparr>compr_type = mu_law, data_width = 9\<rparr>" 1 "replicate 28 0" "\<lambda>_. Pair"] sample_bfp_size
  by (simp add: sample_bfp_def prb_size_eq is_compression_param_present_def)

end
