(* ===== verification/Codec_Link.thy ===== *)
theory Codec_Link
  imports Fronthaul_Link Iq_Compression
begin

text \<open>
  The link of theory Fronthaul_Link with the codec of theory Iq_Compression: what the compressor of the
  O-DU writes and the decompressor of the O-RU reads of a symbol that is split into fragments.
\<close>

section \<open>The codec as the two ends of a link use it\<close>

text \<open>
  The compressor writes into the frame buffer behind the headers, here a buffer of zeros; the decompressor
  writes into a span of the requested size, of which it leaves the part after the last whole resource block.
\<close>

definition codec_compress :: "(nat \<Rightarrow> 'iq \<Rightarrow> i16 \<times> i16) \<Rightarrow> 'iq list \<Rightarrow> ru_compression_params \<Rightarrow> bytes" where
  "codec_compress quantize iq c =
     (let buffer = replicate (length iq div NOF_SUBCARRIERS_PER_RB * get_compressed_prb_size c) 0
      in case iq_compress quantize buffer iq c of Some out \<Rightarrow> out | None \<Rightarrow> buffer)"

definition codec_decompress :: "(nat \<Rightarrow> int \<Rightarrow> int \<Rightarrow> 'iq) \<Rightarrow> nat \<Rightarrow> bytes \<Rightarrow> ru_compression_params \<Rightarrow> 'iq list" where
  "codec_decompress of_fixed n bs c =
     (let buffer = replicate n (of_fixed Q_BIT_WIDTH 0 0)
      in case iq_decompress of_fixed n bs c of Some xs \<Rightarrow> take n (xs @ buffer) | None \<Rightarrow> buffer)"

lemma bit_buffer_insert_length: "bit_buffer_insert v p n buffer = Some buffer' \<Longrightarrow> length buffer' = length buffer"
  by (auto simp: bit_buffer_insert_def Let_def split: if_splits)

lemma pack_sample_length: "pack_sample s left p buffer = Some (q, buffer') \<Longrightarrow> length buffer' = length buffer"
proof (induction left arbitrary: s p buffer rule: less_induct)
  case (less left)
  consider "left = 0" | "0 < left" "left \<le> 8" | "8 < left" by linarith
  then show ?case
  proof cases
    case 3
    then obtain b where "bit_buffer_insert (ucast (signed_drop_bit (left - 8) s)) p 8 buffer = Some b"
      "pack_sample (s AND mask_lsb_ones (left - 8)) (left - 8) (p + 8) b = Some (q, buffer')"
      using less.prems by (auto simp: pack_sample_long split: Option.bind_splits)
    then show ?thesis using less.IH [of "left - 8"] 3 bit_buffer_insert_length by fastforce
  qed (use less.prems in \<open>auto simp: pack_sample_0 pack_sample_short dest: bit_buffer_insert_length\<close>)
qed

lemma pack_bytes_length: "pack_bytes buffer xs w = Some buffer' \<Longrightarrow> length buffer' = length buffer"
proof -
  have "pack_samples xs w p b = Some (q, b') \<Longrightarrow> length b' = length b" for p q b b'
    by (induction xs arbitrary: p b) (auto split: Option.bind_splits dest: pack_sample_length)
  then show "pack_bytes buffer xs w = Some buffer' \<Longrightarrow> length buffer' = length buffer"
    by (auto simp: pack_bytes_def split: Option.bind_splits if_splits dest!: bit_buffer_insert_length)
qed

lemma compress_loop_length:
  assumes "\<And>out i prb. f out i = Some prb \<Longrightarrow> length prb = length out"
    and "compress_loop f p is buffer = Some buffer'" "\<forall>i \<in> set is. (i + 1) * p \<le> length buffer"
  shows "length buffer' = length buffer"
  using assms(2,3)
proof (induction "is" arbitrary: buffer)
  case (Cons i "is")
  then obtain prb where prb: "f (prb_view p i buffer) i = Some prb"
    "compress_loop f p is (write_prb_view p i prb buffer) = Some buffer'" by (auto split: Option.bind_splits)
  have i: "(i + 1) * p \<le> length buffer" using Cons.prems(2) by simp
  then have "length prb = p" using assms(1) [OF prb(1)] by (simp add: prb_view_def)
  from length_write_prb_view [OF this i] show ?case using Cons.IH [OF prb(2)] Cons.prems(2) by simp
qed simp

lemma codec_compress_length:
  "length (codec_compress quantize iq c) = length iq div NOF_SUBCARRIERS_PER_RB * get_compressed_prb_size c"
proof -
  let ?n = "length iq div NOF_SUBCARRIERS_PER_RB" and ?p = "get_compressed_prb_size c"
  have f: "\<And>out i prb. compress_prb_generic out (xs i) w = Some prb \<Longrightarrow> length prb = length out" for xs :: "nat \<Rightarrow> i16 list" and w
    by (auto simp: compress_prb_generic_def Let_def split: if_splits Option.bind_splits dest!: pack_bytes_length)
  have i: "\<forall>i \<in> set [0..<?n]. (i + 1) * ?p \<le> length (replicate (?n * ?p) (0 :: byte))"
  proof
    fix i assume "i \<in> set [0..<?n]"
    then have "(i + 1) * ?p \<le> ?n * ?p" by (intro mult_le_mono1) simp
    then show "(i + 1) * ?p \<le> length (replicate (?n * ?p) (0 :: byte))" by simp
  qed
  have "length out = ?n * ?p" if "iq_compress quantize (replicate (?n * ?p) 0) iq c = Some out" for out
    using that compress_loop_length [OF f _ i] compress_loop_length [OF pack_bytes_length _ i]
    by (auto simp: iq_compress_def bfp_compress_def none_compress_def Let_def split: compression_type.splits if_splits)
  then show ?thesis by (simp add: codec_compress_def Let_def split: option.split)
qed

lemma codec_decompress_length: "length (codec_decompress of_fixed n bs c) = n"
  by (auto simp: codec_decompress_def Let_def split: option.split)

section \<open>Samples of a fragmented symbol\<close>

text \<open>The value that arrives for sample \<open>j\<close> of a symbol: it depends on the resource block of the sample only.\<close>

definition arriving_sample :: "(nat \<Rightarrow> 'iq \<Rightarrow> i16 \<times> i16) \<Rightarrow> (nat \<Rightarrow> int \<Rightarrow> int \<Rightarrow> 'iq) \<Rightarrow> nat \<Rightarrow> 'iq list \<Rightarrow> nat \<Rightarrow> 'iq" where
  "arriving_sample quantize of_fixed w iq j =
     (let e = block_exponent_of w (prb_samples quantize 16 iq (j div 12))
      in of_fixed 16 (bfp_value w e (fst (quantize 16 (iq ! j)))) (bfp_value w e (snd (quantize 16 (iq ! j)))))"

lemma prb_samples_slice:
  assumes "k < m" "(a + m) * 12 \<le> length iq"
  shows "prb_samples quantize w (slice_prbs iq (a, m)) k = prb_samples quantize w iq (a + k)"
proof -
  have "(k + 1) * 12 \<le> m * 12" using assms(1) by (intro mult_le_mono1) simp
  then have "12 \<le> m * 12 - 12 * k" by simp
  then show ?thesis by (simp add: prb_samples_def slice_prbs_def drop_take min_absorb1 algebra_simps)
qed

lemma codec_fragment:
  assumes c: "compr_type c = BFP" "data_width c = w" "8 \<le> w" "w \<le> 16"
    and r: "(a + m) * 12 \<le> length iq" "m \<le> MAX_NOF_PRBS"
  shows "codec_decompress of_fixed (m * 12) (codec_compress quantize (slice_prbs iq (a, m)) c) c =
    map (arriving_sample quantize of_fixed w iq) [a * 12..<(a + m) * 12]"
proof -
  let ?iq = "slice_prbs iq (a, m)" and ?buffer = "replicate (m * get_compressed_prb_size c) (0 :: byte)"
  have "a * 12 + m * 12 \<le> length iq" using r(1) by simp
  then have len: "length ?iq = m * 12" by (simp add: slice_prbs_def)
  have "arriving_sample quantize of_fixed w ?iq j = arriving_sample quantize of_fixed w iq (j + a * 12)" if "j < m * 12" for j
  proof -
    have "j div 12 < m" using that by (simp add: less_mult_imp_div_less)
    moreover have "?iq ! j = iq ! (j + a * 12)" using that r(1) by (simp add: slice_prbs_def add.commute)
    ultimately show ?thesis using prb_samples_slice [OF _ r(1)] by (simp add: arriving_sample_def add.commute)
  qed
  then have "map (arriving_sample quantize of_fixed w ?iq) [0..<m * 12] =
      map (arriving_sample quantize of_fixed w iq) (map (\<lambda>j. j + a * 12) [0..<m * 12])" by simp
  also have "map (\<lambda>j. j + a * 12) [0..<m * 12] = [a * 12..<(a + m) * 12]" by (simp only: map_add_upt add_mult_distrib add.commute)
  finally have map: "map (arriving_sample quantize of_fixed w ?iq) [0..<m * 12] =
      map (arriving_sample quantize of_fixed w iq) [a * 12..<(a + m) * 12]" .
  obtain out where "bfp_compress quantize ?buffer ?iq c = Some out"
    "bfp_decompress of_fixed (m * 12) out c = Some (map (arriving_sample quantize of_fixed w ?iq) [0..<m * 12])"
    using bfp_codec [OF c len r(2), of ?buffer quantize of_fixed] len by (auto simp: arriving_sample_def Let_def)
  then show ?thesis
    unfolding map by (simp add: codec_compress_def codec_decompress_def iq_compress_def iq_decompress_def c(1) len NOF_SUBCARRIERS_PER_RB_def
        Let_def)
qed

lemma scaled_range: "concat (map (\<lambda>k. [k * m..<k * m + m]) [s..<s + n]) = [s * m..<(s + n) * m]"
proof (induction n)
  case (Suc n)
  have "[s * m..<(s + Suc n) * m] = [s * m..<(s + n) * m] @ [(s + n) * m..<(s + n) * m + m]"
    using upt_add_eq_append [of "s * m" "(s + n) * m" m] by (simp add: add_mult_distrib add.assoc add.commute [of m])
  then show ?case using Suc.IH by simp
qed simp

lemma scaled_partition:
  assumes "concat (map (\<lambda>(s, n). [s..<s + n]) rs) = [0..<N]"
  shows "concat (map (\<lambda>r. [fst r * m..<(fst r + snd r) * m]) rs) = [0..<N * m]"
proof -
  let ?g = "\<lambda>k. [k * m..<k * m + m]"
  have "concat (map (\<lambda>r. [fst r * m..<(fst r + snd r) * m]) rs) = concat (map ?g (concat (map (\<lambda>(s, n). [s..<s + n]) rs)))"
    by (induction rs) (auto simp: scaled_range)
  then show ?thesis using scaled_range [of m 0 N] by (simp add: assms)
qed

text \<open>
  C27: The samples that arrive do not depend on the fragmentation.  On a link that uses the block floating
  point codec with mantissas of 8 to 16 bits, however a symbol is split into fragments of whole resource
  blocks, the concatenation of what arrives for the fragments is the same list of samples: sample by
  sample the value that block floating point keeps of it in its own resource block.
\<close>

theorem fragmentation_transparent:
  assumes codec: "utx_compress tx = codec_compress quantize" "ru_decompress cfg = codec_decompress of_fixed"
    and c: "compr_type (utx_compr_params tx) = BFP" "data_width (utx_compr_params tx) = w" "8 \<le> w" "w \<le> 16"
    and rs: "concat (map (\<lambda>(s, n). [s..<s + n]) rs) = [0..<N]" "\<forall>r \<in> set rs. 0 < snd r"
    and N: "length iq = N * 12" "N \<le> MAX_NOF_PRBS"
  shows "concat (map (transported tx cfg iq) rs) = map (arriving_sample quantize of_fixed w iq) [0..<length iq]"
proof -
  let ?h = "arriving_sample quantize of_fixed w iq"
  have b: "fst r + snd r \<le> N" if "r \<in> set rs" for r
    using partition_slices [OF rs, of "\<lambda>r. replicate (snd r * 12) ()"] that by auto
  have "transported tx cfg iq r = map ?h [fst r * 12..<(fst r + snd r) * 12]" if "r \<in> set rs" for r
  proof -
    have "(fst r + snd r) * 12 \<le> length iq" "snd r \<le> MAX_NOF_PRBS" using b [OF that] N by simp_all
    from codec_fragment [OF c this, of of_fixed quantize] show ?thesis by (simp add: transported_def transported_by_def codec)
  qed
  then have "map (transported tx cfg iq) rs = map (\<lambda>r. map ?h [fst r * 12..<(fst r + snd r) * 12]) rs" by simp
  moreover have "concat (map (\<lambda>r. map ?h [fst r * 12..<(fst r + snd r) * 12]) rs) =
      map ?h (concat (map (\<lambda>r. [fst r * 12..<(fst r + snd r) * 12]) rs))" by (simp add: map_concat comp_def)
  moreover have "concat (map (\<lambda>r. [fst r * 12..<(fst r + snd r) * 12]) rs) = [0..<N * 12]"
    by (rule scaled_partition [OF rs(1)])
  ultimately show ?thesis by (simp only: N(1))
qed

definition codec_ru :: "(i16 \<times> i16) ru_sector_config" where
  "codec_ru =
     \<lparr>ru_sector_id = 0, ru_numerology = 1, ru_nof_symbols = 14, ru_vlan_params = ru_vlan_params sample_ru_config,
      ru_dispatcher = ru_dispatcher sample_ru_config, ru_store_and_respond = True, ru_uplane_decoder = sample_decoder,
      ru_decode_header = up_decode_compression_header_dynamic,
      ru_decompress = codec_decompress (\<lambda>_ re im. (word_of_int re, word_of_int im)),
      ru_phy = \<lparr>phy_get_downlink_rx_grid = (\<lambda>s store. (None, store)), phy_get_uplink_tx_grid = (\<lambda>s. None)\<rparr>,
      ru_finalize_offset = 14\<rparr>"

definition codec_tx :: "(i16 \<times> i16) uplane_tx_config" where
  "codec_tx =
     \<lparr>utx_nof_symbols = 14, utx_ru_nof_prbs = 2, utx_compr_params = sample_bfp, utx_direction = downlink,
      utx_vlan = ru_vlan_params sample_ru_config, utx_compress = codec_compress sample_quantize,
      utx_serialize_header = up_serialize_compression_header_dynamic, utx_up_header_size = up_get_header_size_dynamic,
      utx_zero = (0, 0)\<rparr>"

theorem fragmentation_transparent_witness:
  "concat (map (transported codec_tx codec_ru (sample_iq @ sample_iq)) [(0, 1), (1, 1)]) =
   concat (map (transported codec_tx codec_ru (sample_iq @ sample_iq)) [(0, 2)])"
proof -
  have c: "utx_compress codec_tx = codec_compress sample_quantize"
    "ru_decompress codec_ru = codec_decompress (\<lambda>_ re im. (word_of_int re, word_of_int im))"
    "compr_type (utx_compr_params codec_tx) = BFP" "data_width (utx_compr_params codec_tx) = 9"
    by (simp_all add: codec_tx_def codec_ru_def sample_bfp_def)
  have N: "length (sample_iq @ sample_iq) = 2 * 12" "2 \<le> MAX_NOF_PRBS" by (simp_all add: sample_iq_def MAX_NOF_PRBS_def)
  note t = fragmentation_transparent [OF c _ _ _ _ N]
  show ?thesis
    using t [of "[(0, 1), (1, 1)]"] t [of "[(0, 2)]"] by (simp add: upt_rec)
qed

end
