(* ===== verification/Prach_Repository.thy ===== *)
theory Prach_Repository
  imports Rx_Grid_Repository Cplane_Scheduling
begin

text \<open>
  Reception of PRACH windows in the O-DU: the preamble formats (include/ocudu/ran/prach/prach_format_type.h,
  lib/ran/prach/prach_preamble_information.cpp), the contexts and the repository of PRACH buffers
  (lib/ofh/support/prach_context_repository.h), the writer that copies the sections of a User-Plane message into
  a buffer (lib/ofh/receiver/ofh_uplane_prach_symbol_data_flow_writer.cpp) and the notifier
  (ofh_uplane_prach_data_flow_notifier.cpp).

  As for resource grids, PRACH buffers are shared and live in a store; a shared buffer is an index or None.
  None as the result of an operation is a violated assertion.
\<close>

section \<open>Preamble formats\<close>

datatype prach_format_type =
  pf_zero | pf_one | pf_two | pf_three | pf_A1 | pf_A2 | pf_A3 | pf_B1 | pf_B4 | pf_C0 | pf_C2 | pf_A1_B1 | pf_A2_B2
| pf_A3_B3 | pf_invalid

definition is_long_preamble :: "prach_format_type \<Rightarrow> bool" where
  "is_long_preamble f \<longleftrightarrow> f \<in> {pf_zero, pf_one, pf_two, pf_three}"

definition is_short_preamble :: "prach_format_type \<Rightarrow> bool" where
  "is_short_preamble f \<longleftrightarrow> \<not> is_long_preamble f \<and> f \<noteq> pf_invalid"

definition to_ra_subcarrier_spacing :: "subcarrier_spacing \<Rightarrow> prach_subcarrier_spacing" where
  "to_ra_subcarrier_spacing scs =
     (let numerology = numerology_value scs
      in if numerology > ra_numerology_value ra_kHz120 then ra_invalid
         else if numerology = 0 then ra_kHz15 else if numerology = 1 then ra_kHz30
         else if numerology = 2 then ra_kHz60 else ra_kHz120)"

text \<open>The length of the cyclic prefix is in units of kappa.\<close>

record prach_preamble_information =
  sequence_length :: nat
  preamble_scs :: prach_subcarrier_spacing
  preamble_nof_symbols :: nat
  preamble_cp_length :: nat
  support_restricted_sets :: bool

definition LONG_SEQUENCE_LENGTH :: nat where "LONG_SEQUENCE_LENGTH = 839"
definition SHORT_SEQUENCE_MAX_NOF_SYMBOLS :: nat where "SHORT_SEQUENCE_MAX_NOF_SYMBOLS = 12"
definition MAX_NOF_SUPPORTED_EAXC :: nat where "MAX_NOF_SUPPORTED_EAXC = 4"

definition get_prach_preamble_long_info :: "prach_format_type \<Rightarrow> prach_preamble_information option" where
  "get_prach_preamble_long_info format =
     (if \<not> is_long_preamble format then None
      else Some (case format of
          pf_zero \<Rightarrow> \<lparr>sequence_length = 839, preamble_scs = ra_kHz1_25, preamble_nof_symbols = 1,
                      preamble_cp_length = 3168, support_restricted_sets = True\<rparr>
        | pf_one \<Rightarrow> \<lparr>sequence_length = 839, preamble_scs = ra_kHz1_25, preamble_nof_symbols = 2,
                     preamble_cp_length = 21024, support_restricted_sets = True\<rparr>
        | pf_two \<Rightarrow> \<lparr>sequence_length = 839, preamble_scs = ra_kHz1_25, preamble_nof_symbols = 4,
                     preamble_cp_length = 4688, support_restricted_sets = True\<rparr>
        | _ \<Rightarrow> \<lparr>sequence_length = 839, preamble_scs = ra_kHz5, preamble_nof_symbols = 4,
                preamble_cp_length = 3168, support_restricted_sets = True\<rparr>))"

definition get_prach_preamble_short_info ::
  "prach_format_type \<Rightarrow> prach_subcarrier_spacing \<Rightarrow> bool \<Rightarrow> prach_preamble_information option" where
  "get_prach_preamble_short_info format ra_scs last_occasion =
     (if \<not> (is_short_preamble format \<and> is_short_preamble_scs ra_scs) then None
      else let info = (\<lambda>n cp. \<lparr>sequence_length = 139, preamble_scs = ra_scs, preamble_nof_symbols = n,
                          preamble_cp_length = drop_bit (ra_numerology_value ra_scs) cp, support_restricted_sets = False\<rparr>)
           in Some (case format of
                pf_A1 \<Rightarrow> info 2 288
              | pf_A2 \<Rightarrow> info 4 576
              | pf_A3 \<Rightarrow> info 6 864
              | pf_B1 \<Rightarrow> info 2 216
              | pf_B4 \<Rightarrow> info 12 936
              | pf_C0 \<Rightarrow> info 1 1240
              | pf_C2 \<Rightarrow> info 4 2048
              | pf_A1_B1 \<Rightarrow> info 2 (if last_occasion then 216 else 288)
              | pf_A2_B2 \<Rightarrow> info 4 (if last_occasion then 360 else 576)
              | _ \<Rightarrow> info 6 (if last_occasion then 504 else 864)))"

section \<open>PRACH buffers\<close>

text \<open>The samples by port, time-domain occasion, frequency-domain occasion and symbol.\<close>

record 'iq prach_buffer =
  pb_max_nof_td_occasions :: nat
  pb_max_nof_fd_occasions :: nat
  pb_max_nof_symbols :: nat
  pb_sequence_length :: nat
  pb_data :: "'iq list list list list list"

type_synonym 'iq prach_store = "'iq prach_buffer list"
type_synonym shared_prach_buffer = "nat option"

definition pb_max_nof_ports :: "'iq prach_buffer \<Rightarrow> nat" where
  "pb_max_nof_ports b = length (pb_data b)"

definition pb_in_range :: "'iq prach_buffer \<Rightarrow> nat \<Rightarrow> nat \<Rightarrow> nat \<Rightarrow> nat \<Rightarrow> bool" where
  "pb_in_range b i_port i_td_occasion i_fd_occasion i_symbol \<longleftrightarrow>
     i_port < pb_max_nof_ports b \<and> i_td_occasion < pb_max_nof_td_occasions b \<and>
     i_fd_occasion < pb_max_nof_fd_occasions b \<and> i_symbol < pb_max_nof_symbols b"

definition pb_get_symbol :: "'iq prach_buffer \<Rightarrow> nat \<Rightarrow> nat \<Rightarrow> nat \<Rightarrow> nat \<Rightarrow> 'iq list option" where
  "pb_get_symbol b i_port i_td_occasion i_fd_occasion i_symbol =
     (if pb_in_range b i_port i_td_occasion i_fd_occasion i_symbol
      then Some (pb_data b ! i_port ! i_td_occasion ! i_fd_occasion ! i_symbol) else None)"

definition pb_set_symbol :: "nat \<Rightarrow> nat \<Rightarrow> nat \<Rightarrow> nat \<Rightarrow> 'iq list \<Rightarrow> 'iq prach_buffer \<Rightarrow> 'iq prach_buffer" where
  "pb_set_symbol i_port i_td_occasion i_fd_occasion i_symbol row b =
     (let d = pb_data b; p = d ! i_port; t = p ! i_td_occasion; f = t ! i_fd_occasion
      in b\<lparr>pb_data := d[i_port := p[i_td_occasion := t[i_fd_occasion := f[i_symbol := row]]]]\<rparr>)"

definition pb_wf :: "'iq prach_buffer \<Rightarrow> bool" where
  "pb_wf b \<longleftrightarrow> (\<forall>p < pb_max_nof_ports b. length (pb_data b ! p) = pb_max_nof_td_occasions b \<and>
     (\<forall>t < pb_max_nof_td_occasions b. length (pb_data b ! p ! t) = pb_max_nof_fd_occasions b \<and>
        (\<forall>f < pb_max_nof_fd_occasions b. length (pb_data b ! p ! t ! f) = pb_max_nof_symbols b \<and>
           (\<forall>q < pb_max_nof_symbols b. length (pb_data b ! p ! t ! f ! q) = pb_sequence_length b))))"

section \<open>Contexts\<close>

record prach_buffer_context =
  pbc_ports :: "nat list"
  pbc_slot :: slot_point
  pbc_nof_prb_ul_grid :: nat
  pbc_root_sequence_index :: nat
  pbc_rb_offset :: nat
  pbc_sector :: nat
  pbc_start_symbol :: nat
  pbc_format :: prach_format_type
  pbc_nof_td_occasions :: nat
  pbc_nof_fd_occasions :: nat
  pbc_pusch_scs :: subcarrier_spacing
  pbc_restricted_set :: nat
  pbc_zero_correlation_zone :: nat
  pbc_start_preamble_index :: nat
  pbc_nof_preamble_indices :: nat

record prach_context =
  pc_context :: prach_buffer_context
  pc_buffer :: shared_prach_buffer
  pc_stats :: "bool list list list"
  pc_preamble_info :: prach_preamble_information
  pc_freq_mapping_info :: "nat \<times> nat"
  pc_nof_symbols :: nat
  pc_start_symbol :: nat

text \<open>The default constructor leaves the numbers of an empty context unset; they are never read.\<close>

definition empty_prach_context :: prach_context where
  "empty_prach_context =
     \<lparr>pc_context = \<lparr>pbc_ports = [], pbc_slot = invalid_slot_point, pbc_nof_prb_ul_grid = 0, pbc_root_sequence_index = 0,
        pbc_rb_offset = 0, pbc_sector = 0, pbc_start_symbol = 0, pbc_format = pf_zero, pbc_nof_td_occasions = 0,
        pbc_nof_fd_occasions = 0, pbc_pusch_scs = scs_kHz15, pbc_restricted_set = 0, pbc_zero_correlation_zone = 0,
        pbc_start_preamble_index = 0, pbc_nof_preamble_indices = 0\<rparr>,
      pc_buffer = None, pc_stats = [],
      pc_preamble_info = \<lparr>sequence_length = 0, preamble_scs = ra_kHz15, preamble_nof_symbols = 0, preamble_cp_length = 0,
        support_restricted_sets = False\<rparr>,
      pc_freq_mapping_info = (0, 0), pc_nof_symbols = 0, pc_start_symbol = 0\<rparr>"

definition preamble_info_of :: "prach_buffer_context \<Rightarrow> prach_preamble_information option" where
  "preamble_info_of ctx =
     (if is_long_preamble (pbc_format ctx) then get_prach_preamble_long_info (pbc_format ctx)
      else get_prach_preamble_short_info (pbc_format ctx) (to_ra_subcarrier_spacing (pbc_pusch_scs ctx)) True)"

definition prach_buffer_writer_stats :: "nat \<Rightarrow> nat \<Rightarrow> bool list list" where
  "prach_buffer_writer_stats nof_ports nof_res = replicate nof_ports (replicate nof_res False)"

definition new_prach_context ::
  "prach_buffer_context \<Rightarrow> shared_prach_buffer \<Rightarrow> nat option \<Rightarrow> 'iq prach_store \<Rightarrow> prach_context option" where
  "new_prach_context ctx buffer start_symbol_opt store =
     (if pbc_nof_fd_occasions ctx \<noteq> 1 then None
      else if \<not> (is_short_preamble (pbc_format ctx) \<or> is_long_preamble (pbc_format ctx) \<and> pbc_nof_td_occasions ctx = 1) then None
      else do {
        info \<leftarrow> preamble_info_of ctx;
        b \<leftarrow> buffer;
        let nof_ports = pb_max_nof_ports (store ! b);
        if nof_ports > MAX_NOF_SUPPORTED_EAXC then None
        else Some \<lparr>pc_context = ctx, pc_buffer = buffer,
               pc_stats = replicate (preamble_nof_symbols info) (prach_buffer_writer_stats nof_ports (sequence_length info)),
               pc_preamble_info = info,
               pc_freq_mapping_info = prach_frequency_mapping_get (preamble_scs info) (pbc_pusch_scs ctx),
               pc_nof_symbols = preamble_nof_symbols info,
               pc_start_symbol = (case start_symbol_opt of Some s \<Rightarrow> s | None \<Rightarrow> pbc_start_symbol ctx)\<rparr>
      })"

definition prach_context_copy :: "prach_context \<Rightarrow> prach_context" where
  "prach_context_copy c =
     \<lparr>pc_context = pc_context c, pc_buffer = pc_buffer c, pc_stats = pc_stats c, pc_preamble_info = pc_preamble_info c,
      pc_freq_mapping_info = pc_freq_mapping_info c, pc_nof_symbols = pc_nof_symbols c, pc_start_symbol = pc_start_symbol c\<rparr>"

definition prach_context_empty :: "prach_context \<Rightarrow> bool" where
  "prach_context_empty c \<longleftrightarrow> pc_buffer c = None"

definition get_prach_nof_re :: "prach_context \<Rightarrow> nat" where
  "get_prach_nof_re c = (if prach_context_empty c then 0 else sequence_length (pc_preamble_info c))"

definition get_prach_offset_to_first_re :: "prach_context \<Rightarrow> nat" where
  "get_prach_offset_to_first_re c = snd (pc_freq_mapping_info c)"

definition get_max_nof_ports :: "'iq prach_store \<Rightarrow> prach_context \<Rightarrow> nat" where
  "get_max_nof_ports store c = (case pc_buffer c of None \<Rightarrow> 0 | Some b \<Rightarrow> pb_max_nof_ports (store ! b))"

text \<open>The difference of two unsigned numbers, which wraps around.\<close>

definition unsigned_minus :: "nat \<Rightarrow> nat \<Rightarrow> nat" where
  "unsigned_minus a b = nat ((int a - int b) mod 2 ^ 32)"

definition prach_symbol_in_buffer :: "prach_context \<Rightarrow> nat \<Rightarrow> nat" where
  "prach_symbol_in_buffer c symbol =
     (if is_long_preamble (pbc_format (pc_context c))
      then (if symbol \<ge> pc_start_symbol c then symbol - pc_start_symbol c else symbol)
      else unsigned_minus symbol (pc_start_symbol c))"

text \<open>
  The call of \<open>get_symbol\<close> passes the frequency-domain occasion in the place of the time-domain occasion and
  vice versa.
\<close>

definition prach_context_write_iq ::
  "nat \<Rightarrow> nat \<Rightarrow> nat \<Rightarrow> 'iq list \<Rightarrow> prach_context \<Rightarrow> 'iq prach_store \<Rightarrow> (prach_context \<times> 'iq prach_store) option" where
  "prach_context_write_iq port symbol re_start iq_buffer c store =
     (let symbol = prach_symbol_in_buffer c symbol;
          first = unsigned_minus (pbc_nof_fd_occasions (pc_context c)) 1;
          second = unsigned_minus (pbc_nof_td_occasions (pc_context c)) 1
      in case pc_buffer c of
           None \<Rightarrow> None
         | Some b \<Rightarrow>
             if \<not> symbol < pc_nof_symbols c then None
             else if port \<ge> pb_max_nof_ports (store ! b) then Some (c, store)
             else do {
               row \<leftarrow> pb_get_symbol (store ! b) port first second symbol;
               if re_start + length iq_buffer > length row then None
               else if re_start + length iq_buffer > sequence_length (pc_preamble_info c) then None
               else Some (c\<lparr>pc_stats := (pc_stats c)[symbol := (pc_stats c ! symbol)[port :=
                              write_at re_start (replicate (length iq_buffer) True) (pc_stats c ! symbol ! port)]]\<rparr>,
                          store[b := pb_set_symbol port first second symbol (write_at re_start iq_buffer row) (store ! b)])
             })"

definition have_all_res_been_written :: "bool list list \<Rightarrow> bool" where
  "have_all_res_been_written re_written \<longleftrightarrow> list_all (list_all id) re_written"

definition try_getting_complete_prach_buffer :: "prach_context \<Rightarrow> (prach_buffer_context \<times> shared_prach_buffer) option" where
  "try_getting_complete_prach_buffer c =
     (if pc_buffer c = None then None
      else if \<not> list_all have_all_res_been_written (pc_stats c) then None
      else Some (pc_context c, pc_buffer c))"

section \<open>Repository\<close>

record prach_add_task =
  ptask_context :: prach_buffer_context
  ptask_buffer :: shared_prach_buffer
  ptask_start_symbol :: "nat option"

record prach_context_repository =
  pr_capacity :: nat
  pr_pending :: "prach_add_task list"
  pr_entries :: "prach_context list"

definition prach_repo_init :: "nat \<Rightarrow> prach_context_repository" where
  "prach_repo_init n = \<lparr>pr_capacity = n, pr_pending = [], pr_entries = replicate n empty_prach_context\<rparr>"

definition prach_entry :: "slot_point \<Rightarrow> prach_context_repository \<Rightarrow> prach_context" where
  "prach_entry s repo = pr_entries repo ! calculate_repository_index s (length (pr_entries repo))"

definition prach_store_entry :: "slot_point \<Rightarrow> prach_context \<Rightarrow> prach_context_repository \<Rightarrow> prach_context_repository" where
  "prach_store_entry s c repo =
     repo\<lparr>pr_entries := (pr_entries repo)[calculate_repository_index s (length (pr_entries repo)) := c]\<rparr>"

definition prach_add ::
  "prach_buffer_context \<Rightarrow> shared_prach_buffer \<Rightarrow> nat option \<Rightarrow> prach_context_repository \<Rightarrow> prach_context_repository" where
  "prach_add ctx buffer start_symbol_opt repo =
     (if length (pr_pending repo) < pr_capacity repo
      then repo\<lparr>pr_pending := pr_pending repo @ [\<lparr>ptask_context = ctx, ptask_buffer = buffer, ptask_start_symbol = start_symbol_opt\<rparr>]\<rparr>
      else repo)"

fun prach_run_tasks ::
  "'iq prach_store \<Rightarrow> prach_add_task list \<Rightarrow> prach_context_repository \<Rightarrow> prach_context_repository option" where
  "prach_run_tasks store [] repo = Some repo"
| "prach_run_tasks store (t # ts) repo = do {
     c \<leftarrow> new_prach_context (ptask_context t) (ptask_buffer t) (ptask_start_symbol t) store;
     prach_run_tasks store ts (prach_store_entry (pbc_slot (ptask_context t)) c repo)
   }"

definition prach_process_pending_contexts ::
  "'iq prach_store \<Rightarrow> prach_context_repository \<Rightarrow> prach_context_repository option" where
  "prach_process_pending_contexts store repo = prach_run_tasks store (pr_pending repo) (repo\<lparr>pr_pending := []\<rparr>)"

definition prach_write_iq ::
  "slot_point \<Rightarrow> nat \<Rightarrow> nat \<Rightarrow> nat \<Rightarrow> 'iq list \<Rightarrow> prach_context_repository \<Rightarrow> 'iq prach_store \<Rightarrow>
   (prach_context_repository \<times> 'iq prach_store) option" where
  "prach_write_iq s port symbol re_start iq_buffer repo store = do {
     (c, store) \<leftarrow> prach_context_write_iq port symbol re_start iq_buffer (prach_entry s repo) store;
     Some (prach_store_entry s c repo, store)
   }"

definition prach_get :: "slot_point \<Rightarrow> prach_context_repository \<Rightarrow> prach_context" where
  "prach_get s repo = prach_context_copy (prach_entry s repo)"

definition try_popping_complete_prach_buffer ::
  "slot_point \<Rightarrow> prach_context_repository \<Rightarrow>
   (prach_buffer_context \<times> shared_prach_buffer) option \<times> prach_context_repository" where
  "try_popping_complete_prach_buffer s repo =
     (let result = try_getting_complete_prach_buffer (prach_entry s repo)
      in (result, if result \<noteq> None then prach_store_entry s empty_prach_context repo else repo))"

definition pop_prach_buffer ::
  "slot_point \<Rightarrow> prach_context_repository \<Rightarrow>
   (prach_buffer_context \<times> shared_prach_buffer) option \<times> prach_context_repository" where
  "pop_prach_buffer s repo =
     (let c = prach_entry s repo
      in if prach_context_empty c then (None, repo)
         else (Some (pc_context c, pc_buffer c), prach_store_entry s empty_prach_context repo))"

definition prach_clear :: "slot_point \<Rightarrow> prach_context_repository \<Rightarrow> prach_context_repository" where
  "prach_clear s repo = prach_store_entry s empty_prach_context repo"

definition prach_clear_all :: "prach_context_repository \<Rightarrow> prach_context_repository" where
  "prach_clear_all repo = repo\<lparr>pr_entries := map (\<lambda>_. empty_prach_context) (pr_entries repo)\<rparr>"

section \<open>Writer and notifier\<close>

text \<open>
  The number of PRBs is the quotient rounded up; the code rounds a float quotient of integers below
  \<open>2 ^ 24\<close>, which is at least one twelfth away from the next integer when it is not one.
\<close>

record prach_geometry =
  pg_nof_res :: nat
  pg_nof_re_to_prach_data :: nat

definition pg_nof_prbs :: "prach_geometry \<Rightarrow> nat" where
  "pg_nof_prbs g = (pg_nof_res g + pg_nof_re_to_prach_data g + (NOF_SUBCARRIERS_PER_RB - 1)) div NOF_SUBCARRIERS_PER_RB"

definition pg_nof_re_after_prach_data :: "prach_geometry \<Rightarrow> nat" where
  "pg_nof_re_after_prach_data g = pg_nof_prbs g * NOF_SUBCARRIERS_PER_RB - (pg_nof_res g + pg_nof_re_to_prach_data g)"

definition pg_data_start_prb :: "prach_geometry \<Rightarrow> nat" where
  "pg_data_start_prb g = pg_nof_re_to_prach_data g div NOF_SUBCARRIERS_PER_RB"

text \<open>
  What is copied of a section of \<open>n\<close> PRBs from PRB \<open>start\<close> on: the first resource element in the PRACH buffer,
  the first one of the section's samples and the number of them.
\<close>

definition prach_section_view :: "prach_geometry \<Rightarrow> nat \<Rightarrow> nat \<Rightarrow> nat \<times> nat \<times> nat" where
  "prach_section_view g start n =
     (let nof_prbs_to_write = (if start + n < pg_nof_prbs g then n else pg_nof_prbs g - start);
          start_re = start * NOF_SUBCARRIERS_PER_RB - pg_nof_re_to_prach_data g;
          section_start_re = start * NOF_SUBCARRIERS_PER_RB;
          section_nof_re = nof_prbs_to_write * NOF_SUBCARRIERS_PER_RB;
          section_nof_re = (if start + n \<ge> pg_nof_prbs g then section_nof_re - pg_nof_re_after_prach_data g else section_nof_re);
          iq_start_re = (if section_start_re < pg_nof_re_to_prach_data g then pg_nof_re_to_prach_data g - section_start_re else 0);
          section_nof_re = (if section_start_re < pg_nof_re_to_prach_data g then section_nof_re - iq_start_re else section_nof_re);
          iq_size_re = min section_nof_re (pg_nof_res g)
      in (start_re, iq_start_re, iq_size_re))"

fun prach_write_sections ::
  "prach_geometry \<Rightarrow> slot_point \<Rightarrow> nat \<Rightarrow> nat \<Rightarrow> 'iq uplane_section_params list \<Rightarrow> prach_context_repository \<Rightarrow>
   'iq prach_store \<Rightarrow> (prach_context_repository \<times> 'iq prach_store) option" where
  "prach_write_sections g s port symbol [] repo store = Some (repo, store)"
| "prach_write_sections g s port symbol (sec # secs) repo store =
     (if sec_start_prb sec \<ge> pg_nof_prbs g then prach_write_sections g s port symbol secs repo store
      else if sec_start_prb sec + sec_nof_prbs sec \<le> pg_data_start_prb g then prach_write_sections g s port symbol secs repo store
      else let (start_re, iq_start_re, iq_size_re) = prach_section_view g (sec_start_prb sec) (sec_nof_prbs sec)
           in if length (iq_samples sec) < iq_start_re + iq_size_re then None
              else do {
                (repo, store) \<leftarrow> prach_write_iq s port symbol start_re (take iq_size_re (drop iq_start_re (iq_samples sec))) repo store;
                prach_write_sections g s port symbol secs repo store
              })"

definition write_to_prach_buffer ::
  "nat list \<Rightarrow> nat \<Rightarrow> 'iq uplane_message_decoder_results \<Rightarrow> prach_context_repository \<Rightarrow> 'iq prach_store \<Rightarrow>
   (bool \<times> prach_context_repository \<times> 'iq prach_store) option" where
  "write_to_prach_buffer prach_eaxc eaxc results repo store =
     (let s = up_slot (params results);
          c = prach_get s repo
      in if prach_context_empty c then Some (False, repo, store)
         else let port = index_of eaxc prach_eaxc
              in if port \<ge> get_max_nof_ports store c then Some (True, repo, store)
                 else map_option (\<lambda>(repo, store). (True, repo, store))
                   (prach_write_sections \<lparr>pg_nof_res = get_prach_nof_re c, pg_nof_re_to_prach_data = get_prach_offset_to_first_re c\<rparr>
                      s port (up_symbol_id (params results)) (sections results) repo store))"

text \<open>The result of the notifier is the window that it passes on, if any.\<close>

definition notify_prach ::
  "slot_point \<Rightarrow> prach_context_repository \<Rightarrow>
   (prach_buffer_context \<times> shared_prach_buffer) option \<times> prach_context_repository" where
  "notify_prach s repo = try_popping_complete_prach_buffer s repo"

section \<open>Lemmas\<close>

text \<open>
  The part of a section that is copied: with \<open>k\<close> the offset of the PRACH data, the resource element \<open>j\<close> of the
  buffer is the subcarrier \<open>j + k\<close> of the section's resource blocks.
\<close>

lemma prach_section_view_spec:
  assumes "a < pg_nof_prbs g" "pg_data_start_prb g < a + n" and v: "prach_section_view g a n = (st, iq0, sz)"
  shows "st + sz \<le> pg_nof_res g" "iq0 + sz \<le> n * 12" "st + pg_nof_re_to_prach_data g = a * 12 + iq0"
    "st \<le> j \<and> j < st + sz \<longleftrightarrow> j < pg_nof_res g \<and> a * 12 \<le> j + pg_nof_re_to_prach_data g \<and>
       j + pg_nof_re_to_prach_data g < (a + n) * 12"
proof -
  define L k N where "L = pg_nof_res g" and "k = pg_nof_re_to_prach_data g" and "N = pg_nof_prbs g"
  have N: "L + k \<le> N * 12" "N * 12 < L + k + 12"
    by (auto simp: N_def L_def k_def pg_nof_prbs_def NOF_SUBCARRIERS_PER_RB_def)
  have D: "k < (a + n) * 12" using assms(2) by (simp add: pg_data_start_prb_def NOF_SUBCARRIERS_PER_RB_def k_def)
  have a: "a + 1 \<le> N" using assms(1) by (simp add: N_def)
  have v': "st = a * 12 - k" "iq0 = k - a * 12"
    "sz = min (if a + n < N then n * 12 - iq0 else (N - a) * 12 - (N * 12 - (L + k)) - iq0) L"
    using v by (auto simp: prach_section_view_def Let_def NOF_SUBCARRIERS_PER_RB_def L_def k_def N_def
        pg_nof_re_after_prach_data_def not_less)
  have "(N - a) * 12 - (N * 12 - (L + k)) - iq0 = L + k - a * 12 - iq0" using N by (simp add: diff_mult_distrib)
  moreover have "a * 12 < L + k" using a N by linarith
  moreover have le: "a + n < N \<Longrightarrow> n * 12 - iq0 \<le> L" "L + k - a * 12 - iq0 \<le> L" using N v'(2) by linarith+
  ultimately have sz: "sz = (if a + n < N then n * 12 - iq0 else L + k - a * 12 - iq0)"
    using le v'(3) by (simp only: min_absorb1 split: if_split) (metis min_absorb1)
  have iq0: "st + k = a * 12 + iq0" using v'(1,2) by simp
  have sum: "st + sz = (if a + n < N then (a + n) * 12 - k else L)"
  proof (cases "k \<le> a * 12")
    case True
    then show ?thesis using sz v'(1,2) \<open>a * 12 < L + k\<close> by (simp add: add_mult_distrib)
  next
    case False
    then show ?thesis using sz v'(1,2) D by (simp add: add_mult_distrib add.commute)
  qed
  have fit: "a + n < N \<Longrightarrow> (a + n) * 12 - k \<le> L" "\<not> a + n < N \<Longrightarrow> L + k \<le> (a + n) * 12" using N by simp_all
  show "st + sz \<le> pg_nof_res g" using sum fit(1) by (simp add: L_def [symmetric] split: if_splits)
  show "iq0 + sz \<le> n * 12"
    using sum iq0 fit D by (simp add: add_mult_distrib split: if_splits)
  show "st + pg_nof_re_to_prach_data g = a * 12 + iq0" using iq0 by (simp add: k_def)
  have "st \<le> j \<longleftrightarrow> a * 12 \<le> j + k" using v'(1) by auto
  moreover have "j < st + sz \<longleftrightarrow> j < L \<and> j + k < (a + n) * 12" using sum fit by auto
  ultimately show "st \<le> j \<and> j < st + sz \<longleftrightarrow> j < pg_nof_res g \<and> a * 12 \<le> j + pg_nof_re_to_prach_data g \<and>
       j + pg_nof_re_to_prach_data g < (a + n) * 12" by (auto simp: L_def k_def)
qed

text \<open>
  A context that is ready to receive: its buffer has the dimensions of the preamble, there is one occasion, and
  there is a bitmap for every symbol and port.
\<close>

definition prach_ready :: "'iq prach_store \<Rightarrow> nat \<Rightarrow> prach_context \<Rightarrow> bool" where
  "prach_ready store b c \<longleftrightarrow>
     pc_buffer c = Some b \<and> b < length store \<and> pb_wf (store ! b) \<and>
     sequence_length (pc_preamble_info c) = pb_sequence_length (store ! b) \<and>
     pc_nof_symbols c \<le> pb_max_nof_symbols (store ! b) \<and>
     0 < pb_max_nof_td_occasions (store ! b) \<and> 0 < pb_max_nof_fd_occasions (store ! b) \<and>
     pbc_nof_fd_occasions (pc_context c) = 1 \<and> pbc_nof_td_occasions (pc_context c) = 1 \<and>
     length (pc_stats c) = pc_nof_symbols c \<and>
     (\<forall>q < pc_nof_symbols c. length (pc_stats c ! q) = pb_max_nof_ports (store ! b) \<and>
        (\<forall>p < pb_max_nof_ports (store ! b). length (pc_stats c ! q ! p) = sequence_length (pc_preamble_info c)))"

definition prach_row :: "'iq prach_store \<Rightarrow> nat \<Rightarrow> nat \<Rightarrow> nat \<Rightarrow> 'iq list" where
  "prach_row store b port symbol = pb_data (store ! b) ! port ! 0 ! 0 ! symbol"

lemma new_prach_context_ready:
  assumes "new_prach_context ctx (Some b) start store = Some c" "b < length store" "pb_wf (store ! b)"
    and "preamble_info_of ctx = Some info" "sequence_length info = pb_sequence_length (store ! b)"
    and "preamble_nof_symbols info \<le> pb_max_nof_symbols (store ! b)"
    and "0 < pb_max_nof_td_occasions (store ! b)" "0 < pb_max_nof_fd_occasions (store ! b)" "pbc_nof_td_occasions ctx = 1"
  shows "prach_ready store b c"
  using assms by (auto simp: new_prach_context_def prach_ready_def prach_buffer_writer_stats_def Let_def split: if_splits)

lemma prach_ready_row:
  assumes "prach_ready store b c" "port < pb_max_nof_ports (store ! b)" "q < pc_nof_symbols c"
  shows "length (prach_row store b port q) = sequence_length (pc_preamble_info c)"
    "pb_get_symbol (store ! b) port 0 0 q = Some (prach_row store b port q)"
  using assms by (auto simp: prach_ready_def pb_wf_def prach_row_def pb_get_symbol_def pb_in_range_def)

lemma pb_set_symbol_fields [simp]:
  "pb_max_nof_td_occasions (pb_set_symbol p t f q row b) = pb_max_nof_td_occasions b"
  "pb_max_nof_fd_occasions (pb_set_symbol p t f q row b) = pb_max_nof_fd_occasions b"
  "pb_max_nof_symbols (pb_set_symbol p t f q row b) = pb_max_nof_symbols b"
  "pb_sequence_length (pb_set_symbol p t f q row b) = pb_sequence_length b"
  "pb_max_nof_ports (pb_set_symbol p t f q row b) = pb_max_nof_ports b"
  by (simp_all add: pb_set_symbol_def pb_max_nof_ports_def Let_def)

lemma pb_path:
  assumes "pb_wf b" "pb_in_range b p t f q"
  shows "p < length (pb_data b)" "t < length (pb_data b ! p)" "f < length (pb_data b ! p ! t)" "q < length (pb_data b ! p ! t ! f)"
  using assms by (auto simp: pb_wf_def pb_in_range_def pb_max_nof_ports_def)

lemma pb_set_symbol_wf:
  assumes "pb_wf b" "length row = pb_sequence_length b" "pb_in_range b p t f q"
  shows "pb_wf (pb_set_symbol p t f q row b)"
proof -
  let ?d = "\<lambda>b p' t' f' q'. pb_data b ! p' ! t' ! f' ! q'"
  have "length (pb_data (pb_set_symbol p t f q row b) ! p') = length (pb_data b ! p')"
    "length (pb_data (pb_set_symbol p t f q row b) ! p' ! t') = length (pb_data b ! p' ! t')"
    "length (pb_data (pb_set_symbol p t f q row b) ! p' ! t' ! f') = length (pb_data b ! p' ! t' ! f')"
    "?d (pb_set_symbol p t f q row b) p' t' f' q' = (if p' = p \<and> t' = t \<and> f' = f \<and> q' = q then row else ?d b p' t' f' q')"
    for p' t' f' q'
    using pb_path [OF assms(1,3)] by (auto simp: pb_set_symbol_def Let_def nth_list_update)
  then show ?thesis using assms(1,2) by (simp add: pb_wf_def)
qed

lemma pb_data_set_symbol:
  assumes "pb_wf b" "pb_in_range b p t f q"
  shows "pb_data (pb_set_symbol p t f q row b) ! p' ! t ! f ! q' =
    (if p' = p \<and> q' = q then row else pb_data b ! p' ! t ! f ! q')"
  using pb_path [OF assms] by (auto simp: pb_set_symbol_def Let_def nth_list_update)

text \<open>A write to a ready context that fits the preamble.\<close>

lemma prach_context_write_ready:
  assumes c: "prach_ready store b c" and port: "port < pb_max_nof_ports (store ! b)"
    and q: "prach_symbol_in_buffer c symbol = q" "q < pc_nof_symbols c"
    and fit: "re_start + length iq \<le> sequence_length (pc_preamble_info c)"
  shows "\<exists>c' store'. prach_context_write_iq port symbol re_start iq c store = Some (c', store') \<and> prach_ready store' b c' \<and>
    pc_context c' = pc_context c \<and> pc_preamble_info c' = pc_preamble_info c \<and> pc_freq_mapping_info c' = pc_freq_mapping_info c \<and>
    pc_nof_symbols c' = pc_nof_symbols c \<and> pc_start_symbol c' = pc_start_symbol c \<and>
    pb_max_nof_ports (store' ! b) = pb_max_nof_ports (store ! b) \<and>
    (\<forall>p q'. p < pb_max_nof_ports (store ! b) \<longrightarrow> q' < pc_nof_symbols c \<longrightarrow>
       prach_row store' b p q' = (if p = port \<and> q' = q then write_at re_start iq (prach_row store b p q') else prach_row store b p q') \<and>
       pc_stats c' ! q' ! p = (if p = port \<and> q' = q then write_at re_start (replicate (length iq) True) (pc_stats c ! q' ! p)
         else pc_stats c ! q' ! p))"
proof -
  let ?B = "store ! b" and ?row = "prach_row store b port q"
  note row = prach_ready_row [OF c port q(2)]
  have r: "pc_buffer c = Some b" "b < length store" "pb_wf ?B" "sequence_length (pc_preamble_info c) = pb_sequence_length ?B"
    "pbc_nof_fd_occasions (pc_context c) = 1" "pbc_nof_td_occasions (pc_context c) = 1" "length (pc_stats c) = pc_nof_symbols c"
    using c by (auto simp: prach_ready_def)
  have range: "pb_in_range ?B port 0 0 q" using c port q(2) by (simp add: prach_ready_def pb_in_range_def)
  define st where "st = write_at re_start (replicate (length iq) True) (pc_stats c ! q ! port)"
  define c' where "c' = c\<lparr>pc_stats := (pc_stats c)[q := (pc_stats c ! q)[port := st]]\<rparr>"
  define store' where "store' = store[b := pb_set_symbol port 0 0 q (write_at re_start iq ?row) ?B]"
  have w: "prach_context_write_iq port symbol re_start iq c store = Some (c', store')"
    using r q port row fit by (simp add: prach_context_write_iq_def Let_def unsigned_minus_def c'_def store'_def st_def)
  have len: "length (pc_stats c ! q) = pb_max_nof_ports ?B" "length (pc_stats c ! q ! port) = sequence_length (pc_preamble_info c)"
    using c q(2) port by (simp_all add: prach_ready_def)
  have stats: "pc_stats c' ! q' ! p = (if p = port \<and> q' = q then st else pc_stats c ! q' ! p)"
    "length (pc_stats c' ! q') = length (pc_stats c ! q')" for p q'
    using q(2) r(7) len(1) port by (auto simp: c'_def nth_list_update)
  have "length st = sequence_length (pc_preamble_info c)" using fit len(2) by (simp add: st_def)
  moreover have "pb_wf (pb_set_symbol port 0 0 q (write_at re_start iq ?row) ?B)"
    using fit row(1) r(4) range by (intro pb_set_symbol_wf [OF r(3)]) simp_all
  ultimately have "prach_ready store' b c'"
    using c stats by (simp add: prach_ready_def store'_def) (simp add: c'_def)
  moreover have "prach_row store' b p q' = (if p = port \<and> q' = q then write_at re_start iq (prach_row store b p q') else prach_row store b p q')"
    for p q'
    using pb_data_set_symbol [OF r(3) range] r(2) by (simp add: prach_row_def store'_def)
  moreover have "pc_stats c' ! q' ! p = (if p = port \<and> q' = q then write_at re_start (replicate (length iq) True) (pc_stats c ! q' ! p)
         else pc_stats c ! q' ! p)" for p q'
    using stats(1) by (simp add: st_def)
  ultimately show ?thesis using w r(2) by (intro exI [of _ c'] exI [of _ store']) (simp add: c'_def store'_def)
qed


section \<open>Repository laws\<close>

lemma prach_get_eq: "prach_get s repo = prach_entry s repo"
  by (simp add: prach_get_def prach_context_copy_def)

definition prach_repo_wf :: "prach_context_repository \<Rightarrow> bool" where
  "prach_repo_wf repo \<longleftrightarrow> pr_entries repo \<noteq> []"

abbreviation prach_key :: "slot_point \<Rightarrow> prach_context_repository \<Rightarrow> nat" where
  "prach_key s repo \<equiv> calculate_repository_index s (length (pr_entries repo))"

text \<open>The repository has one column.\<close>

interpretation prachs: slot_repository prach_repo_wf prach_key
  "\<lambda>s e c repo. if e = 0 then prach_store_entry s c repo else repo"
  "\<lambda>s e repo. if e = (0::nat) then prach_entry s repo else empty_prach_context" 1
  by unfold_locales
    (auto simp: prach_repo_wf_def prach_store_entry_def prach_entry_def nth_list_update calculate_repository_index_def)

lemma prach_store_entry_wf [wf_intros]: "prach_repo_wf repo \<Longrightarrow> prach_repo_wf (prach_store_entry s c repo)"
  using prachs.inv_put [where r = repo and s = s and e = 0 and v = c] by simp

lemma prach_entry_store [repo_simps]:
  assumes "prach_repo_wf repo"
  shows "prach_entry t (prach_store_entry s c repo) = (if prach_key t repo = prach_key s repo then c else prach_entry t repo)"
  using prachs.look_put_same [OF assms, where e = 0 and t = t and s = s and v = c]
    prachs.look_put_other [OF assms, where e = 0 and f = 0 and t = t and s = s and v = c] by simp

lemma prach_store_entry_fields [simp]:
  "length (pr_entries (prach_store_entry s c repo)) = length (pr_entries repo)"
  "pr_pending (prach_store_entry s c repo) = pr_pending repo"
  by (simp_all add: prach_store_entry_def)

section \<open>Assembly of a PRACH window\<close>

definition prach_geometry_of :: "prach_context \<Rightarrow> prach_geometry" where
  "prach_geometry_of c = \<lparr>pg_nof_res = get_prach_nof_re c, pg_nof_re_to_prach_data = get_prach_offset_to_first_re c\<rparr>"

text \<open>A resource element that is in the buffer: it is marked as written and has the value of its subcarrier.\<close>

definition prach_holds ::
  "(nat \<Rightarrow> nat \<Rightarrow> 'iq list) \<Rightarrow> prach_context \<Rightarrow> 'iq prach_store \<Rightarrow> nat \<Rightarrow> nat \<Rightarrow> nat \<Rightarrow> nat \<Rightarrow> bool" where
  "prach_holds x c store b p q j \<longleftrightarrow>
     pc_stats c ! q ! p ! j \<and> prach_row store b p q ! j = x p q ! (j + get_prach_offset_to_first_re c)"

definition same_prach :: "prach_context \<Rightarrow> prach_context \<Rightarrow> bool" where
  "same_prach c c' \<longleftrightarrow> pc_context c' = pc_context c \<and> pc_preamble_info c' = pc_preamble_info c \<and>
     pc_freq_mapping_info c' = pc_freq_mapping_info c \<and> pc_nof_symbols c' = pc_nof_symbols c \<and>
     pc_start_symbol c' = pc_start_symbol c"

text \<open>One section that is copied, as a write of the samples of a symbol.\<close>

lemma prach_context_write_holds:
  assumes c: "prach_ready store b c" and port: "port < pb_max_nof_ports (store ! b)"
    and q: "prach_symbol_in_buffer c symbol = q" "q < pc_nof_symbols c"
    and fit: "st + sz \<le> sequence_length (pc_preamble_info c)" "length iq = sz"
    and iq: "\<And>i. i < sz \<Longrightarrow> iq ! i = x port q ! (st + i + get_prach_offset_to_first_re c)"
  shows "\<exists>c' store'. prach_context_write_iq port symbol st iq c store = Some (c', store') \<and> prach_ready store' b c' \<and>
    same_prach c c' \<and> pb_max_nof_ports (store' ! b) = pb_max_nof_ports (store ! b) \<and>
    (\<forall>p q' j. p < pb_max_nof_ports (store ! b) \<longrightarrow> q' < pc_nof_symbols c \<longrightarrow> j < sequence_length (pc_preamble_info c) \<longrightarrow>
       prach_holds x c store b p q' j \<or> p = port \<and> q' = q \<and> st \<le> j \<and> j < st + sz \<longrightarrow> prach_holds x c' store' b p q' j)"
proof -
  obtain c' store' where w: "prach_context_write_iq port symbol st iq c store = Some (c', store')" "prach_ready store' b c'"
    "same_prach c c'" "pb_max_nof_ports (store' ! b) = pb_max_nof_ports (store ! b)"
    and r: "\<And>p q'. p < pb_max_nof_ports (store ! b) \<Longrightarrow> q' < pc_nof_symbols c \<Longrightarrow>
       prach_row store' b p q' = (if p = port \<and> q' = q then write_at st iq (prach_row store b p q') else prach_row store b p q') \<and>
       pc_stats c' ! q' ! p = (if p = port \<and> q' = q then write_at st (replicate sz True) (pc_stats c ! q' ! p) else pc_stats c ! q' ! p)"
    using prach_context_write_ready [OF c port q, of st iq] fit by (auto simp: same_prach_def)
  have off: "get_prach_offset_to_first_re c' = get_prach_offset_to_first_re c"
    using w(3) by (simp add: same_prach_def get_prach_offset_to_first_re_def)
  have "prach_holds x c' store' b p q' j"
    if p: "p < pb_max_nof_ports (store ! b)" "q' < pc_nof_symbols c" "j < sequence_length (pc_preamble_info c)"
      and h: "prach_holds x c store b p q' j \<or> p = port \<and> q' = q \<and> st \<le> j \<and> j < st + sz" for p q' j
  proof (cases "p = port \<and> q' = q")
    case True
    have len: "length (pc_stats c ! q' ! p) = sequence_length (pc_preamble_info c)" using c p by (simp add: prach_ready_def)
    have "iq ! (j - st) = x port q ! (j + get_prach_offset_to_first_re c)" if "st \<le> j" "j < st + sz"
      using iq [of "j - st"] that by simp
    then show ?thesis
      using True h p r [OF p(1,2)] fit len prach_ready_row(1) [OF c p(1,2)]
      by (auto simp: prach_holds_def off nth_write_at)
  next
    case False
    then show ?thesis using h r [OF p(1,2)] by (auto simp: prach_holds_def off)
  qed
  then show ?thesis using w by blast
qed


text \<open>Messages are pairs of an eAxC and decoded results.\<close>

fun prach_write_messages ::
  "nat list \<Rightarrow> (nat \<times> 'iq uplane_message_decoder_results) list \<Rightarrow> prach_context_repository \<Rightarrow> 'iq prach_store \<Rightarrow>
   (prach_context_repository \<times> 'iq prach_store) option" where
  "prach_write_messages eaxcs [] repo store = Some (repo, store)"
| "prach_write_messages eaxcs ((eaxc, m) # ms) repo store = do {
     (_, repo, store) \<leftarrow> write_to_prach_buffer eaxcs eaxc m repo store;
     prach_write_messages eaxcs ms repo store
   }"

text \<open>A message that carries a block of the samples \<open>x p q\<close> of a symbol \<open>q\<close> of the window on port \<open>p\<close>.\<close>

definition prach_block_of ::
  "nat list \<Rightarrow> slot_point \<Rightarrow> prach_context \<Rightarrow> (nat \<Rightarrow> nat \<Rightarrow> 'iq list) \<Rightarrow> nat \<times> 'iq uplane_message_decoder_results \<Rightarrow>
   nat \<times> nat \<times> nat \<times> nat \<Rightarrow> bool" where
  "prach_block_of eaxcs s c x em blk \<longleftrightarrow>
     (let (eaxc, m) = em; (p, q, a, n) = blk
      in index_of eaxc eaxcs = p \<and> up_slot (params m) = s \<and> prach_symbol_in_buffer c (up_symbol_id (params m)) = q \<and>
         q < pc_nof_symbols c \<and> (a + n) * 12 \<le> length (x p q) \<and>
         (\<exists>sec. sections m = [sec] \<and> sec_start_prb sec = a \<and> sec_nof_prbs sec = n \<and> iq_samples sec = slice_prbs (x p q) (a, n)))"

definition prach_covers :: "prach_context \<Rightarrow> nat \<times> nat \<times> nat \<times> nat \<Rightarrow> nat \<Rightarrow> nat \<Rightarrow> nat \<Rightarrow> bool" where
  "prach_covers c blk p q j \<longleftrightarrow>
     (let (p', q', a, n) = blk; i = j + get_prach_offset_to_first_re c
      in p = p' \<and> q = q' \<and> a * 12 \<le> i \<and> i < (a + n) * 12)"

lemma write_to_prach_buffer_holds:
  assumes wf: "prach_repo_wf repo" and c: "prach_ready store b (prach_entry s repo)"
    and m: "prach_block_of eaxcs s (prach_entry s repo) x (eaxc, m) (p, q, a, n)" and p: "p < pb_max_nof_ports (store ! b)"
  shows "\<exists>repo' store'. write_to_prach_buffer eaxcs eaxc m repo store = Some (True, repo', store') \<and> prach_repo_wf repo' \<and>
    prach_ready store' b (prach_entry s repo') \<and> same_prach (prach_entry s repo) (prach_entry s repo') \<and>
    pb_max_nof_ports (store' ! b) = pb_max_nof_ports (store ! b) \<and>
    (\<forall>p' q' j. p' < pb_max_nof_ports (store ! b) \<longrightarrow> q' < pc_nof_symbols (prach_entry s repo) \<longrightarrow>
       j < sequence_length (pc_preamble_info (prach_entry s repo)) \<longrightarrow>
       prach_holds x (prach_entry s repo) store b p' q' j \<or> prach_covers (prach_entry s repo) (p, q, a, n) p' q' j \<longrightarrow>
       prach_holds x (prach_entry s repo') store' b p' q' j)"
proof -
  define c where "c = prach_entry s repo"
  note c = c [folded c_def]
  define g where "g = prach_geometry_of c"
  let ?L = "sequence_length (pc_preamble_info c)" and ?k = "get_prach_offset_to_first_re c"
  obtain sec where sec: "index_of eaxc eaxcs = p" "up_slot (params m) = s" "prach_symbol_in_buffer c (up_symbol_id (params m)) = q"
    "q < pc_nof_symbols c" "(a + n) * 12 \<le> length (x p q)" "sections m = [sec]" "sec_start_prb sec = a" "sec_nof_prbs sec = n"
    "iq_samples sec = slice_prbs (x p q) (a, n)"
    using m by (auto simp: prach_block_of_def c_def)
  have b: "pc_buffer c = Some b" using c by (simp add: prach_ready_def)
  have g: "pg_nof_res g = ?L" "pg_nof_re_to_prach_data g = ?k"
    using b by (simp_all add: g_def prach_geometry_of_def get_prach_nof_re_def prach_context_empty_def)
  have copy: "prach_get s repo = c" by (simp add: prach_get_eq c_def)
  have len: "length (iq_samples sec) = n * 12" using sec(5) by (simp add: sec(9) slice_prbs_def algebra_simps)
  have w: "write_to_prach_buffer eaxcs eaxc m repo store =
      map_option (\<lambda>(repo, store). (True, repo, store)) (prach_write_sections g s p (up_symbol_id (params m)) [sec] repo store)"
    using b p sec by (simp add: write_to_prach_buffer_def Let_def copy prach_context_empty_def get_max_nof_ports_def g_def prach_geometry_of_def)
  show ?thesis
  proof (cases "a < pg_nof_prbs g \<and> pg_data_start_prb g < a + n")
    case False
    have "\<not> prach_covers c (p, q, a, n) p' q' j" if "j < ?L" for p' q' j
    proof
      assume "prach_covers c (p, q, a, n) p' q' j"
      then have "a * 12 \<le> j + ?k" "j + ?k < (a + n) * 12" by (simp_all add: prach_covers_def Let_def)
      moreover have "?L + ?k \<le> pg_nof_prbs g * 12" "pg_data_start_prb g * 12 \<le> ?k"
        by (simp_all add: pg_nof_prbs_def pg_data_start_prb_def g NOF_SUBCARRIERS_PER_RB_def)
      moreover have "pg_nof_prbs g * 12 \<le> a * 12 \<or> (a + n) * 12 \<le> pg_data_start_prb g * 12" using False by auto
      ultimately show False using \<open>j < ?L\<close> by auto
    qed
    moreover have "prach_write_sections g s p (up_symbol_id (params m)) [sec] repo store = Some (repo, store)"
      using False sec(7,8) by auto
    ultimately show ?thesis using w wf c
      by (intro exI [of _ repo] exI [of _ store]) (simp add: c_def [symmetric] same_prach_def)
  next
    case True
    obtain st iq0 sz where v: "prach_section_view g a n = (st, iq0, sz)" by (metis prod_cases3)
    note view = prach_section_view_spec [OF conjunct1 [OF True] conjunct2 [OF True] v]
    define iq where "iq = take sz (drop iq0 (iq_samples sec))"
    have iq: "length iq = sz" using view(2) len by (simp add: iq_def)
    have val: "iq ! i = x p q ! (st + i + ?k)" if "i < sz" for i
    proof -
      have "a * 12 + (iq0 + i) = st + i + ?k" using view(3) g(2) by simp
      moreover have "iq0 + i < n * 12" using that view(2) by simp
      ultimately show ?thesis using that len sec(5) by (simp add: iq_def sec(9) slice_prbs_def add.assoc [symmetric]) (simp add: ac_simps)
    qed
    have fit: "st + sz \<le> ?L" using view(1) g(1) by simp
    obtain c' store' where r: "prach_context_write_iq p (up_symbol_id (params m)) st iq c store = Some (c', store')"
      "prach_ready store' b c'" "same_prach c c'" "pb_max_nof_ports (store' ! b) = pb_max_nof_ports (store ! b)"
      and h: "\<And>p' q' j. p' < pb_max_nof_ports (store ! b) \<Longrightarrow> q' < pc_nof_symbols c \<Longrightarrow> j < ?L \<Longrightarrow>
       prach_holds x c store b p' q' j \<or> p' = p \<and> q' = q \<and> st \<le> j \<and> j < st + sz \<Longrightarrow> prach_holds x c' store' b p' q' j"
      using prach_context_write_holds [OF c p sec(3,4) fit iq, of x] val by blast
    have "prach_covers c (p, q, a, n) p' q' j \<longleftrightarrow> p' = p \<and> q' = q \<and> st \<le> j \<and> j < st + sz" if "j < ?L" for p' q' j
      using view(4) [of j] that g by (auto simp: prach_covers_def)
    moreover have "prach_write_sections g s p (up_symbol_id (params m)) [sec] repo store =
        Some (prach_store_entry s c' repo, store')"
      using True sec(7,8) r(1) view(2) len by (simp add: v prach_write_iq_def c_def [symmetric] iq_def [symmetric])
    moreover have "prach_entry s (prach_store_entry s c' repo) = c'" using prach_entry_store [OF wf] by simp
    ultimately show ?thesis using w r h prach_store_entry_wf [OF wf]
      by (intro exI [of _ "prach_store_entry s c' repo"] exI [of _ store']) (simp add: c_def [symmetric])
  qed
qed

lemma same_prach_trans: "same_prach c d \<Longrightarrow> same_prach d f \<Longrightarrow> same_prach c f"
  by (simp add: same_prach_def)

lemma same_prach_cong:
  assumes "same_prach c d"
  shows "prach_block_of eaxcs s d x em blk = prach_block_of eaxcs s c x em blk" "prach_covers d blk p q j = prach_covers c blk p q j"
  using assms
  by (simp_all add: same_prach_def prach_block_of_def prach_covers_def prach_symbol_in_buffer_def get_prach_offset_to_first_re_def)

text \<open>The blocks of a window, one message after the other.\<close>

lemma prach_write_messages_holds:
  assumes "list_all2 (prach_block_of eaxcs s c x) ms blks" "same_prach c (prach_entry s repo)"
    and "prach_repo_wf repo" "prach_ready store b (prach_entry s repo)" "\<forall>blk \<in> set blks. fst blk < pb_max_nof_ports (store ! b)"
  shows "\<exists>repo' store'. prach_write_messages eaxcs ms repo store = Some (repo', store') \<and> prach_repo_wf repo' \<and>
    prach_ready store' b (prach_entry s repo') \<and> same_prach c (prach_entry s repo') \<and>
    pb_max_nof_ports (store' ! b) = pb_max_nof_ports (store ! b) \<and>
    (\<forall>p' q' j. p' < pb_max_nof_ports (store ! b) \<longrightarrow> q' < pc_nof_symbols c \<longrightarrow> j < sequence_length (pc_preamble_info c) \<longrightarrow>
       prach_holds x (prach_entry s repo) store b p' q' j \<or> (\<exists>blk \<in> set blks. prach_covers c blk p' q' j) \<longrightarrow>
       prach_holds x (prach_entry s repo') store' b p' q' j)"
  using assms
proof (induction ms blks arbitrary: repo store rule: list_all2_induct)
  case Nil
  then show ?case by auto
next
  case (Cons em ms blk blks)
  obtain eaxc m p q a n where e: "em = (eaxc, m)" "blk = (p, q, a, n)" by (metis prod_cases4 surj_pair)
  let ?c = "prach_entry s repo"
  note same = same_prach_cong [OF Cons.prems(1)]
  have f: "pc_nof_symbols ?c = pc_nof_symbols c" "pc_preamble_info ?c = pc_preamble_info c"
    using Cons.prems(1) by (simp_all add: same_prach_def)
  have p: "p < pb_max_nof_ports (store ! b)" using Cons.prems(4) by (simp add: e)
  have blk: "prach_block_of eaxcs s ?c x (eaxc, m) (p, q, a, n)" using Cons.hyps(1) unfolding same e by simp
  obtain repo1 store1 where 1: "write_to_prach_buffer eaxcs eaxc m repo store = Some (True, repo1, store1)" "prach_repo_wf repo1"
    "prach_ready store1 b (prach_entry s repo1)" "same_prach ?c (prach_entry s repo1)"
    "pb_max_nof_ports (store1 ! b) = pb_max_nof_ports (store ! b)"
    and h1: "\<And>p' q' j. p' < pb_max_nof_ports (store ! b) \<Longrightarrow> q' < pc_nof_symbols c \<Longrightarrow> j < sequence_length (pc_preamble_info c) \<Longrightarrow>
       prach_holds x ?c store b p' q' j \<or> prach_covers c blk p' q' j \<Longrightarrow> prach_holds x (prach_entry s repo1) store1 b p' q' j"
    using write_to_prach_buffer_holds [OF Cons.prems(2,3) blk p] unfolding same f e(2) by blast
  have c1: "same_prach c (prach_entry s repo1)" by (rule same_prach_trans [OF Cons.prems(1) 1(4)])
  have "\<forall>blk \<in> set blks. fst blk < pb_max_nof_ports (store1 ! b)" using Cons.prems(4) by (simp add: 1(5))
  from Cons.IH [OF c1 1(2,3) this] obtain repo' store'
    where 2: "prach_write_messages eaxcs ms repo1 store1 = Some (repo', store')" "prach_repo_wf repo'"
    "prach_ready store' b (prach_entry s repo')" "same_prach c (prach_entry s repo')"
    "pb_max_nof_ports (store' ! b) = pb_max_nof_ports (store ! b)"
    and h2: "\<And>p' q' j. p' < pb_max_nof_ports (store ! b) \<Longrightarrow> q' < pc_nof_symbols c \<Longrightarrow> j < sequence_length (pc_preamble_info c) \<Longrightarrow>
       prach_holds x (prach_entry s repo1) store1 b p' q' j \<or> (\<exists>blk \<in> set blks. prach_covers c blk p' q' j) \<Longrightarrow>
       prach_holds x (prach_entry s repo') store' b p' q' j"
    unfolding 1(5) by blast
  have "prach_write_messages eaxcs (em # ms) repo store = Some (repo', store')" using 1(1) 2(1) by (simp add: e)
  then show ?case using 2(2-5) h1 h2 by (intro exI [of _ repo'] exI [of _ store']) auto
qed


section \<open>Safety of a write\<close>

text \<open>A write keeps the shape of all the buffers, so every context stays ready.\<close>

lemma prach_context_write_others:
  assumes c: "prach_ready store b c" and w: "prach_context_write_iq port symbol re_start iq c store = Some (c', store')"
    and d: "prach_ready store b' d"
  shows "prach_ready store' b' d"
proof (cases "port < pb_max_nof_ports (store ! b)")
  case False
  then show ?thesis using c w d by (auto simp: prach_context_write_iq_def prach_ready_def Let_def split: if_splits)
next
  case True
  let ?q = "prach_symbol_in_buffer c symbol"
  have q: "?q < pc_nof_symbols c" using w c by (auto simp: prach_context_write_iq_def prach_ready_def Let_def split: if_splits)
  note row = prach_ready_row [OF c True q]
  have r: "pc_buffer c = Some b" "pb_wf (store ! b)" "sequence_length (pc_preamble_info c) = pb_sequence_length (store ! b)"
    "unsigned_minus (pbc_nof_fd_occasions (pc_context c)) 1 = 0" "unsigned_minus (pbc_nof_td_occasions (pc_context c)) 1 = 0"
    using c by (auto simp: prach_ready_def unsigned_minus_def)
  have fit: "re_start + length iq \<le> length (prach_row store b port ?q)"
    and s: "store' = store[b := pb_set_symbol port 0 0 ?q (write_at re_start iq (prach_row store b port ?q)) (store ! b)]"
    using w q True row(2)
    by (auto simp: prach_context_write_iq_def r r(4,5) [unfolded One_nat_def] Let_def split: if_splits)
  have "pb_in_range (store ! b) port 0 0 ?q" using row(2) by (auto simp: pb_get_symbol_def split: if_splits)
  then have "pb_wf (pb_set_symbol port 0 0 ?q (write_at re_start iq (prach_row store b port ?q)) (store ! b))"
    using fit row(1) r(3) by (intro pb_set_symbol_wf [OF r(2)]) simp_all
  then show ?thesis using d by (cases "b' = b") (simp_all add: s prach_ready_def)
qed

definition prach_contexts_ready :: "'iq prach_store \<Rightarrow> prach_context_repository \<Rightarrow> bool" where
  "prach_contexts_ready store repo \<longleftrightarrow> prach_repo_wf repo \<and>
     (\<forall>t b. pc_buffer (prach_entry t repo) = Some b \<longrightarrow> prach_ready store b (prach_entry t repo))"

text \<open>A message with one section of any range of PRBs, on any eAxC.\<close>

lemma write_to_prach_buffer_safe:
  assumes wf: "prach_contexts_ready store repo" and m: "sections m = [sec]" "length (iq_samples sec) = sec_nof_prbs sec * 12"
    and symbol: "\<not> prach_context_empty (prach_entry (up_slot (params m)) repo) \<Longrightarrow>
      prach_symbol_in_buffer (prach_entry (up_slot (params m)) repo) (up_symbol_id (params m)) <
        pc_nof_symbols (prach_entry (up_slot (params m)) repo)"
  shows "\<exists>ok repo' store'. write_to_prach_buffer eaxcs eaxc m repo store = Some (ok, repo', store') \<and>
    prach_contexts_ready store' repo' \<and> (\<forall>t. same_prach (prach_entry t repo) (prach_entry t repo')) \<and>
    (\<forall>t. prach_context_empty (prach_entry t repo') \<longleftrightarrow> prach_context_empty (prach_entry t repo)) \<and> pr_pending repo' = pr_pending repo"
proof -
  let ?s = "up_slot (params m)" and ?p = "index_of eaxc eaxcs"
  define c where "c = prach_entry ?s repo"
  have rwf: "prach_repo_wf repo" using wf by (simp add: prach_contexts_ready_def)
  have copy: "prach_get ?s repo = c" by (simp add: prach_get_eq c_def)
  define g where "g = prach_geometry_of c"
  let ?a = "sec_start_prb sec" and ?n = "sec_nof_prbs sec"
  show ?thesis
  proof (cases "prach_context_empty c \<or> ?p \<ge> get_max_nof_ports store c \<or> ?a \<ge> pg_nof_prbs g \<or> ?a + ?n \<le> pg_data_start_prb g")
    case True
    then have "\<exists>ok. write_to_prach_buffer eaxcs eaxc m repo store = Some (ok, repo, store)"
      by (auto simp: write_to_prach_buffer_def copy Let_def m(1) g_def prach_geometry_of_def)
    then show ?thesis using wf by (auto simp: same_prach_def)
  next
    case False
    then obtain b where b: "pc_buffer c = Some b" by (auto simp: prach_context_empty_def)
    then have c: "prach_ready store b c" using wf by (simp add: prach_contexts_ready_def c_def)
    have p: "?p < pb_max_nof_ports (store ! b)" using False b by (simp add: get_max_nof_ports_def)
    have q: "prach_symbol_in_buffer c (up_symbol_id (params m)) < pc_nof_symbols c"
      using symbol False by (simp add: c_def)
    obtain st iq0 sz where v: "prach_section_view g ?a ?n = (st, iq0, sz)" by (metis prod_cases3)
    have a: "?a < pg_nof_prbs g" "pg_data_start_prb g < ?a + ?n" using False by auto
    note view = prach_section_view_spec [OF a v]
    define iq where "iq = take sz (drop iq0 (iq_samples sec))"
    have "pg_nof_res g = sequence_length (pc_preamble_info c)"
      using False by (simp add: g_def prach_geometry_of_def get_prach_nof_re_def)
    then have fit: "st + length iq \<le> sequence_length (pc_preamble_info c)" using view(1,2) m(2) by (simp add: iq_def)
    from prach_context_write_ready [OF c p refl q fit] obtain c' store' where
      w: "prach_context_write_iq ?p (up_symbol_id (params m)) st iq c store = Some (c', store')" "prach_ready store' b c'" "same_prach c c'"
      by (auto simp: same_prach_def)
    let ?repo = "prach_store_entry ?s c' repo"
    have e: "prach_entry t ?repo = (if prach_key t repo = prach_key ?s repo then c' else prach_entry t repo)" for t
      by (rule prach_entry_store [OF rwf])
    have key: "prach_entry t repo = c" if "prach_key t repo = prach_key ?s repo" for t
      using that by (simp add: prach_entry_def c_def)
    have "write_to_prach_buffer eaxcs eaxc m repo store = Some (True, ?repo, store')"
      using False v w(1) view(2) m
      by (simp add: write_to_prach_buffer_def copy Let_def g_def prach_geometry_of_def prach_write_iq_def c_def [symmetric] iq_def [symmetric])
    moreover have "prach_contexts_ready store' ?repo"
      using wf w(2) prach_context_write_others [OF c w(1)] prach_store_entry_wf [OF rwf]
      by (auto simp: prach_contexts_ready_def e prach_ready_def [of _ _ c'])
    moreover have "same_prach (prach_entry t repo) (prach_entry t ?repo)" for t
      using w(3) key [of t] by (simp add: e same_prach_def)
    moreover have "prach_context_empty (prach_entry t ?repo) \<longleftrightarrow> prach_context_empty (prach_entry t repo)" for t
      using w(2) c key [of t] by (auto simp: e prach_context_empty_def prach_ready_def)
    ultimately show ?thesis by (intro exI [of _ True] exI [of _ ?repo] exI [of _ store']) simp
  qed
qed

section \<open>Properties\<close>

text \<open>
  C15: The messages of a PRACH window, in any order and with any splitting into sections, possibly with
  repetitions: when their resource blocks cover the PRACH allocation on every port and symbol, the window is
  notified, its entry is emptied, and each symbol of the buffer holds exactly the subcarriers of the preamble, that
  is, those from the offset \<open>k_bar\<close> on.
\<close>

theorem prach_window_assembled:
  assumes repo: "prach_repo_wf repo" and ready: "prach_ready store b (prach_entry s repo)"
    and blocks: "list_all2 (prach_block_of eaxcs s (prach_entry s repo) x) ms blks"
      "\<forall>blk \<in> set blks. fst blk < pb_max_nof_ports (store ! b)"
    and size: "\<forall>p q. length (x p q) = pg_nof_prbs (prach_geometry_of (prach_entry s repo)) * 12"
    and cover: "\<forall>p < pb_max_nof_ports (store ! b). \<forall>q < pc_nof_symbols (prach_entry s repo).
      \<forall>j < pg_nof_prbs (prach_geometry_of (prach_entry s repo)). \<exists>a n. (p, q, a, n) \<in> set blks \<and> a \<le> j \<and> j < a + n"
  shows "\<exists>repo' repo'' store'. prach_write_messages eaxcs ms repo store = Some (repo', store') \<and>
    notify_prach s repo' = (Some (pc_context (prach_entry s repo), Some b), repo'') \<and>
    prach_context_empty (prach_get s repo'') \<and>
    (\<forall>p < pb_max_nof_ports (store ! b). \<forall>q < pc_nof_symbols (prach_entry s repo).
       pb_get_symbol (store' ! b) p 0 0 q =
         Some (take (get_prach_nof_re (prach_entry s repo)) (drop (get_prach_offset_to_first_re (prach_entry s repo)) (x p q))))"
proof -
  define c where "c = prach_entry s repo"
  let ?L = "sequence_length (pc_preamble_info c)" and ?k = "get_prach_offset_to_first_re c" and ?P = "pb_max_nof_ports (store ! b)"
  have b: "pc_buffer c = Some b" using ready by (simp add: prach_ready_def c_def)
  then have L: "get_prach_nof_re c = ?L" by (simp add: get_prach_nof_re_def prach_context_empty_def)
  define N where "N = pg_nof_prbs (prach_geometry_of c)"
  have N: "?L + ?k \<le> N * 12" by (simp add: N_def pg_nof_prbs_def prach_geometry_of_def L NOF_SUBCARRIERS_PER_RB_def)
  have "same_prach c c" by (simp add: same_prach_def)
  from prach_write_messages_holds [OF blocks(1) this [unfolded c_def] repo ready blocks(2), folded c_def] obtain repo' store'
    where w: "prach_write_messages eaxcs ms repo store = Some (repo', store')" "prach_repo_wf repo'"
      "prach_ready store' b (prach_entry s repo')" "same_prach c (prach_entry s repo')" "pb_max_nof_ports (store' ! b) = ?P"
      and h: "\<And>p q j. p < ?P \<Longrightarrow> q < pc_nof_symbols c \<Longrightarrow> j < ?L \<Longrightarrow> \<exists>blk \<in> set blks. prach_covers c blk p q j \<Longrightarrow>
        prach_holds x (prach_entry s repo') store' b p q j"
    by blast
  have holds: "prach_holds x (prach_entry s repo') store' b p q j" if pqj: "p < ?P" "q < pc_nof_symbols c" "j < ?L" for p q j
  proof -
    have "(j + ?k) div 12 < N" using pqj(3) N by (simp add: div_less_iff_less_mult)
    then obtain a n where "(p, q, a, n) \<in> set blks" "a \<le> (j + ?k) div 12" "(j + ?k) div 12 < a + n"
      using cover [folded c_def, folded N_def] pqj(1,2) by blast
    then show ?thesis using h [OF pqj]
      by (auto simp: prach_covers_def Let_def less_eq_div_iff_mult_less_eq div_less_iff_less_mult)
  qed
  have c': "pc_buffer (prach_entry s repo') = Some b" "pc_context (prach_entry s repo') = pc_context c"
    "pc_nof_symbols (prach_entry s repo') = pc_nof_symbols c" "pc_preamble_info (prach_entry s repo') = pc_preamble_info c"
    "get_prach_offset_to_first_re (prach_entry s repo') = ?k" "length (pc_stats (prach_entry s repo')) = pc_nof_symbols c"
    and stats: "\<And>q. q < pc_nof_symbols c \<Longrightarrow> length (pc_stats (prach_entry s repo') ! q) = ?P"
    and bits: "\<And>p q. q < pc_nof_symbols c \<Longrightarrow> p < ?P \<Longrightarrow> length (pc_stats (prach_entry s repo') ! q ! p) = ?L"
    using w(3,4,5) by (auto simp: prach_ready_def same_prach_def get_prach_offset_to_first_re_def)
  have "list_all have_all_res_been_written (pc_stats (prach_entry s repo'))"
    using holds by (simp add: list_all_length have_all_res_been_written_def c'(6) stats bits prach_holds_def)
  then have n: "notify_prach s repo' = (Some (pc_context c, Some b), prach_store_entry s empty_prach_context repo')"
    by (simp add: notify_prach_def try_popping_complete_prach_buffer_def try_getting_complete_prach_buffer_def c' Let_def)
  have "prach_context_empty (prach_get s (prach_store_entry s empty_prach_context repo'))"
    using prach_entry_store [OF w(2)]
    by (simp add: prach_get_def prach_context_copy_def prach_context_empty_def empty_prach_context_def)
  moreover have "pb_get_symbol (store' ! b) p 0 0 q = Some (take ?L (drop ?k (x p q)))"
    if "p < ?P" "q < pc_nof_symbols c" for p q
  proof -
    have "prach_row store' b p q = take ?L (drop ?k (x p q))"
    proof (rule nth_equalityI)
      have len: "length (prach_row store' b p q) = ?L" using prach_ready_row(1) [OF w(3), of p q] that c' w(5) by simp
      then show "length (prach_row store' b p q) = length (take ?L (drop ?k (x p q)))" using size N by (simp add: c_def N_def)
      show "prach_row store' b p q ! j = take ?L (drop ?k (x p q)) ! j" if "j < length (prach_row store' b p q)" for j
        using holds [OF \<open>p < ?P\<close> \<open>q < pc_nof_symbols c\<close>, of j] that len size N
        by (simp add: prach_holds_def c'(5) c_def N_def add.commute)
    qed
    then show ?thesis using prach_ready_row(2) [OF w(3), of p q] that c' w(5) by simp
  qed
  ultimately show ?thesis using w(1) n L by (simp only: c_def [symmetric]) blast
qed


text \<open>A window of one symbol of format C0 on one port, received in two messages.\<close>

definition sample_prach_slot :: slot_point where
  "sample_prach_slot = slot_point_count 1 4"

definition sample_prach_context :: prach_buffer_context where
  "sample_prach_context =
     (pc_context empty_prach_context)\<lparr>pbc_slot := sample_prach_slot, pbc_format := pf_C0, pbc_nof_td_occasions := 1,
        pbc_nof_fd_occasions := 1, pbc_pusch_scs := scs_kHz30, pbc_start_symbol := 3\<rparr>"

definition sample_prach_store :: "nat prach_store" where
  "sample_prach_store =
     [\<lparr>pb_max_nof_td_occasions = 1, pb_max_nof_fd_occasions = 1, pb_max_nof_symbols = 12, pb_sequence_length = 139,
       pb_data = [[[replicate 12 (replicate 139 0)]]]\<rparr>]"

definition sample_prach_repo :: prach_context_repository where
  "sample_prach_repo = the (prach_process_pending_contexts sample_prach_store
     (prach_add sample_prach_context (Some 0) None (prach_repo_init 4)))"

definition sample_prach_message :: "nat \<times> nat \<Rightarrow> nat uplane_message_decoder_results" where
  "sample_prach_message r =
     \<lparr>params = \<lparr>up_direction = uplink, up_slot = sample_prach_slot, up_filter_index = ul_prach_preamble_short, up_start_prb = 0,
        up_nof_prb = 0, up_symbol_id = 3, up_sect_type = type_1,
        up_compression_params = \<lparr>compr_type = compr_none, data_width = 16\<rparr>, up_section_id = 0\<rparr>,
      sections = [\<lparr>sec_section_id = 0, is_every_rb_used = True, use_current_symbol_number = True, sec_start_prb = fst r,
        sec_nof_prbs = snd r, ud_comp_hdr = \<lparr>compr_type = compr_none, data_width = 16\<rparr>, ud_comp_len = None,
        iq_samples = slice_prbs [0..<144] r\<rparr>]\<rparr>"

lemma sample_prach_info:
  "preamble_info_of sample_prach_context =
     Some \<lparr>sequence_length = 139, preamble_scs = ra_kHz30, preamble_nof_symbols = 1, preamble_cp_length = 620,
       support_restricted_sets = False\<rparr>"
  by (simp add: preamble_info_of_def sample_prach_context_def get_prach_preamble_short_info_def is_long_preamble_def
      is_short_preamble_def is_short_preamble_scs_def to_ra_subcarrier_spacing_def drop_bit_eq_div)

lemma sample_prach_new:
  "new_prach_context sample_prach_context (Some 0) None sample_prach_store =
     Some \<lparr>pc_context = sample_prach_context, pc_buffer = Some 0, pc_stats = [[replicate 139 False]],
       pc_preamble_info = the (preamble_info_of sample_prach_context), pc_freq_mapping_info = (12, 2),
       pc_nof_symbols = 1, pc_start_symbol = 3\<rparr>"
  unfolding new_prach_context_def sample_prach_info
  by (simp add: sample_prach_context_def sample_prach_store_def pb_max_nof_ports_def
      MAX_NOF_SUPPORTED_EAXC_def prach_buffer_writer_stats_def is_short_preamble_def is_long_preamble_def)

lemma sample_prach_repo_eq:
  "sample_prach_repo = prach_store_entry sample_prach_slot (the (new_prach_context sample_prach_context (Some 0) None sample_prach_store))
     (prach_repo_init 4)"
  by (simp add: sample_prach_repo_def prach_process_pending_contexts_def prach_add_def prach_repo_init_def sample_prach_new)
    (simp add: sample_prach_context_def)

lemma sample_prach_ready:
  "prach_repo_wf sample_prach_repo"
  "prach_entry sample_prach_slot sample_prach_repo = the (new_prach_context sample_prach_context (Some 0) None sample_prach_store)"
  "prach_ready sample_prach_store 0 (the (new_prach_context sample_prach_context (Some 0) None sample_prach_store))"
proof -
  have wf: "prach_repo_wf (prach_repo_init 4)" by (simp add: prach_repo_wf_def prach_repo_init_def)
  show "prach_repo_wf sample_prach_repo" unfolding sample_prach_repo_eq by (rule prach_store_entry_wf [OF wf])
  show "prach_entry sample_prach_slot sample_prach_repo = the (new_prach_context sample_prach_context (Some 0) None sample_prach_store)"
    unfolding sample_prach_repo_eq prach_entry_store [OF wf] by simp
  show "prach_ready sample_prach_store 0 (the (new_prach_context sample_prach_context (Some 0) None sample_prach_store))"
    unfolding sample_prach_new option.sel
    by (rule new_prach_context_ready [OF sample_prach_new _ _ sample_prach_info])
      (simp_all add: sample_prach_store_def pb_wf_def pb_max_nof_ports_def sample_prach_context_def)
qed

lemma sample_prach_blocks:
  "list_all2 (prach_block_of [7] sample_prach_slot (the (new_prach_context sample_prach_context (Some 0) None sample_prach_store))
     (\<lambda>p q. [0..<144])) [(7, sample_prach_message (5, 7)), (7, sample_prach_message (0, 5))] [(0, 0, 5, 7), (0, 0, 0, 5)]"
  unfolding sample_prach_new option.sel
  by (simp add: prach_block_of_def sample_prach_message_def prach_symbol_in_buffer_def unsigned_minus_def is_long_preamble_def
      sample_prach_context_def)

theorem prach_window_assembled_witness:
  "\<exists>repo' repo'' store'.
     prach_write_messages [7] [(7, sample_prach_message (5, 7)), (7, sample_prach_message (0, 5))] sample_prach_repo sample_prach_store =
       Some (repo', store') \<and>
     notify_prach sample_prach_slot repo' = (Some (sample_prach_context, Some 0), repo'') \<and>
     prach_context_empty (prach_get sample_prach_slot repo'') \<and> pb_get_symbol (store' ! 0) 0 0 0 0 = Some [2..<141]"
proof -
  let ?c = "the (new_prach_context sample_prach_context (Some 0) None sample_prach_store)"
  have g: "pg_nof_prbs (prach_geometry_of ?c) = 12" "get_prach_nof_re ?c = 139" "get_prach_offset_to_first_re ?c = 2"
    "pc_nof_symbols ?c = 1" "pc_context ?c = sample_prach_context"
    unfolding sample_prach_new option.sel sample_prach_info
    by (simp_all add: pg_nof_prbs_def prach_geometry_of_def get_prach_nof_re_def
        get_prach_offset_to_first_re_def prach_context_empty_def NOF_SUBCARRIERS_PER_RB_def)
  have g': "pb_max_nof_ports (sample_prach_store ! 0) = 1" by (simp add: sample_prach_store_def pb_max_nof_ports_def)
  have cover: "\<forall>j < (12::nat). \<exists>a n. (0::nat, 0::nat, a, n) \<in> set [(0, 0, 5, 7), (0, 0, 0, 5)] \<and> a \<le> j \<and> j < a + n"
  proof (intro allI impI)
    fix j :: nat assume "j < 12"
    then show "\<exists>a n. (0::nat, 0::nat, a, n) \<in> set [(0, 0, 5, 7), (0, 0, 0, 5)] \<and> a \<le> j \<and> j < a + n"
      by (cases "j < 5") (auto intro: exI [of _ 0] exI [of _ 5] exI [of _ 7])
  qed
  have "take 139 (drop 2 [0..<144]) = [2..<141]" by code_simp
  then show ?thesis
    using prach_window_assembled [of sample_prach_repo sample_prach_store 0 sample_prach_slot "[7]" "\<lambda>p q. [0..<144]"
        "[(7, sample_prach_message (5, 7)), (7, sample_prach_message (0, 5))]" "[(0, 0, 5, 7), (0, 0, 0, 5)]"]
      sample_prach_blocks cover
    unfolding sample_prach_ready(2) g g' by (simp add: sample_prach_ready g del: upt_conv_Cons)
qed


text \<open>
  C38: The occasion indices are passed to the buffer in the wrong order.  A short preamble with more than one
  time-domain occasion, which the request handler accepts with the remark that only the first occasion is used, in
  a buffer with one frequency-domain occasion: every message with samples of the window violates the assertion
  on the frequency-domain occasion.
\<close>

theorem prach_occasions_swapped:
  assumes c: "prach_get s repo = c" "pc_buffer c = Some b" "1 < pbc_nof_td_occasions (pc_context c)"
      "pbc_nof_td_occasions (pc_context c) < 256" "pb_max_nof_fd_occasions (store ! b) = 1"
    and m: "up_slot (params m) = s" "sections m = [sec]" "length (iq_samples sec) = sec_nof_prbs sec * 12"
      "index_of eaxc eaxcs < pb_max_nof_ports (store ! b)"
    and overlap: "sec_start_prb sec < pg_nof_prbs (prach_geometry_of c)"
      "pg_data_start_prb (prach_geometry_of c) < sec_start_prb sec + sec_nof_prbs sec"
  shows "write_to_prach_buffer eaxcs eaxc m repo store = None"
proof -
  let ?g = "prach_geometry_of c" and ?p = "index_of eaxc eaxcs"
  obtain st iq0 sz where v: "prach_section_view ?g (sec_start_prb sec) (sec_nof_prbs sec) = (st, iq0, sz)" by (metis prod_cases3)
  have "prach_entry s repo = c" using c(1) by (simp only: prach_get_eq)
  moreover have "unsigned_minus (pbc_nof_td_occasions (pc_context c)) 1 = pbc_nof_td_occasions (pc_context c) - 1"
    using c(3,4) by (simp add: unsigned_minus_def)
  then have "pb_get_symbol (store ! b) ?p (unsigned_minus (pbc_nof_fd_occasions (pc_context c)) 1)
      (unsigned_minus (pbc_nof_td_occasions (pc_context c)) 1) q = None" for q
    using c(3,5) by (simp add: pb_get_symbol_def pb_in_range_def)
  ultimately have "prach_write_iq s ?p (up_symbol_id (params m)) st iq repo store = None" for iq
    using c(2) m(4) by (simp add: prach_write_iq_def prach_context_write_iq_def Let_def)
  then show ?thesis
    using c m overlap prach_section_view_spec(2) [OF overlap v]
    by (simp add: write_to_prach_buffer_def Let_def prach_context_empty_def get_max_nof_ports_def prach_geometry_of_def
        v [unfolded prach_geometry_of_def] del: One_nat_def)
qed

definition sample_swapped_repo :: prach_context_repository where
  "sample_swapped_repo = prach_store_entry sample_prach_slot
     (the (new_prach_context (sample_prach_context\<lparr>pbc_nof_td_occasions := 2\<rparr>) (Some 0) None sample_prach_store)) (prach_repo_init 4)"

theorem prach_occasions_swapped_witness:
  "write_to_prach_buffer [7] 7 (sample_prach_message (0, 12)) sample_swapped_repo sample_prach_store = None"
proof -
  let ?ctx = "sample_prach_context\<lparr>pbc_nof_td_occasions := 2\<rparr>"
  let ?c = "the (new_prach_context ?ctx (Some 0) None sample_prach_store)"
  have i: "preamble_info_of ?ctx = preamble_info_of sample_prach_context" by (simp add: preamble_info_of_def)
  have n: "?c = (the (new_prach_context sample_prach_context (Some 0) None sample_prach_store))\<lparr>pc_context := ?ctx\<rparr>"
    unfolding new_prach_context_def i sample_prach_info
    by (simp add: sample_prach_context_def sample_prach_store_def pb_max_nof_ports_def MAX_NOF_SUPPORTED_EAXC_def
        is_short_preamble_def is_long_preamble_def)
  have "prach_repo_wf (prach_repo_init 4)" by (simp add: prach_repo_wf_def prach_repo_init_def)
  from prach_entry_store [OF this, of sample_prach_slot sample_prach_slot ?c]
  have g: "prach_get sample_prach_slot sample_swapped_repo = ?c"
    by (simp add: prach_get_eq sample_swapped_repo_def)
  have c: "pc_buffer ?c = Some 0" "pc_context ?c = ?ctx" "pg_nof_prbs (prach_geometry_of ?c) = 12" "pg_data_start_prb (prach_geometry_of ?c) = 0"
    unfolding n sample_prach_new option.sel sample_prach_info
    by (simp_all add: pg_nof_prbs_def pg_data_start_prb_def prach_geometry_of_def get_prach_nof_re_def
        get_prach_offset_to_first_re_def prach_context_empty_def NOF_SUBCARRIERS_PER_RB_def)
  have b: "pb_max_nof_fd_occasions (sample_prach_store ! 0) = 1" "pb_max_nof_ports (sample_prach_store ! 0) = 1"
    by (simp_all add: sample_prach_store_def pb_max_nof_ports_def)
  show ?thesis
    using g c b
    by (intro prach_occasions_swapped [where s = sample_prach_slot and c = ?c and b = 0 and sec = "hd (sections (sample_prach_message (0, 12)))"])
      (simp_all add: sample_prach_message_def slice_prbs_def del: upt_conv_Cons)
qed

end
