(* ===== verification/Du_Receiver.thy ===== *)
theory Du_Receiver
  imports Ru_Receiver Prach_Repository
begin

text \<open>
  The receiver of the O-DU (lib/ofh/receiver): the message receiver (ofh_message_receiver_impl.cpp), the uplink
  and PRACH data flows with the checks against the Control-Plane contexts
  (ofh_data_flow_uplane_uplink_data_impl.cpp, ofh_data_flow_uplane_uplink_prach_impl.cpp,
  ../support/uplane_bound_check_helpers.h), the handler of closed reception windows
  (ofh_closed_rx_window_handler.cpp) and the reordering of notifications (ofh_rx_symbol_reorderer.cpp), connected
  the way \<open>create_receiver\<close> and \<open>receiver_impl\<close> connect them.

  All of it runs in one executor, so a frame and a symbol boundary are handled one after the other.  The calls of
  the notifier, an interface of the upper layers, are collected in a list.  None is a violated assertion.
\<close>

section \<open>State\<close>

datatype warn_unreceived_ru_frames = warn_never | warn_always | warn_after_traffic_detection

record 'iq du_flow_config =
  fl_decoder :: uplane_decoder_config
  fl_decode_header :: "decoder_uplane_section_params \<Rightarrow> bytes \<Rightarrow> section_step"
  fl_decompress :: "nat \<Rightarrow> bytes \<Rightarrow> ru_compression_params \<Rightarrow> 'iq list"

record 'iq du_receiver_config =
  du_nof_symbols :: nat
  du_scs :: nat
  du_vlan_params :: vlan_frame_params
  du_prach_eaxc :: "nat list"
  du_ul_eaxc :: "nat list"
  du_ignore_ecpri_payload_size_field :: bool
  du_ignore_ecpri_seq_id_field :: bool
  du_is_prach_cplane_enabled :: bool
  du_ignore_prach_start_symbol :: bool
  du_sym_end :: nat
  du_warn_unreceived_frames :: warn_unreceived_ru_frames
  du_uplink :: "'iq du_flow_config"
  du_prach :: "'iq du_flow_config"

datatype du_event =
  on_new_uplink_symbol uplane_rx_symbol_context shared_resource_grid bool
| on_new_prach_window_data prach_buffer_context shared_prach_buffer

record 'iq du_receiver =
  du_grids :: "'iq grid_store"
  du_grid_repo :: rx_grid_context_repository
  du_prach_buffers :: "'iq prach_store"
  du_prach_repo :: prach_context_repository
  du_ul_cplane_repo :: uplink_cplane_context_repository
  du_prach_cplane_repo :: uplink_cplane_context_repository
  du_notified_repo :: notified_repo
  du_seq_checker :: sequence_id_checker
  du_window :: rx_window_checker
  du_warn_on_first_rx_message :: bool
  du_log_unreceived_messages :: bool
  du_dropped_messages :: nat
  du_skipped_messages :: nat
  du_uplink_dropped :: nat
  du_prach_dropped :: nat
  du_missed_uplink_symbols :: nat
  du_missed_prach_contexts :: nat
  du_events :: "du_event list"

section \<open>Reordering of notifications\<close>

definition reorderer_on_new_uplink_symbol ::
  "uplane_rx_symbol_context \<Rightarrow> shared_resource_grid \<Rightarrow> bool \<Rightarrow> 'iq du_receiver \<Rightarrow> 'iq du_receiver" where
  "reorderer_on_new_uplink_symbol ctx grid is_valid st =
     (let (symbols, repo) = update_rx_symbol_and_compute_symbols_to_notify (rxs_slot ctx) (rxs_symbol ctx) is_valid (du_notified_repo st);
          st = st\<lparr>du_notified_repo := repo\<rparr>
      in case symbols of
           None \<Rightarrow> st
         | Some ((start, stop), valid_symbols) \<Rightarrow>
             st\<lparr>du_events := du_events st @
               map (\<lambda>i. on_new_uplink_symbol (ctx\<lparr>rxs_symbol := i\<rparr>) grid (bit valid_symbols i)) [start..<stop]\<rparr>)"

definition reorderer_on_new_prach_window_data ::
  "prach_buffer_context \<Rightarrow> shared_prach_buffer \<Rightarrow> 'iq du_receiver \<Rightarrow> 'iq du_receiver" where
  "reorderer_on_new_prach_window_data ctx buffer st =
     st\<lparr>du_events := du_events st @ [on_new_prach_window_data ctx buffer]\<rparr>"

section \<open>Checks against the Control-Plane contexts\<close>

definition is_symbol_index_in_cplane_valid :: "ul_cplane_context \<Rightarrow> nat \<Rightarrow> bool" where
  "is_symbol_index_in_cplane_valid cp_context symbol_id \<longleftrightarrow>
     symbol_id \<ge> unat (ctx_start_symbol cp_context) \<and>
     symbol_id < unat (ctx_start_symbol cp_context) + unat (ctx_nof_symbols cp_context)"

definition are_uplane_prb_fields_valid :: "'iq uplane_section_params list \<Rightarrow> ul_cplane_context \<Rightarrow> bool" where
  "are_uplane_prb_fields_valid secs cp_context \<longleftrightarrow>
     \<not> list_ex (\<lambda>up_section.
         if sec_start_prb up_section > MAX_NOF_PRBS - 1 then True
         else if sec_start_prb up_section + sec_nof_prbs up_section > MAX_NOF_PRBS then True
         else if \<not> is_every_rb_used up_section then True
         else if \<not> use_current_symbol_number up_section then True
         else sec_start_prb up_section < unat (ctx_prb_start cp_context) \<or>
              sec_start_prb up_section + sec_nof_prbs up_section >
                unat (ctx_prb_start cp_context) + unat (ctx_nof_prb cp_context)) secs"

section \<open>Uplink data flow\<close>

definition should_uplink_packet_be_filtered ::
  "nat \<Rightarrow> 'iq uplane_message_decoder_results \<Rightarrow> uplink_cplane_context_repository \<Rightarrow> bool" where
  "should_uplink_packet_be_filtered eaxc results repo =
     (let p = params results
      in if up_filter_index p = filter_reserved \<or> is_a_prach_message (up_filter_index p) then True
         else let context = ul_cplane_get (up_slot p) eaxc repo
              in if up_filter_index p \<noteq> ctx_filter_index context then True
                 else if \<not> is_symbol_index_in_cplane_valid context (up_symbol_id p) then True
                 else \<not> are_uplane_prb_fields_valid (sections results) context)"

definition uplink_decode_type1_message ::
  "'iq du_receiver_config \<Rightarrow> nat \<Rightarrow> bytes \<Rightarrow> 'iq du_receiver \<Rightarrow> 'iq du_receiver option" where
  "uplink_decode_type1_message cfg eaxc message st = do {
     let drop = st\<lparr>du_uplink_dropped := du_uplink_dropped st + 1\<rparr>;
     (ok, results) \<leftarrow> uplane_decode (fl_decoder (du_uplink cfg)) (fl_decode_header (du_uplink cfg)) (fl_decompress (du_uplink cfg))
                        fresh_up_results message;
     if \<not> ok then Some drop
     else if should_uplink_packet_be_filtered eaxc results (du_ul_cplane_repo st) then Some drop
     else do {
       (written, repo, grids) \<leftarrow> write_to_resource_grid (du_ul_eaxc cfg) eaxc results (du_grid_repo st) (du_grids st);
       if \<not> written then Some (drop\<lparr>du_grid_repo := repo, du_grids := grids\<rparr>)
       else do {
         (notification, repo) \<leftarrow> notify_received_symbol (up_slot (params results)) (up_symbol_id (params results)) repo;
         let st = st\<lparr>du_grid_repo := repo, du_grids := grids\<rparr>;
         Some (case notification of
                 None \<Rightarrow> st
               | Some (ctx, grid, is_valid) \<Rightarrow> reorderer_on_new_uplink_symbol ctx grid is_valid st)
       }
     }
   }"

section \<open>PRACH data flow\<close>

definition is_prach_start_symbol_valid :: "bool \<Rightarrow> ul_cplane_context \<Rightarrow> nat \<Rightarrow> bool" where
  "is_prach_start_symbol_valid ignore_prach_start_symbol context symbol_id =
     (if ignore_prach_start_symbol \<and> ctx_filter_index context = ul_prach_preamble_1p25khz
      then (let symbol_id = (if symbol_id \<ge> unat (ctx_start_symbol context)
                                then symbol_id - unat (ctx_start_symbol context) else symbol_id)
            in symbol_id < unat (ctx_nof_symbols context))
      else is_symbol_index_in_cplane_valid context symbol_id)"

definition should_prach_packet_be_filtered ::
  "'iq du_receiver_config \<Rightarrow> nat \<Rightarrow> 'iq uplane_message_decoder_results \<Rightarrow> uplink_cplane_context_repository \<Rightarrow> bool" where
  "should_prach_packet_be_filtered cfg eaxc results repo =
     (let p = params results
      in if \<not> is_a_prach_message (up_filter_index p) then True
         else if \<not> du_is_prach_cplane_enabled cfg then False
         else let context = ul_cplane_get (up_slot p) eaxc repo
              in if up_filter_index p \<noteq> ctx_filter_index context then True
                 else if \<not> is_prach_start_symbol_valid (du_ignore_prach_start_symbol cfg) context (up_symbol_id p) then True
                 else \<not> are_uplane_prb_fields_valid (sections results) context)"

definition prach_decode_type1_message ::
  "'iq du_receiver_config \<Rightarrow> nat \<Rightarrow> bytes \<Rightarrow> 'iq du_receiver \<Rightarrow> 'iq du_receiver option" where
  "prach_decode_type1_message cfg eaxc message st = do {
     let drop = st\<lparr>du_prach_dropped := du_prach_dropped st + 1\<rparr>;
     (ok, results) \<leftarrow> uplane_decode (fl_decoder (du_prach cfg)) (fl_decode_header (du_prach cfg)) (fl_decompress (du_prach cfg))
                        fresh_up_results message;
     if \<not> ok then Some drop
     else if should_prach_packet_be_filtered cfg eaxc results (du_prach_cplane_repo st) then Some drop
     else do {
       (written, repo, buffers) \<leftarrow> write_to_prach_buffer (du_prach_eaxc cfg) eaxc results (du_prach_repo st) (du_prach_buffers st);
       if \<not> written then Some (drop\<lparr>du_prach_repo := repo, du_prach_buffers := buffers\<rparr>)
       else let (notification, repo) = notify_prach (up_slot (params results)) repo;
                st = st\<lparr>du_prach_repo := repo, du_prach_buffers := buffers\<rparr>
            in Some (case notification of
                       None \<Rightarrow> st
                     | Some (ctx, buffer) \<Rightarrow> reorderer_on_new_prach_window_data ctx buffer st)
     }
   }"

section \<open>Message receiver\<close>

definition should_ecpri_packet_be_filtered :: "'iq du_receiver_config \<Rightarrow> packet_parameters \<Rightarrow> bool" where
  "should_ecpri_packet_be_filtered cfg ecpri_params =
     (if msg_type (header ecpri_params) \<noteq> iq_data then True
      else case type_params ecpri_params of
             iq_data_parameters pc _ \<Rightarrow> unat pc \<notin> set (du_ul_eaxc cfg) \<and> unat pc \<notin> set (du_prach_eaxc cfg)
           | realtime_control_parameters _ _ \<Rightarrow> False)"

definition start_logging_unreceived_messages :: "'iq du_receiver_config \<Rightarrow> 'iq du_receiver \<Rightarrow> 'iq du_receiver" where
  "start_logging_unreceived_messages cfg st =
     (if du_warn_unreceived_frames cfg = warn_after_traffic_detection \<and> \<not> du_log_unreceived_messages st
      then st\<lparr>du_log_unreceived_messages := True\<rparr> else st)"

definition update_du_seq_id :: "'iq du_receiver_config \<Rightarrow> nat \<Rightarrow> byte \<Rightarrow> 'iq du_receiver \<Rightarrow> (int \<times> 'iq du_receiver) option" where
  "update_du_seq_id cfg eaxc seq_id st =
     (if du_ignore_ecpri_seq_id_field cfg then Some (0, st)
      else map_option (\<lambda>(n, chk). (n, st\<lparr>du_seq_checker := chk\<rparr>)) (update_and_compare_seq_id eaxc seq_id (du_seq_checker st)))"

text \<open>
  What happens to an IQ data packet of a configured eAxC.  Accessing the parameters of an IQ data packet in any
  other packet throws, which is None in \<open>process_new_frame\<close>.
\<close>

definition process_uplane_packet ::
  "'iq du_receiver_config \<Rightarrow> u16 \<Rightarrow> u16 \<Rightarrow> bytes \<Rightarrow> 'iq du_receiver \<Rightarrow> 'iq du_receiver option" where
  "process_uplane_packet cfg pc seq ofh_pdu st = do {
     let st = (if du_warn_on_first_rx_message st
               then (start_logging_unreceived_messages cfg st)\<lparr>du_warn_on_first_rx_message := False\<rparr> else st);
     let eaxc = unat pc;
     (nof_skipped_seq_id, st) \<leftarrow> update_du_seq_id cfg eaxc (ucast (drop_bit 8 seq)) st;
     if nof_skipped_seq_id < 0 then Some (st\<lparr>du_dropped_messages := du_dropped_messages st + 1\<rparr>)
     else do {
       let st = (if nof_skipped_seq_id > 0
                 then st\<lparr>du_skipped_messages := du_skipped_messages st + nat nof_skipped_seq_id\<rparr> else st);
       case peek_slot_symbol_point ofh_pdu (du_nof_symbols cfg) (du_scs cfg) of
         None \<Rightarrow> Some st
       | Some sp \<Rightarrow> do {
           let st = st\<lparr>du_window := update_rx_window_statistics sp (du_window st)\<rparr>;
           case peek_filter_index ofh_pdu of
             None \<Rightarrow> Some st
           | Some filter_type \<Rightarrow>
               if is_a_prach_message filter_type then prach_decode_type1_message cfg eaxc ofh_pdu st
               else uplink_decode_type1_message cfg eaxc ofh_pdu st
         }
     }
   }"

definition process_new_frame :: "'iq du_receiver_config \<Rightarrow> bytes \<Rightarrow> 'iq du_receiver \<Rightarrow> 'iq du_receiver option" where
  "process_new_frame cfg payload st = do {
     (eth_params, ecpri_pdu) \<leftarrow> eth_decode empty_eth_params payload;
     if ecpri_pdu = [] \<or> should_ethernet_frame_be_filtered (du_vlan_params cfg) eth_params then Some st
     else do {
       (ecpri_params, ofh_pdu) \<leftarrow>
         ecpri_decode (if du_ignore_ecpri_payload_size_field cfg then decode_payload_ignore_size else decode_payload_use_size)
           empty_packet_parameters ecpri_pdu;
       if ofh_pdu = [] \<or> should_ecpri_packet_be_filtered cfg ecpri_params then Some st
       else (case type_params ecpri_params of
               iq_data_parameters pc seq \<Rightarrow> process_uplane_packet cfg pc seq ofh_pdu st
             | realtime_control_parameters _ _ \<Rightarrow> None)
     }
   }"

fun process_new_frames :: "'iq du_receiver_config \<Rightarrow> bytes list \<Rightarrow> 'iq du_receiver \<Rightarrow> 'iq du_receiver option" where
  "process_new_frames cfg [] st = Some st"
| "process_new_frames cfg (f # fs) st = Option.bind (process_new_frame cfg f st) (process_new_frames cfg fs)"

section \<open>Closed reception windows\<close>

definition handle_rx_grid_context :: "slot_symbol_point \<Rightarrow> 'iq du_receiver \<Rightarrow> 'iq du_receiver option" where
  "handle_rx_grid_context symbol_point st = do {
     (info, repo) \<leftarrow> pop_resource_grid_symbol (get_slot symbol_point) (get_symbol_index symbol_point) (du_grid_repo st);
     let st = st\<lparr>du_grid_repo := repo\<rparr>;
     Some (case info of
             None \<Rightarrow> st
           | Some (ctx, grid) \<Rightarrow>
               let st = reorderer_on_new_uplink_symbol
                          \<lparr>rxs_slot = gc_slot ctx, rxs_symbol = get_symbol_index symbol_point, rxs_sector = gc_sector ctx\<rparr> grid False st
               in st\<lparr>du_missed_uplink_symbols := du_missed_uplink_symbols st + 1\<rparr>)
   }"

definition handle_prach_context :: "slot_symbol_point \<Rightarrow> 'iq du_receiver \<Rightarrow> 'iq du_receiver" where
  "handle_prach_context symbol_point st =
     (if get_symbol_index symbol_point \<noteq> 0 then st
      else let s = sp_minus (get_slot symbol_point) 1;
               (info, repo) = pop_prach_buffer s (du_prach_repo st);
               st = st\<lparr>du_prach_repo := repo\<rparr>
           in case info of
                None \<Rightarrow> st
              | Some (ctx, buffer) \<Rightarrow>
                  let st = reorderer_on_new_prach_window_data ctx buffer st
                  in st\<lparr>du_missed_prach_contexts := du_missed_prach_contexts st + 1\<rparr>)"

text \<open>The delay of the window, with no symbols to process the uplink.\<close>

definition notification_delay_in_symbols :: "'iq du_receiver_config \<Rightarrow> nat" where
  "notification_delay_in_symbols cfg = 0 + du_sym_end cfg + 1"

definition closed_window_on_new_symbol ::
  "'iq du_receiver_config \<Rightarrow> slot_symbol_point \<Rightarrow> 'iq du_receiver \<Rightarrow> 'iq du_receiver option" where
  "closed_window_on_new_symbol cfg symbol_point st = do {
     let internal_slot = ssp_minus symbol_point (int (notification_delay_in_symbols cfg));
     repo \<leftarrow> process_pending_contexts (du_grids st) (du_grid_repo st);
     prach_repo \<leftarrow> prach_process_pending_contexts (du_prach_buffers st) (du_prach_repo st);
     st \<leftarrow> handle_rx_grid_context internal_slot (st\<lparr>du_grid_repo := repo, du_prach_repo := prach_repo\<rparr>);
     Some (handle_prach_context internal_slot st)
   }"

definition closed_window_collect_metrics :: "'iq du_receiver \<Rightarrow> (nat \<times> nat) \<times> 'iq du_receiver" where
  "closed_window_collect_metrics st =
     ((du_missed_prach_contexts st, du_missed_uplink_symbols st), st\<lparr>du_missed_prach_contexts := 0, du_missed_uplink_symbols := 0\<rparr>)"

text \<open>A symbol boundary goes to the window checker, unless it is disabled, and then to the closed window handler.\<close>

definition du_on_new_symbol :: "'iq du_receiver_config \<Rightarrow> slot_symbol_point \<Rightarrow> 'iq du_receiver \<Rightarrow> 'iq du_receiver option" where
  "du_on_new_symbol cfg symbol_point st =
     (let st = (if is_disabled (du_window st) then st
                else st\<lparr>du_window := rx_on_new_symbol symbol_point (du_window st)\<rparr>)
      in closed_window_on_new_symbol cfg symbol_point st)"


section \<open>Order and validity of the notifications\<close>

text \<open>The symbols that the reordering reports, with their validity, while symbols of a slot are received.\<close>

fun reorder_run :: "slot_point \<Rightarrow> (nat \<times> bool) list \<Rightarrow> notified_repo \<Rightarrow> (nat \<times> bool) list \<times> notified_repo" where
  "reorder_run s [] repo = ([], repo)"
| "reorder_run s ((symbol, is_valid) # xs) repo =
     (let (r, repo') = update_rx_symbol_and_compute_symbols_to_notify s symbol is_valid repo;
          (ys, repo'') = reorder_run s xs repo'
      in ((case r of Some ((a, b), w) \<Rightarrow> map (\<lambda>i. (i, bit w i)) [a..<b] | None \<Rightarrow> []) @ ys, repo''))"

fun report_symbols ::
  "uplane_rx_symbol_context \<Rightarrow> shared_resource_grid \<Rightarrow> (nat \<times> bool) list \<Rightarrow> 'iq du_receiver \<Rightarrow> 'iq du_receiver" where
  "report_symbols ctx grid [] st = st"
| "report_symbols ctx grid ((symbol, is_valid) # xs) st =
     report_symbols ctx grid xs (reorderer_on_new_uplink_symbol (ctx\<lparr>rxs_symbol := symbol\<rparr>) grid is_valid st)"

lemma report_symbols_run:
  "report_symbols ctx grid xs st =
     st\<lparr>du_notified_repo := snd (reorder_run (rxs_slot ctx) xs (du_notified_repo st)),
        du_events := du_events st @ map (\<lambda>(i, b). on_new_uplink_symbol (ctx\<lparr>rxs_symbol := i\<rparr>) grid b)
          (fst (reorder_run (rxs_slot ctx) xs (du_notified_repo st)))\<rparr>"
proof (induction xs arbitrary: st)
  case (Cons x xs)
  obtain symbol b where x: "x = (symbol, b)" by (cases x)
  show ?case
    using Cons.IH
    by (auto simp: x reorderer_on_new_uplink_symbol_def Let_def split: prod.split option.split)
qed simp

lemma reorder_run_notify_run:
  "map fst (fst (reorder_run s xs repo)) = fst (notify_run s xs repo) \<and> snd (reorder_run s xs repo) = snd (notify_run s xs repo)"
proof (induction xs arbitrary: repo)
  case (Cons x xs)
  obtain symbol b where x: "x = (symbol, b)" by (cases x)
  obtain r repo' where u: "update_rx_symbol_and_compute_symbols_to_notify s symbol b repo = (r, repo')" by fastforce
  show ?case using Cons.IH [of repo'] by (auto simp: x u comp_def split: prod.split option.split)
qed simp

text \<open>
  The validity bits of an entry: the symbols received so far, from the first one of the slot on, carry the flag
  they were received with.
\<close>

definition validity_recorded :: "nat \<Rightarrow> (nat \<times> bool) list \<Rightarrow> 32 word \<Rightarrow> bool" where
  "validity_recorded a xs v \<longleftrightarrow>
     \<not> bit v 15 \<or> (\<forall>i. a \<le> i \<and> i < 14 \<longrightarrow> (bit v i \<longrightarrow> i \<in> fst ` set xs) \<and> (bit v (16 + i) \<longleftrightarrow> (i, True) \<in> set xs))"

lemma update_rx_symbol_result:
  assumes "update_rx_symbol_and_compute_symbols_to_notify s symbol b repo = (Some (iv, w), repo')"
  shows "w = drop_bit 16 (repo ! (count_val s mod length repo) OR
    (if b then push_bit symbol 1 OR push_bit (symbol + 16) 1 else push_bit symbol 1))"
  using assms
  by (auto simp: update_rx_symbol_and_compute_symbols_to_notify_def Let_def VALID_SYMBOL_BITMASK_START_BIT_def split: if_splits)

lemma bit_or_symbol:
  assumes "symbol < 14"
  shows "bit ((v :: 32 word) OR (if b then push_bit symbol 1 OR push_bit (symbol + 16) 1 else push_bit symbol 1)) i \<longleftrightarrow>
    bit v i \<or> i = symbol \<or> b \<and> i = symbol + 16"
  using assms by (auto simp: bit_simps)

lemma validity_recorded_step:
  assumes "validity_recorded a xs v" "symbol < 14"
  shows "validity_recorded a (xs @ [(symbol, b)]) (snd (notify_entry v symbol b))"
proof -
  let ?v = "v OR (if b then push_bit symbol 1 OR push_bit (symbol + 16) 1 else push_bit symbol 1)"
  have "validity_recorded a (xs @ [(symbol, b)]) ?v"
    using assms unfolding validity_recorded_def bit_or_symbol [OF assms(2)] by auto
  then show ?thesis by (auto simp: notify_entry_def Let_def validity_recorded_def)
qed

lemma reorder_run_validity:
  assumes "repo \<noteq> []" "validity_recorded a ys (repo ! (count_val s mod length repo))"
    and "\<forall>x \<in> set xs. a \<le> fst x \<and> fst x < (if bit (repo ! (count_val s mod length repo)) 14 then 12 else 14)"
    and "distinct (map fst (ys @ xs))" "(i, w) \<in> set (fst (reorder_run s xs repo))"
  shows "w \<longleftrightarrow> (i, True) \<in> set (ys @ xs)"
  using assms
proof (induction xs arbitrary: repo ys)
  case (Cons x xs)
  obtain symbol b where x: "x = (symbol, b)" by (cases x)
  let ?i = "count_val s mod length repo"
  define v where "v = repo ! ?i"
  define N :: nat where "N = (if bit v 14 then 12 else 14)"
  obtain r repo' where u: "update_rx_symbol_and_compute_symbols_to_notify s symbol b repo = (r, repo')" by fastforce
  have r: "map_option fst r = fst (notify_entry v symbol b)" and repo': "repo' = repo[?i := snd (notify_entry v symbol b)]"
    using update_rx_symbol_entry [OF Cons.prems(1), of s symbol b] u by (simp_all add: v_def)
  have sy: "a \<le> symbol" "symbol < N" "symbol < 14" using Cons.prems(3) by (auto simp: x N_def v_def split: if_splits)
  have ent: "repo' ! ?i = snd (notify_entry v symbol b)" "length repo' = length repo" "repo' \<noteq> []"
    using Cons.prems(1) by (simp_all add: repo')
  show ?case
  proof (cases "(i, w) \<in> set (fst (reorder_run s xs repo'))")
    case True
    have "\<forall>x \<in> set xs. a \<le> fst x \<and> fst x < (if bit (repo' ! ?i) 14 then 12 else 14)"
      using Cons.prems(3) sy(3) unfolding ent(1)
      by (auto simp: notify_entry_def Let_def v_def [symmetric] bit_or_symbol split: if_splits)
    then show ?thesis
      using Cons.IH [of repo' "ys @ [(symbol, b)]"] True Cons.prems(4)
        validity_recorded_step [OF Cons.prems(2) [folded v_def] sy(3), of b] ent
      by (simp add: x)
  next
    case False
    then obtain c d wd where some: "r = Some ((c, d), wd)" "c \<le> i" "i < d" "w = bit wd i"
      using Cons.prems(5) by (auto simp: x u split: prod.splits option.splits)
    have "fst (notify_entry v symbol b) = Some (c, d)" using r some(1) by simp
    then have cd: "c = symbol" "d = symbol + get_nof_symbols_to_notify v symbol" "bit v 15"
      by (auto simp: notify_entry_def Let_def split: if_splits)
    have run: "i \<noteq> symbol \<Longrightarrow> bit v i" "i < 14"
      using nof_symbols_to_notify_run [OF sy(2) N_def] some(2,3) by (auto simp: Let_def cd N_def split: if_splits)
    have wd: "w \<longleftrightarrow> bit v (i + 16) \<or> b \<and> i = symbol"
      using sy(3) run(2)
      unfolding some(4) update_rx_symbol_result [OF u [unfolded some(1)]] v_def [symmetric] bit_drop_bit_eq comp_def
        bit_or_symbol [OF sy(3)]
      by (auto simp: add.commute)
    have rec: "bit v i \<longrightarrow> i \<in> fst ` set ys" "bit v (i + 16) \<longleftrightarrow> (i, True) \<in> set ys"
      using Cons.prems(2) cd(1,3) some(2) sy(1) run(2) by (auto simp: validity_recorded_def v_def [symmetric] add.commute)
    have "i \<notin> fst ` set xs" using rec(1) run(1) Cons.prems(4) by (cases "i = symbol") (auto simp: x)
    then have "(i, True) \<notin> set xs" by force
    then show ?thesis using wd rec(2) by (auto simp: x)
  qed
qed simp


lemma notified_add_records:
  assumes "start_symb < get_nsymb_per_slot extended_cp" "repo \<noteq> []"
  shows "validity_recorded start_symb [] (notified_add s start_symb extended_cp repo ! (count_val s mod length repo))"
    "bit (notified_add s start_symb extended_cp repo ! (count_val s mod length repo)) 14 \<longleftrightarrow> extended_cp"
proof -
  let ?v = "notified_add s start_symb extended_cp repo ! (count_val s mod length repo)"
  have n: "start_symb < 14" using assms(1) by (auto simp: get_nsymb_per_slot_def split: if_splits)
  have v: "?v = (if extended_cp then push_bit 15 1 OR push_bit 14 1 else push_bit 15 1) OR mask start_symb"
    using assms(2) by (simp add: notified_add_def USED_SLOT_BITMAP_def EXTENDED_CP_BITMAP_def USED_SLOT_BIT_def
        EXTENDED_CP_BIT_def Let_def mask_eq_exp_minus_1)
  have "bit ?v i \<longleftrightarrow> i = 15 \<or> extended_cp \<and> i = 14 \<or> i < start_symb" if "i < 32" for i
    unfolding v using n that by (auto simp: bit_simps simp del: push_bit_of_1)
  then show "validity_recorded start_symb [] ?v" "bit ?v 14 \<longleftrightarrow> extended_cp"
    using n by (auto simp: validity_recorded_def)
qed

section \<open>What a message can change\<close>

lemma rx_write_grid_changes:
  assumes wf: "rx_repo_wf store repo" "store_wf store"
    and w: "rx_write_grid s port symbol start_re iq repo store = Some (repo', store')"
  shows "\<exists>c c'. rx_entry s symbol repo = Some c \<and> rx_entry s symbol repo' = Some c' \<and> rgc_grid c' = rgc_grid c \<and>
    (\<forall>g p k i. p < length (rg_ports (store ! g)) \<longrightarrow> k < 14 \<longrightarrow> i < rg_nof_subc (store ! g) \<longrightarrow>
       grid_row (store' ! g) p k ! i \<noteq> grid_row (store ! g) p k ! i \<longrightarrow>
       rgc_grid c = Some g \<and> p = port \<and> k = symbol \<and> start_re \<le> i \<and> i < start_re + length iq)"
proof -
  obtain c where c: "rx_entry s symbol repo = Some c" using w by (auto simp: rx_write_grid_def split: Option.bind_splits)
  note k = rx_entry_bound [OF c]
  note shape = rx_repo_wfD(1) [OF wf(1) k]
  show ?thesis
  proof (cases "\<exists>g. rgc_grid c = Some g \<and> port < length (rg_ports (store ! g))")
    case True
    then obtain g where g: "rgc_grid c = Some g" "port < length (rg_ports (store ! g))" by blast
    have cw: "g < length store" "rgc_symbol c = symbol" using rx_repo_wfD(2) [OF wf(1) k, of s] c g(1) by (auto simp: context_wf_def)
    then have gw: "grid_wf (store ! g)" using wf(2) by (simp add: store_wf_def)
    have row: "length (grid_row (store ! g) port symbol) = rg_nof_subc (store ! g)"
      using grid_row_length [OF gw g(2), of symbol] k by (simp add: MAX_NSYMB_PER_SLOT_def)
    have fit: "start_re + length iq \<le> length (grid_row (store ! g) port (rgc_symbol c))"
      using w g by (auto simp: rx_write_grid_def c context_write_grid_def Let_def split: if_splits)
    from rx_write_grid_eq [OF c g fit] w obtain c' where
      c': "repo' = rx_store_entry s symbol c' repo" "rgc_grid c' = rgc_grid c"
      "store' = store[g := set_grid_row port symbol (write_at start_re iq (grid_row (store ! g) port symbol)) (store ! g)]"
      by (auto simp: cw(2))
    have "rx_entry s symbol repo' = Some c'" unfolding c'(1) by (rule rx_entry_store_same [OF shape k])
    moreover have "rgc_grid c = Some h \<and> p = port \<and> j = symbol \<and> start_re \<le> i \<and> i < start_re + length iq"
      if "p < length (rg_ports (store ! h))" "i < rg_nof_subc (store ! h)"
        "grid_row (store' ! h) p j ! i \<noteq> grid_row (store ! h) p j ! i" for h p j i
    proof -
      have h: "h = g" using that(3) by (rule contrapos_np) (simp add: c'(3))
      have set: "grid_row (store' ! g) p j = (if p = port \<and> j = symbol
          then write_at start_re iq (grid_row (store ! g) port symbol) else grid_row (store ! g) p j)"
        using grid_row_set [OF gw g(2)] k cw(1) by (simp add: c'(3) MAX_NSYMB_PER_SLOT_def)
      then have pj: "p = port" "j = symbol" using that(3) by (auto simp: h split: if_splits)
      show ?thesis using that(2,3) fit row g(1) set by (auto simp: h pj cw(2) nth_write_at split: if_splits)
    qed
    ultimately show ?thesis using c c'(2) by blast
  next
    case False
    then have "store' = store" "repo' = rx_store_entry s symbol c repo"
      using w by (cases "rgc_grid c"; auto simp: rx_write_grid_def c context_write_grid_def split: if_splits)+
    then show ?thesis using c rx_entry_store_same [OF shape k] by auto
  qed
qed

lemma write_sections_changes:
  assumes "rx_repo_wf store repo" "store_wf store" "write_sections s port symbol n secs repo store = Some (repo', store')"
    and "rx_entry s symbol repo = Some c" "p < length (rg_ports (store ! g))" "k < 14" "i < rg_nof_subc (store ! g)" "g < length store"
    and "grid_row (store' ! g) p k ! i \<noteq> grid_row (store ! g) p k ! i"
  shows "rgc_grid c = Some g \<and> p = port \<and> k = symbol \<and>
    (\<exists>sec \<in> set secs. sec_start_prb sec * 12 \<le> i \<and> i < (sec_start_prb sec + sec_nof_prbs sec) * 12)"
  using assms
proof (induction secs arbitrary: repo store c)
  case (Cons sec secs)
  show ?case
  proof (cases "sec_start_prb sec \<ge> n")
    case True
    then show ?thesis using Cons.IH [OF Cons.prems(1,2) _ Cons.prems(4-9)] Cons.prems(3) by auto
  next
    case False
    define l where "l = (if sec_start_prb sec + sec_nof_prbs sec < n then sec_nof_prbs sec else n - sec_start_prb sec)"
    have l: "l \<le> sec_nof_prbs sec" by (auto simp: l_def)
    obtain repo1 store1 where
      1: "rx_write_grid s port symbol (sec_start_prb sec * 12) (take (l * 12) (iq_samples sec)) repo store = Some (repo1, store1)"
      and 2: "write_sections s port symbol n secs repo1 store1 = Some (repo', store')"
      using Cons.prems(3) False by (auto simp: l_def Let_def NOF_SUBCARRIERS_PER_RB_def split: if_splits Option.bind_splits)
    note wf1 = rx_write_grid_wf [OF Cons.prems(1,2) 1]
    obtain c1 where c1: "rx_entry s symbol repo1 = Some c1" "rgc_grid c1 = rgc_grid c"
      and ch: "grid_row (store1 ! g) p k ! i \<noteq> grid_row (store ! g) p k ! i \<Longrightarrow>
        rgc_grid c = Some g \<and> p = port \<and> k = symbol \<and> sec_start_prb sec * 12 \<le> i \<and>
        i < sec_start_prb sec * 12 + length (take (l * 12) (iq_samples sec))"
      using rx_write_grid_changes [OF Cons.prems(1,2) 1] Cons.prems(4-8) by auto
    have sh: "p < length (rg_ports (store1 ! g))" "i < rg_nof_subc (store1 ! g)" "g < length store1"
      using wf1(3) Cons.prems(5,7,8) by (auto simp: same_shape_def)
    show ?thesis
    proof (cases "grid_row (store' ! g) p k ! i = grid_row (store1 ! g) p k ! i")
      case True
      have "sec_start_prb sec * 12 + length (take (l * 12) (iq_samples sec)) \<le> (sec_start_prb sec + sec_nof_prbs sec) * 12"
        using l by (simp add: add_mult_distrib)
      then show ?thesis using ch Cons.prems(9) True by auto
    next
      case False
      from Cons.IH [OF wf1(1,2) 2 c1(1) sh(1) Cons.prems(6) sh(2,3) False] show ?thesis by (auto simp: c1(2))
    qed
  qed
qed simp

lemma write_to_resource_grid_changes:
  assumes "rx_repo_wf store repo" "store_wf store" "write_to_resource_grid eaxcs eaxc res repo store = Some (ok, repo', store')"
    and "p < length (rg_ports (store ! g))" "k < 14" "i < rg_nof_subc (store ! g)" "g < length store"
    and "grid_row (store' ! g) p k ! i \<noteq> grid_row (store ! g) p k ! i"
  shows "\<exists>c. rx_get (up_slot (params res)) k repo = Some c \<and> rgc_grid c = Some g \<and> p = index_of eaxc eaxcs \<and>
    p < length eaxcs \<and> k = up_symbol_id (params res) \<and>
    (\<exists>sec \<in> set (sections res). sec_start_prb sec * 12 \<le> i \<and> i < (sec_start_prb sec + sec_nof_prbs sec) * 12)"
proof -
  obtain c where c: "rx_entry (up_slot (params res)) (up_symbol_id (params res)) repo = Some c"
    using assms(3) by (auto simp: write_to_resource_grid_def rx_get_def Let_def split: Option.bind_splits)
  have copy: "context_copy c = c" by (simp add: context_copy_def)
  then have w: "write_sections (up_slot (params res)) (index_of eaxc eaxcs) (up_symbol_id (params res)) (get_grid_nof_prbs store c)
      (sections res) repo store = Some (repo', store')" "index_of eaxc eaxcs < length eaxcs"
    using assms(3,8) by (auto simp: write_to_resource_grid_def rx_get_def c Let_def split: if_splits Option.bind_splits)
  from write_sections_changes [OF assms(1,2) w(1) c assms(4-8)] w(2) c copy show ?thesis
    by (auto simp: rx_get_def)
qed

text \<open>What the checks of the uplink data flow let through.\<close>

lemma uplink_packet_accepted:
  assumes "\<not> should_uplink_packet_be_filtered eaxc res repo" "cp = ul_cplane_get (up_slot (params res)) eaxc repo"
  shows "ctx_filter_index cp = standard_channel_filter"
    "unat (ctx_start_symbol cp) \<le> up_symbol_id (params res)"
    "up_symbol_id (params res) < unat (ctx_start_symbol cp) + unat (ctx_nof_symbols cp)"
    "sec \<in> set (sections res) \<Longrightarrow> unat (ctx_prb_start cp) \<le> sec_start_prb sec \<and>
       sec_start_prb sec + sec_nof_prbs sec \<le> unat (ctx_prb_start cp) + unat (ctx_nof_prb cp) \<and>
       sec_start_prb sec + sec_nof_prbs sec \<le> MAX_NOF_PRBS"
  using assms
  by (auto simp: should_uplink_packet_be_filtered_def Let_def is_a_prach_message_iff is_symbol_index_in_cplane_valid_def
      are_uplane_prb_fields_valid_def list_ex_iff split: if_splits)

lemma reorderer_fields [simp]:
  "du_grids (reorderer_on_new_uplink_symbol ctx grid b st) = du_grids st"
  "du_grid_repo (reorderer_on_new_uplink_symbol ctx grid b st) = du_grid_repo st"
  "du_prach_buffers (reorderer_on_new_uplink_symbol ctx grid b st) = du_prach_buffers st"
  "du_prach_repo (reorderer_on_new_uplink_symbol ctx grid b st) = du_prach_repo st"
  "du_ul_cplane_repo (reorderer_on_new_uplink_symbol ctx grid b st) = du_ul_cplane_repo st"
  "du_prach_cplane_repo (reorderer_on_new_uplink_symbol ctx grid b st) = du_prach_cplane_repo st"
  "du_seq_checker (reorderer_on_new_uplink_symbol ctx grid b st) = du_seq_checker st"
  by (simp_all add: reorderer_on_new_uplink_symbol_def Let_def split: prod.split option.split)

lemma prach_reorderer_fields [simp]:
  "du_grids (reorderer_on_new_prach_window_data ctx buffer st) = du_grids st"
  "du_grid_repo (reorderer_on_new_prach_window_data ctx buffer st) = du_grid_repo st"
  "du_prach_buffers (reorderer_on_new_prach_window_data ctx buffer st) = du_prach_buffers st"
  "du_prach_repo (reorderer_on_new_prach_window_data ctx buffer st) = du_prach_repo st"
  "du_ul_cplane_repo (reorderer_on_new_prach_window_data ctx buffer st) = du_ul_cplane_repo st"
  "du_prach_cplane_repo (reorderer_on_new_prach_window_data ctx buffer st) = du_prach_cplane_repo st"
  by (simp_all add: reorderer_on_new_prach_window_data_def)

text \<open>Where a message of the uplink data flow can change a sample.\<close>

definition sample_requested :: "'iq du_receiver_config \<Rightarrow> 'iq du_receiver \<Rightarrow> nat \<Rightarrow> nat \<Rightarrow> nat \<Rightarrow> nat \<Rightarrow> bool" where
  "sample_requested cfg st g port k i \<longleftrightarrow>
     (\<exists>eaxc s c. index_of eaxc (du_ul_eaxc cfg) = port \<and> port < length (du_ul_eaxc cfg) \<and>
        rx_get s k (du_grid_repo st) = Some c \<and> rgc_grid c = Some g \<and>
        (let cp = ul_cplane_get s eaxc (du_ul_cplane_repo st)
         in ctx_filter_index cp = standard_channel_filter \<and>
            unat (ctx_start_symbol cp) \<le> k \<and> k < unat (ctx_start_symbol cp) + unat (ctx_nof_symbols cp) \<and>
            unat (ctx_prb_start cp) * 12 \<le> i \<and> i < (unat (ctx_prb_start cp) + unat (ctx_nof_prb cp)) * 12))"

lemma uplink_decode_changes:
  assumes wf: "rx_repo_wf (du_grids st) (du_grid_repo st)" "store_wf (du_grids st)"
    and d: "uplink_decode_type1_message cfg eaxc msg st = Some st'"
    and ix: "p < length (rg_ports (du_grids st ! g))" "k < 14" "i < rg_nof_subc (du_grids st ! g)" "g < length (du_grids st)"
    and ch: "grid_row (du_grids st' ! g) p k ! i \<noteq> grid_row (du_grids st ! g) p k ! i"
  shows "sample_requested cfg st g p k i"
proof -
  obtain ok res where dec: "uplane_decode (fl_decoder (du_uplink cfg)) (fl_decode_header (du_uplink cfg)) (fl_decompress (du_uplink cfg))
      fresh_up_results msg = Some (ok, res)"
    using d by (auto simp: uplink_decode_type1_message_def Let_def split: Option.bind_splits)
  have f: "\<not> should_uplink_packet_be_filtered eaxc res (du_ul_cplane_repo st)"
    using d ch by (auto simp: uplink_decode_type1_message_def dec Let_def split: if_splits)
  then obtain wr repo grids where w: "write_to_resource_grid (du_ul_eaxc cfg) eaxc res (du_grid_repo st) (du_grids st) = Some (wr, repo, grids)"
    and g: "du_grids st' = grids"
    using d ch by (auto simp: uplink_decode_type1_message_def dec Let_def split: if_splits Option.bind_splits option.splits)
  from write_to_resource_grid_changes [OF wf w ix ch [unfolded g]] obtain c sec where
    c: "rx_get (up_slot (params res)) k (du_grid_repo st) = Some c" "rgc_grid c = Some g" "p = index_of eaxc (du_ul_eaxc cfg)"
    "p < length (du_ul_eaxc cfg)" "k = up_symbol_id (params res)" "sec \<in> set (sections res)" "sec_start_prb sec * 12 \<le> i"
    "i < (sec_start_prb sec + sec_nof_prbs sec) * 12" by blast
  let ?cp = "ul_cplane_get (up_slot (params res)) eaxc (du_ul_cplane_repo st)"
  note acc = uplink_packet_accepted [OF f refl]
  have "unat (ctx_prb_start ?cp) * 12 \<le> i" using acc(4) [OF c(6)] c(7) by simp
  moreover have "i < (unat (ctx_prb_start ?cp) + unat (ctx_nof_prb ?cp)) * 12"
    by (rule less_le_trans [OF c(8) mult_le_mono1]) (use acc(4) [OF c(6)] in simp)
  ultimately show ?thesis unfolding sample_requested_def Let_def using c acc(1-3) by blast
qed

lemma prach_decode_grids:
  "prach_decode_type1_message cfg eaxc msg st = Some st' \<Longrightarrow> du_grids st' = du_grids st"
  by (auto simp: prach_decode_type1_message_def Let_def split: Option.bind_splits if_splits prod.splits option.splits)

text \<open>The data flow that a frame reaches, in a state that differs in the counters of the receiver only.\<close>

definition same_data :: "'iq du_receiver \<Rightarrow> 'iq du_receiver \<Rightarrow> bool" where
  "same_data st st' \<longleftrightarrow> du_grids st' = du_grids st \<and> du_grid_repo st' = du_grid_repo st \<and>
     du_prach_buffers st' = du_prach_buffers st \<and> du_prach_repo st' = du_prach_repo st \<and>
     du_ul_cplane_repo st' = du_ul_cplane_repo st \<and> du_prach_cplane_repo st' = du_prach_cplane_repo st \<and>
     du_notified_repo st' = du_notified_repo st \<and> du_events st' = du_events st"

lemma update_du_seq_id_same:
  "update_du_seq_id cfg eaxc sid st = Some (n, st') \<Longrightarrow> same_data st st'"
  by (auto simp: update_du_seq_id_def same_data_def split: if_splits)

lemma start_logging_same: "same_data st (start_logging_unreceived_messages cfg st)"
  by (simp add: start_logging_unreceived_messages_def same_data_def)

lemma process_uplane_packet_cases:
  assumes "process_uplane_packet cfg pc sq pdu st = r" "unat pc < MAX_SUPPORTED_EAXC_ID_VALUE"
  shows "(\<exists>st'. r = Some st' \<and> same_data st st') \<or>
    (\<exists>st1. same_data st st1 \<and> (r = prach_decode_type1_message cfg (unat pc) pdu st1 \<or> r = uplink_decode_type1_message cfg (unat pc) pdu st1))"
proof -
  let ?st0 = "if du_warn_on_first_rx_message st then (start_logging_unreceived_messages cfg st)\<lparr>du_warn_on_first_rx_message := False\<rparr> else st"
  have "update_du_seq_id cfg (unat pc) (ucast (drop_bit 8 sq)) ?st0 \<noteq> None"
    using update_and_compare_total [OF assms(2), of "ucast (drop_bit 8 sq)"] by (auto simp: update_du_seq_id_def)
  then obtain n st1 where u: "update_du_seq_id cfg (unat pc) (ucast (drop_bit 8 sq)) ?st0 = Some (n, st1)" by auto
  have same: "same_data st st1"
    using update_du_seq_id_same [OF u] start_logging_same [of st cfg] by (auto simp: same_data_def split: if_splits)
  define st2 where "st2 = (if n > 0 then st1\<lparr>du_skipped_messages := du_skipped_messages st1 + nat n\<rparr> else st1)"
  have st2: "same_data st st2" "same_data st (st2\<lparr>du_window := x\<rparr>)" for x using same by (simp_all add: st2_def same_data_def)
  have dropped: "same_data st (st1\<lparr>du_dropped_messages := x\<rparr>)" for x using same by (simp add: same_data_def)
  have r: "r = (if n < 0 then Some (st1\<lparr>du_dropped_messages := du_dropped_messages st1 + 1\<rparr>)
      else case peek_slot_symbol_point pdu (du_nof_symbols cfg) (du_scs cfg) of None \<Rightarrow> Some st2
      | Some sp \<Rightarrow> (case peek_filter_index pdu of None \<Rightarrow> Some (st2\<lparr>du_window := update_rx_window_statistics sp (du_window st2)\<rparr>)
        | Some ft \<Rightarrow> if is_a_prach_message ft
            then prach_decode_type1_message cfg (unat pc) pdu (st2\<lparr>du_window := update_rx_window_statistics sp (du_window st2)\<rparr>)
            else uplink_decode_type1_message cfg (unat pc) pdu (st2\<lparr>du_window := update_rx_window_statistics sp (du_window st2)\<rparr>)))"
    unfolding assms(1) [symmetric] process_uplane_packet_def Let_def u Option.bind_lunit prod.case st2_def by (rule refl)
  show ?thesis
  proof (cases "n < 0 \<or> peek_slot_symbol_point pdu (du_nof_symbols cfg) (du_scs cfg) = None \<or> peek_filter_index pdu = None")
    case True
    then have "r = Some (st1\<lparr>du_dropped_messages := du_dropped_messages st1 + 1\<rparr>) \<or> r = Some st2 \<or>
        (\<exists>x. r = Some (st2\<lparr>du_window := x\<rparr>))" unfolding r by (auto split: option.split)
    then show ?thesis using dropped st2 by blast
  next
    case False
    then obtain sp ft where "\<not> n < 0" "peek_slot_symbol_point pdu (du_nof_symbols cfg) (du_scs cfg) = Some sp" "peek_filter_index pdu = Some ft"
      by auto
    then have "r = prach_decode_type1_message cfg (unat pc) pdu (st2\<lparr>du_window := update_rx_window_statistics sp (du_window st2)\<rparr>) \<or>
        r = uplink_decode_type1_message cfg (unat pc) pdu (st2\<lparr>du_window := update_rx_window_statistics sp (du_window st2)\<rparr>)"
      unfolding r by (cases "is_a_prach_message ft") simp_all
    then show ?thesis using st2(2) by blast
  qed
qed

lemma ecpri_decode_iq_type:
  assumes "ecpri_decode (if ign then decode_payload_ignore_size else decode_payload_use_size) p pdu = Some (q, msg)" "msg \<noteq> []"
    and "msg_type (header q) = iq_data"
  shows "\<exists>pc sq. type_params q = iq_data_parameters pc sq"
  using assms
  by (cases ign) (auto simp: ecpri_decode_def decode_payload_use_size_def decode_payload_ignore_size_def Let_def
      deserialize_iq_data_parameters_def split: Option.bind_splits if_splits)

lemma process_new_frame_cases:
  assumes "\<forall>e \<in> set (du_ul_eaxc cfg) \<union> set (du_prach_eaxc cfg). e < MAX_SUPPORTED_EAXC_ID_VALUE"
  shows "(\<exists>st'. process_new_frame cfg f st = Some st' \<and> same_data st st') \<or>
    (\<exists>st1 eaxc pdu. same_data st st1 \<and> eaxc \<in> set (du_ul_eaxc cfg) \<union> set (du_prach_eaxc cfg) \<and>
       (process_new_frame cfg f st = prach_decode_type1_message cfg eaxc pdu st1 \<or>
        process_new_frame cfg f st = uplink_decode_type1_message cfg eaxc pdu st1))"
proof -
  let ?dp = "if du_ignore_ecpri_payload_size_field cfg then decode_payload_ignore_size else decode_payload_use_size"
  obtain ep pdu where e: "eth_decode empty_eth_params f = Some (ep, pdu)" using eth_decode_safe by blast
  have "?dp = decode_payload_use_size \<or> ?dp = decode_payload_ignore_size" by simp
  from ecpri_decode_safe [OF this] obtain q msg where d: "ecpri_decode ?dp empty_packet_parameters pdu = Some (q, msg)" by blast
  show ?thesis
  proof (cases "pdu = [] \<or> should_ethernet_frame_be_filtered (du_vlan_params cfg) ep \<or> msg = [] \<or> should_ecpri_packet_be_filtered cfg q")
    case True
    then show ?thesis by (auto simp: process_new_frame_def e d same_data_def)
  next
    case False
    then have t: "msg_type (header q) = iq_data" by (auto simp: should_ecpri_packet_be_filtered_def split: if_splits)
    obtain pc sq where p: "type_params q = iq_data_parameters pc sq"
      using ecpri_decode_iq_type [OF d _ t] False by auto
    have pc: "unat pc \<in> set (du_ul_eaxc cfg) \<union> set (du_prach_eaxc cfg)"
      using False t by (auto simp: should_ecpri_packet_be_filtered_def p)
    then have lt: "unat pc < MAX_SUPPORTED_EAXC_ID_VALUE" using assms by blast
    have eq: "process_new_frame cfg f st = process_uplane_packet cfg pc sq msg st"
      using False by (simp add: process_new_frame_def e d p)
    from process_uplane_packet_cases [OF refl lt, of cfg sq msg st] show ?thesis unfolding eq using pc by blast
  qed
qed

section \<open>Well-formed receivers\<close>

text \<open>What the factories establish of a data flow.\<close>

definition flow_wf :: "'iq du_flow_config \<Rightarrow> bool" where
  "flow_wf fl \<longleftrightarrow>
     dec_numerology (fl_decoder fl) < NOF_NUMEROLOGIES \<and> ru_nof_prbs (fl_decoder fl) \<le> MAX_NOF_PRBS \<and>
     dec_nof_symbols (fl_decoder fl) \<le> MAX_NSYMB_PER_SLOT \<and>
     (fl_decode_header fl = up_decode_compression_header_dynamic \<or> (\<exists>c. fl_decode_header fl = up_decode_compression_header_static c)) \<and>
     (\<forall>n bs c. length (fl_decompress fl n bs c) = n)"

definition du_config_wf :: "'iq du_receiver_config \<Rightarrow> bool" where
  "du_config_wf cfg \<longleftrightarrow> flow_wf (du_uplink cfg) \<and> flow_wf (du_prach cfg) \<and>
     (\<forall>e \<in> set (du_ul_eaxc cfg) \<union> set (du_prach_eaxc cfg). e < MAX_SUPPORTED_EAXC_ID_VALUE)"

text \<open>
  The state: well-formed repositories, uplink commands for uplink eAxCs only, PRACH contexts with buffers of the
  size of their preamble, and PRACH commands that let only symbols of the registered preamble through.
\<close>

definition prach_symbols_checked :: "'iq du_receiver_config \<Rightarrow> uplink_cplane_context_repository \<Rightarrow> prach_context_repository \<Rightarrow> bool" where
  "prach_symbols_checked cfg cp_repo repo \<longleftrightarrow>
     (\<forall>s eaxc k. \<not> prach_context_empty (prach_entry s repo) \<longrightarrow> k < MAX_NSYMB_PER_SLOT \<longrightarrow>
        (du_is_prach_cplane_enabled cfg \<longrightarrow>
           is_prach_start_symbol_valid (du_ignore_prach_start_symbol cfg) (ul_cplane_get s eaxc cp_repo) k) \<longrightarrow>
        prach_symbol_in_buffer (prach_entry s repo) k < pc_nof_symbols (prach_entry s repo))"

definition du_wf :: "'iq du_receiver_config \<Rightarrow> 'iq du_receiver \<Rightarrow> bool" where
  "du_wf cfg st \<longleftrightarrow>
     rx_repo_wf (du_grids st) (du_grid_repo st) \<and> store_wf (du_grids st) \<and>
     (\<forall>s eaxc. eaxc \<in> set (du_prach_eaxc cfg) \<longrightarrow> eaxc \<notin> set (du_ul_eaxc cfg) \<longrightarrow>
        ctx_nof_symbols (ul_cplane_get s eaxc (du_ul_cplane_repo st)) = 0) \<and>
     prach_contexts_ready (du_prach_buffers st) (du_prach_repo st) \<and>
     prach_symbols_checked cfg (du_prach_cplane_repo st) (du_prach_repo st)"

lemma du_wf_same_data: "same_data st st' \<Longrightarrow> du_wf cfg st' = du_wf cfg st"
  by (simp add: same_data_def du_wf_def)

lemma flow_decodes:
  assumes "flow_wf fl"
  shows "\<exists>ok res. uplane_decode (fl_decoder fl) (fl_decode_header fl) (fl_decompress fl) fresh_up_results msg = Some (ok, res) \<and>
    (ok \<longrightarrow> up_symbol_id (params res) < MAX_NSYMB_PER_SLOT \<and>
       (\<exists>sec. sections res = [sec] \<and> length (iq_samples sec) = sec_nof_prbs sec * 12))"
proof -
  have fresh: "sections (fresh_up_results :: 'a uplane_message_decoder_results) = []" by (simp add: fresh_up_results_def)
  obtain c where c: "fl_decode_header fl = up_decode_compression_header_dynamic \<or> fl_decode_header fl = up_decode_compression_header_static c"
    and d: "dec_numerology (fl_decoder fl) < NOF_NUMEROLOGIES" "ru_nof_prbs (fl_decoder fl) \<le> MAX_NOF_PRBS"
      "dec_nof_symbols (fl_decoder fl) \<le> MAX_NSYMB_PER_SLOT" "\<And>n bs c. length (fl_decompress fl n bs c) = n"
    using assms by (auto simp: flow_wf_def)
  obtain ok res where r: "uplane_decode (fl_decoder fl) (fl_decode_header fl) (fl_decompress fl) fresh_up_results msg = Some (ok, res)"
    "ok \<longrightarrow> length (sections res) = 1 \<and> up_symbol_id (params res) < dec_nof_symbols (fl_decoder fl)"
    using uplane_decode_total [OF d(1,2) fresh c, of "fl_decompress fl" msg] by auto
  have "sections_sized res" by (rule uplane_decode_sized [OF r(1) fresh d(4)])
  then show ?thesis using r d(3) by (auto simp: sections_sized_def length_Suc_conv)
qed

lemma notify_received_symbol_wf:
  assumes "rx_repo_wf store repo" "k < MAX_NSYMB_PER_SLOT"
  shows "\<exists>n repo'. notify_received_symbol s k repo = Some (n, repo') \<and> rx_repo_wf store repo'"
proof -
  obtain c where c: "rx_entry s k repo = Some c" using assms(2) by (simp add: rx_entry_def)
  show ?thesis
    using assms(1) store_empty_wf [OF assms(1) c, of empty_context]
    by (auto simp: notify_received_symbol_def try_popping_complete_resource_grid_symbol_def c Let_def empty_context_def)
qed

lemma uplink_decode_safe:
  assumes cfg: "du_config_wf cfg" and wf: "du_wf cfg st" and e: "eaxc \<in> set (du_ul_eaxc cfg) \<union> set (du_prach_eaxc cfg)"
  shows "\<exists>st'. uplink_decode_type1_message cfg eaxc msg st = Some st' \<and> du_wf cfg st'"
proof -
  let ?dec = "uplane_decode (fl_decoder (du_uplink cfg)) (fl_decode_header (du_uplink cfg)) (fl_decompress (du_uplink cfg)) fresh_up_results msg"
  obtain ok res where r: "?dec = Some (ok, res)" "ok \<longrightarrow> up_symbol_id (params res) < MAX_NSYMB_PER_SLOT \<and>
      (\<exists>sec. sections res = [sec] \<and> length (iq_samples sec) = sec_nof_prbs sec * 12)"
    using flow_decodes [of "du_uplink cfg" msg] cfg by (auto simp: du_config_wf_def)
  show ?thesis
  proof (cases "ok \<and> \<not> should_uplink_packet_be_filtered eaxc res (du_ul_cplane_repo st)")
    case False
    then show ?thesis using wf by (auto simp: uplink_decode_type1_message_def r(1) du_wf_def Let_def)
  next
    case True
    then have f: "\<not> should_uplink_packet_be_filtered eaxc res (du_ul_cplane_repo st)" by simp
    have "ctx_nof_symbols (ul_cplane_get (up_slot (params res)) eaxc (du_ul_cplane_repo st)) \<noteq> 0"
      using uplink_packet_accepted(2,3) [OF f refl] by auto
    then have ul: "eaxc \<in> set (du_ul_eaxc cfg)" using wf e by (auto simp: du_wf_def)
    obtain sec where sec: "up_symbol_id (params res) < MAX_NSYMB_PER_SLOT" "sections res = [sec]"
      "length (iq_samples sec) = sec_nof_prbs sec * 12" using r(2) True by auto
    have g: "rx_repo_wf (du_grids st) (du_grid_repo st)" "store_wf (du_grids st)" using wf by (simp_all add: du_wf_def)
    obtain wr repo grids where w: "write_to_resource_grid (du_ul_eaxc cfg) eaxc res (du_grid_repo st) (du_grids st) = Some (wr, repo, grids)"
      "rx_repo_wf grids repo" "store_wf grids"
      using write_to_resource_grid_safe [OF g ul sec] by blast
    obtain n repo2 where n: "notify_received_symbol (up_slot (params res)) (up_symbol_id (params res)) repo = Some (n, repo2)"
      "rx_repo_wf grids repo2"
      using notify_received_symbol_wf [OF w(2) sec(1)] by blast
    show ?thesis
      using True wf w n
      by (auto simp: uplink_decode_type1_message_def r(1) du_wf_def Let_def split: option.split)
  qed
qed

lemma prach_symbols_checked_same:
  assumes "prach_symbols_checked cfg cp repo" "\<And>t. same_prach (prach_entry t repo) (prach_entry t repo') \<or> prach_context_empty (prach_entry t repo')"
    and "\<And>t. prach_context_empty (prach_entry t repo) \<Longrightarrow> prach_context_empty (prach_entry t repo')"
  shows "prach_symbols_checked cfg cp repo'"
proof -
  have "prach_symbol_in_buffer (prach_entry t repo') k = prach_symbol_in_buffer (prach_entry t repo) k \<and>
      pc_nof_symbols (prach_entry t repo') = pc_nof_symbols (prach_entry t repo)" if "\<not> prach_context_empty (prach_entry t repo')" for t k
    using assms(2) [of t] that by (auto simp: same_prach_def prach_symbol_in_buffer_def)
  then show ?thesis using assms(1,3) unfolding prach_symbols_checked_def by metis
qed

lemma empty_prach_wf:
  assumes "prach_contexts_ready store repo" "prach_symbols_checked cfg cp repo"
  shows "prach_contexts_ready store (prach_store_entry s empty_prach_context repo)"
    "prach_symbols_checked cfg cp (prach_store_entry s empty_prach_context repo)"
proof -
  have wf: "prach_repo_wf repo" using assms(1) by (simp add: prach_contexts_ready_def)
  note e = prach_entry_store [OF wf, of _ s empty_prach_context]
  have none: "pc_buffer empty_prach_context = None" by (simp add: empty_prach_context_def)
  show "prach_contexts_ready store (prach_store_entry s empty_prach_context repo)"
    using assms(1) prach_store_entry_wf [OF wf] none by (auto simp: prach_contexts_ready_def e)
  show "prach_symbols_checked cfg cp (prach_store_entry s empty_prach_context repo)"
    by (rule prach_symbols_checked_same [OF assms(2)]) (auto simp: e none prach_context_empty_def same_prach_def)
qed

lemma prach_decode_safe:
  assumes cfg: "du_config_wf cfg" and wf: "du_wf cfg st"
  shows "\<exists>st'. prach_decode_type1_message cfg eaxc msg st = Some st' \<and> du_wf cfg st'"
proof -
  let ?dec = "uplane_decode (fl_decoder (du_prach cfg)) (fl_decode_header (du_prach cfg)) (fl_decompress (du_prach cfg)) fresh_up_results msg"
  obtain ok res where r: "?dec = Some (ok, res)" "ok \<longrightarrow> up_symbol_id (params res) < MAX_NSYMB_PER_SLOT \<and>
      (\<exists>sec. sections res = [sec] \<and> length (iq_samples sec) = sec_nof_prbs sec * 12)"
    using flow_decodes [of "du_prach cfg" msg] cfg by (auto simp: du_config_wf_def)
  show ?thesis
  proof (cases "ok \<and> \<not> should_prach_packet_be_filtered cfg eaxc res (du_prach_cplane_repo st)")
    case False
    then show ?thesis using wf by (auto simp: prach_decode_type1_message_def r(1) du_wf_def Let_def)
  next
    case True
    let ?s = "up_slot (params res)" and ?k = "up_symbol_id (params res)"
    obtain sec where sec: "?k < MAX_NSYMB_PER_SLOT" "sections res = [sec]" "length (iq_samples sec) = sec_nof_prbs sec * 12"
      using r(2) True by auto
    have p: "prach_contexts_ready (du_prach_buffers st) (du_prach_repo st)"
      "prach_symbols_checked cfg (du_prach_cplane_repo st) (du_prach_repo st)" using wf by (simp_all add: du_wf_def)
    have "du_is_prach_cplane_enabled cfg \<Longrightarrow>
        is_prach_start_symbol_valid (du_ignore_prach_start_symbol cfg) (ul_cplane_get ?s eaxc (du_prach_cplane_repo st)) ?k"
      using True by (auto simp: should_prach_packet_be_filtered_def Let_def split: if_splits)
    then have k: "prach_symbol_in_buffer (prach_entry ?s (du_prach_repo st)) ?k < pc_nof_symbols (prach_entry ?s (du_prach_repo st))"
      if "\<not> prach_context_empty (prach_entry ?s (du_prach_repo st))"
      using p(2) sec(1) that unfolding prach_symbols_checked_def by blast
    obtain wr repo bufs where w: "write_to_prach_buffer (du_prach_eaxc cfg) eaxc res (du_prach_repo st) (du_prach_buffers st) = Some (wr, repo, bufs)"
      "prach_contexts_ready bufs repo" "\<forall>t. same_prach (prach_entry t (du_prach_repo st)) (prach_entry t repo)"
      "\<forall>t. prach_context_empty (prach_entry t repo) \<longleftrightarrow> prach_context_empty (prach_entry t (du_prach_repo st))"
      using write_to_prach_buffer_safe [OF p(1) sec(2,3) k] by blast
    have c: "prach_symbols_checked cfg (du_prach_cplane_repo st) repo"
      by (rule prach_symbols_checked_same [OF p(2)]) (use w(3,4) in auto)
    note em = empty_prach_wf [OF w(2) c, of ?s]
    show ?thesis
      using True wf w(1,2) c em
      by (auto simp: prach_decode_type1_message_def r(1) du_wf_def Let_def notify_prach_def try_popping_complete_prach_buffer_def
          split: option.split)
  qed
qed

section \<open>Accepted packets\<close>

lemma process_new_frame_packet:
  assumes v: "eth_params_wf (du_vlan_params cfg)" and cfg: "\<not> du_ignore_ecpri_payload_size_field cfg"
    and pc: "unat pc \<in> set (du_ul_eaxc cfg) \<union> set (du_prach_eaxc cfg)" and msg: "msg \<noteq> []" "length msg + 4 < 65536"
  shows "process_new_frame cfg (pad_frame (eth_frame (du_vlan_params cfg) (ecpri_packet (iq_data_parameters pc sq) msg))) st =
    process_uplane_packet cfg pc sq msg st"
  using pad_frame_decoded [OF v msg, of "iq_data_parameters pc sq"] msg(1) pc cfg
  by (auto simp: process_new_frame_def Let_def should_ecpri_packet_be_filtered_def type_of_params_def)


text \<open>The sequence identifier is the next one of its eAxC, or it is not looked at.\<close>

definition seq_id_expected :: "'iq du_receiver_config \<Rightarrow> nat \<Rightarrow> byte \<Rightarrow> sequence_id_checker \<Rightarrow> sequence_id_checker \<Rightarrow> bool" where
  "seq_id_expected cfg eaxc seq_id chk chk' \<longleftrightarrow>
     (if du_ignore_ecpri_seq_id_field cfg then chk' = chk else update_and_compare_seq_id eaxc seq_id chk = Some (0, chk'))"

text \<open>A message with uplink data that passes all the checks is written, and a completed symbol is reported.\<close>

lemma uplink_packet_processed:
  assumes seq: "seq_id_expected cfg (unat pc) (ucast (drop_bit 8 sq)) (du_seq_checker st) chk"
    and peek: "peek_slot_symbol_point msg (du_nof_symbols cfg) (du_scs cfg) \<noteq> None" "peek_filter_index msg = Some standard_channel_filter"
    and dec: "uplane_decode (fl_decoder (du_uplink cfg)) (fl_decode_header (du_uplink cfg)) (fl_decompress (du_uplink cfg))
        fresh_up_results msg = Some (True, res)"
      "\<not> should_uplink_packet_be_filtered (unat pc) res (du_ul_cplane_repo st)"
    and w: "write_to_resource_grid (du_ul_eaxc cfg) (unat pc) res (du_grid_repo st) (du_grids st) = Some (True, repo, grids)"
      "notify_received_symbol (up_slot (params res)) (up_symbol_id (params res)) repo = Some (n, repo')"
  shows "\<exists>st'. process_uplane_packet cfg pc sq msg st = Some st' \<and> du_grid_repo st' = repo' \<and> du_grids st' = grids \<and>
    du_ul_cplane_repo st' = du_ul_cplane_repo st \<and> du_seq_checker st' = chk \<and>
    (let st1 = (case n of None \<Rightarrow> st | Some (ctx, grid, is_valid) \<Rightarrow> reorderer_on_new_uplink_symbol ctx grid is_valid st)
     in du_events st' = du_events st1 \<and> du_notified_repo st' = du_notified_repo st1)"
proof -
  obtain sp where sp: "peek_slot_symbol_point msg (du_nof_symbols cfg) (du_scs cfg) = Some sp" using peek(1) by blast
  define st0 where "st0 = (if du_warn_on_first_rx_message st
      then (start_logging_unreceived_messages cfg st)\<lparr>du_warn_on_first_rx_message := False\<rparr> else st)"
  have st0: "du_seq_checker st0 = du_seq_checker st" "du_grid_repo st0 = du_grid_repo st" "du_grids st0 = du_grids st"
    "du_ul_cplane_repo st0 = du_ul_cplane_repo st" "du_events st0 = du_events st" "du_notified_repo st0 = du_notified_repo st"
    by (simp_all add: st0_def start_logging_unreceived_messages_def)
  define st1 where "st1 = (st0\<lparr>du_seq_checker := chk\<rparr>)\<lparr>du_window := update_rx_window_statistics sp (du_window st0)\<rparr>"
  have "update_du_seq_id cfg (unat pc) (ucast (drop_bit 8 sq)) st0 = Some (0, st0\<lparr>du_seq_checker := chk\<rparr>)"
    using seq st0(1) by (simp add: update_du_seq_id_def seq_id_expected_def split: if_splits)
  then have "process_uplane_packet cfg pc sq msg st = uplink_decode_type1_message cfg (unat pc) msg st1"
    unfolding process_uplane_packet_def st0_def [symmetric] by (simp add: sp peek(2) Let_def st1_def is_a_prach_message_iff)
  moreover have "uplink_decode_type1_message cfg (unat pc) msg st1 =
      Some (case n of None \<Rightarrow> st1\<lparr>du_grid_repo := repo', du_grids := grids\<rparr>
            | Some (ctx, grid, is_valid) \<Rightarrow> reorderer_on_new_uplink_symbol ctx grid is_valid (st1\<lparr>du_grid_repo := repo', du_grids := grids\<rparr>))"
    using dec(2) w by (simp add: uplink_decode_type1_message_def dec(1) Let_def st1_def st0 split: option.split prod.split)
  ultimately show ?thesis
    by (auto simp: reorderer_on_new_uplink_symbol_def Let_def st1_def st0 split: option.split prod.split)
qed

lemma init_prach_entry: "0 < n \<Longrightarrow> pc_buffer (prach_entry s (prach_repo_init n)) = None"
  by (simp add: prach_entry_def prach_repo_init_def empty_prach_context_def)

section \<open>Properties\<close>

text \<open>
  C11: The uplink symbols of a slot reach the upper layers once each, in increasing order and with the flag that says
  whether all their resource elements were received, whatever the order in which the data flow (valid) and the closing of
  the reception window (not valid) report them.  At the end the entry of the slot is free again.
\<close>

theorem uplink_symbols_reported_in_order:
  assumes "du_notified_repo st = notified_add (rxs_slot ctx) start_symb extended_cp repo" "repo \<noteq> []"
    and "start_symb < get_nsymb_per_slot extended_cp"
    and "distinct (map fst xs)" "set (map fst xs) = {start_symb..<get_nsymb_per_slot extended_cp}"
  shows "report_symbols ctx grid xs st =
    st\<lparr>du_notified_repo := repo[count_val (rxs_slot ctx) mod length repo := 0],
       du_events := du_events st @ map (\<lambda>k. on_new_uplink_symbol (ctx\<lparr>rxs_symbol := k\<rparr>) grid ((k, True) \<in> set xs))
         [start_symb..<get_nsymb_per_slot extended_cp]\<rparr>"
proof -
  let ?s = "rxs_slot ctx" and ?N = "get_nsymb_per_slot extended_cp"
  let ?run = "reorder_run ?s xs (notified_add ?s start_symb extended_cp repo)"
  have len: "length (notified_add ?s start_symb extended_cp repo) = length repo" by (simp add: notified_add_def Let_def)
  note rec = notified_add_records [OF assms(3,2), of ?s]
  note run = symbols_notified_in_order [OF assms(2,3,4,5), of ?s]
  have "w \<longleftrightarrow> (i, True) \<in> set xs" if "(i, w) \<in> set (fst ?run)" for i w
  proof -
    have range: "start_symb \<le> fst x \<and> fst x < ?N" if "x \<in> set xs" for x
    proof -
      have "fst x \<in> set (map fst xs)" using that by simp
      then show ?thesis unfolding assms(5) by simp
    qed
    have "w \<longleftrightarrow> (i, True) \<in> set ([] @ xs)"
      by (rule reorder_run_validity [where ys = "[]", OF _ _ _ _ that])
        (use assms(2,4) rec range len in \<open>auto simp: get_nsymb_per_slot_def\<close>)
    then show ?thesis by simp
  qed
  then have "fst ?run = map (\<lambda>k. (k, (k, True) \<in> set xs)) (map fst (fst ?run))"
    by (auto intro!: map_idI [symmetric] simp: comp_def)
  moreover have "map fst (fst ?run) = [start_symb..<?N]" "snd ?run = repo[count_val ?s mod length repo := 0]"
    using reorder_run_notify_run [of ?s xs "notified_add ?s start_symb extended_cp repo"] run by simp_all
  ultimately show ?thesis
    unfolding report_symbols_run assms(1) by (simp add: comp_def)
qed


definition sample_du_receiver :: "nat du_receiver" where
  "sample_du_receiver =
     \<lparr>du_grids = [], du_grid_repo = rx_grid_repo_init 4, du_prach_buffers = [], du_prach_repo = prach_repo_init 4,
      du_ul_cplane_repo = ul_cplane_repo_init 4, du_prach_cplane_repo = ul_cplane_repo_init 4,
      du_notified_repo = replicate 4 0, du_seq_checker = seq_checker_init, du_window = sample_window,
      du_warn_on_first_rx_message = False, du_log_unreceived_messages = False, du_dropped_messages = 0,
      du_skipped_messages = 0, du_uplink_dropped = 0, du_prach_dropped = 0, du_missed_uplink_symbols = 0,
      du_missed_prach_contexts = 0, du_events = []\<rparr>"

theorem uplink_symbols_reported_in_order_witness:
  "let ctx = \<lparr>rxs_slot = \<lparr>numerology_val = 1, count_val = 5\<rparr>, rxs_symbol = 0, rxs_sector = 0\<rparr> in
   du_events (report_symbols ctx (Some 0) [(13, True), (11, True), (12, False)]
     (sample_du_receiver\<lparr>du_notified_repo := notified_add (rxs_slot ctx) 11 False (replicate 4 0)\<rparr>)) =
   [on_new_uplink_symbol (ctx\<lparr>rxs_symbol := 11\<rparr>) (Some 0) True, on_new_uplink_symbol (ctx\<lparr>rxs_symbol := 12\<rparr>) (Some 0) False,
    on_new_uplink_symbol (ctx\<lparr>rxs_symbol := 13\<rparr>) (Some 0) True]"
proof -
  let ?ctx = "\<lparr>rxs_slot = \<lparr>numerology_val = 1, count_val = 5\<rparr>, rxs_symbol = 0, rxs_sector = 0\<rparr>"
  let ?xs = "[(13, True), (11, True), (12, False)]"
  let ?st = "sample_du_receiver\<lparr>du_notified_repo := notified_add (rxs_slot ?ctx) 11 False (replicate 4 0)\<rparr>"
  have n: "get_nsymb_per_slot False = 14" by (simp add: get_nsymb_per_slot_def)
  have "set (map fst ?xs) = {11..<get_nsymb_per_slot False}" unfolding n by auto
  then have "report_symbols ?ctx (Some 0) ?xs ?st =
      ?st\<lparr>du_notified_repo := (replicate 4 0)[count_val (rxs_slot ?ctx) mod length (replicate 4 (0 :: 32 word)) := 0],
       du_events := du_events ?st @ map (\<lambda>k. on_new_uplink_symbol (?ctx\<lparr>rxs_symbol := k\<rparr>) (Some 0) ((k, True) \<in> set ?xs))
         [11..<get_nsymb_per_slot False]\<rparr>"
    by (intro uplink_symbols_reported_in_order) (simp_all add: n)
  moreover have "[11..<14] = [11, 12, 13 :: nat]" by (simp add: upt_rec)
  moreover have "du_events ?st = []" by (simp add: sample_du_receiver_def)
  ultimately show ?thesis by (simp add: n del: report_symbols.simps)
qed



definition sample_du_config :: "nat du_receiver_config" where
  "sample_du_config =
     \<lparr>du_nof_symbols = 14, du_scs = 1,
      du_vlan_params = \<lparr>mac_dst_address = replicate 6 1, mac_src_address = replicate 6 2, vlan_config = None, eth_type = ECPRI_ETH_TYPE\<rparr>,
      du_prach_eaxc = [8], du_ul_eaxc = [4, 7], du_ignore_ecpri_payload_size_field = False,
      du_ignore_ecpri_seq_id_field = False, du_is_prach_cplane_enabled = True, du_ignore_prach_start_symbol = False,
      du_sym_end = 10, du_warn_unreceived_frames = warn_always,
      du_uplink = \<lparr>fl_decoder = sample_decoder\<lparr>expected_direction := uplink\<rparr>, fl_decode_header = up_decode_compression_header_dynamic,
        fl_decompress = (\<lambda>n bs c. replicate n 5)\<rparr>,
      du_prach = \<lparr>fl_decoder = sample_decoder\<lparr>expected_direction := uplink\<rparr>, fl_decode_header = up_decode_compression_header_dynamic,
        fl_decompress = (\<lambda>n bs c. replicate n 5)\<rparr>\<rparr>"

text \<open>A receiver that has asked for both PRBs of the symbols 3 to 7 of a slot.\<close>

definition sample_du_waiting :: "nat du_receiver" where
  "sample_du_waiting = sample_du_receiver\<lparr>du_grids := [sample_grid], du_grid_repo := sample_rx_repo,
     du_ul_cplane_repo := ul_cplane_add sample_slot 7 \<lparr>ctx_filter_index = standard_channel_filter, ctx_start_symbol = 3,
       ctx_prb_start = 0, ctx_nof_prb = 2, ctx_nof_symbols = 5\<rparr> (ul_cplane_repo_init 4)\<rparr>"

text \<open>Two PRBs of the symbol 4 of the slot, compressed to nine bits.\<close>

definition sample_du_message :: bytes where
  "sample_du_message = [0x10, 0, 0x30, 0x44, 0, 0, 0, 2, 0x91, 0] @ replicate 56 0"

definition sample_du_frame :: bytes where
  "sample_du_frame = pad_frame (eth_frame (du_vlan_params sample_du_config) (ecpri_packet (iq_data_parameters 7 0x0080) sample_du_message))"

lemma sample_du_config_wf: "du_config_wf sample_du_config"
  by (auto simp: du_config_wf_def flow_wf_def sample_du_config_def sample_decoder_def MAX_SUPPORTED_EAXC_ID_VALUE_def NOF_NUMEROLOGIES_def
      MAX_NOF_PRBS_def MAX_NSYMB_PER_SLOT_def)


lemma sample_du_waiting_wf: "du_wf sample_du_config sample_du_waiting"
proof -
  have "ctx_nof_symbols (ul_cplane_get s 8 (du_ul_cplane_repo sample_du_waiting)) = 0" for s
  proof -
    have "calculate_repository_index s 4 < 4" by (simp add: repository_index_less)
    then consider "calculate_repository_index s 4 = 0" | "calculate_repository_index s 4 = 1" | "calculate_repository_index s 4 = 2"
      | "calculate_repository_index s 4 = 3" by linarith
    then show ?thesis
      by cases (simp_all add: sample_du_waiting_def ul_cplane_get_def ul_cplane_add_def ul_cplane_repo_init_def Let_def
        nth_list_update MAX_SUPPORTED_EAXC_ID_VALUE_def unpack_context_def)
  qed
  moreover have "prach_repo_wf (prach_repo_init 4)" by (simp add: prach_repo_wf_def prach_repo_init_def)
  ultimately show ?thesis
    using sample_rx_repo_wf sample_store_wf init_prach_entry [of 4]
    by (simp add: du_wf_def sample_du_config_def prach_contexts_ready_def prach_symbols_checked_def prach_context_empty_def)
      (simp add: sample_du_waiting_def sample_du_receiver_def prach_context_empty_def)
qed

lemma sample_du_frame_written:
  "\<exists>st'. process_new_frame sample_du_config sample_du_frame sample_du_waiting = Some st' \<and> grid_row (du_grids st' ! 0) 1 4 ! 3 = 5"
proof -
  let ?dec = "uplane_decode (fl_decoder (du_uplink sample_du_config)) (fl_decode_header (du_uplink sample_du_config))
    (fl_decompress (du_uplink sample_du_config)) fresh_up_results sample_du_message"
  have "case ?dec of None \<Rightarrow> False | Some (ok, res) \<Rightarrow> ok \<and> up_filter_index (params res) = standard_channel_filter \<and>
      up_slot (params res) = sample_slot \<and> up_symbol_id (params res) = 4 \<and>
      map (\<lambda>sec. (sec_start_prb sec, sec_nof_prbs sec, is_every_rb_used sec, use_current_symbol_number sec, iq_samples sec))
        (sections res) = [(0, 2, True, True, replicate 24 5)]" by code_simp
  then obtain res sec where dec: "?dec = Some (True, res)" "up_filter_index (params res) = standard_channel_filter"
    "up_slot (params res) = sample_slot" "up_symbol_id (params res) = 4" "sections res = [sec]" "sec_start_prb sec = 0"
    "sec_nof_prbs sec = 2" "is_every_rb_used sec" "use_current_symbol_number sec" "iq_samples sec = replicate 24 5"
    by (auto split: option.splits)
  have chk: "case update_and_compare_seq_id 7 0 seq_checker_init of None \<Rightarrow> False | Some (n, chk) \<Rightarrow> n = 0" by code_simp
  have u: "unat (7 :: u16) = 7" "ucast (drop_bit 8 (0x0080 :: u16)) = (0 :: byte)" by code_simp+
  obtain chk where "seq_id_expected sample_du_config (unat (7 :: u16)) (ucast (drop_bit 8 (0x0080 :: u16))) (du_seq_checker sample_du_waiting) chk"
    using chk unfolding u by (auto simp: seq_id_expected_def sample_du_config_def sample_du_waiting_def sample_du_receiver_def split: option.splits)
  moreover have "peek_slot_symbol_point sample_du_message (du_nof_symbols sample_du_config) (du_scs sample_du_config) \<noteq> None" by code_simp
  moreover have "peek_filter_index sample_du_message = Some standard_channel_filter" by code_simp
  moreover have "\<not> should_uplink_packet_be_filtered (unat (7 :: u16)) res (du_ul_cplane_repo sample_du_waiting)"
  proof -
    have "ul_cplane_get sample_slot 7 (du_ul_cplane_repo sample_du_waiting) = \<lparr>ctx_filter_index = standard_channel_filter, ctx_start_symbol = 3,
       ctx_prb_start = 0, ctx_nof_prb = 2, ctx_nof_symbols = 5\<rparr>" by code_simp
    then show ?thesis
      by (simp add: should_uplink_packet_be_filtered_def u dec Let_def is_symbol_index_in_cplane_valid_def are_uplane_prb_fields_valid_def is_a_prach_message_iff
          MAX_NOF_PRBS_def)
  qed
  moreover have st: "du_ul_eaxc sample_du_config = [4, 7]" "du_grid_repo sample_du_waiting = sample_rx_repo" "du_grids sample_du_waiting = [sample_grid]"
    by (simp_all add: sample_du_config_def sample_du_waiting_def)
  let ?c = "sample_context\<lparr>rgc_re_written := (rgc_re_written sample_context)[1 := write_at 0 (replicate 24 True) (rgc_re_written sample_context ! 1)]\<rparr>"
  let ?g = "[set_grid_row 1 4 (write_at 0 (replicate 24 5) (grid_row sample_grid 1 4)) sample_grid]"
  have e: "rx_entry sample_slot 4 sample_rx_repo = Some sample_context" by code_simp
  have w: "write_to_resource_grid [4, 7] 7 res sample_rx_repo [sample_grid] = Some (True, rx_store_entry sample_slot 4 ?c sample_rx_repo, ?g)"
    using write_to_resource_grid_single [OF sample_rx_repo_wf sample_store_wf dec(5), of sample_context 0 7 "[4, 7]" 2] e
    by (simp add: dec sample_context_def sample_grid_def)
  obtain n repo' where n: "notify_received_symbol (up_slot (params res)) (up_symbol_id (params res)) (rx_store_entry sample_slot 4 ?c sample_rx_repo) = Some (n, repo')"
    using dec(4) by (auto simp: notify_received_symbol_def try_popping_complete_resource_grid_symbol_def rx_entry_def Let_def MAX_NSYMB_PER_SLOT_def)
  ultimately obtain st' where "process_uplane_packet sample_du_config 7 0x0080 sample_du_message sample_du_waiting = Some st'" "du_grids st' = ?g"
    using uplink_packet_processed [of sample_du_config 7 "0x0080" sample_du_waiting _ sample_du_message res] dec(1) w n unfolding st u by blast
  moreover have "grid_row (?g ! 0) 1 4 ! 3 = 5" by code_simp
  moreover have "process_new_frame sample_du_config sample_du_frame sample_du_waiting =
      process_uplane_packet sample_du_config 7 0x0080 sample_du_message sample_du_waiting"
    unfolding sample_du_frame_def
    by (rule process_new_frame_packet)
      (simp_all add: u sample_du_message_def sample_du_config_def eth_params_wf_def ECPRI_ETH_TYPE_def VLAN_TPID_def)
  ultimately show ?thesis by auto
qed


text \<open>
  C7: A frame, whatever it holds, changes a sample of a resource grid only where the O-DU has asked for it: in the
  grid that is registered for the slot of the message, on the port of its eAxC, and in the symbols and PRBs of the
  Control-Plane command that was last sent for the slot and the eAxC.
\<close>

theorem uplink_writes_only_requested:
  assumes "du_config_wf cfg" "du_wf cfg st" "process_new_frame cfg frame st = Some st'"
    and "g < length (du_grids st)" "port < length (rg_ports (du_grids st ! g))" "k < 14" "i < rg_nof_subc (du_grids st ! g)"
    and "grid_row (du_grids st' ! g) port k ! i \<noteq> grid_row (du_grids st ! g) port k ! i"
  shows "\<exists>eaxc s c cp. index_of eaxc (du_ul_eaxc cfg) = port \<and> port < length (du_ul_eaxc cfg) \<and>
    rx_get s k (du_grid_repo st) = Some c \<and> rgc_grid c = Some g \<and> cp = ul_cplane_get s eaxc (du_ul_cplane_repo st) \<and>
    ctx_filter_index cp = standard_channel_filter \<and>
    unat (ctx_start_symbol cp) \<le> k \<and> k < unat (ctx_start_symbol cp) + unat (ctx_nof_symbols cp) \<and>
    unat (ctx_prb_start cp) * 12 \<le> i \<and> i < (unat (ctx_prb_start cp) + unat (ctx_nof_prb cp)) * 12"
proof -
  have "\<forall>e \<in> set (du_ul_eaxc cfg) \<union> set (du_prach_eaxc cfg). e < MAX_SUPPORTED_EAXC_ID_VALUE"
    using assms(1) by (simp add: du_config_wf_def)
  from process_new_frame_cases [OF this, of frame st] have "sample_requested cfg st g port k i"
  proof (elim disjE exE conjE)
    fix st'' assume "process_new_frame cfg frame st = Some st''" "same_data st st''"
    then show ?thesis using assms(3,8) by (simp add: same_data_def)
  next
    fix st1 eaxc pdu assume "same_data st st1" "process_new_frame cfg frame st = prach_decode_type1_message cfg eaxc pdu st1"
    then show ?thesis using assms(3,8) prach_decode_grids [of cfg eaxc pdu st1 st'] by (simp add: same_data_def)
  next
    fix st1 eaxc pdu assume st1: "same_data st st1" and d: "process_new_frame cfg frame st = uplink_decode_type1_message cfg eaxc pdu st1"
    then have "du_grids st1 = du_grids st" "du_grid_repo st1 = du_grid_repo st" "du_ul_cplane_repo st1 = du_ul_cplane_repo st"
      by (simp_all add: same_data_def)
    then show ?thesis
      using uplink_decode_changes [of st1 cfg eaxc pdu st' port g k i] assms(2-8) d by (simp add: du_wf_def sample_requested_def)
  qed
  then show ?thesis unfolding sample_requested_def Let_def by blast
qed

theorem uplink_writes_only_requested_witness:
  "\<exists>eaxc s c. index_of eaxc [4, 7] = 1 \<and> rx_get s 4 sample_rx_repo = Some c \<and> rgc_grid c = Some 0 \<and>
    ctx_filter_index (ul_cplane_get s eaxc (du_ul_cplane_repo sample_du_waiting)) = standard_channel_filter"
proof -
  obtain st' where st': "process_new_frame sample_du_config sample_du_frame sample_du_waiting = Some st'" "grid_row (du_grids st' ! 0) 1 4 ! 3 = 5"
    using sample_du_frame_written by blast
  have st: "du_ul_eaxc sample_du_config = [4, 7]" "du_grid_repo sample_du_waiting = sample_rx_repo" "du_grids sample_du_waiting = [sample_grid]"
    by (simp_all add: sample_du_config_def sample_du_waiting_def)
  have "grid_row ([sample_grid] ! 0) 1 4 ! 3 = 0" "length (rg_ports sample_grid) = 2" "rg_nof_subc sample_grid = 24" by code_simp+
  then have "0 < length [sample_grid]" "1 < length (rg_ports ([sample_grid] ! 0))" "(4 :: nat) < 14" "3 < rg_nof_subc ([sample_grid] ! 0)"
    "grid_row (du_grids st' ! 0) 1 4 ! 3 \<noteq> grid_row ([sample_grid] ! 0) 1 4 ! 3" using st'(2) by simp_all
  from uplink_writes_only_requested [OF sample_du_config_wf sample_du_waiting_wf st'(1), unfolded st, OF this] show ?thesis by blast
qed

end
