(* ===== verification/Du_Link.thy ===== *)
theory Du_Link
  imports Fronthaul_Link Du_Receiver
begin

text \<open>
  The uplink of the fronthaul: the frames that the O-RU builds for a symbol, received by the O-DU.  The lemmas follow a
  symbol in the repository of received grids from its first fragment to the last one, which completes it.
\<close>

section \<open>Progress of a symbol\<close>

text \<open>A block of PRBs covers a subcarrier.\<close>

definition covers_re :: "nat \<times> nat \<Rightarrow> nat \<Rightarrow> bool" where
  "covers_re r i \<longleftrightarrow> fst r * 12 \<le> i \<and> i < (fst r + snd r) * 12"

text \<open>
  The blocks \<open>D\<close> of the ports have been received: exactly their subcarriers are marked as written, and they hold the
  samples of \<open>out\<close>.
\<close>

definition symbol_progress ::
  "slot_point \<Rightarrow> nat \<Rightarrow> resource_grid_context \<Rightarrow> nat \<Rightarrow> nat \<Rightarrow> nat \<Rightarrow> (nat \<Rightarrow> 'iq list) \<Rightarrow> (nat \<times> nat \<times> nat) set \<Rightarrow>
   rx_grid_context_repository \<Rightarrow> 'iq grid_store \<Rightarrow> bool" where
  "symbol_progress s k gctx g n N out D repo grids \<longleftrightarrow>
     rx_repo_wf grids repo \<and> store_wf grids \<and> rg_nof_subc (grids ! g) = N * 12 \<and> length (rg_ports (grids ! g)) = n \<and>
     (\<exists>c. rx_entry s k repo = Some c \<and> rgc_grid c = Some g \<and> rgc_context c = gctx \<and>
        (\<forall>p < n. \<forall>i < N * 12. rgc_re_written c ! p ! i \<longleftrightarrow> (\<exists>r. (p, r) \<in> D \<and> covers_re r i))) \<and>
     (\<forall>p < n. \<forall>i < N * 12. (\<exists>r. (p, r) \<in> D \<and> covers_re r i) \<longrightarrow> grid_row (grids ! g) p k ! i = out p ! i)"

definition symbol_covered :: "nat \<Rightarrow> nat \<Rightarrow> (nat \<times> nat \<times> nat) set \<Rightarrow> bool" where
  "symbol_covered n N D \<longleftrightarrow> (\<forall>p < n. \<forall>i < N * 12. \<exists>r. (p, r) \<in> D \<and> covers_re r i)"

lemma symbol_progress_entry:
  assumes "symbol_progress s k gctx g n N out D repo grids"
  obtains c where "rx_entry s k repo = Some c" "rgc_grid c = Some g" "rgc_context c = gctx" "g < length grids" "rgc_symbol c = k"
    "k < MAX_NSYMB_PER_SLOT" "length (rgc_re_written c) = n" "\<forall>p < n. length (rgc_re_written c ! p) = N * 12"
    "\<forall>p < n. \<forall>i < N * 12. rgc_re_written c ! p ! i \<longleftrightarrow> (\<exists>r. (p, r) \<in> D \<and> covers_re r i)"
    "grid_wf (grids ! g)" "\<forall>p < n. length (grid_row (grids ! g) p k) = N * 12"
proof -
  from assms obtain c where c: "rx_entry s k repo = Some c" "rgc_grid c = Some g" "rgc_context c = gctx"
    "\<forall>p < n. \<forall>i < N * 12. rgc_re_written c ! p ! i \<longleftrightarrow> (\<exists>r. (p, r) \<in> D \<and> covers_re r i)"
    and wf: "rx_repo_wf grids repo" "store_wf grids" "rg_nof_subc (grids ! g) = N * 12" "length (rg_ports (grids ! g)) = n"
    by (auto simp: symbol_progress_def)
  note k = rx_entry_bound [OF c(1)]
  have cw: "g < length grids" "rgc_symbol c = k" "length (rgc_re_written c) = n" "\<forall>m \<in> set (rgc_re_written c). length m = N * 12"
    using rx_repo_wfD(2) [OF wf(1) k, of s] c wf(3,4) by (auto simp: context_wf_def)
  have gw: "grid_wf (grids ! g)" using cw(1) wf(2) by (simp add: store_wf_def)
  have "\<forall>p < n. length (grid_row (grids ! g) p k) = N * 12"
    using grid_row_length [OF gw] wf(3,4) k by (simp add: MAX_NSYMB_PER_SLOT_def)
  with that [OF c(1-3) cw(1,2) k cw(3) _ c(4) gw] cw(3,4) show thesis by simp
qed

text \<open>Writing one more block.\<close>

lemma symbol_progress_write:
  assumes P: "symbol_progress s k gctx g n N out D repo grids"
    and port: "index_of eaxc eaxcs = p" "p < length eaxcs" "p < n"
    and m: "is_block_message s k (slice_prbs (out p) r) r m" and r: "fst r + snd r \<le> N" "0 < snd r" and out: "length (out p) = N * 12"
  shows "\<exists>repo' grids'. write_to_resource_grid eaxcs eaxc m repo grids = Some (True, repo', grids') \<and>
    symbol_progress s k gctx g n N out (insert (p, r) D) repo' grids'"
proof -
  from P obtain c where c: "rx_entry s k repo = Some c" "rgc_grid c = Some g" "rgc_context c = gctx" "g < length grids" "rgc_symbol c = k"
    "k < MAX_NSYMB_PER_SLOT" "length (rgc_re_written c) = n" "\<forall>p < n. length (rgc_re_written c ! p) = N * 12"
    "\<forall>p < n. \<forall>i < N * 12. rgc_re_written c ! p ! i \<longleftrightarrow> (\<exists>r. (p, r) \<in> D \<and> covers_re r i)"
    "grid_wf (grids ! g)" "\<forall>p < n. length (grid_row (grids ! g) p k) = N * 12"
    by (rule symbol_progress_entry)
  have wf: "rx_repo_wf grids repo" "store_wf grids" "rg_nof_subc (grids ! g) = N * 12" "length (rg_ports (grids ! g)) = n"
    and old: "\<forall>p < n. \<forall>i < N * 12. (\<exists>r. (p, r) \<in> D \<and> covers_re r i) \<longrightarrow> grid_row (grids ! g) p k ! i = out p ! i"
    using P by (simp_all add: symbol_progress_def)
  have fit: "fst r * 12 + snd r * 12 \<le> N * 12" using mult_le_mono1 [OF r(1), of 12] by (simp only: add_mult_distrib)
  have len: "length (slice_prbs (out p) r) = snd r * 12" using fit out by (simp add: slice_prbs_def)
  let ?c = "c\<lparr>rgc_re_written := (rgc_re_written c)[p := write_at (fst r * 12) (replicate (snd r * 12) True) (rgc_re_written c ! p)]\<rparr>"
  let ?row = "write_at (fst r * 12) (slice_prbs (out p) r) (grid_row (grids ! g) p k)"
  let ?repo = "rx_store_entry s k ?c repo" and ?grids = "grids[g := set_grid_row p k ?row (grids ! g)]"
  from m obtain sec where sec: "up_slot (params m) = s" "up_symbol_id (params m) = k" "sections m = [sec]" "sec_start_prb sec = fst r"
    "sec_nof_prbs sec = snd r" "iq_samples sec = slice_prbs (out p) r" by (auto simp: is_block_message_def)
  have w: "write_to_resource_grid eaxcs eaxc m repo grids = Some (True, ?repo, ?grids)"
    using write_to_resource_grid_single [OF wf(1,2) sec(3), of c g eaxc eaxcs N] c(1,2) port r len wf(3,4)
    by (simp add: sec(1,2,4-6))
  then have "write_messages eaxcs eaxc [m] repo grids = Some (?repo, ?grids)" by simp
  then have "rx_repo_wf ?grids ?repo \<and> store_wf ?grids" by (rule write_messages_wf [OF wf(1,2)])
  moreover have "rx_entry s k ?repo = Some ?c" by (rule rx_entry_store_same [OF rx_repo_wfD(1) [OF wf(1) c(6)] c(6)])
  moreover have "grid_row (?grids ! g) q k = (if q = p then ?row else grid_row (grids ! g) q k)" for q
    using grid_row_set [OF c(10)] c(4,6) port(3) wf(4) by (simp add: MAX_NSYMB_PER_SLOT_def)
  moreover have bits: "rgc_re_written ?c ! q ! i \<longleftrightarrow> (\<exists>r'. (q, r') \<in> insert (p, r) D \<and> covers_re r' i)" if "q < n" "i < N * 12" for q i
  proof -
    have "rgc_re_written ?c ! q ! i \<longleftrightarrow> q = p \<and> covers_re r i \<or> rgc_re_written c ! q ! i"
      using c(7,8) that port(3) fit by (auto simp: nth_list_update nth_write_at covers_re_def algebra_simps)
    then show ?thesis using c(9) that by blast
  qed
  moreover have "?row ! i = out p ! i" if "i < N * 12" "\<exists>r'. (p, r') \<in> insert (p, r) D \<and> covers_re r' i" for i
  proof -
    have "slice_prbs (out p) r ! (i - fst r * 12) = out p ! i" if "fst r * 12 \<le> i" "i < fst r * 12 + snd r * 12"
      using that \<open>i < N * 12\<close> out by (simp add: slice_prbs_def)
    then have "?row ! i = (if covers_re r i then out p ! i else grid_row (grids ! g) p k ! i)"
      using that(1) c(11) port(3) fit len by (auto simp: nth_write_at covers_re_def algebra_simps)
    then show ?thesis using that old port(3) by auto
  qed
  ultimately show ?thesis
    using w c(2-4) wf(3,4) old by (auto simp: symbol_progress_def)
qed

text \<open>The notifier after a write: the symbol is reported exactly when all its subcarriers are covered.\<close>

lemma symbol_progress_notify:
  assumes P: "symbol_progress s k gctx g n N out D repo grids"
  shows "notify_received_symbol s k repo =
    Some (if symbol_covered n N D then (Some (\<lparr>rxs_slot = gc_slot gctx, rxs_symbol = k, rxs_sector = gc_sector gctx\<rparr>, Some g, True),
                                        rx_store_entry s k empty_context repo)
          else (None, repo))"
proof -
  from P obtain c where c: "rx_entry s k repo = Some c" "rgc_grid c = Some g" "rgc_context c = gctx" "length (rgc_re_written c) = n"
    "\<forall>p < n. length (rgc_re_written c ! p) = N * 12"
    "\<forall>p < n. \<forall>i < N * 12. rgc_re_written c ! p ! i \<longleftrightarrow> (\<exists>r. (p, r) \<in> D \<and> covers_re r i)"
    by (rule symbol_progress_entry)
  have "have_all_prbs_been_written c \<longleftrightarrow> (\<forall>p < n. \<forall>i < N * 12. rgc_re_written c ! p ! i)"
    using c(4,5) by (simp add: have_all_prbs_been_written_def list_all_length)
  then have "have_all_prbs_been_written c \<longleftrightarrow> symbol_covered n N D" using c(6) by (simp add: symbol_covered_def)
  then show ?thesis
    using c(1-3) by (simp add: notify_received_symbol_def try_popping_complete_resource_grid_symbol_def try_getting_complete_resource_grid_def
        Let_def)
qed

text \<open>When everything is covered the rows are the samples that were sent.\<close>

lemma symbol_progress_rows:
  assumes P: "symbol_progress s k gctx g n N out D repo grids" and "symbol_covered n N D" "p < n" "length (out p) = N * 12"
  shows "grid_row (grids ! g) p k = out p"
proof -
  from P obtain c where "\<forall>p < n. length (grid_row (grids ! g) p k) = N * 12" by (rule symbol_progress_entry)
  then show ?thesis
    using assms(2-4) P by (intro nth_equalityI) (auto simp: symbol_progress_def symbol_covered_def)
qed

text \<open>The blocks of a partition: each subcarrier is covered by a block, and by no other.\<close>

lemma partition_covers:
  assumes "concat (map (\<lambda>(s, n). [s..<s + n]) rs) = [0..<N]" "i < N * 12"
  shows "\<exists>j < length rs. covers_re (rs ! j) i"
proof -
  have "i div 12 < N" using assms(2) by (simp add: less_mult_imp_div_less)
  then have "i div 12 \<in> set (concat (map (\<lambda>(s, n). [s..<s + n]) rs))" by (simp add: assms(1))
  then obtain s n where "(s, n) \<in> set rs" "s \<le> i div 12" "i div 12 < s + n" by auto
  then show ?thesis
    by (auto simp: in_set_conv_nth covers_re_def less_eq_div_iff_mult_less_eq div_less_iff_less_mult)
qed

lemma distinct_concat_disjoint:
  assumes "distinct (concat xss)" "i < length xss" "j < length xss" "x \<in> set (xss ! i)" "x \<in> set (xss ! j)"
  shows "i = j"
  using assms
proof (induction xss arbitrary: i j)
  case (Cons xs xss)
  have "x \<notin> set xs \<or> x \<notin> set (xss ! k)" if "k < length xss" for k
  proof -
    have "set (xss ! k) \<subseteq> set (concat xss)" using nth_mem [OF that] by auto
    then show ?thesis using Cons.prems(1) by auto
  qed
  from Cons.prems Cons.IH [of "i - 1" "j - 1"] this [of "i - 1"] this [of "j - 1"] show ?case
    by (cases i; cases j) auto
qed simp

lemma partition_disjoint:
  assumes "concat (map (\<lambda>(s, n). [s..<s + n]) rs) = [0..<N]" "i < length rs" "j < length rs" "covers_re (rs ! i) x" "covers_re (rs ! j) x"
  shows "i = j"
proof (rule distinct_concat_disjoint [of "map (\<lambda>(s, n). [s..<s + n]) rs" _ _ "x div 12"])
  show "distinct (concat (map (\<lambda>(s, n). [s..<s + n]) rs))" by (simp add: assms(1))
qed (use assms in \<open>simp_all add: covers_re_def less_eq_div_iff_mult_less_eq div_less_iff_less_mult case_prod_unfold\<close>)

text \<open>The symbol is covered exactly when every block of every port has arrived.\<close>

lemma symbol_covered_iff:
  assumes part: "\<forall>p < n. concat (map (\<lambda>(s, n). [s..<s + n]) (rs p)) = [0..<N]" "\<forall>p < n. \<forall>r \<in> set (rs p). 0 < snd r \<and> fst r + snd r \<le> N"
    and zs: "\<forall>(p, j) \<in> set zs. p < n \<and> j < length (rs p)"
  shows "symbol_covered n N ((\<lambda>(p, j). (p, rs p ! j)) ` set zs) \<longleftrightarrow> (\<forall>p < n. \<forall>j < length (rs p). (p, j) \<in> set zs)"
    (is "symbol_covered n N ?D \<longleftrightarrow> ?all")
proof
  assume cov: "symbol_covered n N ?D"
  show ?all
  proof (intro allI impI)
    fix p j assume p: "p < n" "j < length (rs p)"
    have r: "0 < snd (rs p ! j)" "fst (rs p ! j) + snd (rs p ! j) \<le> N" using part(2) p by auto
    let ?x = "fst (rs p ! j) * 12"
    have "?x < N * 12" "covers_re (rs p ! j) ?x" using r by (simp_all add: covers_re_def)
    then obtain r' where "(p, r') \<in> ?D" "covers_re r' ?x" using cov p(1) unfolding symbol_covered_def by blast
    then obtain j' where "(p, j') \<in> set zs" "covers_re (rs p ! j') ?x" by auto
    then show "(p, j) \<in> set zs"
      using partition_disjoint [of "rs p" N j' j ?x] part(1) p zs \<open>covers_re (rs p ! j) ?x\<close> by auto
  qed
next
  assume all: ?all
  have "\<exists>r. (p, r) \<in> ?D \<and> covers_re r i" if "p < n" "i < N * 12" for p i
  proof -
    obtain j where j: "j < length (rs p)" "covers_re (rs p ! j) i" using partition_covers part(1) \<open>p < n\<close> \<open>i < N * 12\<close> by blast
    then have "(p, rs p ! j) \<in> ?D" using all \<open>p < n\<close> by (intro image_eqI [of _ _ "(p, j)"]) auto
    with j(2) show ?thesis by blast
  qed
  then show "symbol_covered n N ?D" by (simp add: symbol_covered_def)
qed

section \<open>Frames\<close>

lemma accepted_message_peeks:
  assumes "uplane_decode cfg dch dec res msg = Some (True, res')"
  shows "peek_slot_symbol_point msg (dec_nof_symbols cfg) (dec_numerology cfg) \<noteq> None"
    and "peek_filter_index msg = Some (up_filter_index (params res'))"
proof -
  obtain p r where h: "up_decode_header cfg (params res) msg = Some (True, p, r)"
    and d: "decode_all_sections cfg dch dec (res\<lparr>params := p\<rparr>) r = Some (True, res')"
    using assms by (auto simp: uplane_decode_def Let_def split: Option.bind_splits if_splits)
  from up_decode_header_peek [OF h] show "peek_slot_symbol_point msg (dec_nof_symbols cfg) (dec_numerology cfg) \<noteq> None" by simp
  have "peek_filter_index msg = Some (up_filter_index p)"
    using h by (auto simp: up_decode_header_def peek_filter_index_def NOF_BYTES_UP_HEADER_def read_u8_enough Let_def
        hd_conv_nth split: if_splits)
  then show "peek_filter_index msg = Some (up_filter_index (params res'))" using decode_all_sections_params [OF d] by simp
qed

text \<open>The sequence identifiers of the eAxCs: the one of a frame is the successor of the last one seen.\<close>

definition seq_ready :: "'iq du_receiver_config \<Rightarrow> nat list \<Rightarrow> (nat \<Rightarrow> byte) \<Rightarrow> sequence_id_checker \<Rightarrow> bool" where
  "seq_ready cfg eaxcs sid chk \<longleftrightarrow> du_ignore_ecpri_seq_id_field cfg \<or>
     seq_checker_wf chk \<and> (\<forall>p < length eaxcs. initialized chk ! (eaxcs ! p) \<longrightarrow> sid p = counters chk ! (eaxcs ! p) + 1)"

lemma seq_ready_next:
  assumes ready: "seq_ready cfg eaxcs sid chk" and e: "distinct eaxcs" "\<forall>e \<in> set eaxcs. e < MAX_SUPPORTED_EAXC_ID_VALUE" "p < length eaxcs"
  shows "\<exists>chk'. seq_id_expected cfg (eaxcs ! p) (sid p) chk chk' \<and> seq_ready cfg eaxcs (sid(p := sid p + 1)) chk'"
proof (cases "du_ignore_ecpri_seq_id_field cfg")
  case True
  then show ?thesis by (simp add: seq_ready_def seq_id_expected_def)
next
  case False
  let ?e = "eaxcs ! p"
  let ?chk = "chk\<lparr>initialized := (initialized chk)[?e := True], counters := (counters chk)[?e := sid p]\<rparr>"
  have b: "?e < MAX_SUPPORTED_EAXC_ID_VALUE" using e(2,3) by simp
  have r: "seq_checker_wf chk" "\<forall>p < length eaxcs. initialized chk ! (eaxcs ! p) \<longrightarrow> sid p = counters chk ! (eaxcs ! p) + 1"
    using ready False by (simp_all add: seq_ready_def)
  have "initialized chk ! ?e \<Longrightarrow> (initialized chk)[?e := True] = initialized chk" by (metis list_update_id)
  then have "update_and_compare_seq_id ?e (sid p) chk = Some (0, ?chk)"
    using b r(2) e(3) by (cases chk) (auto simp: update_and_compare_seq_id_def)
  moreover have "seq_ready cfg eaxcs (sid(p := sid p + 1)) ?chk"
    using r b e(1,3) by (auto simp: seq_ready_def seq_checker_wf_def nth_list_update nth_eq_iff_index_eq)
  ultimately show ?thesis using False by (auto simp: seq_id_expected_def)
qed

lemma sequence_byte: "ucast (drop_bit 8 (push_bit 8 (ucast sid AND 0x00ff) OR push_bit 7 1 :: u16)) = (sid :: byte)"
proof -
  have m: "(0x00ff :: u16) = mask 8" by (simp add: mask_eq_exp_minus_1)
  show ?thesis unfolding m by (rule bit_word_eqI) (auto simp: bit_simps)
qed

text \<open>
  The two ends of an uplink: the receiver of the O-DU decodes what the transmitter of the O-RU builds and peeks
  with the same numerology.
\<close>

definition du_link_wf :: "'iq uplane_tx_config \<Rightarrow> 'iq du_receiver_config \<Rightarrow> bool" where
  "du_link_wf tx cfg \<longleftrightarrow>
     up_link_wf tx (du_vlan_params cfg) (fl_decoder (du_uplink cfg)) (fl_decode_header (du_uplink cfg)) \<and>
     eth_params_wf (du_vlan_params cfg) \<and> \<not> du_ignore_ecpri_payload_size_field cfg \<and>
     dec_nof_symbols (fl_decoder (du_uplink cfg)) = du_nof_symbols cfg \<and> dec_numerology (fl_decoder (du_uplink cfg)) = du_scs cfg"

text \<open>The O-DU has asked for the whole symbol on an eAxC.\<close>

definition symbol_commanded :: "slot_point \<Rightarrow> nat \<Rightarrow> nat \<Rightarrow> nat \<Rightarrow> uplink_cplane_context_repository \<Rightarrow> bool" where
  "symbol_commanded s k N eaxc repo \<longleftrightarrow>
     (let cp = ul_cplane_get s eaxc repo
      in ctx_filter_index cp = standard_channel_filter \<and> unat (ctx_start_symbol cp) \<le> k \<and>
         k < unat (ctx_start_symbol cp) + unat (ctx_nof_symbols cp) \<and> ctx_prb_start cp = 0 \<and> N \<le> unat (ctx_nof_prb cp))"

text \<open>One fragment: it is written, and it completes the symbol exactly when it was the last one missing.\<close>

lemma fragment_frame_step:
  fixes buffer :: bytes
  assumes link: "du_link_wf tx cfg" and e: "index_of (ug_eaxc ctx) (du_ul_eaxc cfg) = p" "ug_eaxc ctx \<in> set (du_ul_eaxc cfg)"
      "ug_eaxc ctx < MAX_SUPPORTED_EAXC_ID_VALUE"
    and pw: "uplane_params_wf (fl_decoder (du_uplink cfg)) (fragment_params tx ctx k r)"
    and sz: "get_prb_data_size (utx_compr_params tx) = Some sz"
    and iq: "(fst r + snd r) * NOF_SUBCARRIERS_PER_RB \<le> length iq"
    and room: "uplane_headers_size tx + snd r * sz \<le> length buffer" "length buffer \<le> MAX_ETH_FRAME_LENGTH"
    and seq: "seq_id_expected cfg (ug_eaxc ctx) sid (du_seq_checker st) chk"
    and cp: "symbol_commanded (wire_slot (ug_slot ctx)) k N (ug_eaxc ctx) (du_ul_cplane_repo st)"
    and P: "symbol_progress (wire_slot (ug_slot ctx)) k gctx g n N out D (du_grid_repo st) (du_grids st)"
    and r: "p < n" "fst r + snd r \<le> N" "0 < snd r" "N \<le> MAX_NOF_PRBS" "length (out p) = N * 12"
      "transported_by tx (fl_decompress (du_uplink cfg)) iq r = slice_prbs (out p) r"
  shows "\<exists>st' repo'. process_new_frame cfg (pad_frame (fragment_frame tx ctx k iq sid r)) st = Some st' \<and>
    du_ul_cplane_repo st' = du_ul_cplane_repo st \<and> du_seq_checker st' = chk \<and>
    symbol_progress (wire_slot (ug_slot ctx)) k gctx g n N out (insert (p, r) D) repo' (du_grids st') \<and>
    (let done = symbol_covered n N (insert (p, r) D);
         st1 = (if done then reorderer_on_new_uplink_symbol \<lparr>rxs_slot = gc_slot gctx, rxs_symbol = k, rxs_sector = gc_sector gctx\<rparr>
                               (Some g) True st else st)
     in du_grid_repo st' = (if done then rx_store_entry (wire_slot (ug_slot ctx)) k empty_context repo' else repo') \<and>
        du_events st' = du_events st1 \<and> du_notified_repo st' = du_notified_repo st1)"
proof -
  let ?s = "wire_slot (ug_slot ctx)" and ?e = "ug_eaxc ctx" and ?msg = "fragment_message tx ctx k iq r"
  let ?fl = "du_uplink cfg" and ?pc = "of_nat (ug_eaxc ctx) :: u16"
  let ?sq = "push_bit 8 (ucast sid AND 0x00ff) OR push_bit 7 1 :: u16"
  have l: "up_link_wf tx (du_vlan_params cfg) (fl_decoder ?fl) (fl_decode_header ?fl)" "eth_params_wf (du_vlan_params cfg)"
    "\<not> du_ignore_ecpri_payload_size_field cfg" "dec_nof_symbols (fl_decoder ?fl) = du_nof_symbols cfg"
    "dec_numerology (fl_decoder ?fl) = du_scs cfg" using link by (simp_all add: du_link_wf_def)
  note m = fragment_message_decoded(2,3) [OF l(1) e(3) pw sz iq room]
  obtain res sec where dec: "uplane_decode (fl_decoder ?fl) (fl_decode_header ?fl) (fl_decompress ?fl) fresh_up_results ?msg = Some (True, res)"
    and res: "up_slot (params res) = ?s" "up_symbol_id (params res) = k" "up_filter_index (params res) = standard_channel_filter"
      "sections res = [sec]" "sec_start_prb sec = fst r" "sec_nof_prbs sec = snd r" "is_every_rb_used sec" "use_current_symbol_number sec"
      "iq_samples sec = slice_prbs (out p) r"
    using fragment_message_decoded(1) [OF l(1) e(3) pw sz iq room, where decompress = "fl_decompress ?fl"] unfolding r(6) by blast
  have u: "unat ?pc = ?e" using e(3) by (simp add: unat_u16 MAX_SUPPORTED_EAXC_ID_VALUE_def)
  have "fragment_frame tx ctx k iq sid r = eth_frame (du_vlan_params cfg) (ecpri_packet (iq_data_parameters ?pc ?sq) ?msg)"
    using l(1) by (simp add: fragment_frame_def generate_ecpri_data_parameters_def up_link_wf_def)
  then have frame: "process_new_frame cfg (pad_frame (fragment_frame tx ctx k iq sid r)) st = process_uplane_packet cfg ?pc ?sq ?msg st"
    using process_new_frame_packet [OF l(2,3) _ m] u e(2) by simp
  have filter: "\<not> should_uplink_packet_be_filtered (unat ?pc) res (du_ul_cplane_repo st)"
    using cp r(2-4) by (auto simp: should_uplink_packet_be_filtered_def u res Let_def is_a_prach_message_iff symbol_commanded_def
        is_symbol_index_in_cplane_valid_def are_uplane_prb_fields_valid_def MAX_NOF_PRBS_def)
  have block: "is_block_message ?s k (slice_prbs (out p) r) r res" by (simp add: is_block_message_def res)
  obtain repo' grids' where w: "write_to_resource_grid (du_ul_eaxc cfg) (unat ?pc) res (du_grid_repo st) (du_grids st) = Some (True, repo', grids')"
    and P': "symbol_progress ?s k gctx g n N out (insert (p, r) D) repo' grids'"
    using symbol_progress_write [OF P e(1) _ r(1) block r(2,3,5)] index_of_less [OF e(2)] e(1) unfolding u by auto
  have peek: "peek_slot_symbol_point ?msg (du_nof_symbols cfg) (du_scs cfg) \<noteq> None" "peek_filter_index ?msg = Some standard_channel_filter"
    using accepted_message_peeks [OF dec] by (simp_all add: l(4,5) res(3))
  have seq': "seq_id_expected cfg (unat ?pc) (ucast (drop_bit 8 ?sq)) (du_seq_checker st) chk" using seq by (simp only: u sequence_byte)
  have st1: "\<exists>st'. process_new_frame cfg (pad_frame (fragment_frame tx ctx k iq sid r)) st = Some st' \<and> du_grid_repo st' = repo'' \<and>
      du_grids st' = grids' \<and> du_ul_cplane_repo st' = du_ul_cplane_repo st \<and> du_seq_checker st' = chk \<and>
      (let st1 = (case nt of None \<Rightarrow> st | Some (c, grid, is_valid) \<Rightarrow> reorderer_on_new_uplink_symbol c grid is_valid st)
       in du_events st' = du_events st1 \<and> du_notified_repo st' = du_notified_repo st1)"
    if "notify_received_symbol ?s k repo' = Some (nt, repo'')" for nt repo''
    unfolding frame by (rule uplink_packet_processed [OF seq' peek dec filter w]) (use that res(1,2) in simp)
  show ?thesis
  proof (cases "symbol_covered n N (insert (p, r) D)")
    case True
    from st1 [OF symbol_progress_notify [OF P', unfolded if_P [OF True]]] P' True show ?thesis by (auto simp: Let_def)
  next
    case False
    from st1 [OF symbol_progress_notify [OF P', unfolded if_not_P [OF False]]] P' False show ?thesis by (auto simp: Let_def)
  qed
qed

section \<open>All fragments of a symbol\<close>

lemma reorderer_depends:
  assumes "du_events st = du_events st'" "du_notified_repo st = du_notified_repo st'"
  shows "du_events (reorderer_on_new_uplink_symbol ctx grid v st) = du_events (reorderer_on_new_uplink_symbol ctx grid v st')"
    "du_notified_repo (reorderer_on_new_uplink_symbol ctx grid v st) = du_notified_repo (reorderer_on_new_uplink_symbol ctx grid v st')"
  using assms by (simp_all add: reorderer_on_new_uplink_symbol_def Let_def split: option.split prod.split)

lemma distinct_by_filters: "(\<And>p. distinct (filter (\<lambda>z. fst z = p) zs)) \<Longrightarrow> distinct zs"
proof (induction zs)
  case (Cons z zs)
  have "distinct (filter (\<lambda>z'. fst z' = p) zs)" for p using Cons.prems [of p] by (simp split: if_splits)
  then have "distinct zs" by (rule Cons.IH)
  moreover have "z \<notin> set zs" using Cons.prems [of "fst z"] by simp
  ultimately show ?case by simp
qed simp

text \<open>
  An order in which the fragments arrive: any interleaving of the ports that keeps the fragments of a port in the order in
  which they were sent.
\<close>

definition port_order :: "nat \<Rightarrow> (nat \<Rightarrow> nat) \<Rightarrow> (nat \<times> nat) list \<Rightarrow> bool" where
  "port_order n len zs \<longleftrightarrow>
     (\<forall>z \<in> set zs. fst z < n) \<and> (\<forall>p < n. filter (\<lambda>z. fst z = p) zs = map (Pair p) [0..<len p])"

lemma port_orderD:
  assumes "port_order n len zs"
  shows "distinct zs" "set zs = {(p, j). p < n \<and> j < len p}"
proof -
  have f: "filter (\<lambda>z. fst z = p) zs = (if p < n then map (Pair p) [0..<len p] else [])" for p
    using assms by (auto simp: port_order_def filter_empty_conv)
  show "distinct zs" by (rule distinct_by_filters) (simp add: f distinct_map inj_on_def)
  have "(p, j) \<in> set zs \<longleftrightarrow> p < n \<and> j < len p" for p j
  proof -
    have "(p, j) \<in> set zs \<longleftrightarrow> (p, j) \<in> set (filter (\<lambda>z. fst z = p) zs)" by simp
    then show ?thesis unfolding f by auto
  qed
  then show "set zs = {(p, j). p < n \<and> j < len p}" by auto
qed

lemma port_order_index:
  assumes "port_order n len (ds @ (p, j) # zs)"
  shows "j = length (filter (\<lambda>z. fst z = p) ds)"
proof -
  let ?f = "filter (\<lambda>z. fst z = p)"
  have p: "p < n" and f: "?f (ds @ (p, j) # zs) = map (Pair p) [0..<len p]" using assms by (auto simp: port_order_def)
  have "?f (ds @ (p, j) # zs) ! length (?f ds) = (p, j)" "length (?f ds) < length (?f (ds @ (p, j) # zs))"
    by (simp_all add: nth_append)
  then show ?thesis unfolding f by simp
qed

lemma index_of_nth: "distinct xs \<Longrightarrow> i < length xs \<Longrightarrow> index_of (xs ! i) xs = i"
proof (induction xs arbitrary: i)
  case (Cons x xs)
  then show ?case by (cases i) auto
qed simp

text \<open>
  The fragments \<open>zs\<close> that are still missing after \<open>ds\<close>: the last one of them, and none before, completes the symbol
  and has it reported.
\<close>

lemma fragments_run:
  fixes zs :: "(nat \<times> nat) list"
  assumes link: "du_link_wf tx cfg"
    and eaxc: "distinct (du_ul_eaxc cfg)" "\<forall>e \<in> set (du_ul_eaxc cfg). e < MAX_SUPPORTED_EAXC_ID_VALUE" "n \<le> length (du_ul_eaxc cfg)"
    and u: "\<forall>p < n. ug_eaxc (uctx p) = du_ul_eaxc cfg ! p \<and> ug_slot (uctx p) = sl"
    and sz: "get_prb_data_size (utx_compr_params tx) = Some sz" "L \<le> MAX_ETH_FRAME_LENGTH" "N \<le> MAX_NOF_PRBS"
    and frag: "\<forall>p < n. \<forall>r \<in> set (rs p). uplane_params_wf (fl_decoder (du_uplink cfg)) (fragment_params tx (uctx p) k r) \<and>
      (fst r + snd r) * NOF_SUBCARRIERS_PER_RB \<le> length (iq p) \<and> uplane_headers_size tx + snd r * sz \<le> L \<and>
      transported_by tx (fl_decompress (du_uplink cfg)) (iq p) r = slice_prbs (out p) r"
    and part: "\<forall>p < n. concat (map (\<lambda>(s, n). [s..<s + n]) (rs p)) = [0..<N]" "\<forall>p < n. \<forall>r \<in> set (rs p). 0 < snd r \<and> fst r + snd r \<le> N"
    and out: "\<forall>p < n. length (out p) = N * 12"
    and order: "port_order n (\<lambda>p. length (rs p)) (ds @ zs)" "zs \<noteq> []"
    and seq: "seq_ready cfg (du_ul_eaxc cfg) (\<lambda>p. sid p + of_nat (length (filter (\<lambda>z. fst z = p) ds))) (du_seq_checker st)"
    and cp: "\<forall>p < n. symbol_commanded (wire_slot sl) k N (du_ul_eaxc cfg ! p) (du_ul_cplane_repo st)"
    and P: "symbol_progress (wire_slot sl) k gctx g n N out ((\<lambda>(p, j). (p, rs p ! j)) ` set ds) (du_grid_repo st) (du_grids st)"
  shows "\<exists>st' repo'. process_new_frames cfg
      (map (\<lambda>(p, j). pad_frame (fragment_frame tx (uctx p) k (iq p) (sid p + of_nat j) (rs p ! j))) zs) st = Some st' \<and>
    (\<forall>p < n. grid_row (du_grids st' ! g) p k = out p) \<and> du_grid_repo st' = rx_store_entry (wire_slot sl) k empty_context repo' \<and>
    rx_repo_wf (du_grids st') repo' \<and>
    (let st1 = reorderer_on_new_uplink_symbol \<lparr>rxs_slot = gc_slot gctx, rxs_symbol = k, rxs_sector = gc_sector gctx\<rparr> (Some g) True st
     in du_events st' = du_events st1 \<and> du_notified_repo st' = du_notified_repo st1)"
  using order seq cp P
proof (induction zs arbitrary: ds st)
  case (Cons z zs)
  obtain p j where z: "z = (p, j)" by (cases z)
  let ?B = "\<lambda>(p, j). (p, rs p ! j)" and ?e = "du_ul_eaxc cfg ! p" and ?r = "rs p ! j"
  note od = port_orderD [OF Cons.prems(1)]
  have p: "p < n" "j < length (rs p)" using od(2) unfolding z by auto
  have j: "j = length (filter (\<lambda>z. fst z = p) ds)" using port_order_index Cons.prems(1) unfolding z by blast
  have r: "?r \<in> set (rs p)" using p(2) by simp
  have pe: "p < length (du_ul_eaxc cfg)" "?e \<in> set (du_ul_eaxc cfg)" "?e < MAX_SUPPORTED_EAXC_ID_VALUE" using eaxc(2,3) p(1) by auto
  define sid' where "sid' = (\<lambda>p. sid p + of_nat (length (filter (\<lambda>z. fst z = p) ds)) :: byte)"
  obtain chk where chk: "seq_id_expected cfg ?e (sid' p) (du_seq_checker st) chk" "seq_ready cfg (du_ul_eaxc cfg) (sid'(p := sid' p + 1)) chk"
    using seq_ready_next [OF Cons.prems(3) eaxc(1,2) pe(1)] unfolding sid'_def by blast
  have sidj: "sid' p = sid p + of_nat j" by (simp add: sid'_def j)
  have sid1: "sid'(p := sid' p + 1) = (\<lambda>q. sid q + of_nat (length (filter (\<lambda>z. fst z = q) (ds @ [z]))))"
    by (auto simp: sid'_def z)
  have D: "insert (p, ?r) (?B ` set ds) = ?B ` set (ds @ [z])" by (simp add: z)
  let ?F = "\<lambda>(p, j). pad_frame (fragment_frame tx (uctx p) k (iq p) (sid p + of_nat j) (rs p ! j))"
  let ?ctx = "\<lparr>rxs_slot = gc_slot gctx, rxs_symbol = k, rxs_sector = gc_sector gctx\<rparr>"
  obtain st1 repo1 where st1: "process_new_frame cfg (?F z) st = Some st1" "du_ul_cplane_repo st1 = du_ul_cplane_repo st"
    "du_seq_checker st1 = chk" and P1: "symbol_progress (wire_slot sl) k gctx g n N out (?B ` set (ds @ [z])) repo1 (du_grids st1)"
    and fin: "let done = symbol_covered n N (?B ` set (ds @ [z]));
         st2 = (if done then reorderer_on_new_uplink_symbol ?ctx (Some g) True st else st)
     in du_grid_repo st1 = (if done then rx_store_entry (wire_slot sl) k empty_context repo1 else repo1) \<and>
        du_events st1 = du_events st2 \<and> du_notified_repo st1 = du_notified_repo st2"
    using fragment_frame_step [OF link, of "uctx p" p k ?r sz "iq p" "replicate L 0" "sid' p" st chk N gctx g n out "?B ` set ds"]
      index_of_nth [OF eaxc(1) pe(1)] pe u p(1) frag r sz part(2) out chk(1) Cons.prems(4,5)
    unfolding D sidj by (auto simp: z)
  have zs: "\<forall>(p, j) \<in> set (ds @ [z]). p < n \<and> j < length (rs p)" using od(2) by auto
  have cov: "symbol_covered n N (?B ` set (ds @ [z])) \<longleftrightarrow> (\<forall>p < n. \<forall>j < length (rs p). (p, j) \<in> set (ds @ [z]))"
    by (rule symbol_covered_iff [OF part zs])
  show ?case
  proof (cases "zs = []")
    case True
    then have "set (ds @ [z]) = {(p, j). p < n \<and> j < length (rs p)}" using od(2) by simp
    then have c: "symbol_covered n N (?B ` set (ds @ [z]))" unfolding cov by simp
    have "\<forall>p < n. grid_row (du_grids st1 ! g) p k = out p" using symbol_progress_rows [OF P1 c] out by blast
    moreover have "rx_repo_wf (du_grids st1) repo1" using P1 by (simp add: symbol_progress_def)
    ultimately show ?thesis using st1(1) fin c True by (simp add: Let_def) blast
  next
    case False
    then obtain z' zs' where z': "zs = z' # zs'" by (cases zs) auto
    have "z' \<notin> set (ds @ [z])" using od(1) z' by auto
    moreover have "z' \<in> {(p, j). p < n \<and> j < length (rs p)}" unfolding od(2) [symmetric] by (simp add: z')
    ultimately have nc: "\<not> symbol_covered n N (?B ` set (ds @ [z]))" unfolding cov by (cases z') auto
    have same: "du_grid_repo st1 = repo1" "du_events st1 = du_events st" "du_notified_repo st1 = du_notified_repo st"
      using fin nc by (simp_all add: Let_def)
    have "\<exists>st' repo'. process_new_frames cfg (map ?F zs) st1 = Some st' \<and>
      (\<forall>p < n. grid_row (du_grids st' ! g) p k = out p) \<and> du_grid_repo st' = rx_store_entry (wire_slot sl) k empty_context repo' \<and>
      rx_repo_wf (du_grids st') repo' \<and>
      (let st2 = reorderer_on_new_uplink_symbol ?ctx (Some g) True st1
       in du_events st' = du_events st2 \<and> du_notified_repo st' = du_notified_repo st2)"
      by (rule Cons.IH [of "ds @ [z]"]) (use Cons.prems chk(2) st1(2,3) P1 False same(1) sid1 in simp_all)
    then show ?thesis using st1(1) reorderer_depends [OF same(2,3)] by (simp add: Let_def)
  qed
qed simp

lemma symbol_progress_start:
  assumes wf: "rx_repo_wf grids repo" "store_wf grids" and c: "rx_entry s k repo = Some c" "rgc_grid c = Some g"
    and g: "rg_nof_subc (grids ! g) = N * 12" "length (rg_ports (grids ! g)) = n"
    and none: "\<forall>bits \<in> set (rgc_re_written c). True \<notin> set bits"
  shows "symbol_progress s k (rgc_context c) g n N out {} repo grids"
proof -
  note k = rx_entry_bound [OF c(1)]
  have cw: "length (rgc_re_written c) = n" "\<forall>m \<in> set (rgc_re_written c). length m = N * 12"
    using rx_repo_wfD(2) [OF wf(1) k, of s] c g by (auto simp: context_wf_def)
  have "\<not> rgc_re_written c ! p ! i" if "p < n" "i < N * 12" for p i
  proof -
    have "rgc_re_written c ! p \<in> set (rgc_re_written c)" using that cw(1) by simp
    then show ?thesis using none cw(2) that(2) by (metis nth_mem)
  qed
  then show ?thesis using assms by (auto simp: symbol_progress_def)
qed

text \<open>The fragments of the ports, as the blocks of partitions of the symbol.\<close>

lemma port_fragments:
  fixes tx :: "'iq uplane_tx_config" and cfg :: "'iq du_receiver_config" and iq :: "nat \<Rightarrow> 'iq list"
  assumes link: "du_link_wf tx cfg" "du_config_wf cfg" and N: "utx_ru_nof_prbs tx = N" and e: "n \<le> length (du_ul_eaxc cfg)"
    and sl: "sp_wf sl" "numerology_val sl = du_scs cfg" "k < du_nof_symbols cfg"
    and f: "fragment_calculator_init 0 N (utx_compr_params tx) = Some f"
    and L: "uplane_headers_size tx \<le> L" "L \<le> MAX_ETH_FRAME_LENGTH"
    and fit: "(L - uplane_headers_size tx) div fc_prb_size f \<le> 255 \<or> N \<le> (L - uplane_headers_size tx) div fc_prb_size f"
    and u: "\<forall>p < n. ug_eaxc (uctx p) = du_ul_eaxc cfg ! p \<and> ug_slot (uctx p) = sl \<and> ug_section_id (uctx p) < 4096"
    and sent: "\<forall>p < n. length (iq p) = N * NOF_SUBCARRIERS_PER_RB \<and> (\<forall>b \<in> set (bufs p). length b = L) \<and>
      length (gen p) = MAX_SUPPORTED_EAXC_ID_VALUE \<and>
      (\<exists>gen'. enqueue_fragments tx (uctx p) k (iq p) f (bufs p) (gen p) = Some (frames p, gen', True))"
  shows "\<exists>rs. \<forall>p < n. concat (map (\<lambda>(s, n). [s..<s + n]) (rs p)) = [0..<N] \<and>
    frames p = map (\<lambda>j. fragment_frame tx (uctx p) k (iq p) (gen p ! (du_ul_eaxc cfg ! p) + of_nat j) (rs p ! j)) [0..<length (rs p)] \<and>
    (\<forall>r \<in> set (rs p). 0 < snd r \<and> fst r + snd r \<le> N \<and> uplane_params_wf (fl_decoder (du_uplink cfg)) (fragment_params tx (uctx p) k r) \<and>
       (fst r + snd r) * NOF_SUBCARRIERS_PER_RB \<le> length (iq p) \<and> uplane_headers_size tx + snd r * fc_prb_size f \<le> L)"
proof (rule iffD1 [OF choice_iff' [of "\<lambda>p. p < n"]], intro allI impI)
  fix p assume p: "p < n"
  let ?fl = "du_uplink cfg"
  have tx: "utx_wf tx" "utx_direction tx = expected_direction (fl_decoder ?fl)" "N = ru_nof_prbs (fl_decoder ?fl)"
    "dec_nof_symbols (fl_decoder ?fl) = du_nof_symbols cfg" "dec_numerology (fl_decoder ?fl) = du_scs cfg"
    using link(1) N by (auto simp: du_link_wf_def up_link_wf_def)
  have fl: "N \<le> MAX_NOF_PRBS" "du_nof_symbols cfg \<le> MAX_NSYMB_PER_SLOT" using link(2) tx by (auto simp: du_config_wf_def flow_wf_def)
  obtain gen' where s: "length (iq p) = N * NOF_SUBCARRIERS_PER_RB" "\<forall>b \<in> set (bufs p). length b = L"
    "length (gen p) = MAX_SUPPORTED_EAXC_ID_VALUE" "enqueue_fragments tx (uctx p) k (iq p) f (bufs p) (gen p) = Some (frames p, gen', True)"
    and up: "ug_eaxc (uctx p) = du_ul_eaxc cfg ! p" "ug_slot (uctx p) = sl" "ug_section_id (uctx p) < 4096" using sent u p by blast
  have em: "ug_eaxc (uctx p) < MAX_SUPPORTED_EAXC_ID_VALUE" using link(2) e p up(1) by (simp add: du_config_wf_def)
  obtain rs where rs: "concat (map (\<lambda>(s, n). [s..<s + n]) rs) = [0..<N]"
    "frames p = map (\<lambda>j. fragment_frame tx (uctx p) k (iq p) (gen p ! (du_ul_eaxc cfg ! p) + of_nat j) (rs ! j)) [0..<length rs]"
    "\<forall>r \<in> set rs. 0 < snd r \<and> fst r + snd r \<le> N \<and> (snd r \<le> 255 \<or> r = (0, N)) \<and> uplane_headers_size tx + snd r * fc_prb_size f \<le> L"
    using symbol_fragments [OF tx(1) em s(3), unfolded N, OF f s(1,2) L fit s(4)] unfolding up(1) by blast
  moreover have "uplane_params_wf (fl_decoder ?fl) (fragment_params tx (uctx p) k r)" if "r \<in> set rs" for r
    using rs(3) that sl tx fl up(2,3) by (auto simp: uplane_params_wf_def fragment_params_def generate_ofh_user_parameters_def
        MAX_NOF_PRBS_def MAX_NSYMB_PER_SLOT_def)
  moreover have "(fst r + snd r) * NOF_SUBCARRIERS_PER_RB \<le> length (iq p)" if "r \<in> set rs" for r
    using rs(3) that by (simp only: s(1)) (intro mult_le_mono1, blast)
  ultimately show "\<exists>rs. concat (map (\<lambda>(s, n). [s..<s + n]) rs) = [0..<N] \<and>
    frames p = map (\<lambda>j. fragment_frame tx (uctx p) k (iq p) (gen p ! (du_ul_eaxc cfg ! p) + of_nat j) (rs ! j)) [0..<length rs] \<and>
    (\<forall>r \<in> set rs. 0 < snd r \<and> fst r + snd r \<le> N \<and> uplane_params_wf (fl_decoder (du_uplink cfg)) (fragment_params tx (uctx p) k r) \<and>
       (fst r + snd r) * NOF_SUBCARRIERS_PER_RB \<le> length (iq p) \<and> uplane_headers_size tx + snd r * fc_prb_size f \<le> L)" by blast
qed

text \<open>
  The frames that the O-RU sends for a symbol on all its ports, received in an order that keeps the frames of a port in
  sequence.
\<close>

lemma symbol_frames_received:
  fixes tx :: "'iq uplane_tx_config" and cfg :: "'iq du_receiver_config" and iq :: "nat \<Rightarrow> 'iq list"
  defines "h \<equiv> \<lambda>p. transported_by tx (fl_decompress (du_uplink cfg)) (iq p)"
  assumes link: "du_link_wf tx cfg" "du_config_wf cfg" "du_wf cfg st" and N: "utx_ru_nof_prbs tx = N" "0 < N"
    and eaxc: "distinct (du_ul_eaxc cfg)" "n \<le> length (du_ul_eaxc cfg)" "0 < n"
    and c: "rx_get (wire_slot sl) k (du_grid_repo st) = Some c" "rgc_grid c = Some g" "\<forall>bits \<in> set (rgc_re_written c). True \<notin> set bits"
      "rg_nof_subc (du_grids st ! g) = N * 12" "length (rg_ports (du_grids st ! g)) = n"
    and sl: "sp_wf sl" "numerology_val sl = du_scs cfg" "k < du_nof_symbols cfg"
    and f: "fragment_calculator_init 0 N (utx_compr_params tx) = Some f"
    and L: "uplane_headers_size tx \<le> L" "L \<le> MAX_ETH_FRAME_LENGTH"
    and fit: "(L - uplane_headers_size tx) div fc_prb_size f \<le> 255 \<or> N \<le> (L - uplane_headers_size tx) div fc_prb_size f"
    and u: "\<forall>p < n. ug_eaxc (uctx p) = du_ul_eaxc cfg ! p \<and> ug_slot (uctx p) = sl \<and> ug_section_id (uctx p) < 4096"
    and sent: "\<forall>p < n. length (iq p) = N * NOF_SUBCARRIERS_PER_RB \<and> (\<forall>b \<in> set (bufs p). length b = L) \<and>
      length (gen p) = MAX_SUPPORTED_EAXC_ID_VALUE \<and>
      (\<exists>gen'. enqueue_fragments tx (uctx p) k (iq p) f (bufs p) (gen p) = Some (frames p, gen', True))"
    and order: "port_order n (\<lambda>p. length (frames p)) zs"
    and seq: "seq_ready cfg (du_ul_eaxc cfg) (\<lambda>p. gen p ! (du_ul_eaxc cfg ! p)) (du_seq_checker st)"
    and cp: "\<forall>p < n. symbol_commanded (wire_slot sl) k N (du_ul_eaxc cfg ! p) (du_ul_cplane_repo st)"
  shows "\<exists>st' rs. process_new_frames cfg (map (\<lambda>(p, j). pad_frame (frames p ! j)) zs) st = Some st' \<and>
    (\<forall>p < n. concat (map (\<lambda>(s, n). [s..<s + n]) (rs p)) = [0..<N] \<and> grid_row (du_grids st' ! g) p k = concat (map (h p) (rs p))) \<and>
    rx_get (wire_slot sl) k (du_grid_repo st') = Some empty_context \<and>
    (let st1 = reorderer_on_new_uplink_symbol
                 \<lparr>rxs_slot = gc_slot (rgc_context c), rxs_symbol = k, rxs_sector = gc_sector (rgc_context c)\<rparr> (Some g) True st
     in du_events st' = du_events st1 \<and> du_notified_repo st' = du_notified_repo st1)"
proof -
  let ?sid = "\<lambda>p. gen p ! (du_ul_eaxc cfg ! p)"
  obtain rs where rs: "\<And>p. p < n \<Longrightarrow> concat (map (\<lambda>(s, n). [s..<s + n]) (rs p)) = [0..<N]"
    "\<And>p. p < n \<Longrightarrow> frames p = map (\<lambda>j. fragment_frame tx (uctx p) k (iq p) (?sid p + of_nat j) (rs p ! j)) [0..<length (rs p)]"
    "\<And>p r. p < n \<Longrightarrow> r \<in> set (rs p) \<Longrightarrow> 0 < snd r \<and> fst r + snd r \<le> N \<and>
       uplane_params_wf (fl_decoder (du_uplink cfg)) (fragment_params tx (uctx p) k r) \<and>
       (fst r + snd r) * NOF_SUBCARRIERS_PER_RB \<le> length (iq p) \<and> uplane_headers_size tx + snd r * fc_prb_size f \<le> L"
    using port_fragments [OF link(1,2) N(1) eaxc(2) sl f L fit u sent] by blast
  have fl: "\<And>n bs c. length (fl_decompress (du_uplink cfg) n bs c) = n" "N \<le> MAX_NOF_PRBS"
    "\<forall>e \<in> set (du_ul_eaxc cfg). e < MAX_SUPPORTED_EAXC_ID_VALUE"
    using link(1,2) N(1) by (auto simp: du_config_wf_def flow_wf_def du_link_wf_def up_link_wf_def)
  define out where "out = (\<lambda>p. concat (map (h p) (rs p)))"
  have hl: "\<forall>r \<in> set (rs p). length (h p r) = snd r * 12" for p by (simp add: h_def transported_by_def fl(1))
  have out: "length (out p) = N * 12" "\<And>r. r \<in> set (rs p) \<Longrightarrow> h p r = slice_prbs (out p) r" if "p < n" for p
    using partition_slices [OF rs(1) [OF that] _ hl] rs(3) [OF that] by (simp_all add: out_def slice_prbs_def)
  have e: "rx_entry (wire_slot sl) k (du_grid_repo st) = Some c" using c(1) by (cases c) (auto simp: rx_get_def context_copy_def)
  then have P: "symbol_progress (wire_slot sl) k (rgc_context c) g n N out ((\<lambda>(p, j). (p, rs p ! j)) ` set []) (du_grid_repo st) (du_grids st)"
    using symbol_progress_start [of "du_grids st" "du_grid_repo st" "wire_slot sl" k c g N n out] link(3) c(2-5) by (simp add: du_wf_def)
  have len: "length (frames p) = length (rs p)" if "p < n" for p by (simp add: rs(2) [OF that])
  then have ord: "port_order n (\<lambda>p. length (rs p)) ([] @ zs)" using order by (simp add: port_order_def)
  note zs = port_orderD(2) [OF ord, unfolded append_Nil]
  have ne: "zs \<noteq> []"
  proof -
    have "rs 0 \<noteq> []" using arg_cong [OF rs(1) [OF eaxc(3)], of length] N(2) by auto
    then have "(0, 0) \<in> set zs" unfolding zs using eaxc(3) by simp
    then show ?thesis by auto
  qed
  have frames: "map (\<lambda>(p, j). pad_frame (frames p ! j)) zs =
      map (\<lambda>(p, j). pad_frame (fragment_frame tx (uctx p) k (iq p) (?sid p + of_nat j) (rs p ! j))) zs"
    by (rule map_cong [OF refl]) (auto simp: zs rs(2))
  have sz: "get_prb_data_size (utx_compr_params tx) = Some (fc_prb_size f)" using f by (auto simp: fragment_calculator_init_def)
  have seq0: "seq_ready cfg (du_ul_eaxc cfg) (\<lambda>p. ?sid p + of_nat (length (filter (\<lambda>z. fst z = p) []))) (du_seq_checker st)"
    using seq by simp
  have pre: "\<forall>p < n. ug_eaxc (uctx p) = du_ul_eaxc cfg ! p \<and> ug_slot (uctx p) = sl"
    "\<forall>p < n. \<forall>r \<in> set (rs p). uplane_params_wf (fl_decoder (du_uplink cfg)) (fragment_params tx (uctx p) k r) \<and>
      (fst r + snd r) * NOF_SUBCARRIERS_PER_RB \<le> length (iq p) \<and> uplane_headers_size tx + snd r * fc_prb_size f \<le> L \<and>
      transported_by tx (fl_decompress (du_uplink cfg)) (iq p) r = slice_prbs (out p) r"
    "\<forall>p < n. concat (map (\<lambda>(s, n). [s..<s + n]) (rs p)) = [0..<N]" "\<forall>p < n. \<forall>r \<in> set (rs p). 0 < snd r \<and> fst r + snd r \<le> N"
    "\<forall>p < n. length (out p) = N * 12"
    using u rs(1,3) out by (auto simp: h_def)
  from fragments_run [OF link(1) eaxc(1) fl(3) eaxc(2) pre(1) sz L(2) fl(2) pre(2-5) ord ne seq0 cp P]
  obtain st' repo' where run: "process_new_frames cfg (map (\<lambda>(p, j). pad_frame (frames p ! j)) zs) st = Some st'"
    "\<forall>p < n. grid_row (du_grids st' ! g) p k = out p" "du_grid_repo st' = rx_store_entry (wire_slot sl) k empty_context repo'"
    "rx_repo_wf (du_grids st') repo'"
    "let st1 = reorderer_on_new_uplink_symbol
                 \<lparr>rxs_slot = gc_slot (rgc_context c), rxs_symbol = k, rxs_sector = gc_sector (rgc_context c)\<rparr> (Some g) True st
     in du_events st' = du_events st1 \<and> du_notified_repo st' = du_notified_repo st1"
    unfolding frames by blast
  have "rx_get (wire_slot sl) k (du_grid_repo st') = Some empty_context"
    using rx_entry_store_same [OF rx_repo_wfD(1) [OF run(4) rx_entry_bound [OF e]] rx_entry_bound [OF e]]
    by (simp add: run(3) rx_get_def context_copy_def empty_context_def)
  then show ?thesis using run rs(1) unfolding out_def by blast
qed

end
