(* ===== verification/Tdd_Config.thy ===== *)
theory Tdd_Config
  imports Uplane_Transmitter Repositories
begin

text \<open>
  The time division duplex configuration (include/ocudu/ran/tdd/tdd_ul_dl_config.h and lib/ran/tdd_ul_dl_config.cpp):
  which symbols of a slot are downlink and which are uplink.  The O-DU asks for and sends exactly these symbols.  The
  fields are 32-bit unsigned integers, as in the code; None is a division by zero, an access to an absent pattern or a
  violated assertion of the symbol range.
\<close>

section \<open>Configuration\<close>

type_synonym u32 = "32 word"

record tdd_ul_dl_pattern =
  dl_ul_tx_period_nof_slots :: u32
  nof_dl_slots :: u32
  nof_dl_symbols :: u32
  nof_ul_slots :: u32
  nof_ul_symbols :: u32

record tdd_ul_dl_config_common =
  ref_scs :: subcarrier_spacing
  pattern1 :: tdd_ul_dl_pattern
  pattern2 :: "tdd_ul_dl_pattern option"

definition nof_slots_per_tdd_period :: "tdd_ul_dl_config_common \<Rightarrow> u32" where
  "nof_slots_per_tdd_period cfg =
     dl_ul_tx_period_nof_slots (pattern1 cfg) + (case pattern2 cfg of None \<Rightarrow> 0 | Some p \<Rightarrow> dl_ul_tx_period_nof_slots p)"

definition nof_full_dl_slots_per_tdd_period :: "tdd_ul_dl_config_common \<Rightarrow> u32" where
  "nof_full_dl_slots_per_tdd_period cfg = nof_dl_slots (pattern1 cfg) + (case pattern2 cfg of None \<Rightarrow> 0 | Some p \<Rightarrow> nof_dl_slots p)"

definition nof_dl_slots_per_tdd_period :: "tdd_ul_dl_config_common \<Rightarrow> u32" where
  "nof_dl_slots_per_tdd_period cfg =
     (let additional = (\<lambda>p. if nof_dl_symbols p > 0 then 1 else 0)
      in nof_dl_slots (pattern1 cfg) + additional (pattern1 cfg) +
         (case pattern2 cfg of None \<Rightarrow> 0 | Some p \<Rightarrow> nof_dl_slots p + additional p))"

definition nof_full_ul_slots_per_tdd_period :: "tdd_ul_dl_config_common \<Rightarrow> u32" where
  "nof_full_ul_slots_per_tdd_period cfg = nof_ul_slots (pattern1 cfg) + (case pattern2 cfg of None \<Rightarrow> 0 | Some p \<Rightarrow> nof_ul_slots p)"

section \<open>Active symbols\<close>

definition pattern_dl_symbols :: "bool \<Rightarrow> tdd_ul_dl_pattern \<Rightarrow> u32 \<Rightarrow> u32" where
  "pattern_dl_symbols extended_cp pattern slot_idx_period =
     (if slot_idx_period < nof_dl_slots pattern then of_nat (get_nsymb_per_slot extended_cp)
      else if slot_idx_period = nof_dl_slots pattern then nof_dl_symbols pattern
      else 0)"

definition pattern_ul_symbols :: "bool \<Rightarrow> tdd_ul_dl_pattern \<Rightarrow> u32 \<Rightarrow> u32" where
  "pattern_ul_symbols extended_cp pattern slot_idx_period =
     (let ul_pattern_start = dl_ul_tx_period_nof_slots pattern - nof_ul_slots pattern
      in if slot_idx_period \<ge> ul_pattern_start then of_nat (get_nsymb_per_slot extended_cp)
         else if slot_idx_period = ul_pattern_start - 1 then nof_ul_symbols pattern
         else 0)"

definition nof_active_symbols :: "tdd_ul_dl_config_common \<Rightarrow> u32 \<Rightarrow> bool \<Rightarrow> bool \<Rightarrow> u32 option" where
  "nof_active_symbols cfg slot_idx extended_cp is_dl = do {
     let period_slots = nof_slots_per_tdd_period cfg;
     if period_slots = 0 then None
     else do {
       let slot_idx_period = slot_idx mod period_slots;
       (pattern, slot_idx_period) \<leftarrow>
         (if slot_idx_period \<ge> dl_ul_tx_period_nof_slots (pattern1 cfg)
          then map_option (\<lambda>p. (p, slot_idx_period - dl_ul_tx_period_nof_slots (pattern1 cfg))) (pattern2 cfg)
          else Some (pattern1 cfg, slot_idx_period));
       Some (if is_dl then pattern_dl_symbols extended_cp pattern slot_idx_period
             else pattern_ul_symbols extended_cp pattern slot_idx_period)
     }
   }"

definition has_active_tdd_dl_symbols :: "tdd_ul_dl_config_common \<Rightarrow> u32 \<Rightarrow> bool option" where
  "has_active_tdd_dl_symbols cfg slot_idx = map_option (\<lambda>n. n > 0) (nof_active_symbols cfg slot_idx False True)"

definition has_active_tdd_ul_symbols :: "tdd_ul_dl_config_common \<Rightarrow> u32 \<Rightarrow> bool option" where
  "has_active_tdd_ul_symbols cfg slot_idx = map_option (\<lambda>n. n > 0) (nof_active_symbols cfg slot_idx False False)"

definition is_tdd_full_dl_slot :: "tdd_ul_dl_config_common \<Rightarrow> u32 \<Rightarrow> bool option" where
  "is_tdd_full_dl_slot cfg slot_idx =
     map_option (\<lambda>n. n = of_nat NOF_OFDM_SYM_PER_SLOT_NORMAL_CP) (nof_active_symbols cfg slot_idx False True)"

definition is_tdd_full_ul_slot :: "tdd_ul_dl_config_common \<Rightarrow> u32 \<Rightarrow> bool option" where
  "is_tdd_full_ul_slot cfg slot_idx =
     map_option (\<lambda>n. n = of_nat NOF_OFDM_SYM_PER_SLOT_NORMAL_CP) (nof_active_symbols cfg slot_idx False False)"

definition is_tdd_partial_ul_slot :: "tdd_ul_dl_config_common \<Rightarrow> u32 \<Rightarrow> bool option" where
  "is_tdd_partial_ul_slot cfg slot_idx =
     map_option (\<lambda>n. n \<noteq> 0 \<and> n \<noteq> of_nat NOF_OFDM_SYM_PER_SLOT_NORMAL_CP) (nof_active_symbols cfg slot_idx False False)"

text \<open>The range of symbols, an interval of bytes that is asserted to be ordered.\<close>

definition ofdm_symbol_range :: "u32 \<Rightarrow> u32 \<Rightarrow> (byte \<times> byte) option" where
  "ofdm_symbol_range start stop = (if (ucast start :: byte) \<le> ucast stop then Some (ucast start, ucast stop) else None)"

definition get_active_tdd_dl_symbols :: "tdd_ul_dl_config_common \<Rightarrow> u32 \<Rightarrow> bool \<Rightarrow> (byte \<times> byte) option" where
  "get_active_tdd_dl_symbols cfg slot_idx extended_cp = do {
     n \<leftarrow> nof_active_symbols cfg slot_idx extended_cp True;
     ofdm_symbol_range 0 n
   }"

definition get_active_tdd_ul_symbols :: "tdd_ul_dl_config_common \<Rightarrow> u32 \<Rightarrow> bool \<Rightarrow> (byte \<times> byte) option" where
  "get_active_tdd_ul_symbols cfg slot_idx extended_cp = do {
     n \<leftarrow> nof_active_symbols cfg slot_idx extended_cp False;
     let symbols_per_slot = of_nat (get_nsymb_per_slot extended_cp);
     if n > 0 then ofdm_symbol_range (symbols_per_slot - n) symbols_per_slot else Some (0, 0)
   }"

section \<open>Searches\<close>

text \<open>
  The loop of the searches: it compares the index with the end of the period for equality and the index wraps, so that it
  always ends.
\<close>

function find_next_slot :: "(u32 \<Rightarrow> bool option) \<Rightarrow> u32 \<Rightarrow> u32 \<Rightarrow> u32 option option" where
  "find_next_slot active period i =
     (if i = period then Some None
      else case active i of
             None \<Rightarrow> None
           | Some True \<Rightarrow> Some (Some i)
           | Some False \<Rightarrow> find_next_slot active period (i + 1))"
  by pat_completeness auto
termination
proof (relation "measure (\<lambda>(active, period, i). unat (period - i))")
  fix active period i assume "i \<noteq> (period :: u32)"
  then have "period - i \<noteq> 0" by simp
  then have "unat (period - i - 1) < unat (period - i)" by (rule measure_unat)
  then show "((active, period, i + 1), active, period, i) \<in> measure (\<lambda>(active, period, i). unat (period - i))"
    by (simp add: diff_diff_eq)
qed simp

declare find_next_slot.simps [simp del]

definition find_next_tdd_dl_slot :: "tdd_ul_dl_config_common \<Rightarrow> u32 \<Rightarrow> u32 option option" where
  "find_next_tdd_dl_slot cfg start = find_next_slot (has_active_tdd_dl_symbols cfg) (nof_slots_per_tdd_period cfg) start"

definition range_is_full :: "(byte \<times> byte) option \<Rightarrow> bool option" where
  "range_is_full r = map_option (\<lambda>(start, stop). stop - start = of_nat NOF_OFDM_SYM_PER_SLOT_NORMAL_CP) r"

definition find_next_tdd_full_dl_slot :: "tdd_ul_dl_config_common \<Rightarrow> u32 \<Rightarrow> u32 option option" where
  "find_next_tdd_full_dl_slot cfg start =
     find_next_slot (\<lambda>i. range_is_full (get_active_tdd_dl_symbols cfg i False)) (nof_slots_per_tdd_period cfg) start"

definition find_next_tdd_ul_slot :: "tdd_ul_dl_config_common \<Rightarrow> u32 \<Rightarrow> u32 option option" where
  "find_next_tdd_ul_slot cfg start = find_next_slot (has_active_tdd_ul_symbols cfg) (nof_slots_per_tdd_period cfg) start"

definition find_next_tdd_full_ul_slot :: "tdd_ul_dl_config_common \<Rightarrow> u32 \<Rightarrow> u32 option option" where
  "find_next_tdd_full_ul_slot cfg start =
     find_next_slot (\<lambda>i. range_is_full (get_active_tdd_ul_symbols cfg i False)) (nof_slots_per_tdd_period cfg) start"

section \<open>Well-formed configurations\<close>

text \<open>
  What the network signals: the full downlink slots, the full uplink slots and between them slots with
  downlink symbols at the beginning of the first one and uplink symbols at the end of the last one.
\<close>

definition pattern_wf :: "nat \<Rightarrow> tdd_ul_dl_pattern \<Rightarrow> bool" where
  "pattern_wf nsymb p \<longleftrightarrow>
     (let period = unat (dl_ul_tx_period_nof_slots p); full = unat (nof_dl_slots p) + unat (nof_ul_slots p)
      in 0 < period \<and> full \<le> period \<and> unat (nof_dl_symbols p) < nsymb \<and> unat (nof_ul_symbols p) < nsymb \<and>
         (full = period \<longrightarrow> nof_dl_symbols p = 0 \<and> nof_ul_symbols p = 0) \<and>
         (full + 1 = period \<longrightarrow> unat (nof_dl_symbols p) + unat (nof_ul_symbols p) \<le> nsymb))"

definition tdd_wf :: "nat \<Rightarrow> tdd_ul_dl_config_common \<Rightarrow> bool" where
  "tdd_wf nsymb cfg \<longleftrightarrow> pattern_wf nsymb (pattern1 cfg) \<and>
     (case pattern2 cfg of
        None \<Rightarrow> True
      | Some p \<Rightarrow> pattern_wf nsymb p \<and> unat (dl_ul_tx_period_nof_slots (pattern1 cfg)) + unat (dl_ul_tx_period_nof_slots p) < 2 ^ 32)"

text \<open>One pattern, on natural numbers.\<close>

lemma pattern_symbols:
  assumes wf: "pattern_wf (get_nsymb_per_slot e) p" and i: "i < dl_ul_tx_period_nof_slots p"
  shows "unat (pattern_dl_symbols e p i) =
      (if unat i < unat (nof_dl_slots p) then get_nsymb_per_slot e else if unat i = unat (nof_dl_slots p) then unat (nof_dl_symbols p) else 0)"
    and "unat (pattern_ul_symbols e p i) =
      (if unat (dl_ul_tx_period_nof_slots p) \<le> unat i + unat (nof_ul_slots p) then get_nsymb_per_slot e
       else if unat (dl_ul_tx_period_nof_slots p) = unat i + unat (nof_ul_slots p) + 1 then unat (nof_ul_symbols p) else 0)"
proof -
  let ?P = "dl_ul_tx_period_nof_slots p" and ?U = "nof_ul_slots p"
  have n: "unat (of_nat (get_nsymb_per_slot e) :: u32) = get_nsymb_per_slot e" by (simp add: get_nsymb_per_slot_def)
  show "unat (pattern_dl_symbols e p i) =
      (if unat i < unat (nof_dl_slots p) then get_nsymb_per_slot e else if unat i = unat (nof_dl_slots p) then unat (nof_dl_symbols p) else 0)"
    by (auto simp: pattern_dl_symbols_def n word_less_nat_alt word_unat_eq_iff)
  have b: "unat ?U \<le> unat ?P" "unat i < unat ?P" using wf i by (auto simp: pattern_wf_def Let_def word_less_nat_alt)
  then have s: "unat (?P - ?U) = unat ?P - unat ?U" by (simp add: unat_sub word_le_nat_alt)
  have e1: "i \<ge> ?P - ?U \<longleftrightarrow> unat ?P \<le> unat i + unat ?U" using b by (auto simp: word_le_nat_alt s)
  have e2: "i = ?P - ?U - 1 \<longleftrightarrow> unat ?P = unat i + unat ?U + 1" if "\<not> unat ?P \<le> unat i + unat ?U"
  proof -
    have "1 \<le> ?P - ?U" using that by (simp add: word_le_nat_alt s)
    then have "unat (?P - ?U - 1) = unat ?P - unat ?U - 1" by (simp add: unat_sub s)
    then show ?thesis using that b by (auto simp: word_unat_eq_iff)
  qed
  show "unat (pattern_ul_symbols e p i) =
      (if unat ?P \<le> unat i + unat ?U then get_nsymb_per_slot e
       else if unat ?P = unat i + unat ?U + 1 then unat (nof_ul_symbols p) else 0)"
    using e2 by (auto simp: pattern_ul_symbols_def Let_def n e1)
qed

lemma pattern_disjoint:
  assumes "pattern_wf (get_nsymb_per_slot e) p" "i < dl_ul_tx_period_nof_slots p"
  shows "unat (pattern_dl_symbols e p i) + unat (pattern_ul_symbols e p i) \<le> get_nsymb_per_slot e"
  using assms unfolding pattern_symbols [OF assms] by (auto simp: pattern_wf_def Let_def word_less_nat_alt)

lemma u32_less: "unat (x :: u32) < 4294967296"
proof -
  have "unat x < 2 ^ LENGTH(32)" by (rule unsigned_less)
  then show ?thesis by simp
qed

lemma period_sum:
  assumes "tdd_wf nsymb cfg"
  shows "unat (nof_slots_per_tdd_period cfg) = unat (dl_ul_tx_period_nof_slots (pattern1 cfg)) +
    (case pattern2 cfg of None \<Rightarrow> 0 | Some p \<Rightarrow> unat (dl_ul_tx_period_nof_slots p))"
  using assms by (auto simp: tdd_wf_def nof_slots_per_tdd_period_def unat_plus_if' u32_less split: option.splits)

text \<open>The pattern of a slot.\<close>

lemma nof_active_symbols_pattern:
  assumes wf: "tdd_wf nsymb cfg"
  shows "\<exists>p i. pattern_wf nsymb p \<and> i < dl_ul_tx_period_nof_slots p \<and>
    nof_active_symbols cfg s e True = Some (pattern_dl_symbols e p i) \<and> nof_active_symbols cfg s e False = Some (pattern_ul_symbols e p i)"
proof -
  let ?P1 = "dl_ul_tx_period_nof_slots (pattern1 cfg)" and ?P = "nof_slots_per_tdd_period cfg"
  let ?i = "s mod nof_slots_per_tdd_period cfg"
  have P1: "0 < unat ?P1" "pattern_wf nsymb (pattern1 cfg)" using wf by (auto simp: tdd_wf_def pattern_wf_def Let_def split: option.splits)
  note P = period_sum [OF wf]
  have nz: "?P \<noteq> 0" using P P1(1) by (auto simp: word_unat_eq_iff)
  have i: "unat ?i < unat ?P" using nz by (simp add: unat_mod word_unat_eq_iff)
  show ?thesis
  proof (cases "?i \<ge> ?P1")
    case False
    then show ?thesis using P1(2) nz by (intro exI [of _ "pattern1 cfg"] exI [of _ ?i]) (simp add: nof_active_symbols_def Let_def)
  next
    case True
    then obtain p where p: "pattern2 cfg = Some p" using i P by (cases "pattern2 cfg") (auto simp: word_le_nat_alt)
    have "?i - ?P1 < dl_ul_tx_period_nof_slots p" using True i P by (simp add: p word_less_nat_alt unat_sub word_le_nat_alt)
    then show ?thesis using wf p nz True
      by (intro exI [of _ p] exI [of _ "?i - ?P1"]) (simp add: nof_active_symbols_def Let_def tdd_wf_def)
  qed
qed

lemma symbol_range_within:
  assumes "unat (a :: u32) \<le> unat b" "unat b < 256"
  shows "ofdm_symbol_range a b = Some (ucast a, ucast b)" "unat (ucast a :: byte) = unat a" "unat (ucast b :: byte) = unat b"
  using assms by (simp_all add: ofdm_symbol_range_def word_le_nat_alt unsigned_ucast_eq take_bit_nat_eq_self)

section \<open>Number of slots\<close>

text \<open>The slots of a pattern in which all symbols are downlink or uplink.\<close>

lemma pattern_full_slots:
  assumes wf: "pattern_wf 14 p"
  shows "{i. i < unat (dl_ul_tx_period_nof_slots p) \<and> pattern_dl_symbols False p (of_nat i) = 14} = {..<unat (nof_dl_slots p)}"
    and "{i. i < unat (dl_ul_tx_period_nof_slots p) \<and> pattern_ul_symbols False p (of_nat i) = 14} =
      {unat (dl_ul_tx_period_nof_slots p) - unat (nof_ul_slots p)..<unat (dl_ul_tx_period_nof_slots p)}"
proof -
  let ?P = "unat (dl_ul_tx_period_nof_slots p)"
  have u: "unat (of_nat i :: u32) = i" if "i < ?P" for i
    using that u32_less [of "dl_ul_tx_period_nof_slots p"] by (simp add: unat_of_nat)
  have f: "x = 14 \<longleftrightarrow> unat x = 14" for x :: u32 by (simp add: word_unat_eq_iff)
  have n: "get_nsymb_per_slot False = 14" by (simp add: get_nsymb_per_slot_def)
  have b: "unat (nof_dl_slots p) + unat (nof_ul_slots p) \<le> ?P" "unat (nof_dl_symbols p) < 14" "unat (nof_ul_symbols p) < 14"
    using wf by (simp_all add: pattern_wf_def Let_def)
  have "(pattern_dl_symbols False p (of_nat i) = 14 \<longleftrightarrow> i < unat (nof_dl_slots p)) \<and>
      (pattern_ul_symbols False p (of_nat i) = 14 \<longleftrightarrow> ?P - unat (nof_ul_slots p) \<le> i)" if "i < ?P" for i
  proof -
    have "of_nat i < dl_ul_tx_period_nof_slots p" using that by (simp add: word_less_nat_alt u)
    note s = pattern_symbols [of False, unfolded n, OF wf this]
    show ?thesis using that b unfolding f s u [OF that] by auto
  qed
  then show "{i. i < ?P \<and> pattern_dl_symbols False p (of_nat i) = 14} = {..<unat (nof_dl_slots p)}"
    "{i. i < ?P \<and> pattern_ul_symbols False p (of_nat i) = 14} = {?P - unat (nof_ul_slots p)..<?P}" using b by auto
qed

text \<open>The slots of the period are those of the first pattern, followed by those of the second one.\<close>

lemma period_slots:
  assumes wf: "tdd_wf nsymb cfg"
  shows "i < unat (dl_ul_tx_period_nof_slots (pattern1 cfg)) \<Longrightarrow> nof_active_symbols cfg (of_nat i) e d =
      Some (if d then pattern_dl_symbols e (pattern1 cfg) (of_nat i) else pattern_ul_symbols e (pattern1 cfg) (of_nat i))"
    and "pattern2 cfg = Some p \<Longrightarrow> j < unat (dl_ul_tx_period_nof_slots p) \<Longrightarrow>
      nof_active_symbols cfg (of_nat (unat (dl_ul_tx_period_nof_slots (pattern1 cfg)) + j)) e d =
      Some (if d then pattern_dl_symbols e p (of_nat j) else pattern_ul_symbols e p (of_nat j))"
proof -
  let ?P1 = "dl_ul_tx_period_nof_slots (pattern1 cfg)" and ?P = "nof_slots_per_tdd_period cfg"
  have P1: "0 < unat ?P1" using wf by (auto simp: tdd_wf_def pattern_wf_def Let_def split: option.splits)
  note P = period_sum [OF wf]
  have nz: "?P \<noteq> 0" using P P1 by (auto simp: word_unat_eq_iff)
  have u: "unat (of_nat i :: u32) = i" "(of_nat i :: u32) mod ?P = of_nat i" if "i < unat ?P" for i
  proof -
    show "unat (of_nat i :: u32) = i" using that u32_less [of ?P] by (simp add: unat_of_nat)
    then show "(of_nat i :: u32) mod ?P = of_nat i" using that by (simp add: word_unat_eq_iff unat_mod)
  qed
  show "nof_active_symbols cfg (of_nat i) e d =
      Some (if d then pattern_dl_symbols e (pattern1 cfg) (of_nat i) else pattern_ul_symbols e (pattern1 cfg) (of_nat i))"
    if "i < unat ?P1"
    using that P u [of i] nz by (simp add: nof_active_symbols_def Let_def word_le_nat_alt)
  show "nof_active_symbols cfg (of_nat (unat ?P1 + j)) e d = Some (if d then pattern_dl_symbols e p (of_nat j) else pattern_ul_symbols e p (of_nat j))"
    if "pattern2 cfg = Some p" "j < unat (dl_ul_tx_period_nof_slots p)"
  proof -
    have "unat ?P1 + j < unat ?P" using that P by simp
    note v = u [OF this]
    have "?P1 \<le> of_nat (unat ?P1 + j)" unfolding word_le_nat_alt v(1) by simp
    then show ?thesis using that(1) nz v(2) by (simp add: nof_active_symbols_def Let_def)
  qed
qed

lemma card_two_patterns:
  "{i. i < a + b \<and> Q i} = {i. i < a \<and> Q i} \<union> (\<lambda>j. a + j) ` {j. j < b \<and> Q (a + j)}" for a b :: nat
proof (intro equalityI subsetI)
  fix i assume "i \<in> {i. i < a + b \<and> Q i}"
  then show "i \<in> {i. i < a \<and> Q i} \<union> (\<lambda>j. a + j) ` {j. j < b \<and> Q (a + j)}"
    by (cases "i < a") (auto intro!: image_eqI [of _ _ "i - a"])
qed auto

text \<open>Counting the slots of the period by the counts of the two patterns.\<close>

lemma period_count:
  assumes wf: "tdd_wf 14 cfg"
    and 1: "{i. i < unat (dl_ul_tx_period_nof_slots (pattern1 cfg)) \<and> f (pattern1 cfg) (of_nat i) = (14 :: u32)} = S1" "card S1 = n1"
    and 2: "\<And>p. pattern2 cfg = Some p \<Longrightarrow> card {i. i < unat (dl_ul_tx_period_nof_slots p) \<and> f p (of_nat i) = (14 :: u32)} = n2"
    and f: "f = (if d then pattern_dl_symbols False else pattern_ul_symbols False)"
  shows "card {i. i < unat (nof_slots_per_tdd_period cfg) \<and> nof_active_symbols cfg (of_nat i) False d = Some 14} =
    n1 + (case pattern2 cfg of None \<Rightarrow> 0 | Some p \<Rightarrow> n2)"
proof -
  let ?P1 = "unat (dl_ul_tx_period_nof_slots (pattern1 cfg))" and ?Q = "\<lambda>i. nof_active_symbols cfg (of_nat i) False d = Some 14"
  have first: "{i. i < ?P1 \<and> ?Q i} = S1" using period_slots(1) [OF wf, of _ False d] 1(1) f by (auto split: if_splits)
  show ?thesis
  proof (cases "pattern2 cfg")
    case None
    then show ?thesis using first 1(2) period_sum [OF wf] by simp
  next
    case (Some p)
    let ?P2 = "unat (dl_ul_tx_period_nof_slots p)"
    have "{j. j < ?P2 \<and> ?Q (?P1 + j)} = {j. j < ?P2 \<and> f p (of_nat j) = 14}"
      using period_slots(2) [OF wf Some, of _ False d] f by (auto split: if_splits)
    then have "card ((\<lambda>j. ?P1 + j) ` {j. j < ?P2 \<and> ?Q (?P1 + j)}) = n2" using 2 [OF Some] by (simp add: card_image)
    moreover have "{i. i < ?P1 \<and> ?Q i} \<inter> (\<lambda>j. ?P1 + j) ` {j. j < ?P2 \<and> ?Q (?P1 + j)} = {}" by auto
    ultimately show ?thesis
      using first 1(2) period_sum [OF wf] Some unfolding period_sum [OF wf] Some option.simps card_two_patterns
      by (subst card_Un_disjoint) auto
  qed
qed

section \<open>Searches\<close>

text \<open>Within the period the search returns the first active slot, and nothing when there is none.\<close>

lemma find_next_slot_first:
  assumes "\<forall>i. active i \<noteq> None" "i \<le> period"
  shows "find_next_slot active period i =
    Some (if \<exists>k. i \<le> k \<and> k < period \<and> active k = Some True
          then Some (LEAST k. i \<le> k \<and> k < period \<and> active k = Some True) else None)"
  using assms
proof (induction active period i rule: find_next_slot.induct)
  case (1 active period i)
  show ?case
  proof (cases "i = period")
    case True
    then show ?thesis by (subst find_next_slot.simps) auto
  next
    case False
    then have i: "i < period" using "1.prems"(2) by simp
    obtain b where b: "active i = Some b" using "1.prems"(1) by blast
    show ?thesis
    proof (cases b)
      case True
      then have "(LEAST k. i \<le> k \<and> k < period \<and> active k = Some True) = i" using i b by (intro Least_equality) auto
      then show ?thesis using i b True False by (subst find_next_slot.simps) auto
    next
      case nb: False
      have le: "i + 1 \<le> k \<longleftrightarrow> i < k" for k 
      proof -
        have "i \<noteq> - 1" using i by auto
        then show ?thesis by (simp add: inc_less_eq_iff)
      qed
      have same: "(\<lambda>k. i \<le> k \<and> k < period \<and> active k = Some True) = (\<lambda>k. i + 1 \<le> k \<and> k < period \<and> active k = Some True)"
      proof
        fix k
        have "i \<le> k \<longleftrightarrow> k = i \<or> i + 1 \<le> k" unfolding le by auto
        then show "(i \<le> k \<and> k < period \<and> active k = Some True) = (i + 1 \<le> k \<and> k < period \<and> active k = Some True)"
          using b nb by (metis option.inject)
      qed
      have "find_next_slot active period i = find_next_slot active period (i + 1)"
        using b nb False by (subst find_next_slot.simps) simp
      then show ?thesis unfolding same using "1.IH" [OF False b] nb "1.prems" i by (simp add: le)
    qed
  qed
qed

section \<open>Correctness\<close>

lemma active_symbols_disjoint:
  assumes "tdd_wf (get_nsymb_per_slot extended_cp) cfg"
  shows "\<exists>dl us ue. get_active_tdd_dl_symbols cfg slot_idx extended_cp = Some (0, dl) \<and>
    get_active_tdd_ul_symbols cfg slot_idx extended_cp = Some (us, ue) \<and>
    unat dl \<le> get_nsymb_per_slot extended_cp \<and>
    (us = 0 \<and> ue = 0 \<or> dl \<le> us \<and> us < ue \<and> unat ue = get_nsymb_per_slot extended_cp)"
proof -
  let ?n = "get_nsymb_per_slot extended_cp"
  obtain p i where p: "pattern_wf ?n p" "i < dl_ul_tx_period_nof_slots p"
    and d: "nof_active_symbols cfg slot_idx extended_cp True = Some (pattern_dl_symbols extended_cp p i)"
    and u: "nof_active_symbols cfg slot_idx extended_cp False = Some (pattern_ul_symbols extended_cp p i)"
    using nof_active_symbols_pattern [OF assms, of slot_idx extended_cp] by blast
  let ?d = "pattern_dl_symbols extended_cp p i" and ?u = "pattern_ul_symbols extended_cp p i" and ?w = "of_nat ?n :: u32"
  have s: "unat ?d + unat ?u \<le> ?n" by (rule pattern_disjoint [OF p])
  have n: "?n < 256" "unat ?w = ?n" by (simp_all add: get_nsymb_per_slot_def)
  have v: "unat (?w - ?u) = ?n - unat ?u" using s by (simp add: unat_sub word_le_nat_alt n)
  have dl: "get_active_tdd_dl_symbols cfg slot_idx extended_cp = Some (0, ucast ?d)" "unat (ucast ?d :: byte) = unat ?d"
    using symbol_range_within [of 0 ?d] s n by (simp_all add: get_active_tdd_dl_symbols_def d)
  show ?thesis
  proof (cases "?u = 0")
    case True
    then show ?thesis using dl s by (simp add: get_active_tdd_ul_symbols_def u)
  next
    case False
    then have pos: "0 < unat ?u" "0 < ?u" by (simp_all add: unat_gt_0 word_neq_0_conv)
    have r: "unat (?w - ?u) \<le> unat ?w" "unat ?w < 256" using n v by simp_all
    have "get_active_tdd_ul_symbols cfg slot_idx extended_cp = Some (ucast (?w - ?u), ucast ?w)"
      using pos symbol_range_within(1) [OF r] by (simp add: get_active_tdd_ul_symbols_def u Let_def)
    moreover have "(ucast ?d :: byte) \<le> ucast (?w - ?u)" "(ucast (?w - ?u) :: byte) < ucast ?w" "unat (ucast ?w :: byte) = ?n"
      unfolding word_le_nat_alt word_less_nat_alt dl(2) symbol_range_within(2,3) [OF r] v n(2) using s pos by simp_all
    ultimately show ?thesis using dl s by auto
  qed
qed

text \<open>
  C28: in a well-formed configuration no symbol is both downlink and uplink.  For every slot index and cyclic prefix the
  two ranges of symbols are computed without a failure, the downlink symbols are the first ones of the slot, the uplink
  symbols, when there are any, the last ones, and they do not overlap.
\<close>

theorem tdd_symbols_disjoint:
  assumes "tdd_wf (get_nsymb_per_slot extended_cp) cfg"
  shows "\<exists>dl us ue. get_active_tdd_dl_symbols cfg slot_idx extended_cp = Some (0, dl) \<and>
    get_active_tdd_ul_symbols cfg slot_idx extended_cp = Some (us, ue) \<and>
    unat dl \<le> get_nsymb_per_slot extended_cp \<and>
    (us = 0 \<and> ue = 0 \<or> dl \<le> us \<and> us < ue \<and> unat ue = get_nsymb_per_slot extended_cp)"
  by (rule active_symbols_disjoint [OF assms])

text \<open>
  The usual pattern: ten slots, seven of them downlink, two uplink and a special slot with six downlink and four uplink
  symbols.
\<close>

definition tdd_7d2u :: tdd_ul_dl_config_common where
  "tdd_7d2u = \<lparr>ref_scs = scs_kHz30,
     pattern1 = \<lparr>dl_ul_tx_period_nof_slots = 10, nof_dl_slots = 7, nof_dl_symbols = 6, nof_ul_slots = 2, nof_ul_symbols = 4\<rparr>,
     pattern2 = None\<rparr>"

lemma tdd_7d2u_wf: "tdd_wf 14 tdd_7d2u" by (simp add: tdd_wf_def tdd_7d2u_def pattern_wf_def)

text \<open>The special slot: symbols 0 to 5 are downlink and symbols 10 to 13 uplink.\<close>

theorem tdd_symbols_disjoint_witness:
  "tdd_wf (get_nsymb_per_slot False) tdd_7d2u \<and>
   get_active_tdd_dl_symbols tdd_7d2u 17 False = Some (0, 6) \<and> get_active_tdd_ul_symbols tdd_7d2u 17 False = Some (10, 14) \<and>
   (6 :: byte) \<le> 10"
proof -
  have wf: "tdd_wf (get_nsymb_per_slot False) tdd_7d2u" using tdd_7d2u_wf by (simp add: get_nsymb_per_slot_def)
  have dl: "get_active_tdd_dl_symbols tdd_7d2u 17 False = Some (0, 6)" and ul: "get_active_tdd_ul_symbols tdd_7d2u 17 False = Some (10, 14)"
    by code_simp+
  show ?thesis using wf dl ul tdd_symbols_disjoint [OF wf, of 17] by auto
qed

text \<open>
  Counting the slots of the period whose fourteen symbols are all downlink, or all uplink, gives the numbers of full
  slots that the configuration declares, with one pattern and with two.
\<close>

theorem tdd_slots_counted:
  assumes "tdd_wf 14 cfg"
  shows "card {i. i < unat (nof_slots_per_tdd_period cfg) \<and> is_tdd_full_dl_slot cfg (of_nat i) = Some True} =
      unat (nof_full_dl_slots_per_tdd_period cfg) \<and>
    card {i. i < unat (nof_slots_per_tdd_period cfg) \<and> is_tdd_full_ul_slot cfg (of_nat i) = Some True} =
      unat (nof_full_ul_slots_per_tdd_period cfg)"
proof -
  have wf: "pattern_wf 14 (pattern1 cfg)" "\<And>p. pattern2 cfg = Some p \<Longrightarrow> pattern_wf 14 p \<and>
      unat (dl_ul_tx_period_nof_slots (pattern1 cfg)) + unat (dl_ul_tx_period_nof_slots p) < 2 ^ 32"
    using assms by (auto simp: tdd_wf_def split: option.splits)
  have b: "unat (nof_dl_slots p) \<le> unat (dl_ul_tx_period_nof_slots p)" "unat (nof_ul_slots p) \<le> unat (dl_ul_tx_period_nof_slots p)"
    if "pattern_wf 14 p" for p
    using that by (auto simp: pattern_wf_def Let_def)
  have c: "card {i. i < unat (dl_ul_tx_period_nof_slots p) \<and> pattern_ul_symbols False p (of_nat i) = 14} = unat (nof_ul_slots p)"
    if "pattern_wf 14 p" for p
    unfolding pattern_full_slots(2) [OF that] using b(2) [OF that] by simp
  have full: "is_tdd_full_dl_slot cfg s = Some True \<longleftrightarrow> nof_active_symbols cfg s False True = Some 14"
    "is_tdd_full_ul_slot cfg s = Some True \<longleftrightarrow> nof_active_symbols cfg s False False = Some 14" for s
    by (auto simp: is_tdd_full_dl_slot_def is_tdd_full_ul_slot_def NOF_OFDM_SYM_PER_SLOT_NORMAL_CP_def)
  have dl: "card {i. i < unat (nof_slots_per_tdd_period cfg) \<and> nof_active_symbols cfg (of_nat i) False True = Some 14} =
    unat (nof_dl_slots (pattern1 cfg)) + (case pattern2 cfg of None \<Rightarrow> 0 | Some p \<Rightarrow> unat (nof_dl_slots (the (pattern2 cfg))))"
    by (rule period_count [where f = "pattern_dl_symbols False", OF assms pattern_full_slots(1) [OF wf(1)]])
      (use wf pattern_full_slots(1) in auto)
  have ul: "card {i. i < unat (nof_slots_per_tdd_period cfg) \<and> nof_active_symbols cfg (of_nat i) False False = Some 14} =
    unat (nof_ul_slots (pattern1 cfg)) + (case pattern2 cfg of None \<Rightarrow> 0 | Some p \<Rightarrow> unat (nof_ul_slots (the (pattern2 cfg))))"
    by (rule period_count [where f = "pattern_ul_symbols False", OF assms pattern_full_slots(2) [OF wf(1)]])
      (use wf b c in auto)
  show ?thesis
  proof (cases "pattern2 cfg")
    case None
    then show ?thesis using dl ul by (simp add: full nof_full_dl_slots_per_tdd_period_def nof_full_ul_slots_per_tdd_period_def)
  next
    case (Some p)
    have "unat (nof_dl_slots (pattern1 cfg) + nof_dl_slots p) = unat (nof_dl_slots (pattern1 cfg)) + unat (nof_dl_slots p)"
      "unat (nof_ul_slots (pattern1 cfg) + nof_ul_slots p) = unat (nof_ul_slots (pattern1 cfg)) + unat (nof_ul_slots p)"
      using b [OF wf(1)] b [of p] wf(2) [OF Some] by (auto simp: unat_plus_if')
    then show ?thesis using dl ul Some
      by (simp add: full nof_full_dl_slots_per_tdd_period_def nof_full_ul_slots_per_tdd_period_def)
  qed
qed

theorem tdd_slots_counted_witness:
  "tdd_wf 14 tdd_7d2u \<and> card {i. i < unat (nof_slots_per_tdd_period tdd_7d2u) \<and> is_tdd_full_dl_slot tdd_7d2u (of_nat i) = Some True} = 7 \<and>
   card {i. i < unat (nof_slots_per_tdd_period tdd_7d2u) \<and> is_tdd_full_ul_slot tdd_7d2u (of_nat i) = Some True} = 2"
  using tdd_7d2u_wf tdd_slots_counted [OF tdd_7d2u_wf]
  by (simp add: nof_full_dl_slots_per_tdd_period_def nof_full_ul_slots_per_tdd_period_def tdd_7d2u_def)

text \<open>
  Within the period the search for an uplink slot returns the first slot with uplink symbols, and nothing when there
  is none; a search that starts past the period does not return the documented empty value when the slot it starts from has
  uplink symbols, because its loop only stops at the exact end of the period.
\<close>

theorem find_next_past_period:
  assumes "tdd_wf 14 cfg"
  shows "if start \<le> nof_slots_per_tdd_period cfg
    then find_next_tdd_ul_slot cfg start = Some
      (if \<exists>k. start \<le> k \<and> k < nof_slots_per_tdd_period cfg \<and> has_active_tdd_ul_symbols cfg k = Some True
       then Some (LEAST k. start \<le> k \<and> k < nof_slots_per_tdd_period cfg \<and> has_active_tdd_ul_symbols cfg k = Some True)
       else None)
    else (has_active_tdd_ul_symbols cfg start \<noteq> Some True \<or> find_next_tdd_ul_slot cfg start = Some (Some start))"
proof (cases "start \<le> nof_slots_per_tdd_period cfg")
  case True
  have "has_active_tdd_ul_symbols cfg k \<noteq> None" for k
    using nof_active_symbols_pattern [OF assms, of k False] by (auto simp: has_active_tdd_ul_symbols_def)
  then show ?thesis using True find_next_slot_first [OF _ True] by (simp add: find_next_tdd_ul_slot_def)
next
  case False
  then have "start \<noteq> nof_slots_per_tdd_period cfg" by auto
  then show ?thesis using False by (auto simp: find_next_tdd_ul_slot_def find_next_slot.simps [of _ _ start] split: option.splits)
qed

text \<open>From slot 8 the search finds slot 8, and from slot 18 of a period of ten slots it returns 18.\<close>

theorem find_next_past_period_witness:
  "tdd_wf 14 tdd_7d2u \<and> has_active_tdd_ul_symbols tdd_7d2u 18 = Some True \<and> nof_slots_per_tdd_period tdd_7d2u = 10 \<and>
   find_next_tdd_ul_slot tdd_7d2u 18 = Some (Some 18) \<and> find_next_tdd_ul_slot tdd_7d2u 3 = Some (Some 7)"
proof -
  have a: "has_active_tdd_ul_symbols tdd_7d2u 18 = Some True" "nof_slots_per_tdd_period tdd_7d2u = 10" by code_simp+
  have "find_next_tdd_ul_slot tdd_7d2u 18 = Some (Some 18)"
    using find_next_past_period [OF tdd_7d2u_wf, of 18] a by simp
  moreover have "find_next_tdd_ul_slot tdd_7d2u 3 = Some (Some 7)" by code_simp
  ultimately show ?thesis using a tdd_7d2u_wf by simp
qed

end
