(* ===== verification/Du_Handlers.thy ===== *)
theory Du_Handlers
  imports Du_Link Tdd_Config
begin

text \<open>
  The entry points of the O-DU (lib/ofh/transmitter): the uplink request handler (ofh_uplink_request_handler_impl.cpp),
  which registers a requested slot or PRACH occasion and commands the O-RU to send it, the downlink handler
  (ofh_downlink_handler_impl.cpp), which commands and sends the downlink symbols of a slot, and the transmitter of the
  pending messages (ofh_message_transmitter_impl.cpp).

  None is a violated assertion or an access out of bounds.  As in the data flows, the buffers the frame pools hand out are
  arguments: \<open>pool eaxc\<close> is the buffer of the message to an eAxC, None when the pool is empty.  The executors of the
  task dispatchers run the same calls later, one after the other.
\<close>

section \<open>Events and configuration\<close>

datatype late_event =
  on_late_downlink_message slot_point nat
| on_late_uplink_message slot_point nat
| on_late_prach_message slot_point nat

record uplink_request_handler_config =
  uh_is_prach_cp_enabled :: bool
  uh_extended_cp :: bool
  uh_tdd_config :: "tdd_ul_dl_config_common option"
  uh_prach_eaxc :: "nat list"
  uh_ul_eaxc :: "nat list"
  uh_cplane :: cplane_tx_config

record uplink_request_handler =
  uh_window_checker :: tx_window_checker
  uh_ul_slot_repo :: rx_grid_context_repository
  uh_ul_prach_repo :: prach_context_repository
  uh_notifier_symbol_repo :: notified_repo
  uh_data_flow :: cplane_tx_state
  uh_frame_pool :: eth_frame_pool
  uh_nof_late_cp_ul :: u32
  uh_errors :: "late_event list"

section \<open>Uplink request handler\<close>

text \<open>The loop over the eAxCs of a request.\<close>

fun for_each_eaxc ::
  "(nat \<Rightarrow> bytes option \<Rightarrow> cplane_tx_state \<Rightarrow> (bytes option \<times> cplane_tx_state) option) \<Rightarrow> (nat \<Rightarrow> bytes option) \<Rightarrow> nat list \<Rightarrow>
   cplane_tx_state \<Rightarrow> (bytes option list \<times> cplane_tx_state) option" where
  "for_each_eaxc enqueue pool [] st = Some ([], st)"
| "for_each_eaxc enqueue pool (eaxc # eaxcs) st = do {
     (frame, st) \<leftarrow> enqueue eaxc (pool eaxc) st;
     (frames, st) \<leftarrow> for_each_eaxc enqueue pool eaxcs st;
     Some (frame # frames, st)
   }"

definition get_prach_cplane_filter_index :: "prach_buffer_context \<Rightarrow> prach_preamble_information \<Rightarrow> filter_index_type" where
  "get_prach_cplane_filter_index ctx info =
     (if pbc_format ctx = pf_three then ul_prach_preamble_5kHz
      else if is_long_preamble (pbc_format ctx) then ul_prach_preamble_1p25khz
      else if pbc_format ctx = pf_C0 \<or> pbc_format ctx = pf_C2
      then (if preamble_scs info = ra_kHz15 then ul_prach_preamble_short_15kHz else ul_prach_preamble_short_30kHz)
      else ul_prach_preamble_short)"

text \<open>
  The first symbol of the preamble after its cyclic prefix.  The code divides two durations in double precision and
  truncates; both are multiples of the same unit, and the quotients of the values of the preamble tables are not within a
  rounding error of a whole number, so that the division of the integers has the same result.  The spacing of a short
  preamble is cast to a subcarrier spacing, which keeps its numerology.
\<close>

definition get_prach_start_symbol :: "prach_buffer_context \<Rightarrow> nat option" where
  "get_prach_start_symbol ctx = do {
     info \<leftarrow> preamble_info_of ctx;
     let numerology = (if is_short_preamble (pbc_format ctx) then ra_numerology_value (preamble_scs info) else 0);
     Some (pbc_start_symbol ctx + preamble_cp_length info div drop_bit numerology (144 + 2048))
   }"

text \<open>
  The cyclic prefix in samples of the reference rate of 30.72 MHz is its length in units of kappa.
\<close>

definition prach_cplane_context :: "prach_buffer_context \<Rightarrow> nat \<Rightarrow> cplane_prach_context option" where
  "prach_cplane_context ctx eaxc = do {
     info \<leftarrow> preamble_info_of ctx;
     start \<leftarrow> get_prach_start_symbol ctx;
     let freq_mapping_info = prach_frequency_mapping_get (preamble_scs info) (pbc_pusch_scs ctx);
     let cp_length = preamble_cp_length info + (if is_short_preamble (pbc_format ctx) then 16 else 0);
     let K = 1000 * scs_to_khz (pbc_pusch_scs ctx) div ra_scs_to_Hz (preamble_scs info);
     Some \<lparr>c3_slot = pbc_slot ctx, c3_eaxc = eaxc, c3_start_symbol = start, c3_prach_scs = preamble_scs info,
       c3_scs = pbc_pusch_scs ctx, c3_prach_nof_rb = fst freq_mapping_info * K,
       c3_nof_repetitions = preamble_nof_symbols info, c3_time_offset = cp_length,
       c3_prach_start_re = pbc_rb_offset ctx * K * NOF_SUBCARRIERS_PER_RB,
       c3_filter_type = get_prach_cplane_filter_index ctx info\<rparr>
   }"

definition handle_prach_occasion ::
  "uplink_request_handler_config \<Rightarrow> prach_buffer_context \<Rightarrow> shared_prach_buffer \<Rightarrow> (nat \<Rightarrow> bytes option) \<Rightarrow>
   uplink_request_handler \<Rightarrow> (bytes option list \<times> uplink_request_handler) option" where
  "handle_prach_occasion cfg ctx buffer pool st = do {
     (nof_lates, frame_pool) \<leftarrow> clear_slot False (pbc_slot ctx) (uh_frame_pool st);
     let st = st\<lparr>uh_frame_pool := frame_pool, uh_nof_late_cp_ul := uh_nof_late_cp_ul st + of_nat nof_lates\<rparr>;
     let (late, window_checker) = is_late (pbc_slot ctx) (uh_window_checker st);
     let st = st\<lparr>uh_window_checker := window_checker\<rparr>;
     if late then Some ([], st\<lparr>uh_errors := uh_errors st @ [on_late_prach_message (pbc_slot ctx) (pbc_sector ctx)]\<rparr>)
     else do {
       start_symbol_opt \<leftarrow> (if is_short_preamble (pbc_format ctx) then Some None
                             else map_option Some (get_prach_start_symbol ctx));
       let st = st\<lparr>uh_ul_prach_repo := prach_add ctx buffer start_symbol_opt (uh_ul_prach_repo st)\<rparr>;
       if \<not> uh_is_prach_cp_enabled cfg then Some ([], st)
       else do {
         cp_prach_context \<leftarrow> prach_cplane_context ctx 0;
         (frames, df) \<leftarrow> for_each_eaxc
           (\<lambda>eaxc. cplane_enqueue_section_type_3_prach_message (uh_cplane cfg) (cp_prach_context\<lparr>c3_eaxc := eaxc\<rparr>))
           pool (uh_prach_eaxc cfg) (uh_data_flow st);
         Some (frames, st\<lparr>uh_data_flow := df\<rparr>)
       }
     }
   }"

text \<open>The symbols of a slot that are requested: the uplink symbols of the TDD configuration, or all of them.\<close>

definition uplink_symbol_range :: "uplink_request_handler_config \<Rightarrow> slot_point \<Rightarrow> (byte \<times> byte) option" where
  "uplink_symbol_range cfg s =
     (case uh_tdd_config cfg of
        Some tdd \<Rightarrow> get_active_tdd_ul_symbols tdd (of_nat (slot_index s)) (uh_extended_cp cfg)
      | None \<Rightarrow> ofdm_symbol_range 0 (of_nat (get_nsymb_per_slot (uh_extended_cp cfg))))"

definition handle_new_uplink_slot ::
  "uplink_request_handler_config \<Rightarrow> resource_grid_context \<Rightarrow> shared_resource_grid \<Rightarrow> (nat \<Rightarrow> bytes option) \<Rightarrow>
   uplink_request_handler \<Rightarrow> (bytes option list \<times> uplink_request_handler) option" where
  "handle_new_uplink_slot cfg ctx grid pool st = do {
     (nof_lates, frame_pool) \<leftarrow> clear_slot False (gc_slot ctx) (uh_frame_pool st);
     let st = st\<lparr>uh_frame_pool := frame_pool, uh_nof_late_cp_ul := uh_nof_late_cp_ul st + of_nat nof_lates\<rparr>;
     let (late, window_checker) = is_late (gc_slot ctx) (uh_window_checker st);
     let st = st\<lparr>uh_window_checker := window_checker\<rparr>;
     if late then Some ([], st\<lparr>uh_errors := uh_errors st @ [on_late_uplink_message (gc_slot ctx) (gc_sector ctx)]\<rparr>)
     else do {
       (start, stop) \<leftarrow> uplink_symbol_range cfg (gc_slot ctx);
       let st = st\<lparr>uh_ul_slot_repo := rx_add ctx grid (unat start) (unat stop) (uh_ul_slot_repo st),
                   uh_notifier_symbol_repo := notified_add (gc_slot ctx) (unat start) (uh_extended_cp cfg) (uh_notifier_symbol_repo st)\<rparr>;
       (frames, df) \<leftarrow> for_each_eaxc
         (\<lambda>eaxc. cplane_enqueue_section_type_1_message (uh_cplane cfg)
            \<lparr>c1_slot = gc_slot ctx, c1_eaxc = eaxc, c1_filter_type = standard_channel_filter, c1_direction = uplink,
             c1_start_symbol = unat start, c1_stop_symbol = unat stop\<rparr>)
         pool (uh_ul_eaxc cfg) (uh_data_flow st);
       Some (frames, st\<lparr>uh_data_flow := df\<rparr>)
     }
   }"

section \<open>Downlink handler\<close>

record 'iq downlink_handler_config =
  dh_sector_id :: nat
  dh_extended_cp :: bool
  dh_tdd_config :: "tdd_ul_dl_config_common option"
  dh_dl_eaxc :: "nat list"
  dh_cplane :: cplane_tx_config
  dh_uplane :: "'iq uplane_tx_config"

record downlink_handler =
  dh_stop_requested :: bool
  dh_window_checker :: tx_window_checker
  dh_data_flow_cplane :: cplane_tx_state
  dh_data_flow_uplane :: sequence_identifier_generator
  dh_frame_pool_dl_cp :: eth_frame_pool
  dh_frame_pool_dl_up :: eth_frame_pool
  dh_nof_late_cp_dl :: u32
  dh_nof_late_up_dl :: u32
  dh_errors :: "late_event list"

text \<open>What the handler reads of a resource grid.\<close>

record 'iq resource_grid_reader =
  reader_nof_ports :: nat
  reader_nof_symbols :: nat
  reader_is_empty :: bool
  reader_get :: "nat \<Rightarrow> nat \<Rightarrow> 'iq list"

definition downlink_start :: "downlink_handler \<Rightarrow> downlink_handler" where
  "downlink_start st = st\<lparr>dh_stop_requested := False\<rparr>"

definition downlink_stop :: "downlink_handler \<Rightarrow> downlink_handler" where
  "downlink_stop st = st\<lparr>dh_stop_requested := True\<rparr>"

definition downlink_symbol_range :: "'iq downlink_handler_config \<Rightarrow> slot_point \<Rightarrow> 'iq resource_grid_reader \<Rightarrow> (byte \<times> byte) option" where
  "downlink_symbol_range cfg s reader =
     (case dh_tdd_config cfg of
        Some tdd \<Rightarrow> get_active_tdd_dl_symbols tdd (of_nat (slot_index s)) (dh_extended_cp cfg)
      | None \<Rightarrow> ofdm_symbol_range 0 (of_nat (reader_nof_symbols reader)))"

text \<open>
  The loop over the ports: the control message of the port, then its symbols.  The sent messages are the control frame and,
  per symbol, the frames of its fragments; the port, the eAxC and the sector are stored as bytes.
\<close>

fun downlink_ports ::
  "'iq downlink_handler_config \<Rightarrow> slot_point \<Rightarrow> byte \<times> byte \<Rightarrow> 'iq resource_grid_reader \<Rightarrow> (nat \<Rightarrow> bytes option) \<Rightarrow>
   (nat \<Rightarrow> nat \<Rightarrow> bytes list) \<Rightarrow> nat list \<Rightarrow> cplane_tx_state \<Rightarrow> sequence_identifier_generator \<Rightarrow>
   ((bytes option \<times> (nat \<times> bytes list) list) list \<times> cplane_tx_state \<times> sequence_identifier_generator) option" where
  "downlink_ports cfg s symbol_range reader pool_cp pool_up [] cs gen = Some ([], cs, gen)"
| "downlink_ports cfg s symbol_range reader pool_cp pool_up (cell_port_id # ports) cs gen = do {
     let eaxc = dh_dl_eaxc cfg ! cell_port_id;
     (control, cs) \<leftarrow> cplane_enqueue_section_type_1_message (dh_cplane cfg)
       \<lparr>c1_slot = s, c1_eaxc = eaxc, c1_filter_type = standard_channel_filter, c1_direction = downlink,
        c1_start_symbol = unat (fst symbol_range), c1_stop_symbol = unat (snd symbol_range)\<rparr> (pool_cp eaxc) cs;
     (symbols, gen) \<leftarrow> enqueue_section_type_1_message_symbol_burst (dh_uplane cfg)
       \<lparr>ug_slot = s, ug_port = unat (of_nat cell_port_id :: byte), ug_eaxc = unat (of_nat eaxc :: byte),
        ug_start_symbol = unat (fst symbol_range), ug_stop_symbol = unat (snd symbol_range), ug_section_id = 0\<rparr>
       (reader_get reader) (pool_up eaxc) gen;
     (rest, cs, gen) \<leftarrow> downlink_ports cfg s symbol_range reader pool_cp pool_up ports cs gen;
     Some ((control, symbols) # rest, cs, gen)
   }"

definition handle_dl_data ::
  "'iq downlink_handler_config \<Rightarrow> resource_grid_context \<Rightarrow> 'iq resource_grid_reader \<Rightarrow> (nat \<Rightarrow> bytes option) \<Rightarrow>
   (nat \<Rightarrow> nat \<Rightarrow> bytes list) \<Rightarrow> downlink_handler \<Rightarrow>
   ((bytes option \<times> (nat \<times> bytes list) list) list \<times> downlink_handler) option" where
  "handle_dl_data cfg ctx reader pool_cp pool_up st =
     (if dh_stop_requested st then Some ([], st)
      else if \<not> reader_nof_ports reader \<le> length (dh_dl_eaxc cfg) then None
      else do {
        (lates_cp, frame_pool_cp) \<leftarrow> clear_slot True (gc_slot ctx) (dh_frame_pool_dl_cp st);
        let st = st\<lparr>dh_frame_pool_dl_cp := frame_pool_cp, dh_nof_late_cp_dl := dh_nof_late_cp_dl st + of_nat lates_cp\<rparr>;
        (lates_up, frame_pool_up) \<leftarrow> clear_slot False (gc_slot ctx) (dh_frame_pool_dl_up st);
        let st = st\<lparr>dh_frame_pool_dl_up := frame_pool_up, dh_nof_late_up_dl := dh_nof_late_up_dl st + of_nat lates_up\<rparr>;
        if reader_is_empty reader then Some ([], st)
        else do {
          let (late, window_checker) = is_late (gc_slot ctx) (dh_window_checker st);
          let st = st\<lparr>dh_window_checker := window_checker\<rparr>;
          if late then Some ([], st\<lparr>dh_errors := dh_errors st @ [on_late_downlink_message (gc_slot ctx) (dh_sector_id cfg)]\<rparr>)
          else do {
            symbol_range \<leftarrow> downlink_symbol_range cfg (gc_slot ctx) reader;
            (sent, cs, gen) \<leftarrow> downlink_ports cfg (gc_slot ctx) symbol_range reader pool_cp pool_up [0..<reader_nof_ports reader]
              (dh_data_flow_cplane st) (dh_data_flow_uplane st);
            Some (sent, st\<lparr>dh_data_flow_cplane := cs, dh_data_flow_uplane := gen\<rparr>)
          }
        }
      })"

section \<open>Message transmitter\<close>

record tx_window_timing_parameters =
  sym_cp_dl_start :: nat
  sym_cp_dl_end :: nat
  sym_cp_ul_start :: nat
  sym_cp_ul_end :: nat
  sym_up_dl_start :: nat
  sym_up_dl_end :: nat

text \<open>
  At every symbol the messages that are due are read from the three pools into one burst, sent and released.
\<close>

definition du_transmitter_on_new_symbol ::
  "tx_window_timing_parameters \<Rightarrow> slot_symbol_point \<Rightarrow> eth_frame_pool \<Rightarrow> eth_frame_pool \<Rightarrow> eth_frame_pool \<Rightarrow>
   (bytes list \<times> eth_frame_pool \<times> eth_frame_pool \<times> eth_frame_pool) option" where
  "du_transmitter_on_new_symbol t symbol_point pool_dl_cp pool_ul_cp pool_dl_up = do {
     (b1, pool_dl_cp) \<leftarrow> enqueue_pending_into_burst (ssp_plus symbol_point (int (sym_cp_dl_end t)))
        (ssp_plus symbol_point (int (sym_cp_dl_start t))) [] pool_dl_cp;
     (b2, pool_ul_cp) \<leftarrow> enqueue_pending_into_burst (ssp_plus symbol_point (int (sym_cp_ul_end t)))
        (ssp_plus symbol_point (int (sym_cp_ul_start t))) b1 pool_ul_cp;
     (b3, pool_dl_up) \<leftarrow> enqueue_pending_into_burst (ssp_plus symbol_point (int (sym_up_dl_end t)))
        (ssp_plus symbol_point (int (sym_up_dl_start t))) b2 pool_dl_up;
     let cp_ul = drop (length b1) b2;
     let up_dl = drop (length b2) b3;
     let frames = map (frame_data pool_dl_cp) b1 @ map (frame_data pool_ul_cp) cp_ul @ map (frame_data pool_dl_up) up_dl;
     pool_dl_cp \<leftarrow> release_buffers b1 pool_dl_cp;
     pool_ul_cp \<leftarrow> release_buffers cp_ul pool_ul_cp;
     pool_dl_up \<leftarrow> release_buffers up_dl pool_dl_up;
     Some (frames, pool_dl_cp, pool_ul_cp, pool_dl_up)
   }"

section \<open>Storing the same value for several columns\<close>

context slot_repository
begin

lemma put_each:
  assumes "inv r"
  shows "inv (fold (\<lambda>e. put s e v) es r)" "key t (fold (\<lambda>e. put s e v) es r) = key t r"
  using assms by (induction es arbitrary: r) (auto simp: inv_put key_put)

lemma look_put_each:
  assumes "inv r" "\<forall>e \<in> set es. e < width" "key t r = key s r" "e \<in> set es"
  shows "look t e (fold (\<lambda>e. put s e v) es r) = v"
  using assms(2,4)
proof (induction es rule: rev_induct)
  case (snoc f es)
  let ?r = "fold (\<lambda>e. put s e v) es r"
  have r: "inv ?r" "key t ?r = key s ?r" using put_each [OF assms(1)] assms(3) by simp_all
  show ?case
  proof (cases "e = f")
    case True
    then show ?thesis using look_put_same [OF r(1) _ r(2)] snoc.prems by simp
  next
    case False
    then show ?thesis using look_put_other [OF r(1), of t s e f] snoc by simp
  qed
qed simp

end

section \<open>Lemmas\<close>

lemma clear_slot_total:
  assumes "eth_pool_inv hs pool"
  shows "\<exists>n pool'. clear_slot d s pool = Some (n, pool') \<and> eth_pool_inv hs pool'"
proof -
  obtain n p where p: "clear_symbols s [0] pool = Some (n, p)" "eth_pool_inv hs p"
    using clear_symbols_spec [OF assms, of "[0]" s] by auto
  have "set [1..<14] \<subseteq> {..<14 :: nat}" by auto
  then obtain m q where "clear_symbols s [1..<14] p = Some (m, q)" "eth_pool_inv hs q"
    using clear_symbols_spec [OF p(2) distinct_upt, of 1 14 s] by blast
  then show ?thesis using p by (auto simp: clear_slot_def NOF_OFDM_SYM_PER_SLOT_NORMAL_CP_def)
qed

text \<open>The loop over the eAxCs when every message finds a buffer: all are sent, and a component of the state is updated in order.\<close>

lemma for_each_eaxc_all:
  assumes "\<And>e st. e \<in> set es \<Longrightarrow> \<exists>frame st'. enqueue e (pool e) st = Some (Some frame, st') \<and> f st' = upd e (f st)"
  shows "\<exists>frames st'. for_each_eaxc enqueue pool es st = Some (map Some frames, st') \<and> length frames = length es \<and>
    f st' = fold upd es (f st)"
  using assms
proof (induction es arbitrary: st)
  case (Cons e es)
  obtain frame st1 where 1: "enqueue e (pool e) st = Some (Some frame, st1)" "f st1 = upd e (f st)" using Cons.prems by fastforce
  obtain frames st2 where 2: "for_each_eaxc enqueue pool es st1 = Some (map Some frames, st2)" "length frames = length es"
    "f st2 = fold upd es (f st1)" using Cons.IH [of st1] Cons.prems by auto
  show ?case using 1 2 by (intro exI [of _ "frame # frames"] exI [of _ st2]) simp
qed simp

text \<open>Without a buffer nothing is sent and nothing is registered.\<close>

lemma for_each_eaxc_empty_pool:
  assumes "\<And>e st. e \<in> set es \<Longrightarrow> enqueue e None st = Some (None, st)"
  shows "for_each_eaxc enqueue (\<lambda>_. None) es st = Some (map (\<lambda>_. None) es, st)"
  using assms by (induction es) simp_all

definition command_context :: "nat \<Rightarrow> nat \<Rightarrow> nat \<Rightarrow> ul_cplane_context" where
  "command_context start stop prbs = \<lparr>ctx_filter_index = standard_channel_filter, ctx_start_symbol = of_nat start, ctx_prb_start = 0,
     ctx_nof_prb = of_nat prbs, ctx_nof_symbols = of_nat (stop - start)\<rparr>"

lemma uplink_command_enqueued:
  assumes v: "eth_params_wf (ctx_vlan tx)" and hdr: "control_header_ok tx"
    and buf: "eth_builder_header_size (ctx_vlan tx) + 24 \<le> length buffer" and e: "e < MAX_SUPPORTED_EAXC_ID_VALUE"
  shows "\<exists>frame st'. cplane_enqueue_section_type_1_message tx \<lparr>c1_slot = s, c1_eaxc = e, c1_filter_type = standard_channel_filter,
      c1_direction = uplink, c1_start_symbol = a, c1_stop_symbol = b\<rparr> (Some buffer) st = Some (Some frame, st') \<and>
    cs_ul_repo st' = ul_cplane_add s e (command_context a b (ctx_ru_nof_prbs tx)) (cs_ul_repo st)"
proof -
  let ?ctx = "\<lparr>c1_slot = s, c1_eaxc = e, c1_filter_type = standard_channel_filter, c1_direction = uplink, c1_start_symbol = a, c1_stop_symbol = b\<rparr>"
  let ?p = "generate_section1_control_parameters ?ctx (ctx_ru_nof_prbs tx) (ctx_ul_compr tx)"
  let ?msg = "build_dl_ul_radio_channel_message (ctx_serialize_header tx) ?p"
  have "length ?msg = 16"
    using hdr dynamic_header.length_ser static_header.length_ser
    by (auto simp: control_header_ok_def build_dl_ul_radio_channel_message_def serialize_section_1_def
        serialize_section1_extensions_def generate_section1_control_parameters_def)
  then show ?thesis
    using build_control_frame_eq [OF v _, of _ _ _ ?msg buffer] buf e
    by (auto simp: cplane_enqueue_section_type_1_message_def Let_def seq_generate_def generate_ecpri_control_parameters_def
        generate_section1_control_parameters_def init_radio_app_header_parameters_def init_common_section_0_1_3_5_fields_def
        command_context_def)
qed

text \<open>Every eAxC is commanded, under any slot with the same index.\<close>

lemma uplink_commands_sent:
  assumes v: "eth_params_wf (ctx_vlan tx)" "control_header_ok tx" and repo: "ul_cplane_repo_wf (cs_ul_repo st)"
    and es: "\<forall>e \<in> set es. e < MAX_SUPPORTED_EAXC_ID_VALUE \<and> (\<exists>b. pool e = Some b \<and> eth_builder_header_size (ctx_vlan tx) + 24 \<le> length b)"
  shows "\<exists>frames st'. for_each_eaxc (\<lambda>eaxc. cplane_enqueue_section_type_1_message tx \<lparr>c1_slot = s, c1_eaxc = eaxc,
      c1_filter_type = standard_channel_filter, c1_direction = uplink, c1_start_symbol = a, c1_stop_symbol = b\<rparr>) pool es st =
        Some (map Some frames, st') \<and> length frames = length es \<and>
    (\<forall>e t. e \<in> set es \<and> (\<forall>m. calculate_repository_index t m = calculate_repository_index s m) \<longrightarrow>
       ul_cplane_get t e (cs_ul_repo st') = command_context a b (ctx_ru_nof_prbs tx))"
proof -
  let ?add = "\<lambda>e. ul_cplane_add s e (command_context a b (ctx_ru_nof_prbs tx))"
  let ?enq = "\<lambda>eaxc. cplane_enqueue_section_type_1_message tx \<lparr>c1_slot = s, c1_eaxc = eaxc,
    c1_filter_type = standard_channel_filter, c1_direction = uplink, c1_start_symbol = a, c1_stop_symbol = b\<rparr>"
  have "\<exists>frame df'. ?enq e (pool e) df = Some (Some frame, df') \<and> cs_ul_repo df' = ?add e (cs_ul_repo df)" if "e \<in> set es" for e df
    using bspec [OF es that] uplink_command_enqueued [OF v] by auto
  from for_each_eaxc_all [of es ?enq pool cs_ul_repo ?add, OF this] obtain frames st' where
    st': "for_each_eaxc ?enq pool es st = Some (map Some frames, st')" "length frames = length es" "cs_ul_repo st' = fold ?add es (cs_ul_repo st)"
    by blast
  have "ul_cplane_get t e (cs_ul_repo st') = command_context a b (ctx_ru_nof_prbs tx)"
    if "e \<in> set es" "\<forall>m. calculate_repository_index t m = calculate_repository_index s m" for e t
    unfolding st'(3) by (rule ul_cplane.look_put_each [OF repo]) (use es that in auto)
  then show ?thesis using st' by blast
qed

lemma command_context_covers:
  assumes "stop \<le> 14" "prbs \<le> MAX_NOF_PRBS" "start \<le> k" "k < stop" "ul_cplane_get s e repo = command_context start stop prbs"
  shows "symbol_commanded s k prbs e repo"
  using assms by (simp add: symbol_commanded_def command_context_def unat_of_nat MAX_NOF_PRBS_def del: of_nat_diff)

text \<open>A new slot is registered with a fresh context for each of its symbols.\<close>

lemma new_slot_registered:
  assumes wf: "rx_repo_wf store repo" and p: "rx_pending repo = []" "0 < rx_capacity repo" and g: "g < length store"
    and new: "rx_find_registered (gc_slot ctx) repo = None" and b: "b \<le> MAX_NSYMB_PER_SLOT"
  shows "\<exists>repo'. process_pending_contexts store (rx_add ctx (Some g) a b repo) = Some repo' \<and> rx_repo_wf store repo' \<and>
    (\<forall>t k. rx_key t repo = rx_key (gc_slot ctx) repo \<and> a \<le> k \<and> k < b \<longrightarrow> rx_get t k repo' = new_context k ctx (Some g) store)"
proof -
  let ?t = "\<lparr>task_context = ctx, task_grid = Some g, task_start = a, task_stop = b\<rparr>"
  let ?r = "repo\<lparr>rx_pending := []\<rparr>"
  have r: "?r = repo" using p(1) by simp
  have ks: "\<forall>k \<in> set [a..<b]. k < MAX_NSYMB_PER_SLOT" using b by auto
  have shape: "rx_shape_wf repo" using rx_repo_wfD(1) [OF wf, of 0] by (simp add: MAX_NSYMB_PER_SLOT_def)
  obtain repo' where repo': "register_symbols ctx (Some g) store [a..<b] repo = Some repo'"
    and look: "\<And>t k. rx_look t k repo' = (if rx_key t repo = rx_key (gc_slot ctx) repo \<and> k \<in> set [a..<b] \<and>
      \<not> registered_for (gc_slot ctx) (rx_look t k repo) then the (new_context k ctx (Some g) store) else rx_look t k repo)"
    using register_symbols_spec [OF shape ks, of ctx g store] by blast
  have add: "process_pending_contexts store (rx_add ctx (Some g) a b repo) = Some repo'"
    using p repo' by (simp add: process_pending_contexts_def rx_add_def r run_add_task_def new)
  have wf': "rx_repo_wf store repo'"
    using process_pending_wf [OF rx_add_wf [OF wf] add] g by simp
  have "rx_get t k repo' = new_context k ctx (Some g) store" if "rx_key t repo = rx_key (gc_slot ctx) repo" "a \<le> k" "k < b" for t k
  proof -
    have k: "k < MAX_NSYMB_PER_SLOT" using that b by simp
    have "\<not> registered_for (gc_slot ctx) (rx_look t k repo)"
      using new k rx_look_cong [OF that(1)] by (auto simp: rx_find_registered_None)
    then have "rx_look t k repo' = the (new_context k ctx (Some g) store)" using that by (simp add: look)
    then show ?thesis using rx_entry_Some [OF k, of t repo'] by (simp add: rx_get_def new_context_def context_copy_def)
  qed
  then show ?thesis using add wf' by blast
qed

section \<open>Symbols of the handlers\<close>

definition tdd_config_wf :: "bool \<Rightarrow> tdd_ul_dl_config_common option \<Rightarrow> bool" where
  "tdd_config_wf extended_cp tdd \<longleftrightarrow> (case tdd of None \<Rightarrow> True | Some t \<Rightarrow> tdd_wf (get_nsymb_per_slot extended_cp) t)"

lemma uplink_symbol_range_wf:
  assumes "tdd_config_wf (uh_extended_cp cfg) (uh_tdd_config cfg)"
  shows "\<exists>start stop. uplink_symbol_range cfg s = Some (start, stop) \<and>
    (start = 0 \<and> stop = 0 \<or> start < stop \<and> unat stop = get_nsymb_per_slot (uh_extended_cp cfg))"
proof (cases "uh_tdd_config cfg")
  case None
  then show ?thesis by (auto simp: uplink_symbol_range_def ofdm_symbol_range_def get_nsymb_per_slot_def)
next
  case (Some tdd)
  then have "tdd_wf (get_nsymb_per_slot (uh_extended_cp cfg)) tdd" using assms by (simp add: tdd_config_wf_def)
  from active_symbols_disjoint [OF this, of "of_nat (slot_index s)"] show ?thesis using Some by (auto simp: uplink_symbol_range_def)
qed

lemma is_late_counted:
  "fst (is_late s c) \<Longrightarrow> is_late s c = (True, c\<lparr>tx_late_counter := tx_late_counter c + 1\<rparr>)"
  "\<not> fst (is_late s c) \<Longrightarrow> is_late s c = (False, c)"
  by (auto simp: is_late_def Let_def split: if_splits)

text \<open>The symbols a port sends are among those of its range.\<close>

lemma enqueue_symbols_subset:
  "enqueue_symbols cfg ctx grid pool ks gen = Some (out, gen') \<Longrightarrow> fst ` set out \<subseteq> set ks"
proof (induction ks arbitrary: gen out gen')
  case (Cons k ks)
  then show ?case by (fastforce split: option.splits bind_splits if_splits simp: Option.bind_eq_Some_conv)
qed simp

lemma downlink_ports_symbols:
  "downlink_ports cfg s r reader pool_cp pool_up ports cs gen = Some (sent, cs', gen') \<Longrightarrow> (control, symbols) \<in> set sent \<Longrightarrow>
   (k, frames) \<in> set symbols \<Longrightarrow> unat (fst r) \<le> k \<and> k < unat (snd r)"
proof (induction ports arbitrary: cs gen sent)
  case (Cons p ports)
  obtain c1 cs1 sy1 gen1 rest where 1: "enqueue_section_type_1_message_symbol_burst (dh_uplane cfg)
       \<lparr>ug_slot = s, ug_port = unat (of_nat p :: byte), ug_eaxc = unat (of_nat (dh_dl_eaxc cfg ! p) :: byte),
        ug_start_symbol = unat (fst r), ug_stop_symbol = unat (snd r), ug_section_id = 0\<rparr>
       (reader_get reader) (pool_up (dh_dl_eaxc cfg ! p)) gen = Some (sy1, gen1)"
    "downlink_ports cfg s r reader pool_cp pool_up ports cs1 gen1 = Some (rest, cs', gen')" "sent = (c1, sy1) # rest"
    using Cons.prems(1) by (auto simp: Let_def Option.bind_eq_Some_conv)
  show ?case
  proof (cases "(control, symbols) \<in> set rest")
    case True
    then show ?thesis using Cons.IH [OF 1(2)] Cons.prems(3) by blast
  next
    case False
    then have "(k, frames) \<in> set sy1" using Cons.prems(2,3) 1(3) by auto
    then show ?thesis using enqueue_symbols_subset [OF 1(1) [unfolded enqueue_section_type_1_message_symbol_burst_def]] by force
  qed
qed simp

section \<open>Correctness\<close>

text \<open>
  C5: an uplink request that is not late prepares the reception of its slot.  A Control-Plane message is sent to each
  uplink eAxC; each uplink symbol of the slot is registered with an empty context of the grid, and under the slot as the
  O-RU sends it back; the O-DU accepts the User-Plane messages of these symbols over the whole bandwidth on each eAxC; and
  the notifier awaits exactly these symbols.
\<close>

theorem uplink_slot_requested:
  assumes "tdd_config_wf (uh_extended_cp cfg) (uh_tdd_config cfg)" "sp_wf (gc_slot ctx)"
    and "eth_pool_inv hs (uh_frame_pool st)" "\<not> fst (is_late (gc_slot ctx) (uh_window_checker st))"
    and "rx_repo_wf store (uh_ul_slot_repo st)" "rx_pending (uh_ul_slot_repo st) = []" "0 < rx_capacity (uh_ul_slot_repo st)"
      "g < length store" "rx_find_registered (gc_slot ctx) (uh_ul_slot_repo st) = None"
    and "uh_notifier_symbol_repo st \<noteq> []" "ul_cplane_repo_wf (cs_ul_repo (uh_data_flow st))"
    and "eth_params_wf (ctx_vlan (uh_cplane cfg))" "control_header_ok (uh_cplane cfg)" "ctx_ru_nof_prbs (uh_cplane cfg) \<le> MAX_NOF_PRBS"
    and "\<forall>e \<in> set (uh_ul_eaxc cfg). e < MAX_SUPPORTED_EAXC_ID_VALUE \<and>
      (\<exists>b. pool e = Some b \<and> eth_builder_header_size (ctx_vlan (uh_cplane cfg)) + 24 \<le> length b)"
  shows "\<exists>frames st' repo' start stop. uplink_symbol_range cfg (gc_slot ctx) = Some (start, stop) \<and>
    handle_new_uplink_slot cfg ctx (Some g) pool st = Some (map Some frames, st') \<and> length frames = length (uh_ul_eaxc cfg) \<and>
    process_pending_contexts store (uh_ul_slot_repo st') = Some repo' \<and> rx_repo_wf store repo' \<and>
    (\<forall>k. unat start \<le> k \<and> k < unat stop \<longrightarrow>
       rx_get (wire_slot (gc_slot ctx)) k repo' = new_context k ctx (Some g) store \<and>
       (\<forall>e \<in> set (uh_ul_eaxc cfg).
          symbol_commanded (wire_slot (gc_slot ctx)) k (ctx_ru_nof_prbs (uh_cplane cfg)) e (cs_ul_repo (uh_data_flow st')))) \<and>
    (start < stop \<longrightarrow> entry_awaits (get_nsymb_per_slot (uh_extended_cp cfg)) {unat start..<unat stop}
       (uh_notifier_symbol_repo st' ! (count_val (gc_slot ctx) mod length (uh_notifier_symbol_repo st'))))"
proof -
  let ?s = "gc_slot ctx" and ?N = "ctx_ru_nof_prbs (uh_cplane cfg)" and ?n = "get_nsymb_per_slot (uh_extended_cp cfg)"
  obtain lates frame_pool where clear: "clear_slot False ?s (uh_frame_pool st) = Some (lates, frame_pool)"
    using clear_slot_total [OF assms(3)] by blast
  note late = is_late_counted(2) [OF assms(4)]
  obtain start stop where rng: "uplink_symbol_range cfg ?s = Some (start, stop)"
    "start = 0 \<and> stop = 0 \<or> start < stop \<and> unat stop = ?n" using uplink_symbol_range_wf [OF assms(1)] by blast
  have n: "?n \<le> 14" by (simp add: get_nsymb_per_slot_def)
  have stop: "unat stop \<le> 14" using rng(2) n by auto
  let ?enq = "\<lambda>eaxc. cplane_enqueue_section_type_1_message (uh_cplane cfg) \<lparr>c1_slot = ?s, c1_eaxc = eaxc,
    c1_filter_type = standard_channel_filter, c1_direction = uplink, c1_start_symbol = unat start, c1_stop_symbol = unat stop\<rparr>"
  obtain frames df where df: "for_each_eaxc ?enq pool (uh_ul_eaxc cfg) (uh_data_flow st) = Some (map Some frames, df)"
    "length frames = length (uh_ul_eaxc cfg)" "\<And>e t. e \<in> set (uh_ul_eaxc cfg) \<Longrightarrow>
      (\<And>m. calculate_repository_index t m = calculate_repository_index ?s m) \<Longrightarrow>
      ul_cplane_get t e (cs_ul_repo df) = command_context (unat start) (unat stop) ?N"
    using uplink_commands_sent [OF assms(12,13,11,15), of ?s "unat start" "unat stop"] by blast
  define st' where "st' = st\<lparr>uh_frame_pool := frame_pool, uh_nof_late_cp_ul := uh_nof_late_cp_ul st + of_nat lates,
    uh_ul_slot_repo := rx_add ctx (Some g) (unat start) (unat stop) (uh_ul_slot_repo st),
    uh_notifier_symbol_repo := notified_add ?s (unat start) (uh_extended_cp cfg) (uh_notifier_symbol_repo st), uh_data_flow := df\<rparr>"
  have handled: "handle_new_uplink_slot cfg ctx (Some g) pool st = Some (map Some frames, st')"
    by (simp add: handle_new_uplink_slot_def clear late rng(1) Let_def df(1) st'_def)
  obtain repo' where repo': "process_pending_contexts store (rx_add ctx (Some g) (unat start) (unat stop) (uh_ul_slot_repo st)) = Some repo'"
    "rx_repo_wf store repo'" "\<And>t k. rx_key t (uh_ul_slot_repo st) = rx_key ?s (uh_ul_slot_repo st) \<Longrightarrow> unat start \<le> k \<Longrightarrow> k < unat stop \<Longrightarrow>
      rx_get t k repo' = new_context k ctx (Some g) store"
    using new_slot_registered [OF assms(5-9), of "unat stop" "unat start"] stop unfolding MAX_NSYMB_PER_SLOT_def by blast
  have wire: "calculate_repository_index (wire_slot ?s) m = calculate_repository_index ?s m" for m using assms(2) by simp
  have cmd: "symbol_commanded (wire_slot ?s) k ?N e (cs_ul_repo df)" if "unat start \<le> k" "k < unat stop" "e \<in> set (uh_ul_eaxc cfg)" for k e
    by (rule command_context_covers [OF stop assms(14) that(1,2) df(3) [OF that(3) wire]])
  have "entry_awaits ?n {unat start..<unat stop} (uh_notifier_symbol_repo st' ! (count_val ?s mod length (uh_notifier_symbol_repo st')))"
    if "start < stop"
  proof -
    have "unat start < ?n" "unat stop = ?n" using rng(2) that by (auto simp: word_less_nat_alt)
    then show ?thesis using notified_add_awaits [OF _ assms(10)] by (simp add: st'_def notified_add_def Let_def)
  qed
  then show ?thesis using rng(1) handled df(2) repo' cmd wire by (intro exI [of _ frames] exI [of _ st'] exI [of _ repo'] exI [of _ start] exI [of _ stop])
      (simp add: st'_def)
qed

text \<open>The special slot of the usual pattern, requested from the two eAxCs 4 and 7 three symbols before its lateness.\<close>

definition sample_handler_config :: uplink_request_handler_config where
  "sample_handler_config =
     \<lparr>uh_is_prach_cp_enabled = True, uh_extended_cp = False, uh_tdd_config = Some tdd_7d2u, uh_prach_eaxc = [8], uh_ul_eaxc = [4, 7],
      uh_cplane = \<lparr>ctx_ru_nof_prbs = 2, ctx_fft_size = 12, ctx_dl_compr = \<lparr>compr_type = BFP, data_width = 9\<rparr>,
        ctx_ul_compr = \<lparr>compr_type = BFP, data_width = 9\<rparr>, ctx_prach_compr = \<lparr>compr_type = BFP, data_width = 9\<rparr>,
        ctx_vlan = du_vlan_params sample_du_config, ctx_serialize_header = serialize_compression_header_dynamic\<rparr>\<rparr>"

definition sample_frame_pool :: eth_frame_pool where
  "sample_frame_pool = replicate NUM_ENTRIES (frame_buffer_pool_init 2 64)"

definition sample_handler :: uplink_request_handler where
  "sample_handler =
     \<lparr>uh_window_checker = \<lparr>advance_time_in_symbols = 10, tx_nof_symbols = 14, tx_count_val = 85, tx_late_counter = 0\<rparr>,
      uh_ul_slot_repo = rx_grid_repo_init 4, uh_ul_prach_repo = prach_repo_init 4, uh_notifier_symbol_repo = replicate 4 0,
      uh_data_flow = \<lparr>cs_ul_repo = ul_cplane_repo_init 4, cs_prach_repo = ul_cplane_repo_init 4,
        cs_dl_seq_gen = seq_generator_init 0, cs_ul_seq_gen = seq_generator_init 0\<rparr>,
      uh_frame_pool = sample_frame_pool, uh_nof_late_cp_ul = 0, uh_errors = []\<rparr>"

lemma sample_frame_pool_inv: "eth_pool_inv (\<lambda>_. []) sample_frame_pool"
  using pool_inv_init [of 2 64] by (simp add: sample_frame_pool_def eth_pool_inv_def frame_buffer_pool_init_def Let_def)

lemma sample_handler_ok:
  "tdd_config_wf (uh_extended_cp sample_handler_config) (uh_tdd_config sample_handler_config)" "sp_wf sample_slot"
  "wire_slot sample_slot = sample_slot" "ul_cplane_repo_wf (ul_cplane_repo_init 4)"
  "eth_params_wf (ctx_vlan (uh_cplane sample_handler_config))" "control_header_ok (uh_cplane sample_handler_config)"
  "eth_builder_header_size (ctx_vlan (uh_cplane sample_handler_config)) = 14"
  "rx_repo_wf [sample_grid] (rx_grid_repo_init 4)"
proof -
  show "tdd_config_wf (uh_extended_cp sample_handler_config) (uh_tdd_config sample_handler_config)"
    using tdd_7d2u_wf by (simp add: tdd_config_wf_def sample_handler_config_def get_nsymb_per_slot_def)
  show "sp_wf sample_slot" "wire_slot sample_slot = sample_slot" by code_simp+
  show "ul_cplane_repo_wf (ul_cplane_repo_init 4)" by (simp add: ul_cplane_repo_wf_def ul_cplane_repo_init_def)
  show "eth_params_wf (ctx_vlan (uh_cplane sample_handler_config))" "control_header_ok (uh_cplane sample_handler_config)"
    "eth_builder_header_size (ctx_vlan (uh_cplane sample_handler_config)) = 14"
    by (simp_all add: sample_handler_config_def sample_du_config_def eth_params_wf_def control_header_ok_def compr_wf_def
        eth_builder_header_size_def eth_get_header_size_def ETH_HEADER_SIZE_def ECPRI_ETH_TYPE_def VLAN_TPID_def)
  show "rx_repo_wf [sample_grid] (rx_grid_repo_init 4)" by (rule rx_init_wf) simp
qed

text \<open>The slot starts at symbol 98 and is late from symbol 88 on.\<close>

lemma sample_window_lateness:
  "fst (is_late sample_slot \<lparr>advance_time_in_symbols = 10, tx_nof_symbols = 14, tx_count_val = 85, tx_late_counter = 0\<rparr>) = False"
  "fst (is_late sample_slot \<lparr>advance_time_in_symbols = 10, tx_nof_symbols = 14, tx_count_val = 90, tx_late_counter = 0\<rparr>) = True"
  by (simp_all add: is_late_def sample_slot_def slot_symbol_point_of_def ssp_minus_def ssp_plus_def ssp_less_def circular_less_def
      wrap_add_def nof_symbols_per_slot_wrap_def NOF_SFNS_def NOF_SUBFRAMES_PER_FRAME_def slots_per_subframe_def)

lemma sample_slot_in_time:
  "is_late sample_slot \<lparr>advance_time_in_symbols = 10, tx_nof_symbols = 14, tx_count_val = 85, tx_late_counter = 0\<rparr> =
     (False, \<lparr>advance_time_in_symbols = 10, tx_nof_symbols = 14, tx_count_val = 85, tx_late_counter = 0\<rparr>)"
  by (rule is_late_counted(2)) (simp add: sample_window_lateness)

theorem uplink_slot_requested_witness:
  "\<exists>f1 f2 st' repo'. handle_new_uplink_slot sample_handler_config \<lparr>gc_slot = sample_slot, gc_sector = 0\<rparr> (Some 0)
     (\<lambda>_. Some (replicate 64 0)) sample_handler = Some ([Some f1, Some f2], st') \<and>
   process_pending_contexts [sample_grid] (uh_ul_slot_repo st') = Some repo' \<and>
   rx_get sample_slot 12 repo' = new_context 12 \<lparr>gc_slot = sample_slot, gc_sector = 0\<rparr> (Some 0) [sample_grid] \<and>
   symbol_commanded sample_slot 12 2 7 (cs_ul_repo (uh_data_flow st'))"
proof -
  let ?cfg = sample_handler_config and ?ctx = "\<lparr>gc_slot = sample_slot, gc_sector = 0\<rparr>" and ?st = sample_handler
  have late: "\<not> fst (is_late sample_slot (uh_window_checker ?st))" using sample_window_lateness by (simp add: sample_handler_def)
  have rng: "uplink_symbol_range ?cfg sample_slot = Some (10, 14)" by code_simp
  have reg: "rx_find_registered sample_slot (rx_grid_repo_init 4) = None" by code_simp
  have e: "uh_ul_eaxc ?cfg = [4, 7]" "ctx_ru_nof_prbs (uh_cplane ?cfg) = 2" by (simp_all add: sample_handler_config_def)
  have r: "rx_pending (rx_grid_repo_init 4) = []" "rx_capacity (rx_grid_repo_init 4) = 4" by (simp_all add: rx_grid_repo_init_def)
  have st: "uh_ul_slot_repo ?st = rx_grid_repo_init 4" "uh_frame_pool ?st = sample_frame_pool" "uh_notifier_symbol_repo ?st = replicate 4 0"
    "cs_ul_repo (uh_data_flow ?st) = ul_cplane_repo_init 4" by (simp_all add: sample_handler_def)
  obtain frames st' repo' start stop where h: "uplink_symbol_range ?cfg (gc_slot ?ctx) = Some (start, stop)"
    "handle_new_uplink_slot ?cfg ?ctx (Some 0) (\<lambda>_. Some (replicate 64 0)) ?st = Some (map Some frames, st')" "length frames = 2"
    "process_pending_contexts [sample_grid] (uh_ul_slot_repo st') = Some repo'"
    "\<forall>k. unat start \<le> k \<and> k < unat stop \<longrightarrow>
       rx_get (wire_slot (gc_slot ?ctx)) k repo' = new_context k ?ctx (Some 0) [sample_grid] \<and>
       (\<forall>e \<in> set (uh_ul_eaxc ?cfg). symbol_commanded (wire_slot (gc_slot ?ctx)) k 2 e (cs_ul_repo (uh_data_flow st')))"
    using uplink_slot_requested [of ?cfg ?ctx "\<lambda>_. []" ?st "[sample_grid]" 0 "\<lambda>_. Some (replicate 64 0)"]
      sample_handler_ok sample_frame_pool_inv late reg
    by (auto simp: st e r MAX_NOF_PRBS_def MAX_SUPPORTED_EAXC_ID_VALUE_def)
  obtain f1 f2 where f: "frames = [f1, f2]" using h(3) by (auto simp: length_Suc_conv numeral_2_eq_2)
  have "start = 10" "stop = 14" using h(1) rng by simp_all
  then show ?thesis using h(2,4) spec [OF h(5), of 12] sample_handler_ok(3) by (auto simp: f e)
qed

text \<open>
  C20: a late request is dropped without effect on the data.  For the uplink, PRACH and downlink handlers alike, only the
  stale frames of the slot are cleared and counted, the lateness is counted and reported; no repository, sequence number
  or context changes, and nothing is sent.
\<close>

theorem late_requests_dropped:
  assumes "eth_pool_inv hs (uh_frame_pool st)" "eth_pool_inv hs (dh_frame_pool_dl_cp dst)" "eth_pool_inv hs (dh_frame_pool_dl_up dst)"
    and "fst (is_late (gc_slot ctx) (uh_window_checker st))" "fst (is_late (pbc_slot pctx) (uh_window_checker st))"
      "fst (is_late (gc_slot ctx) (dh_window_checker dst))"
    and "\<not> dh_stop_requested dst" "reader_nof_ports reader \<le> length (dh_dl_eaxc dcfg)" "\<not> reader_is_empty reader"
  shows "(\<exists>n q. clear_slot False (gc_slot ctx) (uh_frame_pool st) = Some (n, q) \<and>
      handle_new_uplink_slot cfg ctx grid pool st = Some ([], st\<lparr>uh_frame_pool := q, uh_nof_late_cp_ul := uh_nof_late_cp_ul st + of_nat n,
        uh_window_checker := (uh_window_checker st)\<lparr>tx_late_counter := tx_late_counter (uh_window_checker st) + 1\<rparr>,
        uh_errors := uh_errors st @ [on_late_uplink_message (gc_slot ctx) (gc_sector ctx)]\<rparr>)) \<and>
    (\<exists>n q. clear_slot False (pbc_slot pctx) (uh_frame_pool st) = Some (n, q) \<and>
      handle_prach_occasion cfg pctx buffer pool st = Some ([], st\<lparr>uh_frame_pool := q, uh_nof_late_cp_ul := uh_nof_late_cp_ul st + of_nat n,
        uh_window_checker := (uh_window_checker st)\<lparr>tx_late_counter := tx_late_counter (uh_window_checker st) + 1\<rparr>,
        uh_errors := uh_errors st @ [on_late_prach_message (pbc_slot pctx) (pbc_sector pctx)]\<rparr>)) \<and>
    (\<exists>n q m r. clear_slot True (gc_slot ctx) (dh_frame_pool_dl_cp dst) = Some (n, q) \<and>
      clear_slot False (gc_slot ctx) (dh_frame_pool_dl_up dst) = Some (m, r) \<and>
      handle_dl_data dcfg ctx reader pool_cp pool_up dst = Some ([], dst\<lparr>dh_frame_pool_dl_cp := q, dh_frame_pool_dl_up := r,
        dh_nof_late_cp_dl := dh_nof_late_cp_dl dst + of_nat n, dh_nof_late_up_dl := dh_nof_late_up_dl dst + of_nat m,
        dh_window_checker := (dh_window_checker dst)\<lparr>tx_late_counter := tx_late_counter (dh_window_checker dst) + 1\<rparr>,
        dh_errors := dh_errors dst @ [on_late_downlink_message (gc_slot ctx) (dh_sector_id dcfg)]\<rparr>))"
proof (intro conjI)
  note l = is_late_counted(1) [OF assms(4)] is_late_counted(1) [OF assms(5)] is_late_counted(1) [OF assms(6)]
  show "\<exists>n q. clear_slot False (gc_slot ctx) (uh_frame_pool st) = Some (n, q) \<and>
      handle_new_uplink_slot cfg ctx grid pool st = Some ([], st\<lparr>uh_frame_pool := q, uh_nof_late_cp_ul := uh_nof_late_cp_ul st + of_nat n,
        uh_window_checker := (uh_window_checker st)\<lparr>tx_late_counter := tx_late_counter (uh_window_checker st) + 1\<rparr>,
        uh_errors := uh_errors st @ [on_late_uplink_message (gc_slot ctx) (gc_sector ctx)]\<rparr>)"
    using clear_slot_total [OF assms(1), of False "gc_slot ctx"] l(1) by (auto simp: handle_new_uplink_slot_def Let_def)
  show "\<exists>n q. clear_slot False (pbc_slot pctx) (uh_frame_pool st) = Some (n, q) \<and>
      handle_prach_occasion cfg pctx buffer pool st = Some ([], st\<lparr>uh_frame_pool := q, uh_nof_late_cp_ul := uh_nof_late_cp_ul st + of_nat n,
        uh_window_checker := (uh_window_checker st)\<lparr>tx_late_counter := tx_late_counter (uh_window_checker st) + 1\<rparr>,
        uh_errors := uh_errors st @ [on_late_prach_message (pbc_slot pctx) (pbc_sector pctx)]\<rparr>)"
    using clear_slot_total [OF assms(1), of False "pbc_slot pctx"] l(2) by (auto simp: handle_prach_occasion_def Let_def)
  show "\<exists>n q m r. clear_slot True (gc_slot ctx) (dh_frame_pool_dl_cp dst) = Some (n, q) \<and>
      clear_slot False (gc_slot ctx) (dh_frame_pool_dl_up dst) = Some (m, r) \<and>
      handle_dl_data dcfg ctx reader pool_cp pool_up dst = Some ([], dst\<lparr>dh_frame_pool_dl_cp := q, dh_frame_pool_dl_up := r,
        dh_nof_late_cp_dl := dh_nof_late_cp_dl dst + of_nat n, dh_nof_late_up_dl := dh_nof_late_up_dl dst + of_nat m,
        dh_window_checker := (dh_window_checker dst)\<lparr>tx_late_counter := tx_late_counter (dh_window_checker dst) + 1\<rparr>,
        dh_errors := dh_errors dst @ [on_late_downlink_message (gc_slot ctx) (dh_sector_id dcfg)]\<rparr>)"
    using clear_slot_total [OF assms(2), of True "gc_slot ctx"] clear_slot_total [OF assms(3), of False "gc_slot ctx"] l(3) assms(7-9)
    by (auto simp: handle_dl_data_def Let_def)
qed


section \<open>PRACH occasions\<close>

definition prach_command_context :: "cplane_prach_context \<Rightarrow> ul_cplane_context" where
  "prach_command_context p = \<lparr>ctx_filter_index = c3_filter_type p, ctx_start_symbol = of_nat (c3_start_symbol p), ctx_prb_start = 0,
     ctx_nof_prb = of_nat (c3_prach_nof_rb p), ctx_nof_symbols = of_nat (c3_nof_repetitions p)\<rparr>"

lemma prach_command_enqueued:
  assumes v: "eth_params_wf (ctx_vlan tx)" and hdr: "control_header_ok tx"
    and buf: "eth_builder_header_size (ctx_vlan tx) + 32 \<le> length buffer" and e: "c3_eaxc p < MAX_SUPPORTED_EAXC_ID_VALUE"
  shows "\<exists>frame st'. cplane_enqueue_section_type_3_prach_message tx p (Some buffer) st = Some (Some frame, st') \<and>
    cs_prach_repo st' = ul_cplane_add (c3_slot p) (c3_eaxc p) (prach_command_context p) (cs_prach_repo st)"
proof -
  let ?p = "generate_prach_control_parameters p (ctx_prach_compr tx) (ctx_ru_nof_prbs tx) (ctx_fft_size tx)"
  let ?msg = "build_prach_mixed_numerology_message (ctx_serialize_header tx) ?p"
  have "length ?msg = 24"
    using hdr dynamic_header.length_ser static_header.length_ser
    by (auto simp: control_header_ok_def build_prach_mixed_numerology_message_def serialize_section_3_def
        generate_prach_control_parameters_def Let_def)
  moreover have "filter_index (t3_radio_hdr ?p) = c3_filter_type p" "start_symbol (t3_radio_hdr ?p) = c3_start_symbol p"
    "prb_start (t3_section ?p) = 0" "nof_prb (t3_section ?p) = c3_prach_nof_rb p" "nof_symbols (t3_section ?p) = c3_nof_repetitions p"
    by (simp_all add: generate_prach_control_parameters_def Let_def init_radio_app_header_parameters_def init_common_section_0_1_3_5_fields_def)
  ultimately show ?thesis
    using build_control_frame_eq [OF v _, of _ _ _ ?msg buffer] buf e
    by (auto simp: cplane_enqueue_section_type_3_prach_message_def Let_def seq_generate_def generate_ecpri_control_parameters_def
        prach_command_context_def)
qed

lemma prach_commands_sent:
  assumes v: "eth_params_wf (ctx_vlan tx)" "control_header_ok tx" and repo: "ul_cplane_repo_wf (cs_prach_repo st)"
    and es: "\<forall>e \<in> set es. e < MAX_SUPPORTED_EAXC_ID_VALUE \<and> (\<exists>b. pool e = Some b \<and> eth_builder_header_size (ctx_vlan tx) + 32 \<le> length b)"
  shows "\<exists>frames st'. for_each_eaxc (\<lambda>eaxc. cplane_enqueue_section_type_3_prach_message tx (p\<lparr>c3_eaxc := eaxc\<rparr>)) pool es st =
        Some (map Some frames, st') \<and> length frames = length es \<and>
    (\<forall>e t. e \<in> set es \<and> (\<forall>m. calculate_repository_index t m = calculate_repository_index (c3_slot p) m) \<longrightarrow>
       ul_cplane_get t e (cs_prach_repo st') = prach_command_context p)"
proof -
  let ?add = "\<lambda>e. ul_cplane_add (c3_slot p) e (prach_command_context p)"
  let ?enq = "\<lambda>eaxc. cplane_enqueue_section_type_3_prach_message tx (p\<lparr>c3_eaxc := eaxc\<rparr>)"
  have "\<exists>frame df'. ?enq e (pool e) df = Some (Some frame, df') \<and> cs_prach_repo df' = ?add e (cs_prach_repo df)" if "e \<in> set es" for e df
    using bspec [OF es that] prach_command_enqueued [OF v, of _ "p\<lparr>c3_eaxc := e\<rparr>" df] by (auto simp: prach_command_context_def)
  from for_each_eaxc_all [of es ?enq pool cs_prach_repo ?add, OF this] obtain frames st' where
    st': "for_each_eaxc ?enq pool es st = Some (map Some frames, st')" "length frames = length es" "cs_prach_repo st' = fold ?add es (cs_prach_repo st)"
    by blast
  have "ul_cplane_get t e (cs_prach_repo st') = prach_command_context p"
    if "e \<in> set es" "\<forall>m. calculate_repository_index t m = calculate_repository_index (c3_slot p) m" for e t
    unfolding st'(3) by (rule ul_cplane.look_put_each [OF repo]) (use es that in auto)
  then show ?thesis using st' by blast
qed

text \<open>The preamble of a short format starts within the first symbol, so that no symbol is skipped.\<close>

lemma short_preamble_bounds:
  assumes "get_prach_preamble_short_info f scs lo = Some info"
  shows "preamble_cp_length info div drop_bit (ra_numerology_value scs) 2192 = 0" "preamble_nof_symbols info \<le> 12" "preamble_scs info = scs"
proof -
  have s: "is_short_preamble_scs scs" using assms by (auto simp: get_prach_preamble_short_info_def split: if_splits)
  then have scs: "scs \<in> {ra_kHz15, ra_kHz30, ra_kHz60, ra_kHz120}" by (cases scs) (auto simp: is_short_preamble_scs_def)
  show "preamble_cp_length info div drop_bit (ra_numerology_value scs) 2192 = 0" "preamble_nof_symbols info \<le> 12" "preamble_scs info = scs"
    using assms scs by (cases f; cases lo; auto simp: get_prach_preamble_short_info_def Let_def drop_bit_eq_div split: if_splits)+
qed

lemma long_preamble_bounds:
  assumes "get_prach_preamble_long_info f = Some info"
  shows "preamble_cp_length info div 2192 \<le> 9" "preamble_nof_symbols info \<le> 12"
  using assms by (auto simp: get_prach_preamble_long_info_def split: if_splits prach_format_type.splits)

text \<open>The registered window and the command agree on the symbols of the preamble.\<close>

lemma prach_symbols_agree:
  assumes c: "new_prach_context ctx (Some b) start_opt store = Some c"
    and opt: "(if is_short_preamble (pbc_format ctx) then Some None else map_option Some (get_prach_start_symbol ctx)) = Some start_opt"
    and start: "pbc_start_symbol ctx < 14"
  shows "\<exists>p. \<forall>e. prach_cplane_context ctx e = Some (p\<lparr>c3_eaxc := e\<rparr>) \<and> c3_slot p = pbc_slot ctx \<and>
    unat (ctx_start_symbol (prach_command_context p)) = pc_start_symbol c \<and>
    unat (ctx_nof_symbols (prach_command_context p)) = pc_nof_symbols c \<and>
    (ctx_filter_index (prach_command_context p) = ul_prach_preamble_1p25khz \<longrightarrow> is_long_preamble (pbc_format ctx))"
proof -
  obtain info where info: "preamble_info_of ctx = Some info" and pc: "pc_nof_symbols c = preamble_nof_symbols info"
    "pc_start_symbol c = (case start_opt of Some s \<Rightarrow> s | None \<Rightarrow> pbc_start_symbol ctx)"
    using c by (auto simp: new_prach_context_def Let_def Option.bind_eq_Some_conv split: if_splits)
  obtain n where n: "get_prach_start_symbol ctx = Some n" using info by (auto simp: get_prach_start_symbol_def Let_def)
  have b: "n = pc_start_symbol c \<and> n \<le> 22 \<and> preamble_nof_symbols info \<le> 12"
  proof (cases "is_short_preamble (pbc_format ctx)")
    case True
    then have "get_prach_preamble_short_info (pbc_format ctx) (to_ra_subcarrier_spacing (pbc_pusch_scs ctx)) True = Some info"
      using info by (simp add: preamble_info_of_def is_short_preamble_def)
    note s = short_preamble_bounds [OF this]
    show ?thesis using True s opt n pc(2) info start by (auto simp: get_prach_start_symbol_def Let_def)
  next
    case False
    then have "get_prach_preamble_long_info (pbc_format ctx) = Some info"
      using info by (auto simp: preamble_info_of_def is_short_preamble_def get_prach_preamble_short_info_def split: if_splits)
    note l = long_preamble_bounds [OF this]
    show ?thesis using False l opt n pc(2) info start by (auto simp: get_prach_start_symbol_def Let_def)
  qed
  show ?thesis
    using info n b pc(1)
    by (intro exI [of _ "the (prach_cplane_context ctx 0)"])
      (auto simp: prach_cplane_context_def Let_def prach_command_context_def unat_of_nat get_prach_cplane_filter_index_def split: if_splits)
qed

lemma accepted_prach_symbol:
  assumes "unat (ctx_start_symbol cp) = pc_start_symbol c" "unat (ctx_nof_symbols cp) = pc_nof_symbols c"
    and "ctx_filter_index cp = ul_prach_preamble_1p25khz \<longrightarrow> is_long_preamble (pbc_format (pc_context c))" "pc_start_symbol c + j < 2 ^ 32"
  shows "is_prach_start_symbol_valid ignore cp k \<Longrightarrow> k < MAX_NSYMB_PER_SLOT \<Longrightarrow> prach_symbol_in_buffer c k < pc_nof_symbols c"
    and "j < pc_nof_symbols c \<Longrightarrow> is_prach_start_symbol_valid ignore cp (pc_start_symbol c + j) \<and>
      prach_symbol_in_buffer c (pc_start_symbol c + j) = j"
  using assms
  by (auto simp: is_prach_start_symbol_valid_def is_symbol_index_in_cplane_valid_def prach_symbol_in_buffer_def unsigned_minus_def
      MAX_NSYMB_PER_SLOT_def Let_def nat_less_iff split: if_splits)


text \<open>The window of format C0 of the sample context, one symbol long, requested in time.\<close>

lemma sample_prach_window: "fst (is_late sample_prach_slot \<lparr>advance_time_in_symbols = 10, tx_nof_symbols = 14, tx_count_val = 40, tx_late_counter = 0\<rparr>) = False"
  by (simp add: is_late_def sample_prach_slot_def slot_point_count_def slot_symbol_point_of_def ssp_minus_def ssp_plus_def ssp_less_def
      circular_less_def wrap_add_def nof_symbols_per_slot_wrap_def NOF_SFNS_def NOF_SUBFRAMES_PER_FRAME_def slots_per_subframe_def)


text \<open>A downlink handler of one port with the same TDD configuration.\<close>

definition sample_downlink_config :: "nat downlink_handler_config" where
  "sample_downlink_config =
     \<lparr>dh_sector_id = 0, dh_extended_cp = False, dh_tdd_config = Some tdd_7d2u, dh_dl_eaxc = [3], dh_cplane = uh_cplane sample_handler_config,
      dh_uplane = \<lparr>utx_nof_symbols = 14, utx_ru_nof_prbs = 1, utx_compr_params = \<lparr>compr_type = BFP, data_width = 9\<rparr>, utx_direction = downlink,
        utx_vlan = du_vlan_params sample_du_config, utx_compress = (\<lambda>iq c. replicate 28 0),
        utx_serialize_header = up_serialize_compression_header_dynamic, utx_up_header_size = up_get_header_size_dynamic, utx_zero = 0\<rparr>\<rparr>"

definition sample_downlink_handler :: "nat \<Rightarrow> downlink_handler" where
  "sample_downlink_handler symbol =
     \<lparr>dh_stop_requested = False,
      dh_window_checker = \<lparr>advance_time_in_symbols = 10, tx_nof_symbols = 14, tx_count_val = symbol, tx_late_counter = 0\<rparr>,
      dh_data_flow_cplane = uh_data_flow sample_handler, dh_data_flow_uplane = seq_generator_init 0,
      dh_frame_pool_dl_cp = sample_frame_pool, dh_frame_pool_dl_up = sample_frame_pool, dh_nof_late_cp_dl = 0, dh_nof_late_up_dl = 0,
      dh_errors = []\<rparr>"

definition sample_reader :: "nat resource_grid_reader" where
  "sample_reader = \<lparr>reader_nof_ports = 1, reader_nof_symbols = 14, reader_is_empty = False, reader_get = (\<lambda>_ _. replicate 12 0)\<rparr>"

theorem late_requests_dropped_witness:
  "let late = sample_handler\<lparr>uh_window_checker := \<lparr>advance_time_in_symbols = 10, tx_nof_symbols = 14, tx_count_val = 90, tx_late_counter = 0\<rparr>\<rparr>;
       ctx = \<lparr>gc_slot = sample_slot, gc_sector = 0\<rparr>
   in (\<exists>st'. handle_new_uplink_slot sample_handler_config ctx (Some 0) (\<lambda>_. None) late = Some ([], st') \<and>
        uh_errors st' = [on_late_uplink_message sample_slot 0] \<and> uh_ul_slot_repo st' = rx_grid_repo_init 4) \<and>
      (\<exists>dst'. handle_dl_data sample_downlink_config ctx sample_reader (\<lambda>_. None) (\<lambda>_ _. []) (sample_downlink_handler 90) = Some ([], dst') \<and>
        dh_errors dst' = [on_late_downlink_message sample_slot 0] \<and> tx_late_counter (dh_window_checker dst') = 1)"
proof -
  let ?late = "sample_handler\<lparr>uh_window_checker := \<lparr>advance_time_in_symbols = 10, tx_nof_symbols = 14, tx_count_val = 90, tx_late_counter = 0\<rparr>\<rparr>"
  let ?ctx = "\<lparr>gc_slot = sample_slot, gc_sector = 0\<rparr>" and ?pctx = "sample_prach_context\<lparr>pbc_slot := sample_slot\<rparr>"
  have st: "uh_frame_pool ?late = sample_frame_pool" "uh_errors ?late = []" "uh_ul_slot_repo ?late = rx_grid_repo_init 4"
    "uh_window_checker ?late = \<lparr>advance_time_in_symbols = 10, tx_nof_symbols = 14, tx_count_val = 90, tx_late_counter = 0\<rparr>"
    "pbc_slot ?pctx = sample_slot" by (simp_all add: sample_handler_def)
  have d: "dh_frame_pool_dl_cp (sample_downlink_handler 90) = sample_frame_pool" "dh_frame_pool_dl_up (sample_downlink_handler 90) = sample_frame_pool"
    "dh_window_checker (sample_downlink_handler 90) = \<lparr>advance_time_in_symbols = 10, tx_nof_symbols = 14, tx_count_val = 90, tx_late_counter = 0\<rparr>"
    "\<not> dh_stop_requested (sample_downlink_handler 90)" "dh_errors (sample_downlink_handler 90) = []"
    "reader_nof_ports sample_reader \<le> length (dh_dl_eaxc sample_downlink_config)" "\<not> reader_is_empty sample_reader" "dh_sector_id sample_downlink_config = 0"
    by (simp_all add: sample_downlink_handler_def sample_reader_def sample_downlink_config_def)
  show ?thesis
    using late_requests_dropped [where hs = "\<lambda>_. []" and st = ?late and dst = "sample_downlink_handler 90" and ctx = ?ctx and pctx = ?pctx and
        reader = sample_reader and dcfg = sample_downlink_config and cfg = sample_handler_config and grid = "Some 0" and pool = "\<lambda>_. None" and
        pool_cp = "\<lambda>_. None" and pool_up = "\<lambda>_ _. []" and buffer = None, unfolded st d resource_grid_context.simps,
        OF sample_frame_pool_inv sample_frame_pool_inv sample_frame_pool_inv] sample_window_lateness(2) d(4,6,7) st
    by (auto simp: Let_def d)
qed

text \<open>In the special slot the handler sends the symbols 0 to 5 of its port, and the symbols 10 to 13 are requested.\<close>

lemma sample_downlink_sent:
  "\<exists>sent dst' control symbols frames. handle_dl_data sample_downlink_config \<lparr>gc_slot = sample_slot, gc_sector = 0\<rparr> sample_reader (\<lambda>_. None)
      (\<lambda>_ _. [replicate 80 0]) (sample_downlink_handler 85) = Some (sent, dst') \<and> (control, symbols) \<in> set sent \<and> (5, frames) \<in> set symbols"
proof -
  let ?d = "sample_downlink_handler 85" and ?cfg = sample_downlink_config
  have d: "dh_frame_pool_dl_cp ?d = sample_frame_pool" "dh_frame_pool_dl_up ?d = sample_frame_pool" "\<not> dh_stop_requested ?d"
    "dh_window_checker ?d = \<lparr>advance_time_in_symbols = 10, tx_nof_symbols = 14, tx_count_val = 85, tx_late_counter = 0\<rparr>"
    "dh_data_flow_uplane ?d = seq_generator_init 0"
    "reader_nof_ports sample_reader = 1" "length (dh_dl_eaxc ?cfg) = 1" "\<not> reader_is_empty sample_reader"
    by (simp_all add: sample_downlink_handler_def sample_reader_def sample_downlink_config_def)
  obtain n p m q where c: "clear_slot True sample_slot sample_frame_pool = Some (n, p)" "clear_slot False sample_slot sample_frame_pool = Some (m, q)"
    using clear_slot_total [OF sample_frame_pool_inv] by blast
  have rng: "downlink_symbol_range ?cfg sample_slot sample_reader = Some (0, 6)" by code_simp
  let ?burst = "enqueue_section_type_1_message_symbol_burst (dh_uplane ?cfg)
    \<lparr>ug_slot = sample_slot, ug_port = 0, ug_eaxc = 3, ug_start_symbol = 0, ug_stop_symbol = 6, ug_section_id = 0\<rparr>
    (reader_get sample_reader) (\<lambda>_. [replicate 80 0]) (seq_generator_init 0)"
  have "(case ?burst of Some (sy, g) \<Rightarrow> map fst sy = [0..<6] | None \<Rightarrow> False)" by code_simp
  then obtain sy g where sy: "?burst = Some (sy, g)" "map fst sy = [0..<6]" by (auto split: option.splits)
  have "5 \<in> set (map fst sy)" by (simp add: sy(2))
  then obtain frames where "(5, frames) \<in> set sy" by auto
  moreover have "dh_dl_eaxc ?cfg ! 0 = 3" by (simp add: sample_downlink_config_def)
  then have "downlink_ports ?cfg sample_slot (0, 6) sample_reader (\<lambda>_. None) (\<lambda>_ _. [replicate 80 0]) [0] cs (seq_generator_init 0) =
      Some ([(None, sy)], cs, g)" for cs
    using sy(1) by (simp add: cplane_enqueue_section_type_1_message_def)
  then have "\<exists>dst'. handle_dl_data ?cfg \<lparr>gc_slot = sample_slot, gc_sector = 0\<rparr> sample_reader (\<lambda>_. None) (\<lambda>_ _. [replicate 80 0]) ?d =
      Some ([(None, sy)], dst')"
    using d by (simp add: handle_dl_data_def c Let_def rng sample_slot_in_time del: downlink_ports.simps)
  ultimately show ?thesis by fastforce
qed


section \<open>Safety of the uplink handler\<close>

definition cplane_state_wf :: "cplane_tx_state \<Rightarrow> bool" where
  "cplane_state_wf st \<longleftrightarrow> ul_cplane_repo_wf (cs_ul_repo st) \<and> ul_cplane_repo_wf (cs_prach_repo st) \<and>
     length (cs_dl_seq_gen st) = MAX_SUPPORTED_EAXC_ID_VALUE \<and> length (cs_ul_seq_gen st) = MAX_SUPPORTED_EAXC_ID_VALUE"

definition uplink_handler_wf :: "(nat \<Rightarrow> nat list) \<Rightarrow> 'iq grid_store \<Rightarrow> uplink_request_handler \<Rightarrow> bool" where
  "uplink_handler_wf hs store st \<longleftrightarrow>
     eth_pool_inv hs (uh_frame_pool st) \<and> rx_repo_wf store (uh_ul_slot_repo st) \<and> prach_repo_wf (uh_ul_prach_repo st) \<and>
     uh_notifier_symbol_repo st \<noteq> [] \<and> cplane_state_wf (uh_data_flow st)"

definition uplink_handler_config_wf :: "uplink_request_handler_config \<Rightarrow> bool" where
  "uplink_handler_config_wf cfg \<longleftrightarrow>
     tdd_config_wf (uh_extended_cp cfg) (uh_tdd_config cfg) \<and> eth_params_wf (ctx_vlan (uh_cplane cfg)) \<and>
     control_header_ok (uh_cplane cfg) \<and> (\<forall>e \<in> set (uh_ul_eaxc cfg) \<union> set (uh_prach_eaxc cfg). e < MAX_SUPPORTED_EAXC_ID_VALUE)"

text \<open>The messages keep the state of the data flow, whether or not they find a buffer.\<close>

lemma type_1_message_wf:
  assumes "cplane_enqueue_section_type_1_message tx ctx pool st = Some (frame, st')" "cplane_state_wf st"
  shows "cplane_state_wf st'"
  using assms ul_cplane.inv_put
  by (cases pool; cases "c1_direction ctx")
    (auto simp: cplane_enqueue_section_type_1_message_def Let_def seq_generate_def cplane_state_wf_def Option.bind_eq_Some_conv split: if_splits)

lemma type_3_message_wf:
  assumes "cplane_enqueue_section_type_3_prach_message tx ctx pool st = Some (frame, st')" "cplane_state_wf st"
  shows "cplane_state_wf st'"
  using assms ul_cplane.inv_put
  by (cases pool)
    (auto simp: cplane_enqueue_section_type_3_prach_message_def Let_def seq_generate_def cplane_state_wf_def Option.bind_eq_Some_conv split: if_splits)

lemma for_each_eaxc_invariant:
  assumes "\<And>e st. e \<in> set es \<Longrightarrow> P st \<Longrightarrow> \<exists>frame st'. enqueue e (pool e) st = Some (frame, st') \<and> P st'" "P st"
  shows "\<exists>frames st'. for_each_eaxc enqueue pool es st = Some (frames, st') \<and> P st'"
  using assms
proof (induction es arbitrary: st)
  case (Cons e es)
  obtain frame st1 where 1: "enqueue e (pool e) st = Some (frame, st1)" "P st1" using Cons.prems by fastforce
  obtain frames st2 where "for_each_eaxc enqueue pool es st1 = Some (frames, st2)" "P st2" using Cons.IH [OF _ 1(2)] Cons.prems(1) by auto
  then show ?case using 1 by simp
qed simp

lemmas uplink_wf_defs = uplink_handler_config_wf_def uplink_handler_wf_def

lemma uplink_slot_safe:
  assumes "uplink_handler_config_wf cfg" "uplink_handler_wf hs store st"
    and "\<forall>e b. pool e = Some b \<longrightarrow> eth_builder_header_size (ctx_vlan (uh_cplane cfg)) + 32 \<le> length b"
    and "g < length store"
  shows "\<exists>frames st'. handle_new_uplink_slot cfg ctx (Some g) pool st = Some (frames, st') \<and> uplink_handler_wf hs store st'"
proof -
  have c: "tdd_config_wf (uh_extended_cp cfg) (uh_tdd_config cfg)" "eth_params_wf (ctx_vlan (uh_cplane cfg))" "control_header_ok (uh_cplane cfg)"
    "\<And>e. e \<in> set (uh_ul_eaxc cfg) \<or> e \<in> set (uh_prach_eaxc cfg) \<Longrightarrow> e < MAX_SUPPORTED_EAXC_ID_VALUE"
    using assms(1) by (auto simp: uplink_wf_defs)
  have wf: "eth_pool_inv hs (uh_frame_pool st)" "rx_repo_wf store (uh_ul_slot_repo st)" "prach_repo_wf (uh_ul_prach_repo st)"
    "uh_notifier_symbol_repo st \<noteq> []" "cplane_state_wf (uh_data_flow st)" using assms(2) by (simp_all add: uplink_wf_defs)
  let ?s = "gc_slot ctx"
  obtain n q where q: "clear_slot False ?s (uh_frame_pool st) = Some (n, q)" "eth_pool_inv hs q" using clear_slot_total [OF wf(1)] by blast
  obtain a b where rng: "uplink_symbol_range cfg ?s = Some (a, b)" using uplink_symbol_range_wf [OF c(1)] by blast
  let ?enq = "\<lambda>eaxc. cplane_enqueue_section_type_1_message (uh_cplane cfg) \<lparr>c1_slot = ?s, c1_eaxc = eaxc,
    c1_filter_type = standard_channel_filter, c1_direction = uplink, c1_start_symbol = unat a, c1_stop_symbol = unat b\<rparr>"
  have "\<exists>frame df'. ?enq e (pool e) df = Some (frame, df') \<and> cplane_state_wf df'" if "e \<in> set (uh_ul_eaxc cfg)" "cplane_state_wf df" for e df
  proof (cases "pool e")
    case None
    then show ?thesis using that(2) by (simp add: cplane_enqueue_section_type_1_message_def)
  next
    case (Some buf)
    then show ?thesis using uplink_command_enqueued [OF c(2,3), of buf e ?s "unat a" "unat b" df] assms(3) [rule_format, OF Some] c(4) that type_1_message_wf
      by fastforce
  qed
  then obtain frames df where "for_each_eaxc ?enq pool (uh_ul_eaxc cfg) (uh_data_flow st) = Some (frames, df)" "cplane_state_wf df"
    using for_each_eaxc_invariant [of "uh_ul_eaxc cfg" cplane_state_wf ?enq pool] wf(5) by blast
  then show ?thesis
    using wf q rng rx_add_wf [OF wf(2) assms(4), of ctx "unat a" "unat b"]
    by (cases "is_late ?s (uh_window_checker st)") (auto simp: handle_new_uplink_slot_def Let_def uplink_wf_defs notified_add_def)
qed

lemma prach_occasion_safe:
  assumes "uplink_handler_config_wf cfg" "uplink_handler_wf hs store st"
    and "\<forall>e b. pool e = Some b \<longrightarrow> eth_builder_header_size (ctx_vlan (uh_cplane cfg)) + 32 \<le> length b"
    and "preamble_info_of pctx \<noteq> None"
  shows "\<exists>frames st'. handle_prach_occasion cfg pctx buffer pool st = Some (frames, st') \<and> uplink_handler_wf hs store st'"
proof -
  have c: "tdd_config_wf (uh_extended_cp cfg) (uh_tdd_config cfg)" "eth_params_wf (ctx_vlan (uh_cplane cfg))" "control_header_ok (uh_cplane cfg)"
    "\<And>e. e \<in> set (uh_ul_eaxc cfg) \<or> e \<in> set (uh_prach_eaxc cfg) \<Longrightarrow> e < MAX_SUPPORTED_EAXC_ID_VALUE"
    using assms(1) by (auto simp: uplink_wf_defs)
  have wf: "eth_pool_inv hs (uh_frame_pool st)" "rx_repo_wf store (uh_ul_slot_repo st)" "prach_repo_wf (uh_ul_prach_repo st)"
    "uh_notifier_symbol_repo st \<noteq> []" "cplane_state_wf (uh_data_flow st)" using assms(2) by (simp_all add: uplink_wf_defs)
  let ?s = "pbc_slot pctx"
  obtain n q where q: "clear_slot False ?s (uh_frame_pool st) = Some (n, q)" "eth_pool_inv hs q" using clear_slot_total [OF wf(1)] by blast
  obtain k where k: "get_prach_start_symbol pctx = Some k" using assms(4) by (auto simp: get_prach_start_symbol_def Let_def)
  obtain p where p: "prach_cplane_context pctx 0 = Some p" using assms(4) k by (auto simp: prach_cplane_context_def Let_def)
  let ?enq = "\<lambda>eaxc. cplane_enqueue_section_type_3_prach_message (uh_cplane cfg) (p\<lparr>c3_eaxc := eaxc\<rparr>)"
  have "\<exists>frame df'. ?enq e (pool e) df = Some (frame, df') \<and> cplane_state_wf df'" if "e \<in> set (uh_prach_eaxc cfg)" "cplane_state_wf df" for e df
  proof (cases "pool e")
    case None
    then show ?thesis using that(2) by (simp add: cplane_enqueue_section_type_3_prach_message_def)
  next
    case (Some buf)
    then show ?thesis using prach_command_enqueued [OF c(2,3), of buf "p\<lparr>c3_eaxc := e\<rparr>" df] assms(3) [rule_format, OF Some] c(4) that type_3_message_wf
      by fastforce
  qed
  then obtain frames df where "for_each_eaxc ?enq pool (uh_prach_eaxc cfg) (uh_data_flow st) = Some (frames, df)" "cplane_state_wf df"
    using for_each_eaxc_invariant [of "uh_prach_eaxc cfg" cplane_state_wf ?enq pool] wf(5) by blast
  then show ?thesis using wf q k p
    by (cases "is_late ?s (uh_window_checker st)") (auto simp: handle_prach_occasion_def Let_def uplink_wf_defs prach_add_def prach_repo_wf_def)
qed



section \<open>PRACH without Control-Plane messages\<close>

text \<open>
  C39: without Control-Plane messages for PRACH the symbol of a received message is not checked.  A message for an open
  window whose symbol lies outside the preamble is not dropped: the write to the window violates its assertion.
\<close>

theorem prach_symbol_unchecked:
  assumes "\<not> du_is_prach_cplane_enabled cfg"
    and "uplane_decode (fl_decoder (du_prach cfg)) (fl_decode_header (du_prach cfg)) (fl_decompress (du_prach cfg)) fresh_up_results message =
      Some (True, results)" "is_a_prach_message (up_filter_index (params results))" "sections results = [sec]"
    and "prach_entry (up_slot (params results)) (du_prach_repo st) = c" "pc_buffer c = Some b"
      "pc_nof_symbols c \<le> prach_symbol_in_buffer c (up_symbol_id (params results))"
    and "index_of eaxc (du_prach_eaxc cfg) < pb_max_nof_ports (du_prach_buffers st ! b)"
    and "sec_start_prb sec < pg_nof_prbs (prach_geometry_of c)" "pg_data_start_prb (prach_geometry_of c) < sec_start_prb sec + sec_nof_prbs sec"
  shows "prach_decode_type1_message cfg eaxc message st = None"
proof -
  let ?s = "up_slot (params results)" and ?g = "prach_geometry_of c"
  have copy: "prach_get ?s (du_prach_repo st) = c" using assms(5) by (simp add: prach_get_def prach_context_copy_def)
  have "prach_write_iq ?s port (up_symbol_id (params results)) r iq (du_prach_repo st) (du_prach_buffers st) = None" for port r iq
    using assms(5-7) by (simp add: prach_write_iq_def prach_context_write_iq_def Let_def)
  then have "prach_write_sections ?g ?s port (up_symbol_id (params results)) [sec] (du_prach_repo st) (du_prach_buffers st) = None" for port
    using assms(9,10) by (simp split: prod.split)
  then have "write_to_prach_buffer (du_prach_eaxc cfg) eaxc results (du_prach_repo st) (du_prach_buffers st) = None"
    using assms(4,6,8) copy
    by (simp add: write_to_prach_buffer_def Let_def prach_context_empty_def get_max_nof_ports_def prach_geometry_of_def [symmetric])
  then show ?thesis using assms(1-3) by (simp add: prach_decode_type1_message_def should_prach_packet_be_filtered_def Let_def)
qed

text \<open>A message for the symbol 9, whereas the window of the sample context holds the symbol 3 alone.\<close>

theorem prach_symbol_unchecked_witness:
  "prach_decode_type1_message (sample_du_config\<lparr>du_is_prach_cplane_enabled := False\<rparr>) 8
     ([0x13, 0, 0x20, 0x09, 0, 0, 0, 2, 0x91, 0] @ replicate 56 0)
     (sample_du_receiver\<lparr>du_prach_repo := sample_prach_repo, du_prach_buffers := sample_prach_store\<rparr>) = None"
proof -
  let ?cfg = "sample_du_config\<lparr>du_is_prach_cplane_enabled := False\<rparr>" and ?msg = "[0x13, 0, 0x20, 0x09, 0, 0, 0, 2, 0x91, 0] @ replicate 56 0 :: bytes"
  let ?c = "the (new_prach_context sample_prach_context (Some 0) None sample_prach_store)"
  have "(case uplane_decode (fl_decoder (du_prach ?cfg)) (fl_decode_header (du_prach ?cfg)) (fl_decompress (du_prach ?cfg)) fresh_up_results ?msg of
      Some (ok, res) \<Rightarrow> ok \<and> up_filter_index (params res) = ul_prach_preamble_short \<and> up_slot (params res) = sample_prach_slot \<and>
        up_symbol_id (params res) = 9 \<and> map (\<lambda>sec. (sec_start_prb sec, sec_nof_prbs sec)) (sections res) = [(0, 2)]
    | None \<Rightarrow> False)" by code_simp
  then obtain res sec where res: "uplane_decode (fl_decoder (du_prach ?cfg)) (fl_decode_header (du_prach ?cfg)) (fl_decompress (du_prach ?cfg))
      fresh_up_results ?msg = Some (True, res)" "up_filter_index (params res) = ul_prach_preamble_short" "up_slot (params res) = sample_prach_slot"
    "up_symbol_id (params res) = 9" "sections res = [sec]" "sec_start_prb sec = 0" "sec_nof_prbs sec = 2"
    by (auto split: option.splits)
  have entry: "prach_entry sample_prach_slot sample_prach_repo = ?c" by (rule sample_prach_ready(2))
  have c: "pc_nof_symbols ?c \<le> prach_symbol_in_buffer ?c 9" "0 < pg_nof_prbs (prach_geometry_of ?c)" "pg_data_start_prb (prach_geometry_of ?c) < 2"
    "pb_max_nof_ports (sample_prach_store ! 0) = 1" by code_simp+
  show ?thesis
    by (rule prach_symbol_unchecked [where results = res and sec = sec and c = ?c and b = 0])
      (use res entry c in \<open>auto simp: sample_prach_new is_a_prach_message_iff sample_du_config_def\<close>)
qed

end
