(* ===== verification/Notified_Refinement.thy ===== *)
theory Notified_Refinement
  imports Repositories
begin

text \<open>
  What the repository of notified symbols promises, as an abstract machine without bit masks: per slot the set of the
  symbols that are still awaited.  The packed 32-bit entries of lib/ofh/support/uplink_notified_grid_symbol_repository.h
  simulate it on every sequence of additions and receptions, repeated receptions and slots that share an entry included.
\<close>

section \<open>Specification\<close>

datatype slot_state = Idle | Awaiting "nat set"

text \<open>
  A symbol that arrives before an awaited one is held back.  Any other symbol is notified together with those that arrived
  behind it, up to the next awaited symbol or the end of the slot, which then is complete.
\<close>

fun slot_receive :: "nat \<Rightarrow> nat \<Rightarrow> slot_state \<Rightarrow> (nat \<times> nat) option \<times> slot_state" where
  "slot_receive nsymb k Idle = (None, Idle)"
| "slot_receive nsymb k (Awaiting M) =
     (if \<exists>j \<in> M. j < k then (None, Awaiting (M - {k}))
      else if M - {k} = {} then (Some (k, nsymb), Idle)
      else (Some (k, Min (M - {k})), Awaiting (M - {k})))"

datatype notified_op = Add slot_point nat | Receive slot_point nat bool

type_synonym slot_states = "nat \<Rightarrow> slot_state"

fun spec_step :: "nat \<Rightarrow> nat \<Rightarrow> notified_op \<Rightarrow> slot_states \<Rightarrow> (nat \<times> nat) option \<times> slot_states" where
  "spec_step nsymb n (Add s start) A = (None, A(count_val s mod n := Awaiting {start..<nsymb}))"
| "spec_step nsymb n (Receive s k is_valid) A =
     (let (r, a) = slot_receive nsymb k (A (count_val s mod n)) in (r, A(count_val s mod n := a)))"

fun spec_run :: "nat \<Rightarrow> nat \<Rightarrow> notified_op list \<Rightarrow> slot_states \<Rightarrow> (nat \<times> nat) option list \<times> slot_states" where
  "spec_run nsymb n [] A = ([], A)"
| "spec_run nsymb n (x # xs) A =
     (let (r, A) = spec_step nsymb n x A; (rs, A) = spec_run nsymb n xs A in (r # rs, A))"

section \<open>Implementation\<close>

fun notified_step :: "bool \<Rightarrow> notified_op \<Rightarrow> notified_repo \<Rightarrow> (nat \<times> nat) option \<times> notified_repo" where
  "notified_step extended_cp (Add s start) repo = (None, notified_add s start extended_cp repo)"
| "notified_step extended_cp (Receive s k is_valid) repo =
     (let (r, repo) = update_rx_symbol_and_compute_symbols_to_notify s k is_valid repo in (map_option fst r, repo))"

fun notified_run :: "bool \<Rightarrow> notified_op list \<Rightarrow> notified_repo \<Rightarrow> (nat \<times> nat) option list \<times> notified_repo" where
  "notified_run extended_cp [] repo = ([], repo)"
| "notified_run extended_cp (x # xs) repo =
     (let (r, repo) = notified_step extended_cp x repo; (rs, repo) = notified_run extended_cp xs repo in (r # rs, repo))"

section \<open>Simulation\<close>

fun slot_refines :: "nat \<Rightarrow> slot_state \<Rightarrow> 32 word \<Rightarrow> bool" where
  "slot_refines nsymb Idle v \<longleftrightarrow> \<not> bit v 15"
| "slot_refines nsymb (Awaiting M) v \<longleftrightarrow> entry_awaits nsymb M v \<and> M \<noteq> {} \<and> M \<subseteq> {..<nsymb}"

definition repo_refines :: "nat \<Rightarrow> slot_states \<Rightarrow> notified_repo \<Rightarrow> bool" where
  "repo_refines nsymb A repo \<longleftrightarrow> repo \<noteq> [] \<and> (\<forall>i < length repo. slot_refines nsymb (A i) (repo ! i))"

fun op_wf :: "nat \<Rightarrow> notified_op \<Rightarrow> bool" where
  "op_wf nsymb (Add s start) \<longleftrightarrow> start < nsymb"
| "op_wf nsymb (Receive s k is_valid) \<longleftrightarrow> k < nsymb"

text \<open>A repeated symbol before all awaited ones is notified again, with the run behind it.\<close>

lemma notify_entry_repeated:
  assumes aw: "entry_awaits N M v" and M: "M \<noteq> {}" "M \<subseteq> {..<N}" "\<forall>j \<in> M. symbol < j"
  shows "fst (notify_entry v symbol b) = Some (symbol, Min M) \<and> entry_awaits N M (snd (notify_entry v symbol b))"
proof -
  define mask where "mask = (if b then push_bit symbol 1 OR push_bit (symbol + 16) 1 else push_bit symbol 1 :: 32 word)"
  note D = entry_awaitsD [OF aw]
  have fin: "finite M" using M(2) by (rule finite_subset) simp
  define m where "m = Min M"
  have m: "m \<in> M" "\<And>j. j \<in> M \<Longrightarrow> m \<le> j" using fin M(1) by (auto simp: m_def)
  have s: "symbol < m" "m < N" "symbol < N" using m(1) M(2,3) by (auto intro: less_trans)
  have prev: "\<not> (\<exists>i < symbol. \<not> bit v i)"
  proof (intro notI, elim exE conjE)
    fix i assume "i < symbol" "\<not> bit v i"
    then show False using D(4) [of i] M(3) s(3) by (meson less_asym less_trans)
  qed
  define e where "e = symbol + get_nof_symbols_to_notify v symbol"
  have e: "e \<le> N" "\<And>i. symbol < i \<Longrightarrow> i < e \<Longrightarrow> bit v i" "e < N \<Longrightarrow> \<not> bit v e"
    using nof_symbols_to_notify_run [OF s(3) D(3) [symmetric]] by (auto simp: e_def Let_def)
  have "\<not> bit v m" using D(4) [OF s(2)] m(1) by blast
  then have em: "e \<le> m" using e(2) [OF s(1)] by (meson not_le)
  then have "e \<in> M" using e(3) D(4) [of e] s(2) by auto
  then have "e = m" using m(2) em by (simp add: order_antisym)
  have aw': "entry_awaits N (M - {symbol}) (v OR mask)" unfolding mask_def by (rule entry_awaits_or [OF aw s(3)])
  have R: "M - {symbol} = M" using M(3) by auto
  have "\<not> are_all_symbols_notified (v OR mask)"
    using entry_awaitsD(3,4) [OF aw'] m(1) s(2) unfolding R all_notified_iff by auto
  then have "notify_entry v symbol b = (Some (symbol, e), v OR mask)"
    using D(1) prev by (simp add: notify_entry_def Let_def e_def mask_def [symmetric])
  then show ?thesis using aw' \<open>e = m\<close> by (simp add: R m_def)
qed

lemma notify_entry_refines:
  assumes "slot_refines N a v" "k < N" "N \<le> 14"
  shows "fst (notify_entry v k b) = fst (slot_receive N k a) \<and> slot_refines N (snd (slot_receive N k a)) (snd (notify_entry v k b))"
proof (cases a)
  case Idle
  then have v: "\<not> bit v 15" using assms(1) by simp
  then have "notify_entry v k b = (None, v OR (if b then push_bit k 1 OR push_bit (k + 16) 1 else push_bit k 1))"
    by (simp add: notify_entry_def Let_def)
  moreover have "\<not> bit (v OR (if b then push_bit k 1 OR push_bit (k + 16) 1 else push_bit k 1)) 15"
    using v assms(2,3) bit_or_mask [of 15 v b k] by simp
  ultimately show ?thesis using Idle by simp
next
  case (Awaiting M)
  then have M: "entry_awaits N M v" "M \<noteq> {}" "M \<subseteq> {..<N}" using assms(1) by simp_all
  show ?thesis
  proof (cases "\<exists>j \<in> M. j < k")
    case True
    then obtain j where j: "j \<in> M" "j < k" by blast
    from notify_entry_out_of_order [OF M(1) j assms(2), of b] show ?thesis using j True M(3) Awaiting by auto
  next
    case False
    show ?thesis
    proof (cases "k \<in> M")
      case True
      have "\<forall>j \<in> M. k \<le> j" using False by (meson not_le)
      from notify_entry_in_order [OF M(1) True this M(3), of b] show ?thesis using False True M(2,3) Awaiting by (auto split: if_splits)
    next
      case nk: False
      then have after: "\<forall>j \<in> M. k < j" using False by (auto simp: not_less order_le_less)
      from notify_entry_repeated [OF M(1-3) after, of b] show ?thesis using False nk M Awaiting by simp
    qed
  qed
qed

lemma notified_step_refines:
  assumes "repo_refines (get_nsymb_per_slot e) A repo" "op_wf (get_nsymb_per_slot e) x"
  shows "fst (notified_step e x repo) = fst (spec_step (get_nsymb_per_slot e) (length repo) x A) \<and>
    repo_refines (get_nsymb_per_slot e) (snd (spec_step (get_nsymb_per_slot e) (length repo) x A)) (snd (notified_step e x repo)) \<and>
    length (snd (notified_step e x repo)) = length repo"
proof (cases x)
  case (Add s start)
  let ?N = "get_nsymb_per_slot e" and ?i = "count_val s mod length repo"
  have r: "repo \<noteq> []" "?i < length repo" using assms(1) by (auto simp: repo_refines_def)
  have start: "start < ?N" using assms(2) Add by simp
  have aw: "slot_refines ?N (Awaiting {start..<?N}) (notified_add s start e repo ! ?i)"
    using notified_add_awaits [OF start r(1), of s] start by auto
  have "slot_refines ?N ((A(?i := Awaiting {start..<?N})) j) (notified_add s start e repo ! j)" if "j < length repo" for j
  proof (cases "j = ?i")
    case True
    then show ?thesis using aw by simp
  next
    case False
    then have "notified_add s start e repo ! j = repo ! j" by (simp add: notified_add_def Let_def)
    then show ?thesis using assms(1) that False by (simp add: repo_refines_def)
  qed
  moreover have "length (notified_add s start e repo) = length repo" by (simp add: notified_add_def Let_def)
  ultimately show ?thesis using r Add by (auto simp: repo_refines_def simp flip: length_greater_0_conv)
next
  case (Receive s k is_valid)
  let ?N = "get_nsymb_per_slot e" and ?i = "count_val s mod length repo"
  have r: "repo \<noteq> []" "?i < length repo" using assms(1) by (auto simp: repo_refines_def)
  have N: "?N \<le> 14" by (simp add: get_nsymb_per_slot_def)
  have ref: "slot_refines ?N (A ?i) (repo ! ?i)" using assms(1) r(2) by (simp add: repo_refines_def)
  note n = notify_entry_refines [OF ref _ N, of k is_valid]
  obtain res repo' where u: "update_rx_symbol_and_compute_symbols_to_notify s k is_valid repo = (res, repo')" by fastforce
  note e = update_rx_symbol_entry [OF r(1), of s k is_valid, unfolded u fst_conv snd_conv]
  show ?thesis using n assms r(2) by (auto simp: Receive u e repo_refines_def nth_list_update split: prod.splits)
qed

text \<open>
  C10: the packed repository implements the abstract one.  From related states, and for every sequence of additions of slots
  and receptions of symbols, in any order and with repetitions, the intervals that the repository reports are those of
  the abstract machine, and the states stay related.
\<close>

theorem notified_repo_refines:
  assumes "repo_refines (get_nsymb_per_slot extended_cp) A repo" "\<forall>x \<in> set xs. op_wf (get_nsymb_per_slot extended_cp) x"
  shows "fst (notified_run extended_cp xs repo) = fst (spec_run (get_nsymb_per_slot extended_cp) (length repo) xs A) \<and>
    repo_refines (get_nsymb_per_slot extended_cp) (snd (spec_run (get_nsymb_per_slot extended_cp) (length repo) xs A))
      (snd (notified_run extended_cp xs repo))"
  using assms
proof (induction xs arbitrary: A repo)
  case (Cons x xs)
  let ?N = "get_nsymb_per_slot extended_cp"
  obtain r repo1 where c: "notified_step extended_cp x repo = (r, repo1)" by fastforce
  obtain q A1 where a: "spec_step ?N (length repo) x A = (q, A1)" by fastforce
  have 1: "r = q" "repo_refines ?N A1 repo1" "length repo1 = length repo"
    using notified_step_refines [OF Cons.prems(1), of x] Cons.prems(2) by (simp_all add: c a)
  show ?case using Cons.IH [OF 1(2)] Cons.prems(2) 1 by (auto simp: c a split: prod.splits)
qed simp

text \<open>Three symbols of a slot in the order 12, 11, 11, 13: the first is held back and the repeated one is reported again.\<close>

theorem notified_repo_refines_witness:
  "fst (notified_run False [Add (slot_point_count 1 7) 11, Receive (slot_point_count 1 7) 12 True, Receive (slot_point_count 1 7) 11 True,
     Receive (slot_point_count 1 7) 11 True, Receive (slot_point_count 1 7) 13 True] (replicate 4 0)) =
   [None, None, Some (11, 13), Some (11, 13), Some (13, 14)]"
proof -
  let ?xs = "[Add (slot_point_count 1 7) 11, Receive (slot_point_count 1 7) 12 True, Receive (slot_point_count 1 7) 11 True,
     Receive (slot_point_count 1 7) 11 True, Receive (slot_point_count 1 7) 13 True]"
  have ref: "repo_refines (get_nsymb_per_slot False) (\<lambda>_. Idle) (replicate 4 0)" by (simp add: repo_refines_def)
  have ops: "\<forall>x \<in> set ?xs. op_wf (get_nsymb_per_slot False) x" by (simp add: get_nsymb_per_slot_def)
  have M: "{11..<14} = {11, 12, 13 :: nat}" by auto
  have "fst (spec_run (get_nsymb_per_slot False) 4 ?xs (\<lambda>_. Idle)) = [None, None, Some (11, 13), Some (11, 13), Some (13, 14)]"
    by (simp add: get_nsymb_per_slot_def M insert_Diff_if)
  then show ?thesis using notified_repo_refines [OF ref ops] by simp
qed

end
