(* ===== verification/Timing.thy ===== *)
theory Timing
  imports Slot_Point
begin

text \<open>
  The real-time timing worker (lib/ofh/timing/realtime_timing_worker.cpp), which turns the GPS clock into
  notifications of over-the-air symbols, one per symbol, for the window checkers and transmitters.

  A clock reading is a number of nanoseconds since the GPS epoch.  The symbol index inside a second is a quotient in double
  precision: it is the parameter \<open>tw_symbol_index\<close> of the configuration, and what the theorems need of it is a hypothesis.
  The sleeping between polls and the log messages do not change the state.
\<close>

section \<open>Worker\<close>

definition NOF_HYPER_SFNS :: nat where "NOF_HYPER_SFNS = 1024"

record timing_config =
  tw_scs :: nat
  tw_nof_symbols_per_slot :: nat
  tw_symbol_index :: "nat \<Rightarrow> nat"

definition nof_symbols_per_sec :: "timing_config \<Rightarrow> nat" where
  "nof_symbols_per_sec cfg = tw_nof_symbols_per_slot cfg * slots_per_subframe (tw_scs cfg) * NOF_SUBFRAMES_PER_FRAME * 100"

record timing_worker =
  previous_symb_index :: nat
  previous_time_since_epoch :: nat
  nof_skipped_symbols :: nat
  skipped_symbols_max_burst :: nat

record slot_symbol_point_context =
  ssc_symbol_point :: slot_symbol_point
  ssc_hfn :: nat

definition calculate_ns_fraction_from :: "nat \<Rightarrow> nat" where
  "calculate_ns_fraction_from tp = tp mod 1000000000"

definition timing_circular_distance :: "nat \<Rightarrow> nat \<Rightarrow> nat \<Rightarrow> nat" where
  "timing_circular_distance cur prev n = (if cur \<ge> prev then cur - prev else n + cur - prev)"

text \<open>An extended slot point counts the slots of all hyper frames.\<close>

definition slot_point_extended :: "nat \<Rightarrow> nat \<Rightarrow> nat \<Rightarrow> nat \<Rightarrow> slot_point" where
  "slot_point_extended \<mu> hyper_sfn sfn_val slot_frame_index =
     slot_point_count \<mu> ((hyper_sfn * NOF_SFNS + sfn_val) * NOF_SUBFRAMES_PER_FRAME * slots_per_subframe \<mu> + slot_frame_index)"

definition extended_hyper_sfn :: "slot_point \<Rightarrow> nat" where
  "extended_hyper_sfn s = count_val s div nof_slots_per_hyper_system_frame s"

definition without_hyper_sfn :: "slot_point \<Rightarrow> slot_point" where
  "without_hyper_sfn s =
     (if sp_valid s then slot_point_count (numerology_val s) (count_val s mod nof_slots_per_hyper_system_frame s)
      else invalid_slot_point)"

definition calculate_slot_point_extended :: "nat \<Rightarrow> nat \<Rightarrow> nat \<Rightarrow> nat \<Rightarrow> slot_point" where
  "calculate_slot_point_extended \<mu> gps_seconds fractional_us slot_duration_us =
     (let subframe_idx = (fractional_us div 1000) mod NOF_SUBFRAMES_PER_FRAME;
          slot_subframe_idx = (fractional_us div slot_duration_us) mod slots_per_subframe \<mu>;
          nof_sfns_since_epoch = gps_seconds * 100 + fractional_us div (1 * NOF_SUBFRAMES_PER_FRAME * 1000);
          sfn_val = nof_sfns_since_epoch mod NOF_SFNS;
          hfn = (nof_sfns_since_epoch div NOF_SFNS) mod NOF_HYPER_SFNS
      in slot_point_extended \<mu> hfn sfn_val (subframe_idx * slots_per_subframe \<mu> + slot_subframe_idx))"

definition update_skipped_symbols :: "nat \<Rightarrow> timing_worker \<Rightarrow> timing_worker" where
  "update_skipped_symbols n st =
     st\<lparr>nof_skipped_symbols := nof_skipped_symbols st + n, skipped_symbols_max_burst := max (skipped_symbols_max_burst st) n\<rparr>"

definition timing_start :: "timing_config \<Rightarrow> nat \<Rightarrow> timing_worker \<Rightarrow> timing_worker" where
  "timing_start cfg now st = st\<lparr>previous_symb_index := tw_symbol_index cfg (calculate_ns_fraction_from now), previous_time_since_epoch := now\<rparr>"

definition poll :: "timing_config \<Rightarrow> nat \<Rightarrow> timing_worker \<Rightarrow> slot_symbol_point_context list \<times> timing_worker" where
  "poll cfg now st =
     (let ns_fraction = calculate_ns_fraction_from now;
          current_symbol_index = tw_symbol_index cfg ns_fraction;
          delta = timing_circular_distance current_symbol_index (previous_symb_index st) (nof_symbols_per_sec cfg)
      in if now < previous_time_since_epoch st then ([], st)
         else let st = st\<lparr>previous_time_since_epoch := now, previous_symb_index := current_symbol_index\<rparr>
              in if delta = 0 then ([], st)
                 else let st = (if delta > 1 then update_skipped_symbols delta st else st);
                          s = calculate_slot_point_extended (tw_scs cfg) (now div 1000000000) (ns_fraction div 1000)
                                (1000 div slots_per_subframe (tw_scs cfg));
                          symbol_point = slot_symbol_point_of (without_hyper_sfn s) (current_symbol_index mod tw_nof_symbols_per_slot cfg)
                                           (tw_nof_symbols_per_slot cfg)
                      in (map (\<lambda>i. \<lparr>ssc_symbol_point = ssp_minus symbol_point (int (delta - 1 - i)), ssc_hfn = extended_hyper_sfn s\<rparr>)
                            [0..<delta], st))"

fun timing_loop :: "timing_config \<Rightarrow> nat list \<Rightarrow> timing_worker \<Rightarrow> slot_symbol_point_context list \<times> timing_worker" where
  "timing_loop cfg [] st = ([], st)"
| "timing_loop cfg (now # nows) st =
     (let (xs, st) = poll cfg now st; (ys, st) = timing_loop cfg nows st in (xs @ ys, st))"

section \<open>Symbols since the epoch\<close>

text \<open>The number of the symbol at a time, counted from the epoch.\<close>

definition symbols_at :: "timing_config \<Rightarrow> nat \<Rightarrow> nat" where
  "symbols_at cfg t = t * nof_symbols_per_sec cfg div 1000000000"

definition exact_index :: "timing_config \<Rightarrow> nat \<Rightarrow> bool" where
  "exact_index cfg t \<longleftrightarrow> tw_symbol_index cfg (t mod 1000000000) = (t mod 1000000000) * nof_symbols_per_sec cfg div 1000000000"

definition timing_wf :: "timing_config \<Rightarrow> bool" where
  "timing_wf cfg \<longleftrightarrow> tw_scs cfg < 4 \<and> 0 < tw_nof_symbols_per_slot cfg"

definition symbols_wrap :: "timing_config \<Rightarrow> nat" where
  "symbols_wrap cfg = slots_per_hyper (tw_scs cfg) * tw_nof_symbols_per_slot cfg"

text \<open>The time from reading to reading: less than a second after the latest one.\<close>

fun polled_in_time :: "timing_config \<Rightarrow> nat \<Rightarrow> nat list \<Rightarrow> bool" where
  "polled_in_time cfg m [] = True"
| "polled_in_time cfg m (t # ts) =
     (if t < m then polled_in_time cfg m ts
      else symbols_at cfg t < symbols_at cfg m + nof_symbols_per_sec cfg \<and> polled_in_time cfg t ts)"

lemma subframe_slots:
  assumes "\<mu> < 4"
  shows "slots_per_subframe \<mu> * (1000 div slots_per_subframe \<mu>) = 1000" "slots_per_subframe \<mu> \<in> {1, 2, 4, 8}"
proof -
  have "\<mu> \<in> {0, 1, 2, 3}" using assms by auto
  then show "slots_per_subframe \<mu> * (1000 div slots_per_subframe \<mu>) = 1000" "slots_per_subframe \<mu> \<in> {1, 2, 4, 8}"
    by (auto simp: slots_per_subframe_def)
qed

lemma symbols_at_split:
  assumes "exact_index cfg t"
  shows "symbols_at cfg t = t div 1000000000 * nof_symbols_per_sec cfg + tw_symbol_index cfg (t mod 1000000000)"
proof -
  let ?n = "nof_symbols_per_sec cfg" and ?G = "1000000000 :: nat"
  have "t * ?n = t mod ?G * ?n + ?G * (t div ?G * ?n)"
    by (metis add_mult_distrib mod_mult_div_eq mult.assoc)
  then show ?thesis using assms by (simp add: symbols_at_def exact_index_def)
qed

text \<open>The slot of a microsecond, as the code assembles it from its frame, subframe and slot.\<close>

lemma slot_of_us:
  assumes "\<mu> < 4"
  defines "d \<equiv> 1000 div slots_per_subframe \<mu>"
  shows "u div d = u div 10000 * slots_per_frame \<mu> + (u div 1000 mod 10 * slots_per_subframe \<mu> + u div d mod slots_per_subframe \<mu>)"
proof -
  let ?k = "slots_per_subframe \<mu>"
  have kd: "d * ?k = 1000" using subframe_slots(1) [OF assms(1)] by (simp add: d_def mult.commute)
  have "u div d = u div d div ?k * ?k + u div d mod ?k" by simp
  also have "u div d div ?k = u div 1000" by (simp add: div_mult2_eq [symmetric] kd)
  also have "u div 1000 = u div 1000 div 10 * 10 + u div 1000 mod 10" by simp
  also have "u div 1000 div 10 = u div 10000" by (simp add: div_mult2_eq [symmetric])
  finally show ?thesis by (simp add: slots_per_frame_eq algebra_simps)
qed

lemma hyper_frames_cancel: "((n * 1024 + x) * f + r) mod (1024 * f) = (x * f + r) mod (1024 * f)" for f :: nat
proof -
  have "(n * 1024 + x) * f + r = x * f + r + n * (1024 * f)" by (simp add: algebra_simps)
  then show ?thesis by (simp only: mod_mult_self1)
qed

lemma calculated_slot:
  assumes "\<mu> < 4"
  shows "without_hyper_sfn (calculate_slot_point_extended \<mu> sec u (1000 div slots_per_subframe \<mu>)) =
    slot_point_count \<mu> ((sec * 1000 * slots_per_subframe \<mu> + u div (1000 div slots_per_subframe \<mu>)) mod slots_per_hyper \<mu>)"
proof -
  let ?k = "slots_per_subframe \<mu>" and ?f = "slots_per_frame \<mu>" and ?F = "sec * 100 + u div 10000"
  let ?r = "u div 1000 mod 10 * ?k + u div (1000 div ?k) mod ?k"
  have h: "slots_per_hyper \<mu> = 1024 * ?f" by (simp add: slots_per_hyper_def NOF_SFNS_def)
  have "(((?F div 1024 mod 1024) * 1024 + ?F mod 1024) * ?f + ?r) mod slots_per_hyper \<mu> = (?F mod 1024 * ?f + ?r) mod slots_per_hyper \<mu>"
    unfolding h by (rule hyper_frames_cancel)
  also have "\<dots> = (?F * ?f + ?r) mod slots_per_hyper \<mu>"
    using hyper_frames_cancel [of "?F div 1024" "?F mod 1024" ?f ?r] unfolding h by simp
  also have "?F * ?f + ?r = sec * 1000 * ?k + (u div 10000 * ?f + ?r)" by (simp add: slots_per_frame_eq algebra_simps)
  also have "u div 10000 * ?f + ?r = u div (1000 div ?k)" by (rule slot_of_us [OF assms, symmetric])
  finally have "(((?F div 1024 mod 1024) * 1024 + ?F mod 1024) * ?f + ?r) mod slots_per_hyper \<mu> =
    (sec * 1000 * ?k + u div (1000 div ?k)) mod slots_per_hyper \<mu>" .
  moreover have "calculate_slot_point_extended \<mu> sec u (1000 div ?k) =
      slot_point_count \<mu> (((?F div 1024 mod 1024) * 1024 + ?F mod 1024) * ?f + ?r)"
    by (simp add: calculate_slot_point_extended_def slot_point_extended_def Let_def NOF_SFNS_def NOF_SUBFRAMES_PER_FRAME_def NOF_HYPER_SFNS_def
        slots_per_frame_eq algebra_simps)
  ultimately show ?thesis using assms
    by (simp add: without_hyper_sfn_def slot_point_count_def sp_valid_def NOF_NUMEROLOGIES_def nof_slots_per_hyper_system_frame_def)
qed

text \<open>The symbol point of a reading is its symbol number, modulo the wrap of the counters.\<close>

lemma symbol_point_count:
  assumes wf: "timing_wf cfg" and ex: "exact_index cfg t"
  shows "ssp_count (slot_symbol_point_of (without_hyper_sfn (calculate_slot_point_extended (tw_scs cfg) (t div 1000000000)
      (t mod 1000000000 div 1000) (1000 div slots_per_subframe (tw_scs cfg))))
      (tw_symbol_index cfg (t mod 1000000000) mod tw_nof_symbols_per_slot cfg) (tw_nof_symbols_per_slot cfg)) = symbols_at cfg t mod symbols_wrap cfg"
proof -
  let ?\<mu> = "tw_scs cfg" and ?n = "tw_nof_symbols_per_slot cfg" and ?G = "1000000000 :: nat"
  let ?k = "slots_per_subframe ?\<mu>" and ?x = "t mod 1000000000" and ?i = "tw_symbol_index cfg (t mod 1000000000)"
  have \<mu>: "?\<mu> < 4" and n: "0 < ?n" using wf by (simp_all add: timing_wf_def)
  let ?d = "1000 div ?k"
  have kd: "1000 * ?d * ?k = 1000000" using subframe_slots(1) [OF \<mu>] by (simp add: mult.commute)
  have sec: "nof_symbols_per_sec cfg = ?k * 1000 * ?n" by (simp add: nof_symbols_per_sec_def NOF_SUBFRAMES_PER_FRAME_def)
  have "?i div ?n = ?x * ?k * 1000 * ?n div (?n * ?G)"
    using ex by (simp add: exact_index_def sec div_mult2_eq [symmetric] mult.assoc mult.commute [of ?G])
  also have "\<dots> = ?x * ?k * 1000 div ?G" using n by (simp add: mult.commute [of _ ?n])
  also have "\<dots> = ?x * ?k div (1000 * ?d * ?k)" unfolding kd by (simp add: mult.commute)
  also have "\<dots> = ?x div (1000 * ?d)" by (rule div_mult_mult2) simp
  finally have slot: "?x div 1000 div ?d = ?i div ?n" by (simp add: div_mult2_eq)
  let ?F = "t div ?G * 1000 * ?k + ?i div ?n"
  have "symbols_at cfg t = ?F * ?n + ?i mod ?n" unfolding symbols_at_split [OF ex] sec by (simp add: algebra_simps)
  moreover have "?F mod slots_per_hyper ?\<mu> * ?n + ?i mod ?n = (?F * ?n + ?i mod ?n) mod symbols_wrap cfg"
    unfolding symbols_wrap_def mult.commute [of "slots_per_hyper ?\<mu>"] mod_mult2_eq using n by simp
  ultimately show ?thesis unfolding calculated_slot [OF \<mu>] slot by (simp add: slot_symbol_point_of_def slot_point_count_def)
qed

lemma symbol_distance:
  assumes "(a :: nat) * n + i < b * n + j + n" "b * n + j \<le> a * n + i" "i < n" "j < n"
  shows "timing_circular_distance i j n = a * n + i - (b * n + j)"
proof -
  have ab: "b \<le> a"
  proof (rule ccontr)
    assume "\<not> b \<le> a"
    then have "Suc a * n \<le> b * n" by (intro mult_right_mono) simp_all
    then show False using assms(2,3) by simp
  qed
  then obtain c where c: "a = b + c" using le_Suc_ex by blast
  have "c * n + i < j + n" using assms(1) by (simp add: c algebra_simps)
  have "c < 2"
  proof (rule ccontr)
    assume "\<not> c < 2"
    then have "2 * n \<le> c * n" by (intro mult_right_mono) simp_all
    then show False using \<open>c * n + i < j + n\<close> assms(4) by linarith
  qed
  then have "c = 0 \<or> c = 1" by auto
  then show ?thesis using assms c by (auto simp: timing_circular_distance_def algebra_simps)
qed

text \<open>One poll that is not behind the clock of the worker.\<close>

lemma poll_forward:
  assumes wf: "timing_wf cfg" and ex: "exact_index cfg t" "exact_index cfg m"
    and st: "previous_symb_index st = tw_symbol_index cfg (m mod 1000000000)" "previous_time_since_epoch st = m"
    and t: "m \<le> t" "symbols_at cfg t < symbols_at cfg m + nof_symbols_per_sec cfg"
  shows "map (\<lambda>c. ssp_count (ssc_symbol_point c)) (fst (poll cfg t st)) =
      map (\<lambda>i. i mod symbols_wrap cfg) [symbols_at cfg m + 1..<symbols_at cfg t + 1] \<and>
    previous_symb_index (snd (poll cfg t st)) = tw_symbol_index cfg (t mod 1000000000) \<and> previous_time_since_epoch (snd (poll cfg t st)) = t"
proof -
  let ?N = "nof_symbols_per_sec cfg" and ?i = "tw_symbol_index cfg (t mod 1000000000)" and ?j = "tw_symbol_index cfg (m mod 1000000000)"
  let ?T = "symbols_at cfg t" and ?M = "symbols_at cfg m" and ?w = "symbols_wrap cfg"
  have mono: "?M \<le> ?T" using t(1) by (simp add: symbols_at_def div_le_mono)
  have w: "0 < ?w" using wf by (simp add: symbols_wrap_def timing_wf_def)
  define delta where "delta = timing_circular_distance ?i ?j ?N"
  have delta: "delta = ?T - ?M"
  proof -
    have N: "0 < ?N" using wf by (simp add: nof_symbols_per_sec_def timing_wf_def NOF_SUBFRAMES_PER_FRAME_def)
    have lt: "?i < ?N" "?j < ?N" using ex N by (simp_all add: exact_index_def div_less_iff_less_mult)
    show ?thesis
      using symbol_distance [OF _ _ lt, of "t div 1000000000" "m div 1000000000"] t(2) mono
      unfolding delta_def symbols_at_split [OF ex(1)] symbols_at_split [OF ex(2)] by blast
  qed
  define sp where "sp = slot_symbol_point_of (without_hyper_sfn (calculate_slot_point_extended (tw_scs cfg) (t div 1000000000)
      (t mod 1000000000 div 1000) (1000 div slots_per_subframe (tw_scs cfg)))) (?i mod tw_nof_symbols_per_slot cfg) (tw_nof_symbols_per_slot cfg)"
  have sp: "ssp_count sp = ?T mod ?w" unfolding sp_def by (rule symbol_point_count [OF wf ex(1)])
  have \<mu>: "tw_scs cfg < 4" using wf by (simp add: timing_wf_def)
  have wrap: "nof_symbols_per_slot_wrap sp = int ?w"
    unfolding sp_def calculated_slot [OF \<mu>]
    by (simp add: nof_symbols_per_slot_wrap_def slot_symbol_point_of_def slot_point_count_def symbols_wrap_def slots_per_hyper_def slots_per_frame_def)
  have earlier: "ssp_count (ssp_minus sp (int (delta - 1 - i))) = (?M + 1 + i) mod ?w" if "i < delta" for i
  proof -
    have "?T = ?M + 1 + i + (delta - 1 - i)" using that mono by (simp add: delta)
    then have "int (ssp_count (ssp_minus sp (int (delta - 1 - i)))) = int ((?M + 1 + i) mod ?w)"
      using w by (simp add: ssp_minus_def ssp_plus_def wrap wrap_add_mod sp zmod_int mod_diff_left_eq)
    then show ?thesis by (simp only: of_nat_eq_iff)
  qed
  have symbols: "[?M + 1..<?T + 1] = map (\<lambda>i. ?M + 1 + i) [0..<delta]" 
    using map_add_upt [of "?M + 1" delta] mono by (simp add: delta add.commute del: upt_Suc)
  obtain hfn where p: "fst (poll cfg t st) = map (\<lambda>i. \<lparr>ssc_symbol_point = ssp_minus sp (int (delta - 1 - i)), ssc_hfn = hfn\<rparr>) [0..<delta]"
    "previous_symb_index (snd (poll cfg t st)) = ?i" "previous_time_since_epoch (snd (poll cfg t st)) = t"
  proof
    let ?hfn = "extended_hyper_sfn (calculate_slot_point_extended (tw_scs cfg) (t div 1000000000) (t mod 1000000000 div 1000)
      (1000 div slots_per_subframe (tw_scs cfg)))"
    show "fst (poll cfg t st) = map (\<lambda>i. \<lparr>ssc_symbol_point = ssp_minus sp (int (delta - 1 - i)), ssc_hfn = ?hfn\<rparr>) [0..<delta]"
      "previous_symb_index (snd (poll cfg t st)) = ?i" "previous_time_since_epoch (snd (poll cfg t st)) = t"
      using t(1) st by (simp_all add: poll_def Let_def calculate_ns_fraction_from_def delta_def [symmetric] sp_def [symmetric] update_skipped_symbols_def)
  qed
  show ?thesis unfolding p symbols map_map comp_def slot_symbol_point_context.simps
    by (intro conjI refl map_cong) (simp only: earlier set_upt atLeastLessThan_iff)
qed

section \<open>Correctness\<close>

lemma poll_backward: "t < previous_time_since_epoch st \<Longrightarrow> poll cfg t st = ([], st)"
  by (simp add: poll_def Let_def)


text \<open>
  A worker at 30 kHz whose symbol index is exact: started in the last symbol of a hyper frame, it is polled 40 microseconds
  later, then at an earlier time, then 80 microseconds later.
\<close>

definition exact_timing :: timing_config where
  "exact_timing = \<lparr>tw_scs = 1, tw_nof_symbols_per_slot = 14, tw_symbol_index = (\<lambda>x. x * 28000 div 1000000000)\<rparr>"



text \<open>
  The first slot boundary at 30 kHz: 500000 divided by 1e9 / 28000 is 13.999999999999998 in double precision.  After
  a late wake-up the worker announces symbol 27, the last one of the second slot, at the beginning of that slot.
\<close>

definition boundary_timing :: timing_config where
  "boundary_timing = exact_timing\<lparr>tw_symbol_index := (\<lambda>x. if x = 500000 then 13 else x * 28000 div 1000000000)\<rparr>"


end
