(* ===== verification/Spec2Isabelle.thy ===== *)
theory Spec2Isabelle
  imports Slot_Point Ethernet_Frame Ecpri Cplane_Message Uplane_Message Window_Checks Repositories Frame_Pool
    Uplane_Transmitter Cplane_Scheduling Ru_Requests Fronthaul_Link Codec_Link Du_Receiver Du_Link
    Tdd_Config Du_Handlers Notified_Refinement Timing
begin

text \<open>
  A verification development of the Open Fronthaul library of ProtO-RU (src/lib/ofh and the headers under
  src/include/ocudu/ofh), the part of the program that turns an O-RAN radio unit into a peer of an O-DU over
  Ethernet.

  \<^bold>\<open>The program.\<close>  An O-DU and an O-RU exchange Ethernet frames that carry eCPRI packets.  Control-Plane packets
  (O-DU to O-RU) command what the O-RU has to send or receive in a slot; User-Plane packets carry compressed IQ
  samples, downlink from the O-DU and uplink and PRACH from the O-RU.  The O-RU decodes the Control-Plane
  messages (lib/ofh/receiver), opens a received grid for a downlink command, and stores an uplink or PRACH command
  as a request that is answered when the radio delivers the captured symbol (lib/ofh/ru).  A transmitter
  compresses a symbol, splits it into frames and leaves them in a pool of frame buffers (lib/ofh/transmitter);
  a symbol clock moves the due frames of the pool to the Ethernet port.  Repositories indexed by slot connect
  the threads (lib/ofh/support).

  \<^bold>\<open>Theories\<close>, in the order of the layers.
    \<^item> Prelude: byte and word types, shared list and arithmetic lemmas, the collections of simplification rules
      and the locale circular_distance, the contract of every difference of wrapping counters.  Interpreted for
      slot points, slot symbol points, sequence identifiers and the reception window.
    \<^item> Slot_Point: slot_point.h, slot_symbol_point.h.  Arithmetic modulo the hyper frame.
    \<^item> Network_Order: the big-endian serializers of lib/ofh/support, and the locales frame_layer and frame_stack,
      the contract of a layer of the protocol (decoding what the builder wrote) and of two layers.
    \<^item> Ethernet_Frame, Ecpri: lib/ofh/ethernet builders and decoder, lib/ofh/ecpri.  Both interpret frame_layer,
      and Ru_Receiver interprets frame_stack on the two.
    \<^item> Message_Properties, Cplane_Message, Uplane_Message: the message formats and lib/ofh/serdes.  The static and
      the dynamic compression headers are the two interpretations of the locales cplane_compression_header,
      uplane_header_decoder and uplane_header_codec, inside which the round trips and the memory safety of
      the decoders are proved once.
    \<^item> Window_Checks: sequence identifiers and the reception and transmission windows.
    \<^item> Repositories: sizes and indices of the slot repositories, the packed uplink Control-Plane contexts and the
      reordering of symbol notifications; the locale slot_repository, interpreted by the Control-Plane contexts,
      the requests of the O-RU and the received grids.
    \<^item> Frame_Pool: ethernet_frame_pool.h, with a step relation for the interleavings of its users.
    \<^item> Bit_Buffer, Iq_Compression: lib/ofh/compression, the generic block floating point codec and the transport
      without compression, on 16-bit words.
    \<^item> Uplane_Transmitter: fragment size calculator and the User-Plane data flow, from a symbol to frames.
    \<^item> Cplane_Scheduling: the Control-Plane data flow of the O-DU.
    \<^item> Ru_Requests: request repository, recorder, dispatcher and the two responders of the O-RU.
    \<^item> Rx_Grid_Repository: received grids, their repository, the symbol writer and notifier.
    \<^item> Ru_Receiver: the sector of the O-RU, from a frame to the data flows, with the downlink window and the
      message transmitter.
    \<^item> Prach_Repository: PRACH buffers and their contexts, the PRACH symbol writer and notifier; its repository is
      the fourth interpretation of slot_repository.
    \<^item> Du_Receiver: the receiver of the O-DU, from a frame to the notifications of the upper layers: message receiver,
      uplink and PRACH data flows, closed reception windows, reordering.
    \<^item> Tdd_Config: lib/ran/tdd_ul_dl_config.cpp, the downlink and uplink symbols of a slot.
    \<^item> Du_Handlers: the entry points of the O-DU, the uplink request handler with its PRACH commands, the downlink
      handler and the transmitter of the pending messages; it extends the locale slot_repository with the storing
      of one value for several columns.
    \<^item> Notified_Refinement: an abstract machine of awaited symbols, and the simulation by the packed repository of
      notified symbols.
    \<^item> Timing: the worker of lib/ofh/timing, from clock readings to notifications of symbols.
    \<^item> Fronthaul_Link, Codec_Link, Du_Link: the frames of one side received by the other side; Du_Link follows an uplink
      symbol from its first fragment to the one that completes it.

  \<^bold>\<open>Conventions.\<close>  A C++ object is a record and an operation a function from the old to the new state.  Results
  of type option are None where the source violates an assertion, reads out of bounds or does something else that is
  undefined; early returns and error values are ordinary results.  Fixed width integers are words where they
  can wrap.  A mutex or a lock-free queue makes an operation one step; interleavings are sequences of steps.  The
  fragment loop of the User-Plane data flow recurses over the buffers that the pool hands out, and the number of
  buffers that is enough is a theorem (fragments_partition_symbol); the search for a repository size is a partial function whose termination is a theorem.  Code behind an interface
  (compressors in Uplane_Message, conversions between samples and fixed point in Iq_Compression, the upper
  PHY in Ru_Receiver) is a parameter, and the link theories instantiate it with the modelled codec.

  \<^bold>\<open>What is shown.\<close>  End to end: the frames of an uplink or PRACH command make the O-RU answer once for each
  requested symbol, a downlink symbol arrives in the grid of the O-RU in the row of its port whatever the order of its
  frames, and an uplink symbol of several ports arrives in the grid of the O-DU and is reported once.  O-DU: whatever frames arrive, its receiver violates no assertion and writes only the samples that its commands
  asked for; the symbols of a slot and the PRACH windows are reported complete and in order.  Layers: round trips and memory safety of the message formats.  State: no frame buffer is lost or
  shared, one grid for each slot, notifications once and in order, repository entries found until overwritten.  Entry points of the O-DU: a request in time
  establishes what the receiver needs to accept the answer, a late one has no effect, downlink and uplink symbols of a
  slot are disjoint, and every symbol of the clock is announced once.
  Codec: the error bound, losslessness and independence of fragmentation.  Errors: the inputs on which the code
  violates its own assertions or contradicts its comments are theorems too, listed with the properties.

  \<^bold>\<open>Not modelled.\<close>  The codecs on vector instructions (the meaning of the intrinsics is not part of the
  repository) and the floating point conversions, in the codecs and in the symbol index of the clock, which is a parameter;
  sockets, DPDK and the conversion of the system clock to GPS time; the task dispatchers and executors, which run the
  modelled operations later; the number of symbols that the processing time takes, a quotient in floating point, is a field
  of the window checker; loggers, factories and configuration; the ASN.1 codecs, which are generated; the CU, DU and PHY libraries that the repository inherits
  and the O-RU does not use.
\<close>

section \<open>A sample link\<close>

text \<open>The O-DU that the O-RU of the earlier samples is connected to.\<close>

definition sample_control_tx :: cplane_tx_config where
  "sample_control_tx =
     \<lparr>ctx_ru_nof_prbs = 273, ctx_fft_size = 12, ctx_dl_compr = \<lparr>compr_type = BFP, data_width = 9\<rparr>,
      ctx_ul_compr = \<lparr>compr_type = BFP, data_width = 9\<rparr>, ctx_prach_compr = \<lparr>compr_type = BFP, data_width = 9\<rparr>,
      ctx_vlan = ru_vlan_params sample_ru_config, ctx_serialize_header = serialize_compression_header_dynamic\<rparr>"

definition sample_control_context :: "data_direction \<Rightarrow> cplane_type_1_context" where
  "sample_control_context d =
     \<lparr>c1_slot = slot_point_subframe 1 700 9 1, c1_eaxc = 7, c1_filter_type = standard_channel_filter, c1_direction = d,
      c1_start_symbol = 3, c1_stop_symbol = 5\<rparr>"

definition sample_control_state :: cplane_tx_state where
  "sample_control_state =
     \<lparr>cs_ul_repo = [], cs_prach_repo = [], cs_dl_seq_gen = seq_generator_init 0, cs_ul_seq_gen = seq_generator_init 0\<rparr>"

lemma sample_control_ok:
  "ctx_vlan sample_control_tx = ru_vlan_params sample_ru_config" "control_header_ok sample_control_tx"
  "eth_builder_header_size (ctx_vlan sample_control_tx) + 32 \<le> length (replicate 60 (0::byte))"
  "sp_wf (slot_point_subframe 1 700 9 1)"
  using slot_point_subframe_wf [of 1 700 9 1]
  by (simp_all add: sample_control_tx_def control_header_ok_def compr_wf_def sample_ru_config_def eth_builder_header_size_def
      eth_get_header_size_def ETH_HEADER_SIZE_def slot_point_subframe_pre_def NOF_NUMEROLOGIES_def NOF_SFNS_def
      NOF_SUBFRAMES_PER_FRAME_def slots_per_subframe_def)

section \<open>Uplink requests across the fronthaul\<close>

text \<open>
  C3: An uplink request of the O-DU, from its scheduling command to the replies of the O-RU.  The frame
  that the O-DU builds for the symbols of a slot is accepted by the O-RU; when the O-RU then runs through
  the fourteen symbols of that slot it produces for the eAxC of the request exactly one reply per
  requested symbol, in order, with the section identifier of the command, and nothing else; afterwards
  the request is gone.
\<close>

theorem uplink_request_end_to_end:
  assumes "eth_params_wf (ru_vlan_params cfg)" "ctx_vlan tx = ru_vlan_params cfg" "control_header_ok tx"
    and "eth_builder_header_size (ctx_vlan tx) + 24 \<le> length buffer"
    and "sp_wf (c1_slot ctx)" "numerology_val (c1_slot ctx) = ru_numerology cfg" "c1_direction ctx = uplink"
    and "c1_start_symbol ctx < c1_stop_symbol ctx" "c1_stop_symbol ctx \<le> 14"
    and "ru_store_and_respond cfg" "request_repo_wf (rec_ul_repo (ru_recorder st))"
    and "disp_ul_eaxc (ru_dispatcher cfg) = eaxcs" "distinct eaxcs" "\<forall>e \<in> set eaxcs. e < MAX_SUPPORTED_EAXC_ID_VALUE"
    and "port < nports" "port < length eaxcs" "c1_eaxc ctx = eaxcs ! port"
  shows "\<exists>frame tst' st' cs repo'.
    cplane_enqueue_section_type_1_message tx ctx (Some buffer) tst = Some (Some frame, tst') \<and>
    process_frame cfg frame st = Some st' \<and>
    respond_symbols eaxcs nports (wire_slot (c1_slot ctx)) [0..<14] (rec_ul_repo (ru_recorder st')) = (cs, repo') \<and>
    filter (\<lambda>c. ug_eaxc c = c1_eaxc ctx) cs =
      map (\<lambda>symbol. \<lparr>ug_slot = wire_slot (c1_slot ctx), ug_port = port, ug_eaxc = c1_eaxc ctx, ug_start_symbol = symbol,
             ug_stop_symbol = symbol + 1, ug_section_id = 0\<rparr>) [c1_start_symbol ctx..<c1_stop_symbol ctx] \<and>
    request_get (wire_slot (c1_slot ctx)) (c1_eaxc ctx) repo' = None"
proof -
  have e: "c1_eaxc ctx < MAX_SUPPORTED_EAXC_ID_VALUE" "c1_eaxc ctx \<in> set eaxcs" using assms(14,16,17) by simp_all
  from type_1_command_received [OF assms(1-6) e(1) assms(8,9), of tst st] obtain frame tst' st1 res where
    enq: "cplane_enqueue_section_type_1_message tx ctx (Some buffer) tst = Some (Some frame, tst')" and
    proc: "process_frame cfg frame st =
      on_cplane_message_received (ru_dispatcher cfg) (ru_handlers cfg) (c1_eaxc ctx) res (Some st1)" and
    same: "ru_recorder st1 = ru_recorder st" and
    res: "section_type res = 1" "radio_hdr res = \<lparr>direction = c1_direction ctx, filter_index = c1_filter_type ctx,
      start_symbol = c1_start_symbol ctx, slot = wire_slot (c1_slot ctx)\<rparr>"
      "nof_symbols (section res) = c1_stop_symbol ctx - c1_start_symbol ctx" "section_id (section res) = 0" by blast
  let ?r = "to_ru_uplink_request res" and ?repo = "rec_ul_repo (ru_recorder st)"
  have r: "req_slot ?r = wire_slot (c1_slot ctx)" "req_start_symbol ?r = c1_start_symbol ctx"
    "req_nof_symbols ?r = c1_stop_symbol ctx - c1_start_symbol ctx" "req_section_id ?r = 0"
    by (simp_all add: to_ru_uplink_request_def res)
  have st': "process_frame cfg frame st =
      Some (st1\<lparr>ru_recorder := recorder_handle_uplink_scheduling (c1_eaxc ctx) res (ru_recorder st)\<rparr>)"
    using assms(7,10,12) e(2) by (simp add: proc on_cplane_message_received_def res CPLANE_SECTION_TYPE_PRACH_def
        is_eaxc_configured_def ru_handlers_def same)
  have get: "request_get (wire_slot (c1_slot ctx)) (eaxcs ! port) (request_add (c1_eaxc ctx) ?r ?repo) = Some ?r"
    using request_get_add [OF assms(11) e(1), of ?r] assms(8,17) by (simp add: r)
  from respond_symbols_prefix [OF request_add_wf [OF assms(11)] assms(13-16) get, of 14] assms(8,9)
  obtain cs repo' where "respond_symbols eaxcs nports (wire_slot (c1_slot ctx)) [0..<14]
      (request_add (c1_eaxc ctx) ?r ?repo) = (cs, repo')"
    "filter (\<lambda>c. ug_eaxc c = c1_eaxc ctx) cs =
      map (\<lambda>symbol. reply_context (wire_slot (c1_slot ctx)) symbol port (c1_eaxc ctx) ?r) [c1_start_symbol ctx..<c1_stop_symbol ctx]"
    "request_get (wire_slot (c1_slot ctx)) (c1_eaxc ctx) repo' = None"
    by (auto simp: r assms(17) min_def)
  then show ?thesis using enq st' by (fastforce simp: recorder_handle_uplink_scheduling_def reply_context_def r)
qed

theorem uplink_request_end_to_end_witness:
  "\<exists>frame tst' st' cs repo'.
    cplane_enqueue_section_type_1_message sample_control_tx (sample_control_context uplink) (Some (replicate 60 0))
      sample_control_state = Some (Some frame, tst') \<and>
    process_frame sample_ru_config frame sample_ru_sector = Some st' \<and>
    respond_symbols [4, 7] 2 (wire_slot (slot_point_subframe 1 700 9 1)) [0..<14] (rec_ul_repo (ru_recorder st')) = (cs, repo') \<and>
    map ug_start_symbol (filter (\<lambda>c. ug_eaxc c = 7) cs) = [3, 4]"
proof -
  have c: "sp_wf (c1_slot (sample_control_context uplink))"
    "numerology_val (c1_slot (sample_control_context uplink)) = ru_numerology sample_ru_config"
    "request_repo_wf (rec_ul_repo (ru_recorder sample_ru_sector))"
    using sample_control_ok(4) request_repo_init_wf [of 40]
    by (simp_all add: sample_control_context_def sample_ru_config_def sample_ru_sector_def slot_point_subframe_def)
  from uplink_request_end_to_end [OF sample_ru_config_wf(2) sample_control_ok(1,2) _ c(1,2) _ _ _ _ c(3), of "replicate 60 0" "[4, 7]" 1 2]
    sample_control_ok(3)
  show ?thesis
    by (fastforce simp: sample_control_context_def sample_ru_config_def MAX_SUPPORTED_EAXC_ID_VALUE_def comp_def upt_rec)
qed


definition sample_prach_context :: cplane_prach_context where
  "sample_prach_context =
     \<lparr>c3_slot = slot_point_subframe 1 700 9 1, c3_eaxc = 8, c3_start_symbol = 0, c3_prach_scs = ra_kHz1_25, c3_scs = scs_kHz30,
      c3_prach_nof_rb = 72, c3_nof_repetitions = 1, c3_time_offset = 0, c3_prach_start_re = 6 * 24 * NOF_SUBCARRIERS_PER_RB,
      c3_filter_type = ul_prach_preamble_1p25khz\<rparr>"


section \<open>Downlink symbols across the fronthaul\<close>

text \<open>
  C1: A downlink symbol, from the O-DU to the upper PHY of the O-RU.  The command frame of the O-DU makes the
  O-RU register a grid for the slot at its next symbol boundary; the User-Plane frames into which the O-DU
  splits the symbol, delivered in any order and possibly repeated, leave in the row of the antenna port the
  samples of the whole symbol as compressed and decompressed block by block; the symbol boundary that
  closes the symbol hands over this grid with the slot of the command.
\<close>

theorem downlink_symbol_end_to_end:
  assumes vlan: "eth_params_wf (ru_vlan_params cfg)" "ctx_vlan tx = ru_vlan_params cfg" and hdr: "control_header_ok tx"
    and buf: "eth_builder_header_size (ctx_vlan tx) + 24 \<le> length buffer"
    and ctx: "sp_wf (c1_slot ctx)" "numerology_val (c1_slot ctx) = ru_numerology cfg" "c1_direction ctx = downlink"
      "c1_eaxc ctx \<in> set (disp_dl_eaxc (ru_dispatcher cfg))" "c1_start_symbol ctx < c1_stop_symbol ctx" "c1_stop_symbol ctx \<le> 14"
    and cfg: "ru_config_wf cfg" and st: "ru_sector_wf st" "rx_pending (ru_grid_repo st) = []" "0 < rx_capacity (ru_grid_repo st)"
    and phy: "fst (phy_get_downlink_rx_grid (ru_phy cfg) (wire_slot (c1_slot ctx)) (ru_grids st)) \<noteq> None"
    and grids: "\<forall>g < length (ru_grids st). rg_nof_subc (ru_grids st ! g) = utx_ru_nof_prbs utx * 12 \<and> port < length (rg_ports (ru_grids st ! g))"
    and tick: "get_symbol_index (ssp_minus tick (ru_finalize_offset cfg)) < MAX_NSYMB_PER_SLOT"
      "rx_key (get_slot (ssp_minus tick (ru_finalize_offset cfg))) (ru_grid_repo st) \<noteq> rx_key (c1_slot ctx) (ru_grid_repo st)"
    and link: "uplane_link_wf utx cfg" "ru_numerology cfg = dec_numerology (ru_uplane_decoder cfg)"
    and uctx: "ug_slot uctx = c1_slot ctx" "ug_eaxc uctx = c1_eaxc ctx" "ug_section_id uctx < 4096"
      "index_of (c1_eaxc ctx) (disp_dl_eaxc (ru_dispatcher cfg)) = port"
    and symbol: "c1_start_symbol ctx \<le> symbol" "symbol < c1_stop_symbol ctx" "symbol < dec_nof_symbols (ru_uplane_decoder cfg)"
    and f: "fragment_calculator_init 0 (utx_ru_nof_prbs utx) (utx_compr_params utx) = Some f" "length gen = MAX_SUPPORTED_EAXC_ID_VALUE"
    and iq: "length iq = utx_ru_nof_prbs utx * NOF_SUBCARRIERS_PER_RB"
    and bufs: "\<forall>b \<in> set buffers. length b = L" "uplane_headers_size utx \<le> L" "L \<le> MAX_ETH_FRAME_LENGTH"
    and fit: "(L - uplane_headers_size utx) div fc_prb_size f \<le> 255 \<or>
      utx_ru_nof_prbs utx \<le> (L - uplane_headers_size utx) div fc_prb_size f"
    and enq: "enqueue_fragments utx uctx symbol iq f buffers gen = Some (frames, gen', True)"
    and ks: "set ks = {..<length frames}"
    and last: "ssp_minus tick' (ru_finalize_offset cfg) = slot_symbol_point_of (c1_slot ctx) symbol 14"
  shows "\<exists>frame tst' st1 out st2 st3 st4 g rs.
    cplane_enqueue_section_type_1_message tx ctx (Some buffer) tst = Some (Some frame, tst') \<and>
    process_frame cfg frame st = Some st1 \<and> downlink_on_new_symbol cfg tick st1 = Some (out, st2) \<and>
    process_frames cfg (map ((!) frames) ks) st2 = Some st3 \<and>
    downlink_on_new_symbol cfg tick' st3 = Some (Some (wire_slot (c1_slot ctx), Some g), st4) \<and>
    concat (map (\<lambda>(s, n). [s..<s + n]) rs) = [0..<utx_ru_nof_prbs utx] \<and>
    grid_row (ru_grids st4 ! g) port symbol = concat (map (transported utx cfg iq) rs)"
proof -
  let ?s = "wire_slot (c1_slot ctx)"
  from downlink_command_registered [OF vlan hdr buf ctx cfg st phy refl tick, of tst] obtain frame tst' st1 out st2 g where
    1: "cplane_enqueue_section_type_1_message tx ctx (Some buffer) tst = Some (Some frame, tst')"
      "process_frame cfg frame st = Some st1" "downlink_on_new_symbol cfg tick st1 = Some (out, st2)" and
    st2: "ru_sector_wf st2" "same_shape (ru_grids st) (ru_grids st2)" "rx_pending (ru_grid_repo st2) = []"
      "length (rx_buffer (ru_grid_repo st2)) = length (rx_buffer (ru_grid_repo st))" "g < length (ru_grids st2)"
      "registered_for ?s (rx_look ?s symbol (ru_grid_repo st2))" "rgc_grid (rx_look ?s symbol (ru_grid_repo st2)) = Some g"
    using symbol by (metis atLeastLessThan_iff)
  obtain c where c: "rx_entry ?s symbol (ru_grid_repo st2) = Some c" "rgc_grid c = Some g" "gc_slot (rgc_context c) = ?s"
    using rx_entry_Some [of symbol ?s "ru_grid_repo st2"] st2(6,7) symbol ctx(6) by (auto simp: MAX_NSYMB_PER_SLOT_def registered_for_def)
  have g: "rg_nof_subc (ru_grids st2 ! g) = utx_ru_nof_prbs utx * 12" "port < length (rg_ports (ru_grids st2 ! g))"
    using grids st2(2,5) by (auto simp: same_shape_def)
  have get: "rx_get (wire_slot (ug_slot uctx)) symbol (ru_grid_repo st2) = Some c" using c(1) uctx(1) by (simp add: rx_get_def context_copy_def)
  have u: "sp_wf (ug_slot uctx)" "numerology_val (ug_slot uctx) = dec_numerology (ru_uplane_decoder cfg)"
    "ug_eaxc uctx \<in> set (disp_dl_eaxc (ru_dispatcher cfg))" "index_of (ug_eaxc uctx) (disp_dl_eaxc (ru_dispatcher cfg)) = port"
    using ctx uctx link(2) by simp_all
  from symbol_delivered [OF link(1) cfg vlan(1) st2(1) u(1,2) uctx(3) symbol(3) u(3) f(2,1) iq bufs fit enq get c(2) u(4) g(2,1) ks]
  obtain rs st3 c' where 3: "concat (map (\<lambda>(s, n). [s..<s + n]) rs) = [0..<utx_ru_nof_prbs utx]"
    "process_frames cfg (map ((!) frames) ks) st2 = Some st3"
    "grid_row (ru_grids st3 ! g) port symbol = concat (map (transported utx cfg iq) rs)"
    "rx_get ?s symbol (ru_grid_repo st3) = Some c'" "rgc_context c' = rgc_context c" "rgc_grid c' = Some g"
    "rx_pending (ru_grid_repo st3) = []" "length (rx_buffer (ru_grid_repo st3)) = length (rx_buffer (ru_grid_repo st2))"
    using st2(3) uctx(1) by auto
  let ?closing = "slot_symbol_point_of (c1_slot ctx) symbol 14"
  have "rx_entry (get_slot ?closing) (get_symbol_index ?closing) (ru_grid_repo st3) = Some c'"
    using 3(4) wire_slot_index [OF ctx(1)] symbol(2) ctx(1,6)
    by (auto simp: rx_get_def rx_entry_def context_copy_def sp_wf_def split: if_splits)
  from downlink_tick_closing [OF 3(7) last this 3(6)] obtain repo' where
    "downlink_on_new_symbol cfg tick' st3 = Some (Some (?s, Some g), st3\<lparr>ru_grid_repo := repo'\<rparr>)"
    using 3(5) c(3) by auto
  then show ?thesis using 1 3(1-3) by fastforce
qed

text \<open>A link with two resource blocks and a codec that keeps the first sample of a block.\<close>

definition sample_link_ru :: "nat ru_sector_config" where
  "sample_link_ru = sample_ru_config\<lparr>ru_uplane_decoder := sample_decoder\<lparr>ru_nof_prbs := 2\<rparr>,
     ru_decompress := (\<lambda>n bs c. replicate n (case bs of [] \<Rightarrow> 0 | b # _ \<Rightarrow> unat b))\<rparr>"

definition sample_link_tx :: "nat uplane_tx_config" where
  "sample_link_tx =
     \<lparr>utx_nof_symbols = 14, utx_ru_nof_prbs = 2, utx_compr_params = \<lparr>compr_type = BFP, data_width = 9\<rparr>, utx_direction = downlink,
      utx_vlan = ru_vlan_params sample_ru_config,
      utx_compress = (\<lambda>iq c. replicate (length iq div NOF_SUBCARRIERS_PER_RB * get_compressed_prb_size c)
        (case iq of [] \<Rightarrow> 0 | x # _ \<Rightarrow> of_nat x)),
      utx_serialize_header = up_serialize_compression_header_dynamic, utx_up_header_size = up_get_header_size_dynamic, utx_zero = 0\<rparr>"

definition sample_link_context :: uplane_grid_context where
  "sample_link_context =
     \<lparr>ug_slot = slot_point_subframe 1 700 9 1, ug_port = 1, ug_eaxc = 7, ug_start_symbol = 3, ug_stop_symbol = 5, ug_section_id = 0\<rparr>"

definition sample_calculator :: fragment_size_calculator where
  "sample_calculator = \<lparr>fc_start_prb = 0, fc_nof_prbs = 2, fc_prb_size = 28, fc_next_prb = 0\<rparr>"

lemma sample_link_wf:
  "ru_config_wf sample_link_ru" "uplane_link_wf sample_link_tx sample_link_ru" "utx_wf sample_link_tx"
  "fragment_calculator_init 0 2 \<lparr>compr_type = BFP, data_width = 9\<rparr> = Some sample_calculator"
  "uplane_headers_size sample_link_tx = 32"
proof -
  show "ru_config_wf sample_link_ru"
    using sample_ru_config_wf(1) by (simp add: ru_config_wf_def sample_link_ru_def sample_decoder_def MAX_NOF_PRBS_def
        NOF_NUMEROLOGIES_def MAX_NSYMB_PER_SLOT_def)
  show "fragment_calculator_init 0 2 \<lparr>compr_type = BFP, data_width = 9\<rparr> = Some sample_calculator" by code_simp
  show utx: "utx_wf sample_link_tx"
    using sample_ru_config_wf(2) by (simp add: utx_wf_def sample_link_tx_def compr_wf_def)
  show "uplane_headers_size sample_link_tx = 32" by code_simp
  show "uplane_link_wf sample_link_tx sample_link_ru"
    using utx by (simp add: uplane_link_wf_def up_link_wf_def sample_link_tx_def sample_link_ru_def sample_decoder_def sample_ru_config_def)
qed

lemma sample_link_frames:
  assumes "ug_eaxc ctx < MAX_SUPPORTED_EAXC_ID_VALUE" "length iq = 24"
  shows "\<exists>frames gen'. enqueue_fragments (sample_link_tx\<lparr>utx_direction := d\<rparr>) ctx k iq sample_calculator
      (replicate 2 (replicate 60 0)) (seq_generator_init 0) = Some (frames, gen', True) \<and> length frames = 2"
proof -
  let ?tx = "sample_link_tx\<lparr>utx_direction := d\<rparr>"
  have tx: "utx_wf ?tx" "uplane_headers_size ?tx = 32"
    using sample_link_wf(3,5) by (simp_all add: utx_wf_def uplane_headers_size_def)
  have room: "frame_room ?tx (replicate 60 0) = 28" using frame_room_eq [of ?tx "replicate 60 0"] by (simp add: tx(2))
  have "fragment_ranges sample_calculator [28, 28] = ([(0, 1), (1, 1)], True)" by code_simp
  then have "fragment_ranges sample_calculator (map (frame_room ?tx) (replicate 2 (replicate 60 0))) = ([(0, 1), (1, 1)], True)"
    by (simp add: room numeral_2_eq_2)
  note frames = enqueue_fragments_frames [OF tx(1) assms(1) _ _ _ _ _ this, of "seq_generator_init 0" iq k]
  have "length (seq_generator_init 0) = MAX_SUPPORTED_EAXC_ID_VALUE"
    "get_prb_data_size (utx_compr_params ?tx) = Some (fc_prb_size sample_calculator)" "fc_wf sample_calculator" "fc_end sample_calculator = 2"
    using sample_link_wf(4) by (auto simp: seq_generator_init_def sample_calculator_def fc_wf_def fc_end_def fragment_calculator_init_def
        sample_link_tx_def)
  then show ?thesis using frames tx(2) assms(2) by (simp add: NOF_SUBCARRIERS_PER_RB_def)
qed

theorem downlink_symbol_end_to_end_witness:
  "\<exists>frames gen' frame tst' st1 out st2 st3 st4 g rs.
    enqueue_fragments sample_link_tx sample_link_context 3 (replicate 24 5) sample_calculator
      (replicate 2 (replicate 60 0)) (seq_generator_init 0) = Some (frames, gen', True) \<and>
    cplane_enqueue_section_type_1_message sample_control_tx (sample_control_context downlink) (Some (replicate 60 0))
      sample_control_state = Some (Some frame, tst') \<and>
    process_frame sample_link_ru frame sample_ru_sector = Some st1 \<and>
    downlink_on_new_symbol sample_link_ru \<lparr>ssp_nof_symbols = 14, ssp_numerology = 1, ssp_count = 196252\<rparr> st1 = Some (out, st2) \<and>
    process_frames sample_link_ru (map ((!) frames) [1, 0, 1]) st2 = Some st3 \<and>
    downlink_on_new_symbol sample_link_ru \<lparr>ssp_nof_symbols = 14, ssp_numerology = 1, ssp_count = 196283\<rparr> st3 =
      Some (Some (wire_slot (slot_point_subframe 1 700 9 1), Some g), st4) \<and>
    concat (map (\<lambda>(s, n). [s..<s + n]) rs) = [0..<2] \<and>
    grid_row (ru_grids st4 ! g) 1 3 = concat (map (transported sample_link_tx sample_link_ru (replicate 24 5)) rs)"
proof -
  let ?ctx = "sample_control_context downlink" and ?tick = "\<lparr>ssp_nof_symbols = 14, ssp_numerology = 1, ssp_count = 196252\<rparr>"
  have ru: "ru_vlan_params sample_link_ru = ru_vlan_params sample_ru_config" "ru_numerology sample_link_ru = 1"
    "ru_dispatcher sample_link_ru = \<lparr>disp_dl_eaxc = [4, 7], disp_ul_eaxc = [4, 7], disp_prach_eaxc = [8]\<rparr>"
    "ru_finalize_offset sample_link_ru = 14" "ru_uplane_decoder sample_link_ru = sample_decoder\<lparr>ru_nof_prbs := 2\<rparr>"
    "fst (phy_get_downlink_rx_grid (ru_phy sample_link_ru) s (ru_grids sample_ru_sector)) \<noteq> None" for s
    by (simp_all add: sample_link_ru_def sample_ru_config_def sample_ru_sector_def)
  have sector: "rx_pending (ru_grid_repo sample_ru_sector) = []" "0 < rx_capacity (ru_grid_repo sample_ru_sector)"
    "length (rx_buffer (ru_grid_repo sample_ru_sector)) = 40" "ru_grids sample_ru_sector = [sample_grid]"
    by (simp_all add: sample_ru_sector_def rx_grid_repo_init_def)
  have ctx: "c1_slot ?ctx = slot_point_subframe 1 700 9 1" "c1_eaxc ?ctx = 7" "c1_direction ?ctx = downlink" "c1_start_symbol ?ctx = 3"
    "c1_stop_symbol ?ctx = 5" "numerology_val (slot_point_subframe 1 700 9 1) = 1"
    by (simp_all add: sample_control_context_def slot_point_subframe_def)
  have utx: "utx_ru_nof_prbs sample_link_tx = 2" "utx_compr_params sample_link_tx = \<lparr>compr_type = BFP, data_width = 9\<rparr>"
    by (simp_all add: sample_link_tx_def)
  have ticks: "get_symbol_index (ssp_minus ?tick 14) = 0" "calculate_repository_index (get_slot (ssp_minus ?tick 14)) 40 = 17"
    "calculate_repository_index (slot_point_subframe 1 700 9 1) 40 = 19"
    "ssp_minus \<lparr>ssp_nof_symbols = 14, ssp_numerology = 1, ssp_count = 196283\<rparr> 14 = slot_symbol_point_of (slot_point_subframe 1 700 9 1) 3 14"
    by (simp_all add: ssp_minus_def ssp_plus_def wrap_add_mod nof_symbols_per_slot_wrap_def NOF_SFNS_def NOF_SUBFRAMES_PER_FRAME_def
        slots_per_subframe_def slots_per_frame_def get_symbol_index_def get_slot_def repository_index_eq NOF_NUMEROLOGIES_def
        slot_point_count_def slot_point_subframe_def slot_symbol_point_of_def)
  have misc: "eth_builder_header_size (ru_vlan_params sample_ru_config) \<le> 36" "insert 1 (insert 0 (insert 1 {})) = {..<2::nat}"
    using sample_control_ok(3) by (auto simp: sample_control_ok(1))
  obtain frames gen' where frames: "enqueue_fragments sample_link_tx sample_link_context 3 (replicate 24 5) sample_calculator
      (replicate 2 (replicate 60 0)) (seq_generator_init 0) = Some (frames, gen', True)" "length frames = 2"
    using sample_link_frames [of sample_link_context "replicate 24 5" downlink 3]
    by (auto simp: sample_link_context_def sample_link_tx_def MAX_SUPPORTED_EAXC_ID_VALUE_def)
  have "\<exists>frame tst' st1 out st2 st3 st4 g rs.
    cplane_enqueue_section_type_1_message sample_control_tx ?ctx (Some (replicate 60 0)) sample_control_state = Some (Some frame, tst') \<and>
    process_frame sample_link_ru frame sample_ru_sector = Some st1 \<and> downlink_on_new_symbol sample_link_ru ?tick st1 = Some (out, st2) \<and>
    process_frames sample_link_ru (map ((!) frames) [1, 0, 1]) st2 = Some st3 \<and>
    downlink_on_new_symbol sample_link_ru \<lparr>ssp_nof_symbols = 14, ssp_numerology = 1, ssp_count = 196283\<rparr> st3 =
      Some (Some (wire_slot (c1_slot ?ctx), Some g), st4) \<and>
    concat (map (\<lambda>(s, n). [s..<s + n]) rs) = [0..<utx_ru_nof_prbs sample_link_tx] \<and>
    grid_row (ru_grids st4 ! g) 1 3 = concat (map (transported sample_link_tx sample_link_ru (replicate 24 5)) rs)"
    by (rule downlink_symbol_end_to_end [OF _ _ sample_control_ok(2) _ _ _ _ _ _ _ sample_link_wf(1) sample_ru_sector_wf sector(1,2) ru(6) _ _ _
        sample_link_wf(2) _ _ _ _ _ _ _ _ _ _ _ _ _ _ _ frames(1), where L = 60])
      (simp_all add: ru sector ctx utx ticks sample_ru_config_wf(2) sample_control_ok sample_link_wf(4,5) frames(2) sample_link_context_def
        sample_decoder_def sample_grid_def MAX_NSYMB_PER_SLOT_def NOF_SUBCARRIERS_PER_RB_def MAX_ETH_FRAME_LENGTH_def seq_generator_init_def
        MAX_SUPPORTED_EAXC_ID_VALUE_def sample_calculator_def misc del: One_nat_def)
  then show ?thesis using frames(1) unfolding ctx utx by blast
qed

section \<open>Uplink symbols across the fronthaul\<close>

text \<open>
  C2: An uplink symbol, from the O-RU to the upper layers of the O-DU.  The User-Plane frames into which the O-RU splits
  the symbol on each of its ports are delivered in any interleaving of the ports that keeps the frames of a port in order.
  The O-DU accepts all of them; the last one completes the symbol: each row of the grid holds the samples of its
  port as compressed and decompressed block by block, the symbol is reported as valid exactly once, and its context
  is empty again.
\<close>

theorem uplink_symbol_end_to_end:
  assumes "du_link_wf tx cfg" "du_config_wf cfg" "du_wf cfg st" and "utx_ru_nof_prbs tx = N" "0 < N"
    and "distinct (du_ul_eaxc cfg)" "n \<le> length (du_ul_eaxc cfg)" "0 < n"
    and "rx_get (wire_slot sl) k (du_grid_repo st) = Some c" "rgc_grid c = Some g" "\<forall>bits \<in> set (rgc_re_written c). True \<notin> set bits"
      "rg_nof_subc (du_grids st ! g) = N * 12" "length (rg_ports (du_grids st ! g)) = n"
    and "sp_wf sl" "numerology_val sl = du_scs cfg" "k < du_nof_symbols cfg"
    and "fragment_calculator_init 0 N (utx_compr_params tx) = Some f"
    and "uplane_headers_size tx \<le> L" "L \<le> MAX_ETH_FRAME_LENGTH"
    and "(L - uplane_headers_size tx) div fc_prb_size f \<le> 255 \<or> N \<le> (L - uplane_headers_size tx) div fc_prb_size f"
    and "\<forall>p < n. ug_eaxc (uctx p) = du_ul_eaxc cfg ! p \<and> ug_slot (uctx p) = sl \<and> ug_section_id (uctx p) < 4096"
    and "\<forall>p < n. length (iq p) = N * NOF_SUBCARRIERS_PER_RB \<and> (\<forall>b \<in> set (bufs p). length b = L) \<and>
      length (gen p) = MAX_SUPPORTED_EAXC_ID_VALUE \<and>
      (\<exists>gen'. enqueue_fragments tx (uctx p) k (iq p) f (bufs p) (gen p) = Some (frames p, gen', True))"
    and "port_order n (\<lambda>p. length (frames p)) zs"
    and "seq_ready cfg (du_ul_eaxc cfg) (\<lambda>p. gen p ! (du_ul_eaxc cfg ! p)) (du_seq_checker st)"
    and "\<forall>p < n. symbol_commanded (wire_slot sl) k N (du_ul_eaxc cfg ! p) (du_ul_cplane_repo st)"
  shows "\<exists>st' rs. process_new_frames cfg (map (\<lambda>(p, j). pad_frame (frames p ! j)) zs) st = Some st' \<and>
    (\<forall>p < n. concat (map (\<lambda>(s, n). [s..<s + n]) (rs p)) = [0..<N] \<and>
       grid_row (du_grids st' ! g) p k = concat (map (transported_by tx (fl_decompress (du_uplink cfg)) (iq p)) (rs p))) \<and>
    rx_get (wire_slot sl) k (du_grid_repo st') = Some empty_context \<and>
    (let st1 = reorderer_on_new_uplink_symbol
                 \<lparr>rxs_slot = gc_slot (rgc_context c), rxs_symbol = k, rxs_sector = gc_sector (rgc_context c)\<rparr> (Some g) True st
     in du_events st' = du_events st1 \<and> du_notified_repo st' = du_notified_repo st1)"
  using assms by (rule symbol_frames_received)

text \<open>The O-DU of the sample link, which has asked for the symbols 3 to 7 of a slot on both of its eAxCs.\<close>

definition sample_uplink_du :: "nat du_receiver_config" where
  "sample_uplink_du = sample_du_config\<lparr>du_uplink := \<lparr>fl_decoder = sample_decoder\<lparr>expected_direction := uplink, ru_nof_prbs := 2\<rparr>,
     fl_decode_header = up_decode_compression_header_dynamic, fl_decompress = ru_decompress sample_link_ru\<rparr>\<rparr>"

definition sample_uplink_state :: "nat du_receiver" where
  "sample_uplink_state = sample_du_waiting\<lparr>du_ul_cplane_repo := ul_cplane_add sample_slot 4 \<lparr>ctx_filter_index = standard_channel_filter,
     ctx_start_symbol = 3, ctx_prb_start = 0, ctx_nof_prb = 2, ctx_nof_symbols = 5\<rparr> (du_ul_cplane_repo sample_du_waiting),
     du_notified_repo := notified_add sample_slot 4 False (replicate 4 0)\<rparr>"

definition sample_uplink_context :: "nat \<Rightarrow> uplane_grid_context" where
  "sample_uplink_context p =
     \<lparr>ug_slot = sample_slot, ug_port = p, ug_eaxc = [4, 7] ! p, ug_start_symbol = 4, ug_stop_symbol = 5, ug_section_id = 0\<rparr>"

definition sample_uplink_frames :: "nat \<Rightarrow> bytes list" where
  "sample_uplink_frames p = fst (the (enqueue_fragments (sample_link_tx\<lparr>utx_direction := uplink\<rparr>) (sample_uplink_context p) 4
     (replicate 24 (p + 5)) sample_calculator (replicate 2 (replicate 60 0)) (seq_generator_init 0)))"

lemma sample_uplink_wf:
  "du_link_wf (sample_link_tx\<lparr>utx_direction := uplink\<rparr>) sample_uplink_du" "du_config_wf sample_uplink_du"
  "du_wf sample_uplink_du sample_uplink_state"
proof -
  have v: "du_vlan_params sample_du_config = ru_vlan_params sample_ru_config" by (simp add: sample_du_config_def sample_ru_config_def)
  have "utx_wf (sample_link_tx\<lparr>utx_direction := uplink\<rparr>)" using sample_link_wf(3) by (simp add: utx_wf_def)
  then show "du_link_wf (sample_link_tx\<lparr>utx_direction := uplink\<rparr>) sample_uplink_du"
    using sample_ru_config_wf(2) v
    by (simp add: du_link_wf_def up_link_wf_def sample_uplink_du_def)
      (simp add: sample_link_tx_def sample_du_config_def sample_decoder_def)
  show "du_config_wf sample_uplink_du"
    using sample_du_config_wf by (auto simp: du_config_wf_def flow_wf_def sample_uplink_du_def sample_link_ru_def sample_decoder_def
        NOF_NUMEROLOGIES_def MAX_NOF_PRBS_def MAX_NSYMB_PER_SLOT_def)
  have "ul_cplane_get s 8 (du_ul_cplane_repo sample_uplink_state) = ul_cplane_get s 8 (du_ul_cplane_repo sample_du_waiting)" for s
    by (cases "calculate_repository_index s 4 = calculate_repository_index sample_slot 4")
      (simp_all add: sample_uplink_state_def sample_du_waiting_def ul_cplane_get_def ul_cplane_add_def ul_cplane_repo_init_def Let_def
        nth_list_update)
  then show "du_wf sample_uplink_du sample_uplink_state"
    using sample_du_waiting_wf
    by (simp add: du_wf_def prach_symbols_checked_def sample_uplink_du_def)
      (simp add: sample_uplink_state_def sample_du_config_def)
qed

theorem uplink_symbol_end_to_end_witness:
  "\<exists>st'. process_new_frames sample_uplink_du (map (\<lambda>(p, j). pad_frame (sample_uplink_frames p ! j)) [(0, 0), (1, 0), (1, 1), (0, 1)])
     sample_uplink_state = Some st' \<and>
   du_events st' = [on_new_uplink_symbol \<lparr>rxs_slot = sample_slot, rxs_symbol = 4, rxs_sector = 0\<rparr> (Some 0) True]"
proof -
  let ?tx = "sample_link_tx\<lparr>utx_direction := uplink\<rparr>" and ?zs = "[(0, 0), (1, 0), (1, 1), (0, 1)] :: (nat \<times> nat) list"
  have eaxc: "du_ul_eaxc sample_uplink_du = [4, 7]" "du_nof_symbols sample_uplink_du = 14" "du_scs sample_uplink_du = 1"
    by (simp_all add: sample_uplink_du_def sample_du_config_def)
  have st: "du_grid_repo sample_uplink_state = sample_rx_repo" "du_grids sample_uplink_state = [sample_grid]"
    "du_seq_checker sample_uplink_state = seq_checker_init" "du_events sample_uplink_state = []"
    by (simp_all add: sample_uplink_state_def sample_du_waiting_def sample_du_receiver_def)
  have slot: "sp_wf sample_slot" "wire_slot sample_slot = sample_slot" by code_simp+
  have two: "p = 0 \<or> p = 1" if "p < 2" for p :: nat using that by auto
  have ctx: "ug_eaxc (sample_uplink_context p) = [4, 7] ! p \<and> ug_slot (sample_uplink_context p) = sample_slot \<and>
      ug_section_id (sample_uplink_context p) < 4096" for p by (simp add: sample_uplink_context_def)
  have fr: "(\<exists>gen'. enqueue_fragments ?tx (sample_uplink_context p) 4 (replicate 24 (p + 5)) sample_calculator (replicate 2 (replicate 60 0))
      (seq_generator_init 0) = Some (sample_uplink_frames p, gen', True)) \<and> length (sample_uplink_frames p) = 2" if "p < 2" for p
  proof -
    have "ug_eaxc (sample_uplink_context p) < MAX_SUPPORTED_EAXC_ID_VALUE"
      using two [OF that] by (auto simp: sample_uplink_context_def MAX_SUPPORTED_EAXC_ID_VALUE_def)
    from sample_link_frames [OF this, of "replicate 24 (p + 5)" uplink 4] show ?thesis by (auto simp: sample_uplink_frames_def)
  qed
  have order: "port_order 2 (\<lambda>p. length (sample_uplink_frames p)) ?zs"
    using fr two by (auto simp: port_order_def numeral_2_eq_2 upt_rec dest!: two)
  have cp: "symbol_commanded (wire_slot sample_slot) 4 2 ([4, 7] ! p) (du_ul_cplane_repo sample_uplink_state)" if "p < 2" for p
  proof -
    have "symbol_commanded sample_slot 4 2 4 (du_ul_cplane_repo sample_uplink_state)" "symbol_commanded sample_slot 4 2 7 (du_ul_cplane_repo sample_uplink_state)"
      by code_simp+
    then show ?thesis using two [OF that] slot(2) by auto
  qed
  have bits: "\<forall>bits \<in> set (rgc_re_written sample_context). True \<notin> set bits" by (auto simp: sample_context_def)
  have seq: "seq_ready sample_uplink_du [4, 7] (\<lambda>p. seq_generator_init 0 ! ([4, 7] ! p)) seq_checker_init"
    by (auto simp: seq_ready_def seq_checker_wf_def seq_checker_init_def MAX_SUPPORTED_EAXC_ID_VALUE_def less_Suc_eq)
  have tx: "utx_ru_nof_prbs ?tx = 2" "utx_compr_params ?tx = \<lparr>compr_type = BFP, data_width = 9\<rparr>" "uplane_headers_size ?tx = 32"
    using sample_link_wf(5) by (simp_all add: uplane_headers_size_def) (simp_all add: sample_link_tx_def)
  have misc: "numerology_val sample_slot = 1" "length (seq_generator_init 0) = MAX_SUPPORTED_EAXC_ID_VALUE" "60 \<le> MAX_ETH_FRAME_LENGTH"
    by (simp_all add: sample_slot_def seq_generator_init_def MAX_ETH_FRAME_LENGTH_def)
  have "\<exists>st' rs. process_new_frames sample_uplink_du (map (\<lambda>(p, j). pad_frame (sample_uplink_frames p ! j)) ?zs) sample_uplink_state = Some st' \<and>
    (\<forall>p < 2. concat (map (\<lambda>(s, n). [s..<s + n]) (rs p)) = [0..<2] \<and>
       grid_row (du_grids st' ! 0) p 4 = concat (map (transported_by ?tx (fl_decompress (du_uplink sample_uplink_du)) (replicate 24 (p + 5))) (rs p))) \<and>
    rx_get (wire_slot sample_slot) 4 (du_grid_repo st') = Some empty_context \<and>
    (let st1 = reorderer_on_new_uplink_symbol
                 \<lparr>rxs_slot = gc_slot (rgc_context sample_context), rxs_symbol = 4, rxs_sector = gc_sector (rgc_context sample_context)\<rparr>
                 (Some 0) True sample_uplink_state
     in du_events st' = du_events st1 \<and> du_notified_repo st' = du_notified_repo st1)"
    by (rule uplink_symbol_end_to_end [OF sample_uplink_wf, where n = 2 and L = 60 and f = sample_calculator and
          uctx = sample_uplink_context and bufs = "\<lambda>_. replicate 2 (replicate 60 0)" and gen = "\<lambda>_. seq_generator_init 0"])
      (use sample_rx_repo_get slot ctx fr order cp bits seq in
        \<open>simp_all add: eaxc st tx misc sample_link_wf(4) sample_calculator_def sample_context_def sample_grid_def NOF_SUBCARRIERS_PER_RB_def
          del: One_nat_def uplane_tx_config.simps\<close>)
  moreover have "du_events (reorderer_on_new_uplink_symbol \<lparr>rxs_slot = sample_slot, rxs_symbol = 4, rxs_sector = 0\<rparr> (Some 0) True
      sample_uplink_state) = [on_new_uplink_symbol \<lparr>rxs_slot = sample_slot, rxs_symbol = 4, rxs_sector = 0\<rparr> (Some 0) True]" by code_simp
  ultimately show ?thesis by (auto simp: Let_def sample_context_def)
qed

end
